(* ===== verification/Prelude.thy ===== *)
theory Prelude
  imports Main "HOL-Library.Multiset" "HOL-Library.List_Lexorder" "HOL-Library.Char_ord" "HOL-Library.Product_Lexorder"
begin

text \<open>
  What every component shares: results of functions that may throw, JavaScript's safe integers,
  string tests, stable sorting by a comparator, and the list lemmas the component proofs use.

  A JavaScript string is a list of UTF-16 code units, compared code unit by code unit. It is
  modelled by the type string, whose characters are the code units 0 to 255; on those
  strings the comparison, the length and the slices below are exactly JavaScript's, every code
  unit is a Unicode scalar value, and \<open>normalize('NFC')\<close> is the identity.
\<close>

section \<open>Results\<close>

text \<open>
  A function of the source that may throw returns a failure or a value. The source throws plain
  \<open>TypeError\<close>s and \<open>RangeError\<close>s, errors of a schema parse, and typed planning errors, which carry
  a code of the component.
\<close>

datatype 'c failure = TypeErr | RangeErr | SchemaErr | Refused 'c

type_synonym ('c, 'a) outcome = "'c failure + 'a"

definition rbind :: "('e + 'a) \<Rightarrow> ('a \<Rightarrow> 'e + 'b) \<Rightarrow> 'e + 'b" where
  "rbind m f = (case m of Inl e \<Rightarrow> Inl e | Inr x \<Rightarrow> f x)"

definition ensure :: "bool \<Rightarrow> 'e \<Rightarrow> 'e + unit" where
  "ensure b e = (if b then Inr () else Inl e)"

text \<open>A value that must be present.\<close>

definition need :: "'e \<Rightarrow> 'a option \<Rightarrow> 'e + 'a" where
  "need e m = (case m of None \<Rightarrow> Inl e | Some x \<Rightarrow> Inr x)"

fun traverse :: "('a \<Rightarrow> 'e + 'b) \<Rightarrow> 'a list \<Rightarrow> 'e + 'b list" where
  "traverse f [] = Inr []"
| "traverse f (x # xs) = rbind (f x) (\<lambda>y. rbind (traverse f xs) (\<lambda>ys. Inr (y # ys)))"

definition is_ok :: "'e + 'a \<Rightarrow> bool" where
  "is_ok m = (case m of Inl _ \<Rightarrow> False | Inr _ \<Rightarrow> True)"

lemma rbind_simps [simp]: "rbind (Inl e) f = Inl e" "rbind (Inr x) f = f x"
  by (simp_all add: rbind_def)

lemma rbind_Inr_iff: "rbind m f = Inr y \<longleftrightarrow> (\<exists>x. m = Inr x \<and> f x = Inr y)"
  by (cases m) auto

lemma rbind_Inl_iff: "rbind m f = Inl e \<longleftrightarrow> m = Inl e \<or> (\<exists>x. m = Inr x \<and> f x = Inl e)"
  by (cases m) auto

lemma ensure_Inr_iff: "ensure b e = Inr u \<longleftrightarrow> b"
  by (simp add: ensure_def)

lemma ensure_Inl_iff: "ensure b e = Inl e' \<longleftrightarrow> \<not> b \<and> e' = e"
  by (auto simp: ensure_def)

lemma ensure_simps [simp]: "ensure True e = Inr ()" "ensure False e = Inl e"
  by (simp_all add: ensure_def)

lemma rbind_ensure_Inr_iff: "rbind (ensure b e) f = Inr y \<longleftrightarrow> b \<and> f () = Inr y"
  by (simp add: ensure_def)

lemma need_simps [simp]: "need e None = Inl e" "need e (Some x) = Inr x"
  by (simp_all add: need_def)

lemma need_Inr_iff: "need e m = Inr x \<longleftrightarrow> m = Some x"
  by (cases m) simp_all

text \<open>Elimination rules that take a successful sequence of steps apart.\<close>

lemma rbind_InrE: "rbind m f = Inr y \<Longrightarrow> (\<And>x. m = Inr x \<Longrightarrow> f x = Inr y \<Longrightarrow> P) \<Longrightarrow> P"
  by (cases m) auto

lemma rbind_ensureE: "rbind (ensure b e) f = Inr y \<Longrightarrow> (b \<Longrightarrow> f () = Inr y \<Longrightarrow> P) \<Longrightarrow> P"
  by (cases b) auto

lemma rbind_needE: "rbind (need e m) f = Inr y \<Longrightarrow> (\<And>x. m = Some x \<Longrightarrow> f x = Inr y \<Longrightarrow> P) \<Longrightarrow> P"
  by (cases m) auto

lemma if_ensureE:
  "(if b then Inl e else m) = Inr y \<Longrightarrow> (\<not> b \<Longrightarrow> m = Inr y \<Longrightarrow> P) \<Longrightarrow> P"
  by (cases b) auto

lemmas stepsE = if_ensureE rbind_ensureE rbind_needE rbind_InrE

lemmas outcome_iffs = rbind_ensure_Inr_iff rbind_Inr_iff ensure_Inr_iff

lemma is_ok_simps [simp]: "is_ok (Inr x)" "\<not> is_ok (Inl e)"
  by (simp_all add: is_ok_def)

lemma is_ok_iff: "is_ok m \<longleftrightarrow> (\<exists>x. m = Inr x)"
  by (cases m) simp_all

text \<open>A failure without a code, such as a parser's, among the failures of a component.\<close>

fun widen :: "(unit, 'a) outcome \<Rightarrow> ('c, 'a) outcome" where
  "widen (Inr x) = Inr x"
| "widen (Inl RangeErr) = Inl RangeErr"
| "widen (Inl SchemaErr) = Inl SchemaErr"
| "widen (Inl _) = Inl TypeErr"

lemma widen_Inr_iff: "widen m = Inr x \<longleftrightarrow> m = Inr x"
  by (cases m rule: widen.cases) auto

lemma traverse_Inr_iff: "traverse f xs = Inr ys \<longleftrightarrow> list_all2 (\<lambda>x y. f x = Inr y) xs ys"
proof (induction xs arbitrary: ys)
  case Nil
  then show ?case by auto
next
  case (Cons x xs)
  then show ?case
    by (cases ys) (auto simp: rbind_Inr_iff)
qed

lemma traverse_input: "traverse f xs = Inr ys \<Longrightarrow> x \<in> set xs \<Longrightarrow> \<exists>y \<in> set ys. f x = Inr y"
  by (induction xs arbitrary: ys) (auto simp: rbind_Inr_iff)

lemma traverse_output: "traverse f xs = Inr ys \<Longrightarrow> y \<in> set ys \<Longrightarrow> \<exists>x \<in> set xs. f x = Inr y"
  by (induction xs arbitrary: ys) (auto simp: rbind_Inr_iff)

lemma traverse_total: "(\<And>x. x \<in> set xs \<Longrightarrow> f x = Inr (g x)) \<Longrightarrow> traverse f xs = Inr (map g xs)"
  by (induction xs) simp_all

section \<open>Safe integers\<close>

text \<open>
  \<open>Number.isSafeInteger\<close>. The counters of the source are positive safe integers; adding one to a
  safe integer is exact in double arithmetic, so the model computes on \<open>int\<close> and checks the
  bound where the source checks it.
\<close>

definition max_safe_integer :: int where
  "max_safe_integer = 9007199254740991"

definition safe_integer :: "int \<Rightarrow> bool" where
  "safe_integer n \<longleftrightarrow> - max_safe_integer \<le> n \<and> n \<le> max_safe_integer"

definition positive_safe :: "int \<Rightarrow> bool" where
  "positive_safe n \<longleftrightarrow> safe_integer n \<and> 0 < n"

lemma positive_safe_iff: "positive_safe n \<longleftrightarrow> 0 < n \<and> n \<le> max_safe_integer"
  by (auto simp: positive_safe_def safe_integer_def max_safe_integer_def)

lemma positive_safe_pos: "positive_safe n \<Longrightarrow> 0 < n"
  by (simp add: positive_safe_def)

section \<open>Strings\<close>

definition code_of :: "char \<Rightarrow> nat" where
  "code_of c = of_char c"

definition digit :: "char \<Rightarrow> bool" where
  "digit c \<longleftrightarrow> 48 \<le> code_of c \<and> code_of c \<le> 57"

definition lower_hex :: "char \<Rightarrow> bool" where
  "lower_hex c \<longleftrightarrow> digit c \<or> 97 \<le> code_of c \<and> code_of c \<le> 102"

text \<open>The number a string of decimal digits denotes.\<close>

definition decimal_value :: "string \<Rightarrow> nat" where
  "decimal_value s = foldl (\<lambda>n c. 10 * n + (code_of c - 48)) 0 s"

text \<open>White space as \<open>trim\<close> and the regular expression class \<open>\s\<close> see it, up to code unit 255.\<close>

definition js_space :: "char \<Rightarrow> bool" where
  "js_space c \<longleftrightarrow> code_of c \<in> {9, 10, 11, 12, 13, 32, 160}"

definition js_trim :: "string \<Rightarrow> string" where
  "js_trim s = rev (dropWhile js_space (rev (dropWhile js_space s)))"

text \<open>A regular expression that is a fixed sequence of character classes between \<open>^\<close> and \<open>$\<close>.\<close>

definition matches :: "(char \<Rightarrow> bool) list \<Rightarrow> string \<Rightarrow> bool" where
  "matches ps s = list_all2 (\<lambda>p c. p c) ps s"

lemma matches_simps [simp]:
  "matches [] s = (s = [])"
  "matches (p # ps) [] = False"
  "matches (p # ps) (c # s) = (p c \<and> matches ps s)"
  by (simp_all add: matches_def)

lemma matches_length: "matches ps s \<Longrightarrow> length s = length ps"
  by (simp add: matches_def list_all2_lengthD)

lemma matches_append:
  "matches (ps @ qs) s \<longleftrightarrow> matches ps (take (length ps) s) \<and> matches qs (drop (length ps) s)"
proof (induction ps arbitrary: s)
  case Nil
  then show ?case by simp
next
  case (Cons p ps)
  then show ?case by (cases s) auto
qed

lemma code_of_inj: "code_of a = code_of b \<longleftrightarrow> a = b"
  by (simp add: code_of_def)

lemma code_of_less: "a < b \<longleftrightarrow> code_of a < code_of b"
  by (simp add: code_of_def less_char_def)

lemma code_of_bound: "code_of c < 256"
  by (simp add: code_of_def)

lemma decimal_value_snoc: "decimal_value (s @ [c]) = 10 * decimal_value s + (code_of c - 48)"
  by (simp add: decimal_value_def)

lemma decimal_value_foldl:
  "foldl (\<lambda>n c. 10 * n + (code_of c - 48)) k s = 10 ^ length s * k + decimal_value s"
proof (induction s arbitrary: k)
  case Nil
  then show ?case by (simp add: decimal_value_def)
next
  case (Cons c s)
  define x where "x = code_of c - 48"
  have "decimal_value (c # s) = 10 ^ length s * x + decimal_value s"
    using Cons.IH [of x] by (simp add: decimal_value_def x_def)
  moreover have "foldl (\<lambda>n c. 10 * n + (code_of c - 48)) k (c # s)
      = 10 ^ length s * (10 * k + x) + decimal_value s"
    using Cons.IH [of "10 * k + x"] by (simp add: x_def)
  ultimately show ?case by (simp add: distrib_left)
qed

lemma decimal_value_Cons:
  "decimal_value (c # s) = 10 ^ length s * (code_of c - 48) + decimal_value s"
  using decimal_value_foldl [of "code_of c - 48" s] by (simp add: decimal_value_def)

lemma decimal_value_bound: "list_all digit s \<Longrightarrow> decimal_value s < 10 ^ length s"
proof (induction s)
  case Nil
  then show ?case by (simp add: decimal_value_def)
next
  case (Cons c s)
  then have "decimal_value s < 10 ^ length s" "code_of c - 48 \<le> 9" by (auto simp: digit_def)
  moreover from this(2) have "10 ^ length s * (code_of c - 48) \<le> 10 ^ length s * 9"
    by (rule mult_le_mono2)
  ultimately have "10 ^ length s * (code_of c - 48) + decimal_value s < 10 * 10 ^ length s"
    by linarith
  then show ?case by (simp add: decimal_value_Cons)
qed

lemma less_append_same_length:
  "length (a :: 'a::linorder list) = length b \<Longrightarrow>
   (a @ x < b @ y) \<longleftrightarrow> a < b \<or> a = b \<and> x < y"
  by (induction a b rule: list_induct2) auto

text \<open>Digit strings of one length compare as their numbers.\<close>

lemma digits_less:
  "length s = length t \<Longrightarrow> list_all digit s \<Longrightarrow> list_all digit t \<Longrightarrow>
   s < t \<longleftrightarrow> decimal_value s < decimal_value t"
proof (induction s t rule: list_induct2)
  case Nil
  then show ?case by simp
next
  case (Cons c s d t)
  note b = decimal_value_bound [of s] decimal_value_bound [of t]
  let ?p = "10 ^ length t :: nat"
  have step: "?p * x + m < ?p * y + n" if "x < y" "m < ?p" for x y m n :: nat
  proof -
    have "?p * x + m < ?p * Suc x" using that(2) by simp
    also have "\<dots> \<le> ?p * y" using that(1) by (intro mult_le_mono2) simp
    finally show ?thesis by simp
  qed
  define x y where "x = code_of c - 48" and "y = code_of d - 48"
  from Cons.prems have "48 \<le> code_of c" "48 \<le> code_of d" by (simp_all add: digit_def)
  then have cmp: "c < d \<longleftrightarrow> x < y" "c = d \<longleftrightarrow> x = y"
    unfolding code_of_less code_of_inj [symmetric] x_def y_def by linarith+
  have val: "decimal_value (c # s) = ?p * x + decimal_value s"
    "decimal_value (d # t) = ?p * y + decimal_value t"
    using Cons.hyps by (simp_all add: decimal_value_Cons x_def y_def)
  have b': "decimal_value s < ?p" "decimal_value t < ?p" using b Cons by simp_all
  have rec: "s < t \<longleftrightarrow> decimal_value s < decimal_value t" using Cons by simp
  consider "x < y" | "y < x" | "x = y" by linarith
  then show ?case
  proof cases
    case 1
    from step [OF this b'(1)] 1 show ?thesis by (simp add: val cmp)
  next
    case 2
    from step [OF this b'(2), of "decimal_value s"] 2 cmp show ?thesis by (simp add: val)
  next
    case 3
    have "decimal_value (c # s) < decimal_value (d # t) \<longleftrightarrow> decimal_value s < decimal_value t"
      unfolding val 3 by simp
    moreover have "c # s < d # t \<longleftrightarrow> s < t" using 3 cmp by simp
    ultimately show ?thesis using rec by simp
  qed
qed

lemma digits_eq:
  "length s = length t \<Longrightarrow> list_all digit s \<Longrightarrow> list_all digit t \<Longrightarrow>
   s = t \<longleftrightarrow> decimal_value s = decimal_value t"
  by (metis digits_less less_irrefl linorder_neqE)

text \<open>Lexicographic order of pairs, with equality in place of the library's \<open>\<le>\<close>.\<close>

lemma lex_less_pair:
  "(a :: 'a::linorder, b :: 'b::linorder) < (c, d) \<longleftrightarrow> a < c \<or> a = c \<and> b < d"
  by auto

section \<open>Lists\<close>

text \<open>\<open>findIndex\<close>, with \<open>None\<close> for -1.\<close>

fun find_index :: "('a \<Rightarrow> bool) \<Rightarrow> 'a list \<Rightarrow> nat option" where
  "find_index P [] = None"
| "find_index P (x # xs) = (if P x then Some 0 else map_option Suc (find_index P xs))"

lemma find_index_Some:
  "find_index P xs = Some i \<Longrightarrow> i < length xs \<and> P (xs ! i) \<and> (\<forall>j < i. \<not> P (xs ! j))"
proof (induction xs arbitrary: i)
  case (Cons x xs)
  then show ?case
    by (auto split: if_splits simp: nth_Cons split: nat.splits)
qed simp

lemma find_index_None: "find_index P xs = None \<longleftrightarrow> (\<forall>x \<in> set xs. \<not> P x)"
  by (induction xs) simp_all

lemma find_index_snoc:
  "find_index P (xs @ [x]) =
    (case find_index P xs of Some i \<Rightarrow> Some i | None \<Rightarrow> if P x then Some (length xs) else None)"
  by (induction xs) (auto split: option.splits)

lemma find_result: "find P xs = Some x \<Longrightarrow> x \<in> set xs \<and> P x"
  by (auto simp: find_Some_iff)

lemma distinct_key_eq: "distinct (map f xs) \<Longrightarrow> x \<in> set xs \<Longrightarrow> y \<in> set xs \<Longrightarrow> f x = f y \<Longrightarrow> x = y"
  by (auto simp: distinct_map inj_on_def)

lemma find_index_distinct:
  assumes "distinct (map f xs)" "x \<in> set xs" "P x" "\<And>y. P y \<Longrightarrow> f y = f x"
  shows "\<exists>i < length xs. find_index P xs = Some i \<and> xs ! i = x"
proof -
  obtain i where i: "find_index P xs = Some i"
    using assms(2,3) find_index_None [of P xs] by (cases "find_index P xs") auto
  then have "i < length xs" "P (xs ! i)" using find_index_Some by blast+
  moreover have "xs ! i = x"
    using distinct_key_eq [OF assms(1)] assms(2,4) calculation nth_mem by metis
  ultimately show ?thesis using i by blast
qed

lemma traverse_if:
  assumes "traverse (\<lambda>x. if Q x then Inl e else Inr (f x)) xs = Inr ys"
  shows "ys = map f xs \<and> (\<forall>x \<in> set xs. \<not> Q x)"
  using assms unfolding traverse_Inr_iff
  by (auto simp: list_all2_conv_all_nth in_set_conv_nth intro!: nth_equalityI split: if_splits)

text \<open>A map built from a list of entries: a later entry replaces an earlier one.\<close>

definition map_entry :: "('k \<times> 'v) list \<Rightarrow> 'k \<Rightarrow> 'v option" where
  "map_entry entries = map_of (rev entries)"

lemma map_entry_own:
  assumes "distinct (map fst entries)" "(k, v) \<in> set entries"
  shows "map_entry entries k = Some v"
  unfolding map_entry_def using assms by (intro map_of_is_SomeI) (simp_all flip: rev_map)

text \<open>Looking entries up by their own key.\<close>

lemma map_of_keyed:
  "distinct (map f xs) \<Longrightarrow> map_of (map (\<lambda>x. (f x, x)) xs) k = Some x \<longleftrightarrow> x \<in> set xs \<and> f x = k"
  by (auto simp: comp_def)

lemma map_of_keyed_set:
  "set xs = set ys \<Longrightarrow> distinct (map f xs) \<Longrightarrow> distinct (map f ys) \<Longrightarrow>
   map_of (map (\<lambda>x. (f x, x)) xs) = map_of (map (\<lambda>x. (f x, x)) ys)"
proof (rule ext)
  fix k
  assume h: "set xs = set ys" "distinct (map f xs)" "distinct (map f ys)"
  have "map_of (map (\<lambda>x. (f x, x)) xs) k = Some v \<longleftrightarrow> map_of (map (\<lambda>x. (f x, x)) ys) k = Some v" for v
    unfolding map_of_keyed [OF h(2)] map_of_keyed [OF h(3)] h(1) ..
  then show "map_of (map (\<lambda>x. (f x, x)) xs) k = map_of (map (\<lambda>x. (f x, x)) ys) k"
    by (metis not_Some_eq)
qed

lemma map_of_keyed_filter:
  "map_of (map (\<lambda>x. (f x, x)) (filter (\<lambda>x. f x \<noteq> k) xs)) = (map_of (map (\<lambda>x. (f x, x)) xs))(k := None)"
  by (induction xs) auto

lemma find_keyed: "find (\<lambda>x. f x = k) xs = map_of (map (\<lambda>x. (f x, x)) xs) k"
  by (induction xs) auto

section \<open>Stable sorting by a comparator\<close>

text \<open>
  \<open>Array.prototype.sort\<close> with a comparator is stable, so for a consistent comparator its result is
  determined: insertion sort that inserts before the first element that compares no smaller.
\<close>

fun js_insert :: "('a \<Rightarrow> 'a \<Rightarrow> int) \<Rightarrow> 'a \<Rightarrow> 'a list \<Rightarrow> 'a list" where
  "js_insert cmp x [] = [x]"
| "js_insert cmp x (y # ys) = (if cmp x y \<le> 0 then x # y # ys else y # js_insert cmp x ys)"

definition js_sort :: "('a \<Rightarrow> 'a \<Rightarrow> int) \<Rightarrow> 'a list \<Rightarrow> 'a list" where
  "js_sort cmp xs = foldr (js_insert cmp) xs []"

text \<open>A comparator that orders by a key; the comparators of the source are all of this kind.\<close>

locale keyed_comparator =
  fixes cmp :: "'a \<Rightarrow> 'a \<Rightarrow> int"
    and key :: "'a \<Rightarrow> 'k::linorder"
  assumes cmp_le: "cmp x y \<le> 0 \<longleftrightarrow> key x \<le> key y"
begin

lemma js_insert_insort: "js_insert cmp x xs = insort_key key x xs"
  by (induction xs) (simp_all add: cmp_le)

lemma js_sort_sort_key: "js_sort cmp xs = sort_key key xs"
  by (induction xs) (simp_all add: js_sort_def js_insert_insort)

lemma js_sort_sorted: "sorted (map key (js_sort cmp xs))"
  by (simp add: js_sort_sort_key)

lemma js_sort_set: "set (js_sort cmp xs) = set xs"
  by (simp add: js_sort_sort_key)

lemma js_sort_length: "length (js_sort cmp xs) = length xs"
  by (simp add: js_sort_sort_key)

lemma js_sort_mset: "mset (js_sort cmp xs) = mset xs"
  by (simp add: js_sort_sort_key)

lemma js_sort_idem: "sorted (map key xs) \<Longrightarrow> js_sort cmp xs = xs"
  by (simp add: js_sort_sort_key sort_key_id_if_sorted)

lemma js_sort_distinct: "distinct (map f (js_sort cmp xs)) = distinct (map f xs)"
proof -
  have "mset (map f (js_sort cmp xs)) = mset (map f xs)"
    by (simp add: js_sort_mset)
  then show ?thesis by (metis mset_eq_imp_distinct_iff)
qed

end

text \<open>The comparison idiom \<open>left < right ? -1 : left > right ? 1 : 0\<close>.\<close>

definition js_compare :: "'k::linorder \<Rightarrow> 'k \<Rightarrow> int" where
  "js_compare l r = (if l < r then - 1 else if r < l then 1 else 0)"

lemma js_compare_le: "js_compare l r \<le> 0 \<longleftrightarrow> l \<le> r"
  by (auto simp: js_compare_def)

lemma js_compare_less: "js_compare l r < 0 \<longleftrightarrow> l < r"
  by (auto simp: js_compare_def)

interpretation text_order: keyed_comparator js_compare "\<lambda>x. x"
  by unfold_locales (rule js_compare_le)

end
