(* ===== verification/Json.thy ===== *)
theory Json
  imports Prelude
begin

text \<open>
  Canonical JSON, \<open>packages/kernel/src/canonical-json.ts\<close>. A run-time value is a tree
  \<open>js_value\<close>; \<open>canonicalize\<close> checks it and sorts its keys, and
  \<open>json_text\<close> is \<open>JSON.stringify\<close> of the result. The source compares plans and states by this
  text (\<open>canonical(a) === canonical(b)\<close>) and hashes it, so the theorem that carries the rest of the
  development is that the text determines the value.

  Values are finite trees: the source's check for circular references has nothing to reject
  here. Numbers are integers of magnitude below \<open>10 ^ 21\<close>, which \<open>JSON.stringify\<close> prints in plain
  decimal notation, together with the numbers the source refuses.
\<close>

section \<open>Values\<close>

datatype js_number = Finite int | NegativeZero | NotFinite

text \<open>
  An array entry is missing (\<open>None\<close>) in a sparse array. An object has a flag for its prototype
  being \<open>Object.prototype\<close> or null, the number of its symbol keys, and its own properties in order,
  each with a flag for being an enumerable data property.
\<close>

datatype js_value =
    VUndefined
  | VNull
  | VBool bool
  | VNum js_number
  | VStr string
  | VArr "js_value option list"
  | VObj bool nat "(string \<times> bool \<times> js_value) list"

datatype json =
    JNull
  | JBool bool
  | JNum int
  | JStr string
  | JArr "json list"
  | JObj "(string \<times> json) list"

section \<open>Canonicalization\<close>

text \<open>\<open>assertUnicodeScalarString\<close> over UTF-16 code units.\<close>

fun scalar_units :: "nat list \<Rightarrow> bool" where
  "scalar_units [] = True"
| "scalar_units [u] = (\<not> (55296 \<le> u \<and> u \<le> 57343))"
| "scalar_units (u # w # us) =
     (if 55296 \<le> u \<and> u \<le> 56319 then 56320 \<le> w \<and> w \<le> 57343 \<and> scalar_units us
      else \<not> (56320 \<le> u \<and> u \<le> 57343) \<and> scalar_units (w # us))"

definition normalize_string :: "string \<Rightarrow> (unit, string) outcome" where
  "normalize_string s = (if scalar_units (map code_of s) then Inr s else Inl TypeErr)"

text \<open>
  \<open>Object.fromEntries\<close> keeps insertion order except that array-index keys come first, in numeric
  order; \<open>own_order\<close> is that order.
\<close>

definition array_index :: "string \<Rightarrow> bool" where
  "array_index k \<longleftrightarrow> k \<noteq> [] \<and> list_all digit k \<and> (hd k = CHR ''0'' \<longrightarrow> length k = 1)
     \<and> decimal_value k < 4294967295"

definition own_order :: "(string \<times> 'v) list \<Rightarrow> (string \<times> 'v) list" where
  "own_order kvs =
     sort_key (\<lambda>(k, v). decimal_value k) (filter (\<lambda>(k, v). array_index k) kvs)
     @ filter (\<lambda>(k, v). \<not> array_index k) kvs"

definition compare_entries :: "string \<times> 'v \<Rightarrow> string \<times> 'v \<Rightarrow> int" where
  "compare_entries l r = js_compare (fst l) (fst r)"

fun canonicalize :: "js_value \<Rightarrow> (unit, json) outcome"
  and canonicalize_entries :: "js_value option list \<Rightarrow> (unit, json list) outcome"
  and canonicalize_properties ::
    "string list \<Rightarrow> (string \<times> bool \<times> js_value) list \<Rightarrow> (unit, (string \<times> json) list) outcome"
where
  "canonicalize VNull = Inr JNull"
| "canonicalize (VBool b) = Inr (JBool b)"
| "canonicalize (VStr s) = rbind (normalize_string s) (\<lambda>t. Inr (JStr t))"
| "canonicalize (VNum (Finite n)) = Inr (JNum n)"
| "canonicalize (VNum NegativeZero) = Inl TypeErr"
| "canonicalize (VNum NotFinite) = Inl TypeErr"
| "canonicalize (VArr xs) = rbind (canonicalize_entries xs) (\<lambda>js. Inr (JArr js))"
| "canonicalize (VObj plain symbols props) =
     (if \<not> plain then Inl TypeErr
      else if 0 < symbols then Inl TypeErr
      else rbind (canonicalize_properties [] props)
        (\<lambda>kvs. Inr (JObj (own_order (js_sort compare_entries kvs)))))"
| "canonicalize VUndefined = Inl TypeErr"
| "canonicalize_entries [] = Inr []"
| "canonicalize_entries (None # xs) = Inl TypeErr"
| "canonicalize_entries (Some v # xs) =
     rbind (canonicalize v) (\<lambda>j. rbind (canonicalize_entries xs) (\<lambda>js. Inr (j # js)))"
| "canonicalize_properties seen [] = Inr []"
| "canonicalize_properties seen ((k, data, v) # ps) =
     (if \<not> data then Inl TypeErr
      else rbind (normalize_string k) (\<lambda>nk.
        if nk \<in> set seen then Inl TypeErr
        else rbind (canonicalize v) (\<lambda>j.
          rbind (canonicalize_properties (nk # seen) ps) (\<lambda>kvs. Inr ((nk, j) # kvs)))))"

section \<open>JSON text\<close>

definition hex_char :: "nat \<Rightarrow> char" where
  "hex_char n = (if n < 10 then char_of (48 + n) else char_of (87 + n))"

definition escape_char :: "char \<Rightarrow> string" where
  "escape_char c =
     (let n = code_of c in
      if n = 34 then [CHR 92, CHR 34]
      else if n = 92 then [CHR 92, CHR 92]
      else if n = 8 then [CHR 92, CHR ''b'']
      else if n = 12 then [CHR 92, CHR ''f'']
      else if n = 10 then [CHR 92, CHR ''n'']
      else if n = 13 then [CHR 92, CHR ''r'']
      else if n = 9 then [CHR 92, CHR ''t'']
      else if n < 32 then
        [CHR 92, CHR ''u'', CHR ''0'', CHR ''0'', hex_char (n div 16), hex_char (n mod 16)]
      else [c])"

definition quote_text :: "string \<Rightarrow> string" where
  "quote_text s = CHR 34 # concat (map escape_char s) @ [CHR 34]"

fun nat_text :: "nat \<Rightarrow> string" where
  "nat_text n = (if n < 10 then [char_of (48 + n)] else nat_text (n div 10) @ [char_of (48 + n mod 10)])"

declare nat_text.simps [simp del]

definition int_text :: "int \<Rightarrow> string" where
  "int_text n = (if n < 0 then CHR ''-'' # nat_text (nat (- n)) else nat_text (nat n))"

fun json_text :: "json \<Rightarrow> string"
  and elements_tail :: "json list \<Rightarrow> string"
  and members_tail :: "(string \<times> json) list \<Rightarrow> string"
where
  "json_text JNull = ''null''"
| "json_text (JBool b) = (if b then ''true'' else ''false'')"
| "json_text (JNum n) = int_text n"
| "json_text (JStr s) = quote_text s"
| "json_text (JArr []) = ''[]''"
| "json_text (JArr (x # xs)) = CHR ''['' # json_text x @ elements_tail xs"
| "json_text (JObj []) = ''{}''"
| "json_text (JObj ((k, v) # kvs)) =
     CHR ''{'' # quote_text k @ CHR '':'' # json_text v @ members_tail kvs"
| "elements_tail [] = '']''"
| "elements_tail (x # xs) = CHR '','' # json_text x @ elements_tail xs"
| "members_tail [] = ''}''"
| "members_tail ((k, v) # kvs) =
     CHR '','' # quote_text k @ CHR '':'' # json_text v @ members_tail kvs"

definition canonical_json_text :: "js_value \<Rightarrow> (unit, string) outcome" where
  "canonical_json_text v = rbind (canonicalize v) (\<lambda>j. Inr (json_text j))"


section \<open>The text determines the value\<close>

text \<open>
  Every form of JSON text is a prefix code: what follows a text can be split off again. For numbers
  this needs a follower that is no digit, which the delimiters of arrays and objects are.
\<close>

lemma nat_text_digits: "list_all digit (nat_text n) \<and> nat_text n \<noteq> []"
proof (induction n rule: nat_text.induct)
  case (1 n)
  have d: "digit (char_of (48 + k :: nat))" if "k < 10" for k
    using that by (simp add: digit_def code_of_def)
  show ?case
    by (subst (1 2) nat_text.simps) (use 1 in \<open>auto simp: d\<close>)
qed

lemma decimal_value_nat_text: "decimal_value (nat_text n) = n"
proof (induction n rule: nat_text.induct)
  case (1 n)
  have v: "code_of (char_of (48 + k :: nat)) = 48 + k" if "k < 10" for k
    using that by (simp add: code_of_def)
  show ?case
  proof (cases "n < 10")
    case True
    then show ?thesis by (subst nat_text.simps) (simp add: decimal_value_def v)
  next
    case False
    with 1 show ?thesis by (subst nat_text.simps) (simp add: decimal_value_snoc v)
  qed
qed

definition ends_token :: "string \<Rightarrow> bool" where
  "ends_token r \<longleftrightarrow> r = [] \<or> \<not> digit (hd r)"

lemma digits_prefix:
  "\<lbrakk>list_all digit a; list_all digit b; ends_token r; ends_token s; a @ r = b @ s\<rbrakk>
   \<Longrightarrow> a = b \<and> r = s"
proof (induction a arbitrary: b)
  case Nil
  then show ?case by (cases b) (auto simp: ends_token_def)
next
  case (Cons c a)
  then show ?case by (cases b) (auto simp: ends_token_def)
qed

lemma nat_text_prefix:
  assumes "nat_text n @ r = nat_text m @ s" "ends_token r" "ends_token s"
  shows "n = m \<and> r = s"
proof -
  from assms have "nat_text n = nat_text m \<and> r = s"
    by (intro digits_prefix) (simp_all add: nat_text_digits)
  then show ?thesis by (metis decimal_value_nat_text)
qed

lemma nat_text_hd: "\<exists>c t. nat_text n = c # t \<and> digit c"
  using nat_text_digits [of n] by (cases "nat_text n") auto

lemma int_text_prefix:
  assumes "int_text n @ r = int_text m @ s" "ends_token r" "ends_token s"
  shows "n = m \<and> r = s"
proof -
  have m: "\<not> digit CHR ''-''" by (simp add: digit_def code_of_def)
  obtain c t d u where h: "nat_text (nat n) = c # t" "digit c" "nat_text (nat m) = d # u" "digit d"
    by (metis nat_text_hd)
  show ?thesis
  proof (cases "n < 0"; cases "m < 0")
    assume "n < 0" "m < 0"
    with assms show ?thesis
      using nat_text_prefix [of "nat (- n)" r "nat (- m)" s] by (auto simp: int_text_def)
  next
    assume "\<not> n < 0" "\<not> m < 0"
    with assms show ?thesis
      using nat_text_prefix [of "nat n" r "nat m" s] by (auto simp: int_text_def)
  qed (use assms h m in \<open>auto simp: int_text_def\<close>)
qed

text \<open>The reader of one escaped character, the inverse of \<^const>\<open>escape_char\<close>.\<close>

definition hex_value :: "char \<Rightarrow> nat" where
  "hex_value c = (if code_of c < 58 then code_of c - 48 else code_of c - 87)"

fun read_char :: "string \<Rightarrow> char \<times> string" where
  "read_char (c # d # s) =
     (if code_of c \<noteq> 92 then (c, d # s)
      else if code_of d = 98 then (char_of (8 :: nat), s)
      else if code_of d = 102 then (char_of (12 :: nat), s)
      else if code_of d = 110 then (char_of (10 :: nat), s)
      else if code_of d = 114 then (char_of (13 :: nat), s)
      else if code_of d = 116 then (char_of (9 :: nat), s)
      else if code_of d = 117 then (char_of (16 * hex_value (s ! 2) + hex_value (s ! 3)), drop 4 s)
      else (d, s))"
| "read_char [c] = (c, [])"
| "read_char [] = (CHR 0x00, [])"

lemma hex_value_char: "n < 16 \<Longrightarrow> hex_value (hex_char n) = n"
  by (auto simp: hex_value_def hex_char_def code_of_def)

lemma char_of_code: "char_of (code_of c) = c"
  by (simp add: code_of_def)

lemma read_char_escape: "read_char (escape_char c @ s) = (c, s)"
proof -
  have c: "c = char_of (code_of c)" by (simp add: char_of_code)
  have u: "code_of CHR 92 = 92" "code_of CHR 34 = 34" "code_of CHR ''b'' = 98"
    "code_of CHR ''f'' = 102" "code_of CHR ''n'' = 110" "code_of CHR ''r'' = 114"
    "code_of CHR ''t'' = 116" "code_of CHR ''u'' = 117"
    by (simp_all add: code_of_def)
  have q: "CHR 34 = c" if "code_of c = 34" using that u(2) by (simp add: code_of_inj [symmetric])
  have b: "CHR 92 = c" if "code_of c = 92" using that u(1) by (simp add: code_of_inj [symmetric])
  consider "code_of c \<in> {34, 92, 8, 12, 10, 13, 9}"
    | "code_of c < 32" "code_of c \<notin> {8, 12, 10, 13, 9}"
    | "code_of c \<ge> 32" "code_of c \<notin> {34, 92}"
    by fastforce
  then show ?thesis
  proof cases
    case 1
    then show ?thesis
      using c q b by (auto simp: escape_char_def u)
  next
    case 2
    then have "code_of c div 16 < 16" "code_of c mod 16 < 16" "code_of c \<noteq> 34" "code_of c \<noteq> 92"
      by auto
    with 2 show ?thesis
      by (simp add: escape_char_def Let_def u hex_value_char char_of_code)
  next
    case 3
    then show ?thesis by (cases s) (simp_all add: escape_char_def Let_def)
  qed
qed

lemma escape_char_hd: "\<exists>d t. escape_char c = d # t \<and> d \<noteq> CHR 34"
proof -
  have "code_of CHR 34 = 34" by (simp add: code_of_def)
  then show ?thesis by (auto simp: escape_char_def Let_def)
qed

lemma quoted_body_prefix:
  "concat (map escape_char a) @ CHR 34 # r = concat (map escape_char b) @ CHR 34 # s
   \<Longrightarrow> a = b \<and> r = s"
proof (induction a arbitrary: b)
  case Nil
  show ?case
  proof (cases b)
    case (Cons d b')
    with Nil escape_char_hd [of d] show ?thesis by auto
  qed (use Nil in auto)
next
  case (Cons c a)
  note eq = Cons.prems
  show ?case
  proof (cases b)
    case Nil
    with eq escape_char_hd [of c] show ?thesis by auto
  next
    case (Cons d b')
    from arg_cong [where f = read_char, OF eq] Cons
    have "c = d" "concat (map escape_char a) @ CHR 34 # r = concat (map escape_char b') @ CHR 34 # s"
      by (simp_all add: read_char_escape)
    with Cons.IH Cons show ?thesis by blast
  qed
qed

lemma quote_text_prefix: "quote_text a @ r = quote_text b @ s \<Longrightarrow> a = b \<and> r = s"
  using quoted_body_prefix [of a r b s] by (simp add: quote_text_def)


lemma ends_token_simps [simp]:
  "ends_token []" "ends_token (CHR '','' # r)" "ends_token (CHR '']'' # r)"
  "ends_token (CHR ''}'' # r)"
  by (simp_all add: ends_token_def digit_def code_of_def)

lemma ends_token_tails [simp]:
  "ends_token (elements_tail xs @ r)" "ends_token (members_tail kvs @ r)"
  by (cases xs; simp) (cases kvs; simp; force)

lemma int_text_hd: "\<exists>c t. int_text n = c # t \<and> (digit c \<or> c = CHR ''-'')"
  using nat_text_hd [of "nat n"] by (auto simp: int_text_def)

text \<open>The first character tells which form a text has.\<close>

lemma json_text_hd:
  "\<exists>c t. json_text j = c # t \<and>
     (case j of JNull \<Rightarrow> c = CHR ''n'' | JBool b \<Rightarrow> c = (if b then CHR ''t'' else CHR ''f'')
      | JNum _ \<Rightarrow> digit c \<or> c = CHR ''-'' | JStr _ \<Rightarrow> c = CHR 34
      | JArr _ \<Rightarrow> c = CHR ''['' | JObj _ \<Rightarrow> c = CHR ''{'')"
proof (cases j)
  case (JNum n)
  with int_text_hd show ?thesis by simp
next
  case (JArr xs)
  then show ?thesis by (cases xs) simp_all
next
  case (JObj kvs)
  then show ?thesis by (cases kvs) auto
qed (simp_all add: quote_text_def)

lemma not_digit_letters:
  "\<not> digit CHR ''n''" "\<not> digit CHR ''t''" "\<not> digit CHR ''f''" "\<not> digit CHR 34"
  "\<not> digit CHR ''[''" "\<not> digit CHR ''{''" "\<not> digit CHR '']''" "\<not> digit CHR ''}''"
  by (simp_all add: digit_def code_of_def)

lemma json_text_not_close: "json_text j @ r \<noteq> CHR '']'' # s"
proof -
  obtain c t where "json_text j = c # t" and "case j of JNull \<Rightarrow> c = CHR ''n''
      | JBool b \<Rightarrow> c = (if b then CHR ''t'' else CHR ''f'')
      | JNum _ \<Rightarrow> digit c \<or> c = CHR ''-'' | JStr _ \<Rightarrow> c = CHR 34
      | JArr _ \<Rightarrow> c = CHR ''['' | JObj _ \<Rightarrow> c = CHR ''{''"
    using json_text_hd by meson
  then show ?thesis by (cases j) (auto simp: not_digit_letters)
qed

lemma json_text_same_form:
  assumes "json_text a @ r = json_text b @ s"
  shows "(a = JNull \<and> b = JNull) \<or> (\<exists>x. a = JBool x \<and> b = JBool x)
    \<or> (\<exists>n m. a = JNum n \<and> b = JNum m) \<or> (\<exists>x y. a = JStr x \<and> b = JStr y)
    \<or> (\<exists>xs ys. a = JArr xs \<and> b = JArr ys) \<or> (\<exists>xs ys. a = JObj xs \<and> b = JObj ys)"
proof -
  obtain c t d u where h: "json_text a = c # t" "json_text b = d # u"
    and ca: "case a of JNull \<Rightarrow> c = CHR ''n'' | JBool b \<Rightarrow> c = (if b then CHR ''t'' else CHR ''f'')
      | JNum _ \<Rightarrow> digit c \<or> c = CHR ''-'' | JStr _ \<Rightarrow> c = CHR 34
      | JArr _ \<Rightarrow> c = CHR ''['' | JObj _ \<Rightarrow> c = CHR ''{''"
    and cb: "case b of JNull \<Rightarrow> d = CHR ''n'' | JBool b \<Rightarrow> d = (if b then CHR ''t'' else CHR ''f'')
      | JNum _ \<Rightarrow> digit d \<or> d = CHR ''-'' | JStr _ \<Rightarrow> d = CHR 34
      | JArr _ \<Rightarrow> d = CHR ''['' | JObj _ \<Rightarrow> d = CHR ''{''"
    using json_text_hd by meson
  from assms h have "c = d" by simp
  with ca cb show ?thesis
    by (cases a; cases b) (auto simp: not_digit_letters split: if_splits)
qed

lemma json_text_prefix:
  "ends_token r \<Longrightarrow> ends_token s \<Longrightarrow> json_text a @ r = json_text b @ s \<Longrightarrow> a = b \<and> r = s"
  "elements_tail xs @ r = elements_tail ys @ s \<Longrightarrow> xs = ys \<and> r = s"
  "members_tail ks @ r = members_tail ls @ s \<Longrightarrow> ks = ls \<and> r = s"
proof (induction a and xs and ks arbitrary: b r s and ys r s and ls r s
    rule: json_text_elements_tail_members_tail.induct)
  case 1
  from json_text_same_form [OF "1.prems"(3)] have "b = JNull" by auto
  with 1 show ?case by simp
next
  case (2 x)
  from json_text_same_form [OF "2.prems"(3)] have "b = JBool x" by auto
  with 2 show ?case by simp
next
  case (3 n)
  from json_text_same_form [OF "3.prems"(3)] obtain m where "b = JNum m" by auto
  with 3 int_text_prefix [of n r m s] show ?case by simp
next
  case (4 x)
  from json_text_same_form [OF "4.prems"(3)] obtain y where "b = JStr y" by auto
  with 4 quote_text_prefix [of x r y s] show ?case by simp
next
  case 5
  from json_text_same_form [OF "5.prems"(3)] obtain ys where b: "b = JArr ys" by auto
  show ?case
  proof (cases ys)
    case Nil
    with "5.prems"(3) b show ?thesis by simp
  next
    case (Cons y zs)
    with "5.prems"(3) b have "json_text y @ (elements_tail zs @ s) = CHR '']'' # r" by simp
    with json_text_not_close show ?thesis by blast
  qed
next
  case (6 x xs)
  from json_text_same_form [OF "6.prems"(3)] obtain ys where b: "b = JArr ys" by auto
  show ?case
  proof (cases ys)
    case Nil
    with "6.prems"(3) b have "json_text x @ (elements_tail xs @ r) = CHR '']'' # s" by simp
    with json_text_not_close show ?thesis by blast
  next
    case (Cons y zs)
    with "6.prems"(3) b
    have "json_text x @ elements_tail xs @ r = json_text y @ elements_tail zs @ s" by simp
    from "6.IH"(1) [OF _ _ this] have "x = y" "elements_tail xs @ r = elements_tail zs @ s"
      by simp_all
    with "6.IH"(2) b Cons show ?thesis by blast
  qed
next
  case 7
  from json_text_same_form [OF "7.prems"(3)] obtain ls where b: "b = JObj ls" by auto
  with "7.prems"(3) show ?case by (cases ls) (auto simp: quote_text_def)
next
  case (8 k v kvs)
  from json_text_same_form [OF "8.prems"(3)] obtain ls where b: "b = JObj ls" by auto
  show ?case
  proof (cases ls)
    case Nil
    with "8.prems"(3) b show ?thesis by (simp add: quote_text_def)
  next
    case (Cons l ms)
    obtain k' v' where l: "l = (k', v')" by fastforce
    with "8.prems"(3) b Cons have "quote_text k @ CHR '':'' # json_text v @ members_tail kvs @ r
      = quote_text k' @ CHR '':'' # json_text v' @ members_tail ms @ s" by simp
    from quote_text_prefix [OF this]
    have k: "k = k'" and e: "json_text v @ members_tail kvs @ r = json_text v' @ members_tail ms @ s"
      by simp_all
    from "8.IH"(1) [OF _ _ e] have "v = v'" "members_tail kvs @ r = members_tail ms @ s" by simp_all
    with "8.IH"(2) k b Cons l show ?thesis by blast
  qed
next
  case 9
  from "9.prems" show ?case by (cases ys) simp_all
next
  case (10 x xs)
  show ?case
  proof (cases ys)
    case Nil
    with "10.prems" show ?thesis by simp
  next
    case (Cons y zs)
    with "10.prems" have "json_text x @ elements_tail xs @ r = json_text y @ elements_tail zs @ s"
      by simp
    from "10.IH"(1) [OF _ _ this] have "x = y" "elements_tail xs @ r = elements_tail zs @ s"
      by simp_all
    with "10.IH"(2) Cons show ?thesis by blast
  qed
next
  case 11
  from "11.prems" show ?case by (cases ls) auto
next
  case (12 k v kvs)
  show ?case
  proof (cases ls)
    case Nil
    with "12.prems" show ?thesis by simp
  next
    case (Cons l ms)
    obtain k' v' where l: "l = (k', v')" by fastforce
    with "12.prems" Cons have "quote_text k @ CHR '':'' # json_text v @ members_tail kvs @ r
      = quote_text k' @ CHR '':'' # json_text v' @ members_tail ms @ s" by simp
    from quote_text_prefix [OF this]
    have k: "k = k'" and e: "json_text v @ members_tail kvs @ r = json_text v' @ members_tail ms @ s"
      by simp_all
    from "12.IH"(1) [OF _ _ e] have "v = v'" "members_tail kvs @ r = members_tail ms @ s" by simp_all
    with "12.IH"(2) k Cons l show ?thesis by blast
  qed
qed

lemma json_text_inject: "json_text a = json_text b \<longleftrightarrow> a = b"
  using json_text_prefix(1) [of "[]" "[]" a b] by auto


section \<open>Canonical form of plain values\<close>

text \<open>
  The values the source digests are plain records: trees with distinct keys. \<open>canon\<close> is the
  canonical form of such a tree and \<open>embed\<close> the run-time value it is.
\<close>

fun canon :: "json \<Rightarrow> json" where
  "canon (JArr xs) = JArr (map canon xs)"
| "canon (JObj kvs) = JObj (own_order (js_sort compare_entries (map (\<lambda>(k, v). (k, canon v)) kvs)))"
| "canon JNull = JNull"
| "canon (JBool b) = JBool b"
| "canon (JNum n) = JNum n"
| "canon (JStr s) = JStr s"

fun distinct_keys :: "json \<Rightarrow> bool" where
  "distinct_keys (JArr xs) = (\<forall>x \<in> set xs. distinct_keys x)"
| "distinct_keys (JObj kvs) = (distinct (map fst kvs) \<and> (\<forall>kv \<in> set kvs. distinct_keys (snd kv)))"
| "distinct_keys JNull = True"
| "distinct_keys (JBool b) = True"
| "distinct_keys (JNum n) = True"
| "distinct_keys (JStr s) = True"

fun embed :: "json \<Rightarrow> js_value" where
  "embed (JArr xs) = VArr (map (\<lambda>x. Some (embed x)) xs)"
| "embed (JObj kvs) = VObj True 0 (map (\<lambda>(k, v). (k, True, embed v)) kvs)"
| "embed JNull = VNull"
| "embed (JBool b) = VBool b"
| "embed (JNum n) = VNum (Finite n)"
| "embed (JStr s) = VStr s"

definition canonical :: "json \<Rightarrow> string" where
  "canonical j = json_text (canon j)"

lemma scalar_units_small: "list_all (\<lambda>u. u < 256) us \<Longrightarrow> scalar_units us"
  by (induction us rule: scalar_units.induct) auto

lemma normalize_string_id [simp]: "normalize_string s = Inr s"
proof -
  have "list_all (\<lambda>u. u < 256) (map code_of s)"
    by (simp add: list_all_iff code_of_bound)
  then show ?thesis by (simp add: normalize_string_def scalar_units_small)
qed

interpretation entry_order: keyed_comparator compare_entries fst
  by unfold_locales (simp add: compare_entries_def js_compare_le)

lemma canonicalize_entries_map:
  "(\<And>x. x \<in> set xs \<Longrightarrow> canonicalize (embed x) = Inr (canon x)) \<Longrightarrow>
   canonicalize_entries (map (\<lambda>x. Some (embed x)) xs) = Inr (map canon xs)"
  by (induction xs) simp_all

lemma canonicalize_properties_map:
  "\<lbrakk>distinct (map fst kvs); set (map fst kvs) \<inter> set seen = {};
    \<And>k v. (k, v) \<in> set kvs \<Longrightarrow> canonicalize (embed v) = Inr (canon v)\<rbrakk> \<Longrightarrow>
   canonicalize_properties seen (map (\<lambda>(k, v). (k, True, embed v)) kvs)
     = Inr (map (\<lambda>(k, v). (k, canon v)) kvs)"
proof (induction kvs arbitrary: seen)
  case Nil
  then show ?case by simp
next
  case (Cons kv kvs)
  obtain k v where kv: "kv = (k, v)" by fastforce
  have "canonicalize_properties (k # seen) (map (\<lambda>(k, v). (k, True, embed v)) kvs)
     = Inr (map (\<lambda>(k, v). (k, canon v)) kvs)"
    by (rule Cons.IH) (use Cons.prems kv in auto)
  moreover have "canonicalize (embed v) = Inr (canon v)"
    using Cons.prems(3) [of k v] kv by simp
  ultimately show ?case using Cons.prems kv by simp
qed

lemma canonicalize_embed: "distinct_keys j \<Longrightarrow> canonicalize (embed j) = Inr (canon j)"
proof (induction j rule: embed.induct)
  case (1 xs)
  then show ?case by (simp add: canonicalize_entries_map)
next
  case (2 kvs)
  then have "canonicalize (embed v) = Inr (canon v)" if "(k, v) \<in> set kvs" for k v
    using that by fastforce
  with 2 have "canonicalize_properties [] (map (\<lambda>(k, v). (k, True, embed v)) kvs)
      = Inr (map (\<lambda>(k, v). (k, canon v)) kvs)"
    by (intro canonicalize_properties_map) simp_all
  then show ?case by simp
qed simp_all

lemma canonical_embed:
  "distinct_keys j \<Longrightarrow> canonical_json_text (embed j) = Inr (canonical j)"
  by (simp add: canonical_json_text_def canonicalize_embed canonical_def)

lemma own_order_set: "set (own_order kvs) = set kvs"
  by (auto simp: own_order_def)

lemma canon_obj_set:
  "canon (JObj kvs) = canon (JObj ls) \<Longrightarrow>
   (\<lambda>(k, v). (k, canon v)) ` set kvs = (\<lambda>(k, v). (k, canon v)) ` set ls"
proof -
  assume "canon (JObj kvs) = canon (JObj ls)"
  then have "set (own_order (js_sort compare_entries (map (\<lambda>(k, v). (k, canon v)) kvs)))
    = set (own_order (js_sort compare_entries (map (\<lambda>(k, v). (k, canon v)) ls)))"
    by simp
  then show ?thesis by (simp add: own_order_set entry_order.js_sort_set)
qed

text \<open>Two records with the same keys have the same canonical form only field by field.\<close>

lemma canon_obj_fields:
  assumes "canon (JObj (zip ks vs)) = canon (JObj (zip ks ws))"
    and "distinct ks" "length vs = length ks" "length ws = length ks"
  shows "map canon vs = map canon ws"
proof (rule nth_equalityI)
  show "length (map canon vs) = length (map canon ws)" using assms by simp
next
  fix i
  assume "i < length (map canon vs)"
  with assms have i: "i < length ks" "i < length vs" "i < length ws" by simp_all
  then have "(ks ! i, canon (vs ! i)) \<in> (\<lambda>(k, v). (k, canon v)) ` set (zip ks vs)"
    by (force simp: set_zip)
  with canon_obj_set [OF assms(1)]
  have "(ks ! i, canon (vs ! i)) \<in> (\<lambda>(k, v). (k, canon v)) ` set (zip ks ws)" by simp
  then obtain j where "j < length ks" "ks ! i = ks ! j" "canon (vs ! i) = canon (ws ! j)"
    by (auto simp: set_zip)
  with i assms(2) show "map canon vs ! i = map canon ws ! i"
    by (simp add: nth_eq_iff_index_eq)
qed

lemma canon_obj_field:
  assumes "canon (JObj kvs) = canon (JObj ls)" "(k, v) \<in> set kvs" "(k, w) \<in> set ls"
    and "distinct (map fst ls)"
  shows "canon v = canon w"
proof -
  have "(k, canon v) \<in> (\<lambda>(k, v). (k, canon v)) ` set kvs" using assms(2) by force
  then have "(k, canon v) \<in> (\<lambda>(k, v). (k, canon v)) ` set ls" using canon_obj_set [OF assms(1)] by simp
  then obtain u where "(k, u) \<in> set ls" "canon v = canon u" by auto
  with assms(3,4) show ?thesis by (metis eq_key_imp_eq_value)
qed

text \<open>The same as an equivalence, for objects written out with the same keys, and for one key.\<close>

lemma canon_obj_iff:
  assumes "map fst kvs = map fst ls" "distinct (map fst ls)"
  shows "canon (JObj kvs) = canon (JObj ls) \<longleftrightarrow> map (canon \<circ> snd) kvs = map (canon \<circ> snd) ls"
proof
  assume eq: "canon (JObj kvs) = canon (JObj ls)"
  have z: "kvs = zip (map fst ls) (map snd kvs)" "ls = zip (map fst ls) (map snd ls)"
    by (simp_all add: assms(1) [symmetric] zip_map_fst_snd) (simp add: assms(1) zip_map_fst_snd)
  have "length kvs = length ls" using arg_cong [OF assms(1), of length] by simp
  with eq z have "map canon (map snd kvs) = map canon (map snd ls)"
    by (intro canon_obj_fields [of "map fst ls"]) (simp_all add: assms(2))
  then show "map (canon \<circ> snd) kvs = map (canon \<circ> snd) ls" by simp
next
  assume vals: "map (canon \<circ> snd) kvs = map (canon \<circ> snd) ls"
  have "map (\<lambda>(k, v). (k, canon v)) kvs = zip (map fst kvs) (map (canon \<circ> snd) kvs)" for kvs :: "(string \<times> json) list"
    by (induction kvs) auto
  with vals assms(1) show "canon (JObj kvs) = canon (JObj ls)" by simp
qed

lemma canon_obj_lookup:
  assumes "canon (JObj kvs) = canon (JObj ls)" "distinct (map fst kvs)" "distinct (map fst ls)"
  shows "map_option canon (map_of kvs k) = map_option canon (map_of ls k)"
proof -
  have m: "map_option canon (map_of xs k) = map_of (map (\<lambda>(k, v). (k, canon v)) xs) k" for xs
    by (induction xs) auto
  have "set (map (\<lambda>(k, v). (k, canon v)) kvs) = set (map (\<lambda>(k, v). (k, canon v)) ls)"
    using canon_obj_set [OF assms(1)] by simp
  moreover have "distinct (map fst (map (\<lambda>(k, v). (k, canon v)) xs)) = distinct (map fst xs)" for xs :: "(string \<times> json) list"
    by (simp add: case_prod_unfold comp_def)
  ultimately show ?thesis unfolding m using assms(2,3) map_of_inject_set by metis
qed

lemma map_canon_inject:
  assumes "\<And>a b. canon (f a) = canon (f b) \<longleftrightarrow> a = b"
  shows "map (canon \<circ> f) xs = map (canon \<circ> f) ys \<longleftrightarrow> xs = ys"
proof -
  have "inj (canon \<circ> f)" using assms by (simp add: inj_on_def)
  then show ?thesis by (rule inj_map_eq_map)
qed

lemma canonical_inject: "canonical a = canonical b \<longleftrightarrow> canon a = canon b"
  by (simp add: canonical_def json_text_inject)


text \<open>Equality of values up to the order of an object's properties.\<close>

function same_json :: "json \<Rightarrow> json \<Rightarrow> bool" where
  "same_json (JArr xs) j = (case j of
     JArr ys \<Rightarrow> length xs = length ys \<and> (\<forall>p \<in> set (zip xs ys). same_json (fst p) (snd p))
   | _ \<Rightarrow> False)"
| "same_json (JObj kvs) j = (case j of
     JObj ls \<Rightarrow> length kvs = length ls \<and>
       (\<forall>p \<in> set kvs. \<exists>q \<in> set ls. fst q = fst p \<and> same_json (snd p) (snd q))
   | _ \<Rightarrow> False)"
| "same_json JNull j = (j = JNull)"
| "same_json (JBool b) j = (j = JBool b)"
| "same_json (JNum n) j = (j = JNum n)"
| "same_json (JStr s) j = (j = JStr s)"
  by pat_completeness auto
termination
proof (relation "measure (\<lambda>(a, b). size a)", goal_cases)
  case (2 xs j ys p)
  then have "fst p \<in> set xs" by (metis prod.collapse set_zip_leftD)
  then have "size (fst p) \<le> size_list size xs" by (rule size_list_estimation') simp
  then show ?case by (cases p) simp
next
  case (3 kvs j ls p q)
  then have "size (snd p) < size_prod (\<lambda>_. 0) size p" by (cases p) simp
  also from 3 have "size_prod (\<lambda>_. 0) size p \<le> size_list (size_prod (\<lambda>_. 0) size) kvs"
    by (intro size_list_estimation') auto
  finally show ?case by simp
qed simp

lemma distinct_pairs_eq:
  assumes "distinct (map fst xs)" "distinct (map fst ys)" "length xs = length ys"
    and "set xs \<subseteq> set ys"
  shows "js_sort compare_entries xs = js_sort compare_entries ys"
proof -
  have "card (set xs) = card (set ys)"
    using assms by (metis distinct_card distinct_map)
  with assms(4) have eq: "set xs = set ys" by (simp add: card_subset_eq)
  have "inj_on fst (set xs)" using assms(1) by (simp add: distinct_map)
  with eq assms show ?thesis
    by (intro map_sorted_distinct_set_unique [where f = fst])
       (simp_all add: entry_order.js_sort_set entry_order.js_sort_sorted entry_order.js_sort_distinct)
qed

lemma same_json_canon: "distinct_keys a \<Longrightarrow> distinct_keys b \<Longrightarrow> same_json a b \<Longrightarrow> canon a = canon b"
proof (induction a b rule: same_json.induct)
  case (1 xs j)
  then obtain ys where j: "j = JArr ys" and len: "length xs = length ys"
    and all: "\<forall>p \<in> set (zip xs ys). same_json (fst p) (snd p)"
    by (auto split: json.splits)
  have "canon (xs ! i) = canon (ys ! i)" if i: "i < length xs" for i
  proof -
    have p: "(xs ! i, ys ! i) \<in> set (zip xs ys)" using i len by (force simp: set_zip)
    with all have "same_json (xs ! i) (ys ! i)" by force
    with 1 p j len i show ?thesis by (fastforce dest: nth_mem)
  qed
  with j len show ?case by (simp add: list_eq_iff_nth_eq)
next
  case (2 kvs j)
  then obtain ls where j: "j = JObj ls" and len: "length kvs = length ls"
    and all: "\<forall>p \<in> set kvs. \<exists>q \<in> set ls. fst q = fst p \<and> same_json (snd p) (snd q)"
    by (auto split: json.splits)
  let ?c = "\<lambda>(k, v). (k, canon v)"
  have "set (map ?c kvs) \<subseteq> set (map ?c ls)"
  proof
    fix e
    assume "e \<in> set (map ?c kvs)"
    then obtain p where p: "p \<in> set kvs" "e = (fst p, canon (snd p))" by auto
    with all obtain q where q: "q \<in> set ls" "fst q = fst p" "same_json (snd p) (snd q)" by blast
    have "distinct_keys (snd p)" "distinct_keys (snd q)" using 2 p q j by simp_all
    with "2.IH" p q j len have "canon (snd p) = canon (snd q)" by blast
    with p q have "e = ?c q" by (simp add: split_beta)
    with q(1) show "e \<in> set (map ?c ls)" by simp
  qed
  moreover have keys: "map fst (map ?c xs) = map fst xs" for xs :: "(string \<times> json) list"
    by (induction xs) auto
  moreover have "distinct (map fst kvs)" "distinct (map fst ls)" using 2 j by simp_all
  ultimately have "js_sort compare_entries (map ?c kvs) = js_sort compare_entries (map ?c ls)"
    using len by (intro distinct_pairs_eq) (simp_all only: keys length_map)
  with j show ?case by simp
qed simp_all

lemma canon_same_json: "distinct_keys a \<Longrightarrow> distinct_keys b \<Longrightarrow> canon a = canon b \<Longrightarrow> same_json a b"
proof (induction a arbitrary: b rule: canon.induct)
  case (1 xs)
  then obtain ys where b: "b = JArr ys" and m: "map canon xs = map canon ys" by (cases b) simp_all
  have "same_json (fst p) (snd p)" if "p \<in> set (zip xs ys)" for p
  proof -
    from that obtain i where i: "i < length xs" "i < length ys" "p = (xs ! i, ys ! i)"
      by (auto simp: set_zip)
    with m have "canon (xs ! i) = canon (ys ! i)" by (metis nth_map)
    with 1 b i show ?thesis by simp
  qed
  with b map_eq_imp_length_eq [OF m] show ?case by simp
next
  case (2 kvs)
  then obtain ls where b: "b = JObj ls" by (cases b) simp_all
  with 2 have eq: "canon (JObj kvs) = canon (JObj ls)" by simp
  note sets = canon_obj_set [OF eq]
  have ex: "\<exists>q \<in> set ls. fst q = fst p \<and> same_json (snd p) (snd q)" if p: "p \<in> set kvs" for p
  proof -
    from p sets have "(fst p, canon (snd p)) \<in> (\<lambda>(k, v). (k, canon v)) ` set ls" by force
    then obtain q where q: "q \<in> set ls" "fst q = fst p" "canon (snd p) = canon (snd q)" by auto
    moreover have "distinct_keys (snd p)" "distinct_keys (snd q)" using 2 b p q by auto
    ultimately show ?thesis using 2 p by (metis prod.collapse)
  qed
  have "card (fst ` set kvs) = card (fst ` set ls)"
  proof -
    have "fst ` (\<lambda>(k, v). (k, canon v)) ` set kvs = fst ` (\<lambda>(k, v). (k, canon v)) ` set ls"
      using sets by simp
    moreover have "fst ` (\<lambda>(k, v). (k, canon v)) ` X = fst ` X" for X :: "(string \<times> json) set"
      by force
    ultimately show ?thesis by simp
  qed
  moreover have "distinct (map fst kvs)" "distinct (map fst ls)" using 2 b by simp_all
  ultimately have "length kvs = length ls"
    by (metis distinct_card length_map set_map)
  with ex b show ?case by simp
next
  case 3
  then show ?case by (cases b) simp_all
next
  case (4 x)
  then show ?case by (cases b) simp_all
next
  case (5 n)
  then show ?case by (cases b) simp_all
next
  case (6 t)
  then show ?case by (cases b) simp_all
qed



end
