(* ===== verification/Identifiers.thy ===== *)
theory Identifiers
  imports Prelude
begin

text \<open>
  Branded scalars of the kernel: application identifiers (\<open>packages/kernel/src/ids.ts\<close>), positive
  versions (\<open>versions.ts\<close>) and operation surfaces (\<open>surface.ts\<close>). The lemmas say that parsing an
  identifier yields its one canonical spelling.
\<close>

section \<open>Definitions\<close>

datatype application_id_kind =
    Workspace | Event | User | Person | Membership | Participant_identity | Participant_session
  | Api_key | Service_identity | Agent_run | Model_attempt | Model_tool_call | Job
  | Consumer_delivery | Consumer_attempt | Integration_inbox_receipt | Operation_receipt | Approval
  | Audit_event | Domain_fact | Effect_specification | Outbox_pointer | Invocation | Correlation
  | Payload_ref | Payload_stage | Capability_revision | Authority_citation | Grant_revision
  | Public_policy_revision | Ceremony_evidence | Source_connection | Source_connection_revision
  | Verifier_revision | Verified_envelope_handle

text \<open>A hexadecimal digit under the flag \<open>i\<close>, and the regular expression \<open>APPLICATION_UUID\<close>.\<close>

definition any_hex :: "char \<Rightarrow> bool" where
  "any_hex c \<longleftrightarrow> lower_hex c \<or> 65 \<le> code_of c \<and> code_of c \<le> 70"

definition application_uuid :: "(char \<Rightarrow> bool) list" where
  "application_uuid =
     replicate 8 any_hex @ [\<lambda>c. c = CHR ''-''] @ replicate 4 any_hex @ [\<lambda>c. c = CHR ''-'']
     @ [\<lambda>c. c \<in> set ''47''] @ replicate 3 any_hex @ [\<lambda>c. c = CHR ''-'']
     @ [\<lambda>c. c \<in> set ''89abAB''] @ replicate 3 any_hex @ [\<lambda>c. c = CHR ''-'']
     @ replicate 12 any_hex"

text \<open>\<open>toLowerCase\<close> on code units up to 255.\<close>

definition lower_char :: "char \<Rightarrow> char" where
  "lower_char c =
     (let n = code_of c in
      if 65 \<le> n \<and> n \<le> 90 \<or> 192 \<le> n \<and> n \<le> 222 \<and> n \<noteq> 215 then char_of (n + 32) else c)"

definition to_lower :: "string \<Rightarrow> string" where
  "to_lower s = map lower_char s"

text \<open>The kind only names the identifier in the error message; every parser accepts the same texts.\<close>

definition parse_application_id :: "application_id_kind \<Rightarrow> string \<Rightarrow> (unit, string) outcome" where
  "parse_application_id kind value =
     (if \<not> matches application_uuid value then Inl TypeErr else Inr (to_lower value))"

definition is_application_id :: "string \<Rightarrow> bool" where
  "is_application_id value \<longleftrightarrow> value = to_lower value \<and> matches application_uuid value"

definition positive_version :: "int \<Rightarrow> (unit, int) outcome" where
  "positive_version value =
     (if \<not> safe_integer value \<or> value \<le> 0 then Inl TypeErr else Inr value)"

definition operation_surfaces :: "string list" where
  "operation_surfaces =
     [''operator_http'', ''participant_http'', ''public_http'', ''external_mcp'', ''app_model'',
      ''application_job'', ''provider_ingress'']"

definition is_operation_surface :: "string \<Rightarrow> bool" where
  "is_operation_surface value \<longleftrightarrow> value \<in> set operation_surfaces"

definition parse_operation_surface :: "string \<Rightarrow> (unit, string) outcome" where
  "parse_operation_surface value =
     (if \<not> is_operation_surface value then Inl TypeErr else Inr value)"

section \<open>Canonical spelling\<close>

lemma positive_version_iff: "positive_version v = Inr w \<longleftrightarrow> positive_safe v \<and> w = v"
  by (auto simp: positive_version_def positive_safe_def)

lemma code_of_char_of: "n < 256 \<Longrightarrow> code_of (char_of (n :: nat)) = n"
  by (simp add: code_of_def)

lemma code_lower_char:
  "code_of (lower_char c) =
    (if 65 \<le> code_of c \<and> code_of c \<le> 90 \<or> 192 \<le> code_of c \<and> code_of c \<le> 222 \<and> code_of c \<noteq> 215
     then code_of c + 32 else code_of c)"
  by (auto simp: lower_char_def Let_def code_of_char_of)

lemma lower_char_idem: "lower_char (lower_char c) = lower_char c"
  unfolding code_of_inj [symmetric] code_lower_char [of "lower_char c"]
  by (auto simp: code_lower_char)

lemma to_lower_idem [simp]: "to_lower (to_lower s) = to_lower s"
  by (simp add: to_lower_def lower_char_idem)

lemma code_of_literals:
  "code_of CHR ''-'' = 45" "code_of CHR ''4'' = 52" "code_of CHR ''7'' = 55" "code_of CHR ''8'' = 56"
  "code_of CHR ''9'' = 57" "code_of CHR ''a'' = 97" "code_of CHR ''b'' = 98" "code_of CHR ''A'' = 65"
  "code_of CHR ''B'' = 66"
  by (simp_all add: code_of_def)

text \<open>Each class of the expression is closed under lower case, which is what the flag \<open>i\<close> means.\<close>

lemma lower_char_classes:
  "any_hex (lower_char c) \<longleftrightarrow> any_hex c"
  "lower_char c = CHR ''-'' \<longleftrightarrow> c = CHR ''-''"
  "lower_char c \<in> set ''47'' \<longleftrightarrow> c \<in> set ''47''"
  "lower_char c \<in> set ''89abAB'' \<longleftrightarrow> c \<in> set ''89abAB''"
  unfolding any_hex_def lower_hex_def digit_def set_simps insert_iff empty_iff
    code_of_inj [symmetric] code_lower_char code_of_literals
  using code_of_bound [of c] by auto

lemma matches_map:
  "list_all (\<lambda>p. \<forall>c. p (f c) \<longleftrightarrow> p c) ps \<Longrightarrow> matches ps (map f s) \<longleftrightarrow> matches ps s"
proof (induction ps arbitrary: s)
  case (Cons p ps)
  show ?case
  proof (cases s)
    case (Cons c t)
    have "p (f c) \<longleftrightarrow> p c" using Cons.prems by simp
    moreover have "matches ps (map f t) \<longleftrightarrow> matches ps t" using Cons.prems by (intro Cons.IH) simp
    ultimately show ?thesis by (simp add: Cons)
  qed simp
qed simp

lemma list_all_replicate: "list_all P (replicate n x) \<longleftrightarrow> n = 0 \<or> P x"
  by (auto simp: list_all_iff)

lemma matches_to_lower [simp]: "matches application_uuid (to_lower s) \<longleftrightarrow> matches application_uuid s"
  unfolding to_lower_def
  by (rule matches_map, unfold application_uuid_def list_all_append list_all_replicate list.pred_inject)
    (simp add: lower_char_classes del: list.set)

text \<open>
  An identifier parses to its one canonical spelling: the result is an identifier that parses to
  itself, and two accepted texts parse to the same identifier exactly when they differ in letter case
  only.
\<close>

theorem parse_application_id_canonical:
  assumes "parse_application_id k v = Inr i"
  shows "is_application_id i \<and> parse_application_id k' i = Inr i \<and> length i = 36
    \<and> (\<forall>w. parse_application_id k' w = Inr i \<longleftrightarrow> to_lower w = to_lower v)"
proof -
  from assms have m: "matches application_uuid v" and i: "i = to_lower v"
    by (auto simp: parse_application_id_def split: if_splits)
  have "length v = 36" using matches_length [OF m] by (simp add: application_uuid_def)
  then have l: "length i = 36" by (simp add: i to_lower_def)
  have "parse_application_id k' w = Inr i \<longleftrightarrow> to_lower w = to_lower v" for w
    using m matches_to_lower [of w] matches_to_lower [of v]
    by (auto simp: parse_application_id_def i simp del: matches_to_lower)
  with m i l show ?thesis
    by (simp add: is_application_id_def parse_application_id_def)
qed

theorem parse_application_id_canonical_witness:
  "is_application_id ''0190a1b2-c3d4-7e5f-8a6b-0123456789ab''"
proof -
  have "parse_application_id Job ''0190A1B2-C3D4-7E5F-8A6B-0123456789AB''
      = Inr ''0190a1b2-c3d4-7e5f-8a6b-0123456789ab''"
    by code_simp
  from parse_application_id_canonical [OF this] show ?thesis by simp
qed

end
