(* ===== verification/Instants.thy ===== *)
theory Instants
  imports Prelude
begin

text \<open>
  UTC instants, \<open>packages/kernel/src/time.ts\<close>. \<open>parse_instant\<close> accepts the RFC 3339 form with up to
  three fraction digits, normalizes it to milliseconds and requires a real calendar instant;
  \<open>date_parse\<close> is \<open>Date.parse\<close> of a canonical instant, by the day arithmetic of the ECMAScript
  specification. The code compares instants as strings in some places and as milliseconds in others;
  the main theorem is that the two orders agree on canonical instants.
\<close>

section \<open>Definitions\<close>

definition is_char :: "char \<Rightarrow> char \<Rightarrow> bool" where
  "is_char c d \<longleftrightarrow> d = c"

text \<open>The part of the regular expression \<open>UTC_INSTANT\<close> before the fraction.\<close>

definition instant_head :: "(char \<Rightarrow> bool) list" where
  "instant_head =
     replicate 4 digit @ [is_char CHR ''-''] @ replicate 2 digit @ [is_char CHR ''-'']
     @ replicate 2 digit @ [is_char CHR ''T''] @ replicate 2 digit @ [is_char CHR '':'']
     @ replicate 2 digit @ [is_char CHR '':''] @ replicate 2 digit"

text \<open>The optional fraction group and the final \<open>Z\<close>: the digits matched, empty when absent.\<close>

definition instant_fraction :: "string \<Rightarrow> string option" where
  "instant_fraction s =
     (if s = ''Z'' then Some []
      else if s \<noteq> [] \<and> hd s = CHR ''.'' \<and> last s = CHR ''Z''
        \<and> 3 \<le> length s \<and> length s \<le> 5 \<and> list_all digit (butlast (tl s))
      then Some (butlast (tl s)) else None)"

definition slice :: "nat \<Rightarrow> nat \<Rightarrow> string \<Rightarrow> string" where
  "slice i j s = take (j - i) (drop i s)"

definition leap_year :: "int \<Rightarrow> bool" where
  "leap_year y \<longleftrightarrow> y mod 4 = 0 \<and> (y mod 100 \<noteq> 0 \<or> y mod 400 = 0)"

definition days_in_month :: "int \<Rightarrow> nat \<Rightarrow> nat" where
  "days_in_month y m =
     (if m \<in> {4, 6, 9, 11} then 30 else if m = 2 then (if leap_year y then 29 else 28) else 31)"

text \<open>Days before a month and before a year, counted from 1970.\<close>

definition days_before_month :: "int \<Rightarrow> nat \<Rightarrow> nat" where
  "days_before_month y m = sum_list (map (days_in_month y) [1..<m])"

definition days_before_year :: "int \<Rightarrow> int" where
  "days_before_year y =
     365 * (y - 1970) + (y - 1969) div 4 - (y - 1901) div 100 + (y - 1601) div 400"

text \<open>Year, month, day, hour, minute, second and millisecond of a canonical instant.\<close>

type_synonym instant_fields = "nat \<times> nat \<times> nat \<times> nat \<times> nat \<times> nat \<times> nat"

definition instant_fields :: "string \<Rightarrow> instant_fields" where
  "instant_fields s =
     (decimal_value (slice 0 4 s), decimal_value (slice 5 7 s), decimal_value (slice 8 10 s),
      decimal_value (slice 11 13 s), decimal_value (slice 14 16 s), decimal_value (slice 17 19 s),
      decimal_value (slice 20 23 s))"

fun real_instant :: "instant_fields \<Rightarrow> bool" where
  "real_instant (y, mo, d, h, mi, se, ms) \<longleftrightarrow>
     1 \<le> mo \<and> mo \<le> 12 \<and> 1 \<le> d \<and> d \<le> days_in_month (int y) mo \<and> h < 24 \<and> mi < 60 \<and> se < 60
     \<and> ms < 1000"

fun epoch_ms :: "instant_fields \<Rightarrow> int" where
  "epoch_ms (y, mo, d, h, mi, se, ms) =
     (((days_before_year (int y) + int (days_before_month (int y) mo) + int d - 1) * 24 + int h) * 60
       + int mi) * 60000 + int se * 1000 + int ms"

definition parse_instant :: "string \<Rightarrow> (unit, string) outcome" where
  "parse_instant value =
     (if \<not> matches instant_head (take 19 value) then Inl TypeErr
      else (case instant_fraction (drop 19 value) of
        None \<Rightarrow> Inl TypeErr
      | Some fraction \<Rightarrow>
          (let milliseconds = fraction @ replicate (3 - length fraction) CHR ''0'';
               canonical = take 19 value @ CHR ''.'' # milliseconds @ [CHR ''Z''] in
           if real_instant (instant_fields canonical) then Inr canonical else Inl TypeErr)))"

definition date_parse :: "string \<Rightarrow> int" where
  "date_parse s = epoch_ms (instant_fields s)"

text \<open>A string that is already a canonical instant.\<close>

definition canonical_instant :: "string \<Rightarrow> bool" where
  "canonical_instant s \<longleftrightarrow> parse_instant s = Inr s"

section \<open>Canonical instants\<close>

definition instant_pattern :: "(char \<Rightarrow> bool) list" where
  "instant_pattern = instant_head @ [is_char CHR ''.''] @ replicate 3 digit @ [is_char CHR ''Z'']"

lemma length_instant_head [simp]: "length instant_head = 19"
  by (simp add: instant_head_def)

lemma length_instant_pattern [simp]: "length instant_pattern = 24"
  by (simp add: instant_pattern_def)

lemma fraction_digits:
  "instant_fraction s = Some f \<Longrightarrow> length f \<le> 3 \<and> list_all digit f"
  by (auto simp: instant_fraction_def split: if_splits)

lemma digit_zero [simp]: "digit CHR ''0''"
  by (simp add: digit_def code_of_def)

lemma matches_digits: "matches (replicate n digit) s \<longleftrightarrow> length s = n \<and> list_all digit s"
proof (induction n arbitrary: s)
  case 0
  then show ?case by auto
next
  case (Suc n)
  then show ?case by (cases s) auto
qed

lemma parse_instant_result:
  assumes "parse_instant v = Inr c"
  shows "matches instant_pattern c" and "real_instant (instant_fields c)"
proof -
  from assms obtain f where h: "matches instant_head (take 19 v)"
    and f: "instant_fraction (drop 19 v) = Some f"
    and c: "c = take 19 v @ CHR ''.'' # (f @ replicate (3 - length f) CHR ''0'') @ [CHR ''Z'']"
    and real: "real_instant (instant_fields c)"
    by (auto simp: parse_instant_def Let_def split: if_splits option.splits)
  from h have len: "length (take 19 v) = 19" by (auto dest: matches_length)
  from fraction_digits [OF f]
  have "matches (replicate 3 digit) (f @ replicate (3 - length f) CHR ''0'')"
    by (auto simp: matches_digits list_all_iff)
  with len h c show "matches instant_pattern c"
    using fraction_digits [OF f]
    by (simp add: instant_pattern_def matches_append is_char_def)
  show "real_instant (instant_fields c)" by (rule real)
qed

lemma fraction_of_three:
  "list_all digit f \<Longrightarrow> length f = 3 \<Longrightarrow> instant_fraction (CHR ''.'' # f @ [CHR ''Z'']) = Some f"
  by (auto simp: instant_fraction_def)

lemma instant_pattern_split:
  assumes "matches instant_pattern c"
  obtains f where "c = take 19 c @ CHR ''.'' # f @ [CHR ''Z'']" "list_all digit f" "length f = 3"
    "matches instant_head (take 19 c)" "drop 19 c = CHR ''.'' # f @ [CHR ''Z'']"
proof -
  from assms have h: "matches instant_head (take 19 c)"
    and t: "matches ([is_char CHR ''.''] @ replicate 3 digit @ [is_char CHR ''Z'']) (drop 19 c)"
    by (simp_all add: instant_pattern_def matches_append del: append.simps)
  from t obtain g where g: "drop 19 c = CHR ''.'' # g"
    and gm: "matches (replicate 3 digit @ [is_char CHR ''Z'']) g"
    by (cases "drop 19 c") (auto simp: is_char_def)
  from gm have f: "length (take 3 g) = 3" "list_all digit (take 3 g)"
    and z: "matches [is_char CHR ''Z''] (drop 3 g)"
    by (simp_all add: matches_append matches_digits)
  from z have "drop 3 g = ''Z''" by (cases "drop 3 g") (auto simp: is_char_def)
  then have "g = take 3 g @ ''Z''" by (metis append_take_drop_id)
  with g f h that [of "take 3 g"] show ?thesis by (metis append_take_drop_id)
qed

lemma canonical_instant_iff:
  "canonical_instant c \<longleftrightarrow> matches instant_pattern c \<and> real_instant (instant_fields c)"
proof
  assume "canonical_instant c"
  then show "matches instant_pattern c \<and> real_instant (instant_fields c)"
    using parse_instant_result by (auto simp: canonical_instant_def)
next
  assume c: "matches instant_pattern c \<and> real_instant (instant_fields c)"
  then obtain f where f: "c = take 19 c @ CHR ''.'' # f @ [CHR ''Z'']" "list_all digit f"
    "length f = 3" "matches instant_head (take 19 c)" "drop 19 c = CHR ''.'' # f @ [CHR ''Z'']"
    by (auto elim: instant_pattern_split)
  then show "canonical_instant c"
    using c fraction_of_three [OF f(2,3)]
    by (simp add: canonical_instant_def parse_instant_def flip: f(1))
qed

lemma parse_instant_canonical: "parse_instant v = Inr c \<Longrightarrow> canonical_instant c"
  using parse_instant_result by (simp add: canonical_instant_iff)

lemma canonical_instant_length: "canonical_instant c \<Longrightarrow> length c = 24"
  by (auto simp: canonical_instant_iff dest: matches_length)


section \<open>The calendar\<close>

lemma div_plus_one:
  fixes z n :: int
  assumes "1 < n"
  shows "(z + 1) div n = z div n + (if (z + 1) mod n = 0 then 1 else 0)"
proof -
  define q r where "q = z div n" and "r = z mod n"
  have z: "z + 1 = (r + 1) + n * q" and r: "0 \<le> r" "r < n"
    using assms by (simp_all add: q_def r_def)
  show ?thesis
  proof (cases "r + 1 = n")
    case True
    with z assms have "z + 1 = n * (q + 1)" by (simp add: algebra_simps)
    with assms show ?thesis by (simp add: q_def)
  next
    case False
    with r have s: "0 \<le> r + 1" "r + 1 < n" by simp_all
    have z': "z + 1 = n * q + (r + 1)" using z by simp
    have "(z + 1) div n = q" by (rule int_div_pos_eq [OF z' s])
    moreover have "(z + 1) mod n = r + 1" by (rule int_mod_pos_eq [OF z' s])
    ultimately show ?thesis using r(1) by (simp add: q_def)
  qed
qed

lemma four: "((y :: int) - 1968) div 4 = (y - 1969) div 4 + (if y mod 4 = 0 then 1 else 0)"
  by presburger

lemma hundred: "((y :: int) - 1900) div 100 = (y - 1901) div 100 + (if y mod 100 = 0 then 1 else 0)"
proof -
  have "y - 1901 + 1 = y - 1900" "(y - 1900) mod 100 = y mod 100"
    using mod_mult_self2 [of y 100 "- 19"] by simp_all
  with div_plus_one [of 100 "y - 1901"] show ?thesis by simp
qed

lemma four_hundred:
  "((y :: int) - 1600) div 400 = (y - 1601) div 400 + (if y mod 400 = 0 then 1 else 0)"
proof -
  have "y - 1601 + 1 = y - 1600" "(y - 1600) mod 400 = y mod 400"
    using mod_mult_self2 [of y 400 "- 4"] by simp_all
  with div_plus_one [of 400 "y - 1601"] show ?thesis by simp
qed

lemma year_sum:
  "a' - b' + c' = a - b + c + k \<Longrightarrow>
   365 * (y + 1 - 1970) + a' - b' + c' = 365 * (y - 1970) + a - b + c + (365 + (k :: int))"
  by simp

lemma shift_years:
  "(y :: int) + 1 - 1969 = y - 1968" "y + 1 - 1901 = y - 1900" "y + 1 - 1601 = y - 1600"
  by simp_all

lemma days_before_year_Suc:
  "days_before_year (y + 1) = days_before_year y + (if leap_year y then 366 else 365)"
proof -
  have "y mod 400 = 0 \<Longrightarrow> y mod 100 = 0" "y mod 100 = 0 \<Longrightarrow> y mod 4 = 0"
    using mod_mod_cancel [of 100 400 y] mod_mod_cancel [of 4 100 y] by auto
  then consider "y mod 4 \<noteq> 0" "y mod 100 \<noteq> 0" "y mod 400 \<noteq> 0"
    | "y mod 4 = 0" "y mod 100 \<noteq> 0" "y mod 400 \<noteq> 0"
    | "y mod 4 = 0" "y mod 100 = 0" "y mod 400 \<noteq> 0"
    | "y mod 4 = 0" "y mod 100 = 0" "y mod 400 = 0"
    by argo
  then have "(y - 1968) div 4 - (y - 1900) div 100 + (y - 1600) div 400 =
      (y - 1969) div 4 - (y - 1901) div 100 + (y - 1601) div 400 + (if leap_year y then 1 else 0)"
    unfolding four hundred four_hundred leap_year_def by cases simp_all
  note sum = year_sum [OF this, of y]
  have "365 + (if leap_year y then 1 else 0) = (if leap_year y then 366 else 365 :: int)" by simp
  with sum show ?thesis unfolding days_before_year_def shift_years by (simp only:)
qed

lemma days_before_year_mono:
  assumes "y < z"
  shows "days_before_year y + (if leap_year y then 366 else 365) \<le> days_before_year z"
proof -
  have "days_before_year (y + 1) \<le> days_before_year (y + int (Suc n))" for n
  proof (induction n)
    case (Suc n)
    with days_before_year_Suc [of "y + int (Suc n)"] show ?case
      by (simp add: ac_simps split: if_splits)
  qed simp
  moreover obtain n where "z = y + int (Suc n)"
    using assms by (auto simp: zless_iff_Suc_zadd)
  ultimately show ?thesis by (simp add: days_before_year_Suc)
qed

lemma days_before_month_Suc:
  "1 \<le> m \<Longrightarrow> days_before_month y (Suc m) = days_before_month y m + days_in_month y m"
  by (simp add: days_before_month_def)

lemma days_before_month_mono:
  "1 \<le> m \<Longrightarrow> m < n \<Longrightarrow> days_before_month y m + days_in_month y m \<le> days_before_month y n"
proof (induction n)
  case (Suc n)
  then show ?case
    by (cases "m = n") (simp_all add: days_before_month_Suc)
qed simp

lemma days_before_month_13: "days_before_month y 13 = (if leap_year y then 366 else 365)"
  by (simp add: days_before_month_def days_in_month_def upt_rec)

text \<open>The number of a day, and its order: year, month and day compare lexicographically.\<close>

definition day_number :: "nat \<Rightarrow> nat \<Rightarrow> nat \<Rightarrow> int" where
  "day_number y mo d = days_before_year (int y) + int (days_before_month (int y) mo) + int d - 1"

definition real_date :: "nat \<Rightarrow> nat \<Rightarrow> nat \<Rightarrow> bool" where
  "real_date y mo d \<longleftrightarrow> 1 \<le> mo \<and> mo \<le> 12 \<and> 1 \<le> d \<and> d \<le> days_in_month (int y) mo"

lemma day_number_in_year:
  assumes "real_date y mo d"
  shows "days_before_year (int y) \<le> day_number y mo d"
    and "day_number y mo d < days_before_year (int y) + (if leap_year (int y) then 366 else 365)"
proof -
  have "days_before_month (int y) mo + days_in_month (int y) mo \<le> days_before_month (int y) 13"
    using assms by (intro days_before_month_mono) (simp_all add: real_date_def)
  with assms show "days_before_year (int y) \<le> day_number y mo d"
    and "day_number y mo d < days_before_year (int y) + (if leap_year (int y) then 366 else 365)"
    by (auto simp: day_number_def real_date_def days_before_month_13)
qed

lemma day_number_less:
  assumes "real_date y mo d" "real_date y' mo' d'" "(y, mo, d) < (y', mo', d')"
  shows "day_number y mo d < day_number y' mo' d'"
proof -
  consider "y < y'" | "y = y'" "mo < mo'" | "y = y'" "mo = mo'" "d < d'"
    using assms(3) unfolding lex_less_pair by blast
  then show ?thesis
  proof cases
    case 1
    with day_number_in_year [OF assms(1)] day_number_in_year(1) [OF assms(2)]
      days_before_year_mono [of "int y" "int y'"]
    show ?thesis by simp
  next
    case 2
    with assms days_before_month_mono [of mo mo' "int y"] show ?thesis
      by (simp add: day_number_def real_date_def)
  next
    case 3
    then show ?thesis by (simp add: day_number_def)
  qed
qed

lemma epoch_ms_day:
  "epoch_ms (y, mo, d, h, mi, se, ms) =
     day_number y mo d * 86400000 + int (h * 3600000 + mi * 60000 + se * 1000 + ms)"
  by (simp add: day_number_def algebra_simps)

lemma epoch_ms_less:
  assumes "real_instant a" "real_instant b" "a < b"
  shows "epoch_ms a < epoch_ms b"
proof -
  obtain y mo d h mi se ms where a: "a = (y, mo, d, h, mi, se, ms)" by (cases a)
  obtain y' mo' d' h' mi' se' ms' where b: "b = (y', mo', d', h', mi', se', ms')" by (cases b)
  have ra: "real_date y mo d" "h < 24" "mi < 60" "se < 60" "ms < 1000"
    and rb: "real_date y' mo' d'" "h' < 24" "mi' < 60" "se' < 60" "ms' < 1000"
    using assms a b by (simp_all add: real_date_def)
  let ?t = "h * 3600000 + mi * 60000 + se * 1000 + ms"
  let ?t' = "h' * 3600000 + mi' * 60000 + se' * 1000 + ms'"
  have t: "?t < 86400000" using ra by linarith
  consider "(y, mo, d) < (y', mo', d')"
    | "y = y'" "mo = mo'" "d = d'" "(h, mi, se, ms) < (h', mi', se', ms')"
    using assms(3) unfolding a b lex_less_pair by blast
  then show ?thesis
  proof cases
    case 1
    from day_number_less [OF ra(1) rb(1) 1] t show ?thesis
      unfolding a b epoch_ms_day by linarith
  next
    case 2
    from 2(4) consider "h < h'" | "h = h'" "mi < mi'" | "h = h'" "mi = mi'" "se < se'"
      | "h = h'" "mi = mi'" "se = se'" "ms < ms'"
      unfolding lex_less_pair by blast
    then have "?t < ?t'" using ra rb by cases linarith+
    with 2 show ?thesis unfolding a b epoch_ms_day by simp
  qed
qed

section \<open>String order is time order\<close>

lemma less_take_drop:
  "length (a :: string) = length b \<Longrightarrow>
   a < b \<longleftrightarrow> take n a < take n b \<or> take n a = take n b \<and> drop n a < drop n b"
  by (metis append_take_drop_id length_take less_append_same_length)

lemma drop_separator_less:
  assumes "n < length (a :: string)" "n < length b" "a ! n = b ! n"
  shows "drop n a < drop n b \<longleftrightarrow> drop (Suc n) a < drop (Suc n) b"
  using assms by (simp add: Cons_nth_drop_Suc [symmetric])

lemma field_less:
  assumes "length (a :: string) = length b" "i < j" "j < length b" "a ! j = b ! j"
    "list_all digit (slice i j a)" "list_all digit (slice i j b)"
  shows "drop i a < drop i b \<longleftrightarrow>
    (decimal_value (slice i j a), drop (Suc j) a) < (decimal_value (slice i j b), drop (Suc j) b)"
proof -
  have "drop i a < drop i b \<longleftrightarrow> slice i j a < slice i j b
      \<or> slice i j a = slice i j b \<and> drop j a < drop j b"
    using less_take_drop [of "drop i a" "drop i b" "j - i"] assms by (simp add: slice_def)
  moreover have "length (slice i j a) = length (slice i j b)" using assms by (simp add: slice_def)
  ultimately show ?thesis
    using assms digits_less [of "slice i j a" "slice i j b"] digits_eq [of "slice i j a" "slice i j b"]
      drop_separator_less [of j a b]
    by auto
qed

lemma matches_nth: "matches ps s \<Longrightarrow> i < length ps \<Longrightarrow> (ps ! i) (s ! i)"
  by (simp add: matches_def list_all2_conv_all_nth)

lemma instant_pattern_nth:
  assumes "matches instant_pattern c"
  shows "c ! 4 = CHR ''-''" "c ! 7 = CHR ''-''" "c ! 10 = CHR ''T''" "c ! 13 = CHR '':''"
    "c ! 16 = CHR '':''" "c ! 19 = CHR ''.''" "c ! 23 = CHR ''Z''"
  using matches_nth [OF assms, of 4] matches_nth [OF assms, of 7] matches_nth [OF assms, of 10]
    matches_nth [OF assms, of 13] matches_nth [OF assms, of 16] matches_nth [OF assms, of 19]
    matches_nth [OF assms, of 23]
  by (simp_all add: instant_pattern_def instant_head_def numeral_eq_Suc is_char_def)

lemma instant_pattern_digit:
  assumes "matches instant_pattern c" "i < 24" "i \<notin> {4, 7, 10, 13, 16, 19, 23}"
  shows "digit (c ! i)"
proof -
  have "instant_pattern ! i = digit"
    using assms(2,3) by (auto simp: instant_pattern_def instant_head_def numeral_eq_Suc less_Suc_eq)
  with matches_nth [OF assms(1), of i] assms(2) show ?thesis by simp
qed

lemma instant_slice_digits:
  assumes "matches instant_pattern c" "j \<le> 24" "{i..<j} \<inter> {4, 7, 10, 13, 16, 19, 23} = {}"
  shows "list_all digit (slice i j c)"
proof -
  have "length c = 24" using matches_length [OF assms(1)] by simp
  moreover have "digit (c ! k)" if "i \<le> k" "k < j" for k
    using that assms by (intro instant_pattern_digit) auto
  ultimately show ?thesis
    using assms(2) by (auto simp: list_all_length slice_def)
qed

lemma instant_string_less:
  assumes "matches instant_pattern a" "matches instant_pattern b"
  shows "a < b \<longleftrightarrow> instant_fields a < instant_fields b"
proof -
  have len: "length a = 24" "length b = 24" using assms by (auto dest: matches_length)
  note nth = instant_pattern_nth [OF assms(1)] instant_pattern_nth [OF assms(2)]
  note dig = instant_slice_digits [OF assms(1)] instant_slice_digits [OF assms(2)]
  note f = field_less [of a b, unfolded len]
  have "drop 24 a < drop 24 b \<longleftrightarrow> False" using len by simp
  with f [of 0 4] f [of 5 7] f [of 8 10] f [of 11 13] f [of 14 16] f [of 17 19] f [of 20 23]
  show ?thesis
    by (simp add: nth dig instant_fields_def)
qed

text \<open>
  C37. On canonical instants the order of the strings, which the lease and schedule code compares,
  is the order of the points in time, which the duration checks compute with \<open>Date.parse\<close>.
\<close>

theorem instant_order_agrees:
  assumes "canonical_instant a" and "canonical_instant b"
  shows "a < b \<longleftrightarrow> date_parse a < date_parse b"
proof -
  have r: "real_instant (instant_fields a)" "real_instant (instant_fields b)"
    and less: "a < b \<longleftrightarrow> instant_fields a < instant_fields b"
    using assms instant_string_less by (simp_all add: canonical_instant_iff)
  have "instant_fields a < instant_fields b \<longleftrightarrow> date_parse a < date_parse b"
    using epoch_ms_less [OF r] epoch_ms_less [OF r(2,1)] unfolding date_parse_def
    by (metis linorder_neqE less_asym less_irrefl)
  with less show ?thesis by simp
qed

theorem instant_order_agrees_witness:
  "''2026-02-28T23:59:59.999Z'' < ''2026-03-01T00:00:00.000Z''"
proof (rule instant_order_agrees [THEN iffD2])
  show "canonical_instant ''2026-02-28T23:59:59.999Z''" by code_simp
  show "canonical_instant ''2026-03-01T00:00:00.000Z''" by code_simp
  show "date_parse ''2026-02-28T23:59:59.999Z'' < date_parse ''2026-03-01T00:00:00.000Z''"
    by code_simp
qed

text \<open>
  Parsing is idempotent and total on its own results: what \<open>parse_instant\<close> returns is a 24
  character instant that it accepts unchanged.
\<close>

theorem parse_instant_idempotent:
  assumes "parse_instant v = Inr c"
  shows "parse_instant c = Inr c \<and> length c = 24 \<and> take 19 c = take 19 v"
proof -
  have "canonical_instant c" using assms by (rule parse_instant_canonical)
  moreover from assms have "matches instant_head (take 19 v)" "take 19 c = take 19 (take 19 v)"
    by (auto simp: parse_instant_def Let_def dest!: matches_length split: if_splits option.splits)
  ultimately show ?thesis
    by (simp add: canonical_instant_length canonical_instant_def [symmetric])
qed

theorem parse_instant_idempotent_witness:
  "parse_instant ''2026-07-20T09:00:00.000Z'' = Inr ''2026-07-20T09:00:00.000Z''"
proof -
  have "parse_instant ''2026-07-20T09:00:00Z'' = Inr ''2026-07-20T09:00:00.000Z''" by code_simp
  from parse_instant_idempotent [OF this] show ?thesis by simp
qed


section \<open>A sample clock\<close>

text \<open>Ten instants one second apart, for the examples of the other theories.\<close>

definition clock :: "nat \<Rightarrow> string" where
  "clock k = ''2026-08-11T00:00:0'' @ char_of (48 + k) # ''.000Z''"

lemma clock_fields: "k < 10 \<Longrightarrow> instant_fields (clock k) = (2026, 8, 11, 0, 0, k, 0)"
  by (simp add: instant_fields_def slice_def clock_def decimal_value_def code_of_def)

lemma clock_parse [simp]: "k < 10 \<Longrightarrow> parse_instant (clock k) = Inr (clock k)"
proof -
  assume k: "k < 10"
  have p: "instant_pattern = [digit, digit, digit, digit, is_char CHR ''-'', digit, digit,
      is_char CHR ''-'', digit, digit, is_char CHR ''T'', digit, digit, is_char CHR '':'', digit, digit,
      is_char CHR '':'', digit, digit, is_char CHR ''.'', digit, digit, digit, is_char CHR ''Z'']"
    by (simp add: instant_pattern_def instant_head_def numeral_eq_Suc)
  have "matches instant_pattern (clock k)"
    using k unfolding p by (simp add: clock_def is_char_def digit_def code_of_def)
  moreover have "real_instant (instant_fields (clock k))"
    using k by (simp add: clock_fields days_in_month_def)
  ultimately show ?thesis by (simp add: canonical_instant_iff flip: canonical_instant_def)
qed

lemma clock_date [simp]: "k < 10 \<Longrightarrow> date_parse (clock k) = 1786406400000 + 1000 * int k"
  by (simp add: date_parse_def clock_fields days_before_year_def days_before_month_def
      days_in_month_def leap_year_def upt_rec)

lemma clock_less [simp]: "j < 10 \<Longrightarrow> k < 10 \<Longrightarrow> clock j < clock k \<longleftrightarrow> j < k"
  unfolding clock_def by (simp add: less_append_same_length less_char_def)

lemma clock_eq [simp]: "j < 10 \<Longrightarrow> k < 10 \<Longrightarrow> clock j = clock k \<longleftrightarrow> j = k"
  by (metis clock_less less_irrefl linorder_neqE_nat)

lemma clock_le [simp]: "j < 10 \<Longrightarrow> k < 10 \<Longrightarrow> clock j \<le> clock k \<longleftrightarrow> j \<le> k"
  using clock_less [of k j] by (auto simp: not_less [symmetric] simp del: clock_less)

end
