(* ===== verification/WorkState.thy ===== *)
theory WorkState
  imports Identifiers Instants "HOL-Library.Sublist"
begin

text \<open>
  Leased work, \<open>packages/reliability/src/work-state.ts\<close>: the states, leases, counters and time
  checks that consumer deliveries and jobs share, the attempt log both keep, and an abstract
  lease machine. The locale \<open>leased_work\<close> is the contract of a component that hands out
  fenced leases; its lemmas say what every history of such a component satisfies.
\<close>

section \<open>Definitions of the code\<close>

datatype reliability_code =
    Duplicate_identity | Not_ready | Lease_busy | Attempt_limit | Reconciliation_required
  | External_retry_forbidden | Terminal | Lost_fence | Unknown_attempt | Binding_collision
  | Invalid_time

type_synonym 'a work_result = "(reliability_code, 'a) outcome"

datatype work_state = Pending | Leased | RetryWait | Succeeded | DeadLettered | Cancelled

datatype failure_classification = Transient | Permanent | Ambiguous

record safe_failure =
  sf_code :: string
  sf_classification :: failure_classification

record work_lease =
  wl_fence :: int
  wl_ownerKey :: string
  wl_attemptId :: string
  wl_expiresAt :: string

definition parse_lease_fence :: "int \<Rightarrow> int work_result" where
  "parse_lease_fence value = (if \<not> safe_integer value \<or> value \<le> 0 then Inl TypeErr else Inr value)"

definition parse_attempt_number :: "int \<Rightarrow> int work_result" where
  "parse_attempt_number value = (if \<not> safe_integer value \<or> value \<le> 0 then Inl TypeErr else Inr value)"

definition next_fence :: "int option \<Rightarrow> int work_result" where
  "next_fence current = parse_lease_fence ((case current of None \<Rightarrow> 0 | Some f \<Rightarrow> f) + 1)"

definition next_attempt_number :: "nat \<Rightarrow> int work_result" where
  "next_attempt_number currentCount = parse_attempt_number (int currentCount + 1)"

definition next_aggregate_version :: "int \<Rightarrow> int work_result" where
  "next_aggregate_version current = widen (positive_version (current + 1))"

definition canonical_instant_of :: "string \<Rightarrow> string work_result" where
  "canonical_instant_of value = widen (parse_instant value)"

definition assert_after :: "string \<Rightarrow> string \<Rightarrow> unit work_result" where
  "assert_after later earlier =
     rbind (canonical_instant_of later) (\<lambda>l. rbind (canonical_instant_of earlier) (\<lambda>e.
       if l \<le> e then Inl (Refused Invalid_time) else Inr ()))"

definition assert_not_before :: "string \<Rightarrow> string \<Rightarrow> unit work_result" where
  "assert_not_before later earlier =
     rbind (canonical_instant_of later) (\<lambda>l. rbind (canonical_instant_of earlier) (\<lambda>e.
       if l < e then Inl (Refused Invalid_time) else Inr ()))"

definition assert_within_duration :: "string \<Rightarrow> string \<Rightarrow> int \<Rightarrow> unit work_result" where
  "assert_within_duration later earlier maximumDurationMs =
     (if date_parse later - date_parse earlier > maximumDurationMs then Inl (Refused Invalid_time)
      else Inr ())"

definition lower_letter :: "char \<Rightarrow> bool" where
  "lower_letter c \<longleftrightarrow> 97 \<le> code_of c \<and> code_of c \<le> 122"

definition assert_safe_code :: "string \<Rightarrow> unit work_result" where
  "assert_safe_code value =
     (if value \<noteq> [] \<and> lower_letter (hd value) \<and> length value \<le> 128
        \<and> list_all (\<lambda>c. lower_letter c \<or> digit c \<or> c \<in> set ''_.-'') (tl value)
      then Inr () else Inl TypeErr)"

definition assert_worker_key :: "string \<Rightarrow> unit work_result" where
  "assert_worker_key value =
     (if value = [] \<or> 160 < length value \<or> js_trim value \<noteq> value then Inl TypeErr else Inr ())"

definition is_terminal :: "work_state \<Rightarrow> bool" where
  "is_terminal state \<longleftrightarrow> state = Succeeded \<or> state = DeadLettered \<or> state = Cancelled"

text \<open>
  An attempt runs or is finished. Deliveries and jobs keep the same log; a job's finished attempt
  also has a result, the type variable \<open>'r\<close>.
\<close>

datatype attempt_end = ESucceeded | ERetryScheduled | EDeadLettered | ECancelled | ELostFence

datatype 'r attempt =
    Running (at_id: string) (at_number: int) (at_fence: int) (at_startedAt: string)
  | Finished (at_id: string) (at_number: int) (at_fence: int) (at_state: attempt_end)
      (at_startedAt: string) (at_completedAt: string) (at_result: 'r)
      (at_failure: "safe_failure option")

fun running :: "'r attempt \<Rightarrow> bool" where
  "running (Running _ _ _ _) = True"
| "running (Finished _ _ _ _ _ _ _ _) = False"

lemmas work_defs = next_fence_def parse_lease_fence_def next_attempt_number_def
  parse_attempt_number_def next_aggregate_version_def positive_version_def

section \<open>The attempt log\<close>

text \<open>
  What the fields of leased work have to do with one another: the attempts are numbered and fenced 1
  to n, the current fence is n, the work is leased exactly while it has a lease, and the lease
  belongs to the last attempt, which is then the one running attempt that can complete.
\<close>

definition log_ok ::
  "work_state \<Rightarrow> int option \<Rightarrow> work_lease option \<Rightarrow> 'r attempt list \<Rightarrow> bool" where
  "log_ok state fence lease attempts \<longleftrightarrow>
     map at_number attempts = [1..int (length attempts)]
     \<and> map at_fence attempts = [1..int (length attempts)]
     \<and> distinct (map at_id attempts)
     \<and> fence = (if attempts = [] then None else Some (int (length attempts)))
     \<and> (state = Leased \<longleftrightarrow> lease \<noteq> None)
     \<and> (case lease of
          None \<Rightarrow> attempts = [] \<or> \<not> running (last attempts)
        | Some l \<Rightarrow> attempts \<noteq> [] \<and> running (last attempts) \<and> wl_fence l = int (length attempts)
            \<and> wl_attemptId l = at_id (last attempts))"

lemma log_ok_initial: "log_ok Pending None None []"
  by (simp add: log_ok_def)

lemma upto_snoc: "[1..1 + int n] = [1..int n] @ [1 + int n]"
  by (simp add: upto_rec2)

lemma next_fence_log:
  "log_ok s f l as \<Longrightarrow> next_fence f = Inr g \<Longrightarrow> g = int (length as) + 1"
  by (auto simp: next_fence_def parse_lease_fence_def log_ok_def split: if_splits)

lemma next_attempt_number_value: "next_attempt_number n = Inr k \<Longrightarrow> k = int n + 1"
  by (auto simp: next_attempt_number_def parse_attempt_number_def split: if_splits)

lemma next_aggregate_version_value: "next_aggregate_version v = Inr w \<Longrightarrow> w = v + 1 \<and> positive_safe w"
  by (simp add: next_aggregate_version_def widen_Inr_iff positive_version_iff)

lemma log_ok_claim:
  assumes "log_ok s f l as" "i \<notin> at_id ` set as" "g = int (length as) + 1" "n = int (length as) + 1"
  shows "log_ok Leased (Some g) (Some \<lparr> wl_fence = g, wl_ownerKey = ow, wl_attemptId = i,
    wl_expiresAt = ex \<rparr>) (as @ [Running i n g t])"
  using assms by (auto simp: log_ok_def upto_snoc add.commute)

lemma map_update_same: "i < length xs \<Longrightarrow> f y = f (xs ! i) \<Longrightarrow> map f (xs[i := y]) = map f xs"
  by (simp add: map_update) (metis list_update_id nth_map)

text \<open>The active attempt is the last one.\<close>

lemma active_index:
  assumes "log_ok s f (Some l) as"
    and "find_index (\<lambda>a. at_id a = wl_attemptId l \<and> running a) as = Some i"
  shows "as \<noteq> []" "Suc i = length as" "running (as ! i)" "at_fence (as ! i) = wl_fence l"
proof -
  from assms(1) have ne: "as \<noteq> []" and d: "distinct (map at_id as)"
    and id: "wl_attemptId l = at_id (last as)" and fe: "map at_fence as = [1..int (length as)]"
    and lf: "wl_fence l = int (length as)"
    by (simp_all add: log_ok_def)
  from find_index_Some [OF assms(2)] have i: "i < length as" "at_id (as ! i) = wl_attemptId l"
    and r: "running (as ! i)" by auto
  have "map at_id as ! i = map at_id as ! (length as - 1)"
    using i id ne by (simp add: last_conv_nth)
  with d i(1) ne have "i = length as - 1"
    by (subst (asm) nth_eq_iff_index_eq) simp_all
  with ne i(1) show "Suc i = length as" by simp
  have "at_fence (as ! i) = [1..int (length as)] ! i"
    using i(1) by (simp flip: fe)
  also have "\<dots> = int i + 1" using i(1) by simp
  finally show "at_fence (as ! i) = wl_fence l" using \<open>Suc i = length as\<close> lf by simp
  show "as \<noteq> []" "running (as ! i)" by (fact ne r)+
qed

lemma last_update_other: "Suc i < length xs \<Longrightarrow> last (xs[i := y]) = last xs"
  by (cases xs rule: rev_cases) (simp_all add: list_update_append)

lemma log_ok_complete:
  assumes "log_ok s f (Some l) as" "s' \<noteq> Leased"
    and "find_index (\<lambda>a. at_id a = wl_attemptId l \<and> running a) as = Some i"
    and "at_id a = at_id (as ! i)" "at_number a = at_number (as ! i)"
      "at_fence a = at_fence (as ! i)" "\<not> running a"
  shows "log_ok s' f None (as[i := a])"
proof -
  note i = active_index [OF assms(1,3)]
  have "last (as[i := a]) = a" using i(1,2) by (cases as rule: rev_cases) (simp_all add: list_update_append)
  with assms i show ?thesis by (auto simp: log_ok_def map_update_same)
qed

lemma log_ok_lost:
  assumes "log_ok s (Some f) l as" "i < length as" "at_fence (as ! i) < f"
    and "at_id a = at_id (as ! i)" "at_number a = at_number (as ! i)" "at_fence a = at_fence (as ! i)"
  shows "log_ok s (Some f) l (as[i := a])"
proof -
  from assms(1) have fe: "map at_fence as = [1..int (length as)]" and f: "f = int (length as)"
    by (auto simp: log_ok_def split: if_splits)
  have "at_fence (as ! i) = [1..int (length as)] ! i" using assms(2) by (simp flip: fe)
  with assms(2,3) f have "Suc i < length as" by simp
  from last_update_other [OF this, of a] assms show ?thesis
    by (auto simp: log_ok_def map_update_same split: option.splits)
qed

text \<open>Only the last attempt has the current fence: no attempt with a lower one is the leased one.\<close>

lemma log_fence_nth: "log_ok s f l as \<Longrightarrow> i < length as \<Longrightarrow> at_fence (as ! i) = int i + 1"
proof -
  assume ok: "log_ok s f l as" and i: "i < length as"
  then have "map at_fence as ! i = [1..int (length as)] ! i" by (simp add: log_ok_def)
  with i show ?thesis by simp
qed

section \<open>The abstract lease machine\<close>

text \<open>
  A lease is a fence counter and the fence that holds it, if any. A claim takes the next fence, a
  completion needs the fence that holds it, and other observations change nothing.
\<close>

type_synonym lease_view = "int \<times> int option"

datatype lease_event = Claimed int | Completed int | Observed

fun lease_next :: "lease_event \<Rightarrow> lease_view \<Rightarrow> lease_view option" where
  "lease_next (Claimed f) (n, h) = (if f = n + 1 then Some (f, Some f) else None)"
| "lease_next (Completed f) (n, h) = (if h = Some f then Some (n, None) else None)"
| "lease_next Observed v = Some v"

fun lease_run :: "lease_event list \<Rightarrow> lease_view \<Rightarrow> lease_view option" where
  "lease_run [] v = Some v"
| "lease_run (e # es) v = (case lease_next e v of None \<Rightarrow> None | Some w \<Rightarrow> lease_run es w)"

fun claims :: "lease_event list \<Rightarrow> int list" where
  "claims [] = []"
| "claims (Claimed f # es) = f # claims es"
| "claims (e # es) = claims es"

fun completions :: "lease_event list \<Rightarrow> int list" where
  "completions [] = []"
| "completions (Completed f # es) = f # completions es"
| "completions (e # es) = completions es"

definition held :: "int option \<Rightarrow> int list" where
  "held h = (case h of None \<Rightarrow> [] | Some f \<Rightarrow> [f])"

lemma lease_run_history:
  "lease_run es (n, h) = Some (n', h') \<Longrightarrow>
   n \<le> n' \<and> claims es = [n + 1..n'] \<and> subseq (completions es) (held h @ claims es)"
proof (induction es arbitrary: n h)
  case Nil
  then show ?case by simp
next
  case (Cons e es)
  show ?case
  proof (cases e)
    case (Claimed f)
    with Cons.prems have f: "f = n + 1" and r: "lease_run es (n + 1, Some (n + 1)) = Some (n', h')"
      by (auto split: if_splits)
    from Cons.IH [OF r] show ?thesis
      by (auto simp: Claimed f held_def upto_rec1 [of "n + 1"] intro: list_emb_append2)
  next
    case (Completed f)
    with Cons.prems have "h = Some f" "lease_run es (n, None) = Some (n', h')"
      by (auto split: if_splits)
    moreover from Cons.IH [OF this(2)] have "n \<le> n'" "claims es = [n + 1..n']"
      "subseq (completions es) (claims es)"
      unfolding held_def option.case append.simps by blast+
    ultimately show ?thesis by (simp add: Completed held_def)
  next
    case Observed
    with Cons.prems have "lease_run es (n, h) = Some (n', h')" by simp
    from Cons.IH [OF this] show ?thesis unfolding Observed claims.simps completions.simps .
  qed
qed

section \<open>Components that hand out leases\<close>

text \<open>Running commands against a component; a refused command leaves the work as it was.\<close>

fun run_commands :: "('c \<Rightarrow> 'w \<Rightarrow> 'e + 'w) \<Rightarrow> 'c list \<Rightarrow> 'w \<Rightarrow> 'w" where
  "run_commands step [] w = w"
| "run_commands step (c # cs) w =
     (case step c w of Inl _ \<Rightarrow> run_commands step cs w | Inr w' \<Rightarrow> run_commands step cs w')"

fun run_events ::
  "('c \<Rightarrow> 'w \<Rightarrow> 'e + 'w) \<Rightarrow> ('c \<Rightarrow> 'w \<Rightarrow> lease_event) \<Rightarrow> 'c list \<Rightarrow> 'w \<Rightarrow> lease_event list" where
  "run_events step event [] w = []"
| "run_events step event (c # cs) w =
     (case step c w of Inl _ \<Rightarrow> run_events step event cs w
      | Inr w' \<Rightarrow> event c w # run_events step event cs w')"

lemma run_commands_append:
  "run_commands step (cs @ cs') w = run_commands step cs' (run_commands step cs w)"
  by (induction cs arbitrary: w) (simp_all split: sum.splits)

text \<open>What every accepted command keeps, a history keeps.\<close>

lemma run_commands_induct:
  assumes "P w" and "\<And>c w w'. P w \<Longrightarrow> step c w = Inr w' \<Longrightarrow> P w'"
  shows "P (run_commands step cs w)"
  using assms by (induction cs arbitrary: w) (auto split: sum.splits)

locale leased_work =
  fixes step :: "'c \<Rightarrow> 'w \<Rightarrow> 'e + 'w"
    and event :: "'c \<Rightarrow> 'w \<Rightarrow> lease_event"
    and ok :: "'w \<Rightarrow> bool"
    and view :: "'w \<Rightarrow> lease_view"
    and version :: "'w \<Rightarrow> int"
  assumes step_ok: "ok w \<Longrightarrow> step c w = Inr w' \<Longrightarrow> ok w'"
    and step_lease: "ok w \<Longrightarrow> step c w = Inr w' \<Longrightarrow> lease_next (event c w) (view w) = Some (view w')"
    and step_version: "ok w \<Longrightarrow> step c w = Inr w' \<Longrightarrow> version w' = version w + 1"
begin

lemma run_ok: "ok w \<Longrightarrow> ok (run_commands step cs w)"
  by (induction cs arbitrary: w) (auto dest: step_ok split: sum.splits)

lemma run_lease:
  "ok w \<Longrightarrow> lease_run (run_events step event cs w) (view w) = Some (view (run_commands step cs w))"
proof (induction cs arbitrary: w)
  case (Cons c cs)
  show ?case
  proof (cases "step c w")
    case (Inr w')
    with Cons.IH [OF step_ok [OF Cons.prems Inr]] step_lease [OF Cons.prems Inr] show ?thesis by simp
  qed (use Cons in simp)
qed simp

lemma run_version:
  "ok w \<Longrightarrow> version (run_commands step cs w) = version w + int (length (run_events step event cs w))"
proof (induction cs arbitrary: w)
  case (Cons c cs)
  show ?case
  proof (cases "step c w")
    case (Inr w')
    with Cons.IH [OF step_ok [OF Cons.prems Inr]] step_version [OF Cons.prems Inr] show ?thesis by simp
  qed (use Cons in simp)
qed simp

text \<open>From unleased work: fences are claimed one by one, and each completes at most once, in order.\<close>

lemma run_history:
  assumes "ok w" "view w = (0, None)"
  shows "claims (run_events step event cs w) = [1..fst (view (run_commands step cs w))]"
    and "subseq (completions (run_events step event cs w)) (claims (run_events step event cs w))"
proof -
  let ?es = "run_events step event cs w"
  obtain n h where v: "view (run_commands step cs w) = (n, h)" by (cases "view (run_commands step cs w)")
  from run_lease [OF assms(1), of cs] have "lease_run ?es (0, None) = Some (n, h)"
    by (simp add: assms(2) v)
  note h = lease_run_history [OF this]
  from h show "claims ?es = [1..fst (view (run_commands step cs w))]" by (simp add: v)
  from h show "subseq (completions ?es) (claims ?es)" unfolding held_def option.case append.simps by blast
qed

text \<open>A fence that was overtaken by a later claim never completes again.\<close>

lemma overtaken_fence_refused:
  assumes "ok w" "view w = (n, h)" "f < n"
    and "\<And>w. event c w = Completed f" and "\<And>w g. ok w \<Longrightarrow> snd (view w) = Some g \<Longrightarrow> g = fst (view w)"
  shows "\<exists>e. step c (run_commands step cs w) = Inl e"
proof (cases "step c (run_commands step cs w)")
  case (Inr w')
  let ?w = "run_commands step cs w"
  obtain n' h' where v: "view ?w = (n', h')" by (cases "view ?w")
  from run_lease [OF assms(1), of cs] have "lease_run (run_events step event cs w) (n, h) = Some (n', h')"
    by (simp add: assms(2) v)
  then have "n \<le> n'" by (rule lease_run_history [THEN conjunct1])
  moreover have ok: "ok ?w" using assms(1) by (rule run_ok)
  moreover from step_lease [OF ok Inr] have "h' = Some f" by (simp add: assms(4) v split: if_splits)
  ultimately show ?thesis using assms(3) assms(5) [OF ok, of f] by (simp add: v)
qed simp

end

text \<open>
  Work that is claimed only while nobody holds it: the workers take turns, and every claim but an
  open one at the end has its own completion.
\<close>

locale serial_work = leased_work step event ok view version
  for step :: "'c \<Rightarrow> 'w \<Rightarrow> 'e + 'w" and event ok view version +
  assumes claim_unheld:
    "ok w \<Longrightarrow> step c w = Inr w' \<Longrightarrow> event c w = Claimed f \<Longrightarrow> snd (view w) = None"
begin

lemma run_serial:
  "ok w \<Longrightarrow> held (snd (view w)) @ claims (run_events step event cs w)
     = completions (run_events step event cs w) @ held (snd (view (run_commands step cs w)))"
proof (induction cs arbitrary: w)
  case (Cons c cs)
  show ?case
  proof (cases "step c w")
    case (Inr w')
    note l = step_lease [OF Cons.prems Inr] and ih = Cons.IH [OF step_ok [OF Cons.prems Inr]]
    obtain n h where v: "view w = (n, h)" by (cases "view w")
    show ?thesis
    proof (cases "event c w")
      case (Claimed f)
      then have "h = None" using claim_unheld [OF Cons.prems Inr, of f] v by simp
      moreover from l have "view w' = (f, Some f)" by (simp add: Claimed v split: if_splits)
      ultimately show ?thesis using ih by (simp add: Inr Claimed v held_def)
    next
      case (Completed f)
      from l have "h = Some f" "view w' = (n, None)" by (simp_all add: Completed v split: if_splits)
      then show ?thesis using ih by (simp add: Inr Completed v held_def)
    next
      case Observed
      from l have "view w' = view w" by (simp add: Observed)
      then show ?thesis using ih by (simp add: Inr Observed)
    qed
  qed (use Cons in simp)
qed simp

end

end
