(* ===== verification/Definitions.thy ===== *)
theory Definitions
  imports WorkState
begin

text \<open>
  References to registered definitions, \<open>packages/reliability/src/definitions.ts\<close>: keys, digests and
  the parsers that make exact references of them.
\<close>

record definition_ref =
  dr_kind :: string
  dr_key :: string
  dr_version :: int

definition key_char :: "char \<Rightarrow> bool" where
  "key_char c \<longleftrightarrow> lower_letter c \<or> digit c"

text \<open>What may follow the first letter of \<open>DEFINITION_KEY\<close>: a separator stands between key characters.\<close>

fun key_rest :: "string \<Rightarrow> bool" where
  "key_rest [] = True"
| "key_rest (c # s) =
     (if key_char c then key_rest s
      else c \<in> set ''._-'' \<and> (case s of [] \<Rightarrow> False | d # t \<Rightarrow> key_char d \<and> key_rest t))"

definition definition_key :: "string \<Rightarrow> bool" where
  "definition_key s \<longleftrightarrow> (case s of [] \<Rightarrow> False | c # t \<Rightarrow> lower_letter c \<and> key_rest t)"

definition parse_definition_key :: "string \<Rightarrow> string work_result" where
  "parse_definition_key value =
     (if 160 < length value \<or> \<not> definition_key value then Inl TypeErr else Inr value)"

definition sha256_hex :: "string \<Rightarrow> bool" where
  "sha256_hex s \<longleftrightarrow> length s = 64 \<and> list_all lower_hex s"

definition parse_canonical_sha256 :: "string \<Rightarrow> string work_result" where
  "parse_canonical_sha256 value = (if \<not> sha256_hex value then Inl TypeErr else Inr value)"

definition make_definition_ref :: "string \<Rightarrow> string \<Rightarrow> int \<Rightarrow> definition_ref work_result" where
  "make_definition_ref kind key version =
     rbind (parse_definition_key key) (\<lambda>k.
     rbind (widen (positive_version version)) (\<lambda>v.
       Inr \<lparr> dr_kind = kind, dr_key = k, dr_version = v \<rparr>))"

record schema_ref =
  sr_key :: string
  sr_version :: int
  sr_digest :: string

definition make_schema_ref :: "string \<Rightarrow> int \<Rightarrow> string \<Rightarrow> schema_ref work_result" where
  "make_schema_ref key version digest =
     rbind (parse_definition_key key) (\<lambda>k.
     rbind (widen (positive_version version)) (\<lambda>v.
     rbind (parse_canonical_sha256 digest) (\<lambda>d.
       Inr \<lparr> sr_key = k, sr_version = v, sr_digest = d \<rparr>)))"

datatype consumer_output_kind = Projection | JobRequest | ApplicationOperation

record consumer_definition =
  cd_key :: string
  cd_version :: int
  cd_digest :: string
  cd_acceptedSources :: "definition_ref list"
  cd_inputSchema :: schema_ref
  cd_resultSchema :: schema_ref
  cd_inputProjection :: definition_ref
  cd_targetOperation :: definition_ref
  cd_capabilityRevisionId :: string
  cd_authorityCitation :: definition_ref
  cd_maximumAttempts :: int
  cd_leaseDurationMs :: int
  cd_backoff :: definition_ref
  cd_outputKind :: consumer_output_kind
  cd_replay :: definition_ref
  cd_removal :: definition_ref

datatype external_retry_policy = Forbidden | AnchorInspectionOnly

record job_definition =
  jd_key :: string
  jd_version :: int
  jd_digest :: string
  jd_inputSchema :: schema_ref
  jd_resultSchema :: schema_ref
  jd_errorDetailSchema :: schema_ref
  jd_source :: definition_ref
  jd_scopeCausation :: definition_ref
  jd_inputProjection :: definition_ref
  jd_targetOperation :: definition_ref
  jd_capabilityRevisionId :: string
  jd_authorityCitation :: definition_ref
  jd_leaseDurationMs :: int
  jd_maximumAttempts :: int
  jd_backoff :: definition_ref
  jd_timeoutMs :: int
  jd_cancellation :: definition_ref
  jd_externalRetryPolicy :: external_retry_policy

end
