(* ===== verification/Delivery.thy ===== *)
theory Delivery
  imports Definitions Json
begin

text \<open>
  Consumer deliveries, \<open>packages/reliability/src/delivery.ts\<close>: planning the fan-out of an outbox
  pointer to the consumers that accept its source, and the life of one delivery: claimed by a worker
  under a fenced lease, completed, or recorded as overtaken. A delivery is interpreted as leased work,
  and the properties say that fencing, the attempt policy and the semantic identities hold in every
  history.
\<close>

section \<open>Data\<close>

record outbox_pointer =
  op_key :: string
  op_source :: definition_ref
  op_sourceIdentity :: string
  op_sourceVersion :: int
  op_availableAt :: string

record delivery_draft =
  dd_semanticKey :: string
  dd_pointer :: outbox_pointer
  dd_consumer :: definition_ref
  dd_definitionDigest :: string
  dd_targetOperation :: definition_ref
  dd_inputProjection :: definition_ref
  dd_capabilityRevisionId :: string
  dd_authorityCitation :: definition_ref
  dd_maximumAttempts :: int
  dd_leaseDurationMs :: int

text \<open>A delivery attempt has no result of its own.\<close>

type_synonym delivery_attempt = "unit attempt"

record delivery = delivery_draft +
  dl_id :: string
  dl_state :: work_state
  dl_version :: int
  dl_currentFence :: "int option"
  dl_lease :: "work_lease option"
  dl_nextActionAt :: "string option"
  dl_attempts :: "delivery_attempt list"

record fanout_plan =
  fp_existing :: "delivery list"
  fp_creations :: "delivery_draft list"

section \<open>Fan-out\<close>

text \<open>The regular expressions \<open>^ptr1_[A-Za-z0-9_-]{8,160}$\<close> and \<open>^src1_[A-Za-z0-9_-]{8,200}$\<close>.\<close>

definition opaque_char :: "char \<Rightarrow> bool" where
  "opaque_char c \<longleftrightarrow> digit c \<or> lower_letter c \<or> 65 \<le> code_of c \<and> code_of c \<le> 90 \<or> c \<in> set ''_-''"

definition opaque_identity :: "string \<Rightarrow> nat \<Rightarrow> nat \<Rightarrow> string \<Rightarrow> bool" where
  "opaque_identity tag low high s \<longleftrightarrow>
     take (length tag) s = tag
     \<and> (let body = drop (length tag) s in
        low \<le> length body \<and> length body \<le> high \<and> list_all opaque_char body)"

definition parse_outbox_pointer_key :: "string \<Rightarrow> string work_result" where
  "parse_outbox_pointer_key value =
     (if \<not> opaque_identity ''ptr1_'' 8 160 value then Inl TypeErr else Inr value)"

definition parse_opaque_source_identity :: "string \<Rightarrow> string work_result" where
  "parse_opaque_source_identity value =
     (if \<not> opaque_identity ''src1_'' 8 200 value then Inl TypeErr else Inr value)"

definition semantic_key_json :: "outbox_pointer \<Rightarrow> definition_ref \<Rightarrow> json" where
  "semantic_key_json p consumer =
     JObj [(''consumer'', JObj [(''key'', JStr (dr_key consumer)), (''version'', JNum (dr_version consumer))]),
       (''pointer'', JStr (op_key p)),
       (''source'', JObj [(''identity'', JStr (op_sourceIdentity p)),
         (''key'', JStr (dr_key (op_source p))), (''kind'', JStr (dr_kind (op_source p))),
         (''version'', JNum (dr_version (op_source p)))])]"

definition delivery_semantic_key :: "outbox_pointer \<Rightarrow> definition_ref \<Rightarrow> string" where
  "delivery_semantic_key p consumer = canonical (semantic_key_json p consumer)"

text \<open>The text \<open>`${key}\u0000${version}`\<close> of an exact consumer.\<close>

definition exact_consumer :: "consumer_definition \<Rightarrow> string" where
  "exact_consumer c = cd_key c @ CHR 0x00 # int_text (cd_version c)"

definition compare_consumers :: "consumer_definition \<Rightarrow> consumer_definition \<Rightarrow> int" where
  "compare_consumers l r = js_compare (exact_consumer l) (exact_consumer r)"

definition accepts_source :: "consumer_definition \<Rightarrow> outbox_pointer \<Rightarrow> bool" where
  "accepts_source c p \<longleftrightarrow>
     list_ex (\<lambda>a. dr_kind a = dr_kind (op_source p) \<and> dr_key a = dr_key (op_source p)
       \<and> dr_version a = dr_version (op_source p)) (cd_acceptedSources c)"

definition consumer_ref :: "consumer_definition \<Rightarrow> definition_ref" where
  "consumer_ref c = \<lparr> dr_kind = ''consumer'', dr_key = cd_key c, dr_version = cd_version c \<rparr>"

definition draft_for :: "outbox_pointer \<Rightarrow> consumer_definition \<Rightarrow> delivery_draft" where
  "draft_for p c =
     \<lparr> dd_semanticKey = delivery_semantic_key p (consumer_ref c), dd_pointer = p,
       dd_consumer = consumer_ref c, dd_definitionDigest = cd_digest c,
       dd_targetOperation = cd_targetOperation c, dd_inputProjection = cd_inputProjection c,
       dd_capabilityRevisionId = cd_capabilityRevisionId c,
       dd_authorityCitation = cd_authorityCitation c,
       dd_maximumAttempts = cd_maximumAttempts c, dd_leaseDurationMs = cd_leaseDurationMs c \<rparr>"

text \<open>The loop over the sorted consumers, with the consumers seen so far.\<close>

fun fanout_loop ::
  "outbox_pointer \<Rightarrow> string list \<Rightarrow> string list \<Rightarrow> consumer_definition list \<Rightarrow> delivery_draft list work_result"
where
  "fanout_loop p existingKeys consumerKeys [] = Inr []"
| "fanout_loop p existingKeys consumerKeys (c # cs) =
     (if exact_consumer c \<in> set consumerKeys then Inl (Refused Duplicate_identity)
      else (let rest = fanout_loop p existingKeys (exact_consumer c # consumerKeys) cs in
        if \<not> accepts_source c p then rest
        else if delivery_semantic_key p (consumer_ref c) \<in> set existingKeys then rest
        else rbind rest (\<lambda>creations. Inr (draft_for p c # creations))))"

definition plan_consumer_fanout ::
  "outbox_pointer \<Rightarrow> consumer_definition list \<Rightarrow> delivery list \<Rightarrow> fanout_plan work_result"
where
  "plan_consumer_fanout p consumers existing =
     rbind (canonical_instant_of (op_availableAt p)) (\<lambda>availableAt.
       if \<not> distinct (map dd_semanticKey existing) then Inl (Refused Duplicate_identity)
       else rbind (fanout_loop (p\<lparr> op_availableAt := availableAt \<rparr>) (map dd_semanticKey existing) []
           (js_sort compare_consumers consumers))
         (\<lambda>creations. Inr \<lparr> fp_existing = existing, fp_creations = creations \<rparr>))"

definition materialize_delivery :: "delivery_draft \<Rightarrow> string \<Rightarrow> delivery" where
  "materialize_delivery draft did = delivery_draft.extend draft
     \<lparr> dl_id = did, dl_state = Pending, dl_version = 1, dl_currentFence = None, dl_lease = None,
       dl_nextActionAt = Some (op_availableAt (dd_pointer draft)), dl_attempts = [] \<rparr>"

section \<open>The life of a delivery\<close>

record claim_input =
  ci_attemptId :: string
  ci_ownerKey :: string
  ci_now :: string
  ci_leaseExpiresAt :: string

fun lost :: "'r attempt \<Rightarrow> bool" where
  "lost (Finished _ _ _ e _ _ _ _) = (e = ELostFence)"
| "lost (Running _ _ _ _) = False"

definition count_policy_attempts :: "delivery_attempt list \<Rightarrow> int" where
  "count_policy_attempts as = foldl (\<lambda>n a. n + (if lost a then 0 else 1)) 0 as"

definition expired_attempt :: "delivery \<Rightarrow> delivery_attempt option" where
  "expired_attempt d =
     (case (dl_state d, dl_lease d) of
        (Leased, Some l) \<Rightarrow> find (\<lambda>a. at_id a = wl_attemptId l \<and> running a) (dl_attempts d)
      | _ \<Rightarrow> None)"

definition claim_consumer_delivery :: "delivery \<Rightarrow> claim_input \<Rightarrow> delivery work_result" where
  "claim_consumer_delivery d i =
     rbind (canonical_instant_of (ci_now i)) (\<lambda>now.
     rbind (canonical_instant_of (ci_leaseExpiresAt i)) (\<lambda>leaseExpiresAt.
     rbind (assert_after leaseExpiresAt now) (\<lambda>_.
     rbind (assert_within_duration leaseExpiresAt now (dd_leaseDurationMs d)) (\<lambda>_.
     rbind (assert_worker_key (ci_ownerKey i)) (\<lambda>_.
     rbind (ensure (\<not> is_terminal (dl_state d)) (Refused Terminal)) (\<lambda>_.
     rbind (ensure (\<not> (dl_state d = Leased
         \<and> (case dl_lease d of Some l \<Rightarrow> wl_expiresAt l > now | None \<Rightarrow> False))) (Refused Lease_busy)) (\<lambda>_.
     rbind (ensure (\<not> (dl_state d \<noteq> Leased
         \<and> (case dl_nextActionAt d of Some t \<Rightarrow> t > now | None \<Rightarrow> False))) (Refused Not_ready)) (\<lambda>_.
     rbind (ensure (\<not> (count_policy_attempts (dl_attempts d)
         - (if expired_attempt d = None then 0 else 1) \<ge> dd_maximumAttempts d))
       (Refused Attempt_limit)) (\<lambda>_.
     rbind (ensure (\<not> list_ex (\<lambda>a. at_id a = ci_attemptId i) (dl_attempts d))
       (Refused Duplicate_identity)) (\<lambda>_.
     rbind (next_fence (dl_currentFence d)) (\<lambda>fence.
     rbind (next_attempt_number (length (dl_attempts d))) (\<lambda>n.
     rbind (next_aggregate_version (dl_version d)) (\<lambda>version.
       Inr (d\<lparr> dl_state := Leased, dl_version := version, dl_currentFence := Some fence,
         dl_lease := Some \<lparr> wl_fence = fence, wl_ownerKey = ci_ownerKey i,
           wl_attemptId = ci_attemptId i, wl_expiresAt = leaseExpiresAt \<rparr>,
         dl_nextActionAt := None,
         dl_attempts := dl_attempts d @ [Running (ci_attemptId i) n fence now] \<rparr>))))))))))))))"

datatype delivery_completion =
    DSucceeded
  | DRetry string safe_failure
  | DDeadLettered safe_failure
  | DCancelled string

text \<open>The new state, the state of the attempt, the next action and the failure of a completion.\<close>

definition settle_failure ::
  "delivery \<Rightarrow> string \<Rightarrow> string option \<Rightarrow> safe_failure
   \<Rightarrow> (work_state \<times> attempt_end \<times> string option \<times> safe_failure option) work_result"
where
  "settle_failure d completedAt retry failure =
     rbind (assert_safe_code (sf_code failure)) (\<lambda>_.
       case retry of
         Some retryAt' \<Rightarrow>
           if count_policy_attempts (dl_attempts d) < dd_maximumAttempts d
           then rbind (canonical_instant_of retryAt') (\<lambda>retryAt.
             rbind (assert_after retryAt completedAt) (\<lambda>_.
               Inr (RetryWait, ERetryScheduled, Some retryAt, Some failure)))
           else Inr (DeadLettered, EDeadLettered, None, Some failure)
       | None \<Rightarrow> Inr (DeadLettered, EDeadLettered, None, Some failure))"

fun settle_delivery ::
  "delivery \<Rightarrow> string \<Rightarrow> delivery_completion
   \<Rightarrow> (work_state \<times> attempt_end \<times> string option \<times> safe_failure option) work_result"
where
  "settle_delivery d completedAt DSucceeded = Inr (Succeeded, ESucceeded, None, None)"
| "settle_delivery d completedAt (DCancelled reason) =
     rbind (assert_safe_code reason) (\<lambda>_. Inr (Cancelled, ECancelled, None, None))"
| "settle_delivery d completedAt (DRetry retryAt failure) =
     settle_failure d completedAt (Some retryAt) failure"
| "settle_delivery d completedAt (DDeadLettered failure) = settle_failure d completedAt None failure"

definition complete_consumer_delivery ::
  "delivery \<Rightarrow> int \<Rightarrow> string \<Rightarrow> delivery_completion \<Rightarrow> delivery work_result"
where
  "complete_consumer_delivery d fence completedAtValue completion =
     rbind (canonical_instant_of completedAtValue) (\<lambda>completedAt.
     rbind (need (Refused Lost_fence)
       (if dl_state d \<noteq> Leased \<or> dl_currentFence d \<noteq> Some fence then None else dl_lease d)) (\<lambda>l.
     rbind (ensure (wl_fence l = fence) (Refused Lost_fence)) (\<lambda>_.
     rbind (need (Refused Unknown_attempt)
       (find_index (\<lambda>a. at_id a = wl_attemptId l \<and> running a) (dl_attempts d))) (\<lambda>ix.
     rbind (assert_not_before completedAt (at_startedAt (dl_attempts d ! ix))) (\<lambda>_.
     rbind (settle_delivery d completedAt completion) (\<lambda>(state, attemptState, nextActionAt, failure).
     rbind (next_aggregate_version (dl_version d)) (\<lambda>version.
       let active = dl_attempts d ! ix in
       Inr (d\<lparr> dl_state := state, dl_version := version, dl_lease := None,
         dl_nextActionAt := nextActionAt,
         dl_attempts := (dl_attempts d)[ix := Finished (at_id active) (at_number active)
           (at_fence active) attemptState (at_startedAt active) completedAt () failure] \<rparr>))))))))"

definition record_consumer_lost_fence :: "delivery \<Rightarrow> string \<Rightarrow> string \<Rightarrow> delivery work_result" where
  "record_consumer_lost_fence d attemptId observedAtValue =
     rbind (canonical_instant_of observedAtValue) (\<lambda>observedAt.
     rbind (need (Refused Unknown_attempt)
       (find_index (\<lambda>a. at_id a = attemptId \<and> running a) (dl_attempts d))) (\<lambda>ix.
     rbind (need (Refused Lost_fence) (dl_currentFence d)) (\<lambda>current.
     rbind (ensure (\<not> at_fence (dl_attempts d ! ix) \<ge> current) (Refused Lost_fence)) (\<lambda>_.
     rbind (assert_not_before observedAt (at_startedAt (dl_attempts d ! ix))) (\<lambda>_.
     rbind (next_aggregate_version (dl_version d)) (\<lambda>version.
       let attempt = dl_attempts d ! ix in
       Inr (d\<lparr> dl_version := version,
         dl_attempts := (dl_attempts d)[ix := Finished (at_id attempt) (at_number attempt)
           (at_fence attempt) ELostFence (at_startedAt attempt) observedAt () None] \<rparr>)))))))"

section \<open>Histories\<close>

datatype delivery_command =
    DClaim claim_input
  | DComplete int string delivery_completion
  | DLost string string

fun delivery_step :: "delivery_command \<Rightarrow> delivery \<Rightarrow> delivery work_result" where
  "delivery_step (DClaim i) d = claim_consumer_delivery d i"
| "delivery_step (DComplete f t c) d = complete_consumer_delivery d f t c"
| "delivery_step (DLost a t) d = record_consumer_lost_fence d a t"

definition delivery_view :: "delivery \<Rightarrow> lease_view" where
  "delivery_view d = ((case dl_currentFence d of None \<Rightarrow> 0 | Some f \<Rightarrow> f), map_option wl_fence (dl_lease d))"

fun delivery_event :: "delivery_command \<Rightarrow> delivery \<Rightarrow> lease_event" where
  "delivery_event (DClaim _) d = Claimed (fst (delivery_view d) + 1)"
| "delivery_event (DComplete f _ _) d = Completed f"
| "delivery_event (DLost _ _) d = Observed"

text \<open>Attempts that ended and are charged to the policy.\<close>

definition charged :: "delivery_attempt list \<Rightarrow> int" where
  "charged as = int (length (filter (\<lambda>a. \<not> running a \<and> \<not> lost a) as))"

definition delivery_ok :: "delivery \<Rightarrow> bool" where
  "delivery_ok d \<longleftrightarrow>
     log_ok (dl_state d) (dl_currentFence d) (dl_lease d) (dl_attempts d)
     \<and> charged (dl_attempts d) + (if dl_state d = Leased then 1 else 0) \<le> max 0 (dd_maximumAttempts d)"


section \<open>Successful operations\<close>

lemma claim_successD:
  assumes "claim_consumer_delivery d i = Inr d'"
  obtains now ex f n v where
    "parse_instant (ci_now i) = Inr now" "\<not> is_terminal (dl_state d)"
    "count_policy_attempts (dl_attempts d) - (if expired_attempt d = None then 0 else 1)
       < dd_maximumAttempts d"
    "ci_attemptId i \<notin> at_id ` set (dl_attempts d)"
    "next_fence (dl_currentFence d) = Inr f" "next_attempt_number (length (dl_attempts d)) = Inr n"
    "next_aggregate_version (dl_version d) = Inr v"
    "d' = d\<lparr> dl_state := Leased, dl_version := v, dl_currentFence := Some f,
       dl_lease := Some \<lparr> wl_fence = f, wl_ownerKey = ci_ownerKey i,
         wl_attemptId = ci_attemptId i, wl_expiresAt = ex \<rparr>,
       dl_nextActionAt := None,
       dl_attempts := dl_attempts d @ [Running (ci_attemptId i) n f now] \<rparr>"
  using assms unfolding claim_consumer_delivery_def
  by (elim stepsE, intro that) (auto simp: list_ex_iff not_le canonical_instant_of_def widen_Inr_iff)

lemma settle_state:
  "settle_delivery d t c = Inr (s, e, na, fl) \<Longrightarrow> s \<noteq> Leased \<and> s \<noteq> Pending \<and> e \<noteq> ELostFence"
  by (cases c) (auto simp: settle_failure_def outcome_iffs split: option.splits if_splits)

lemma complete_successD:
  assumes "complete_consumer_delivery d f t c = Inr d'"
  obtains l ix a s e na fl v at where
    "dl_state d = Leased" "dl_lease d = Some l" "dl_currentFence d = Some f" "wl_fence l = f"
    "find_index (\<lambda>a. at_id a = wl_attemptId l \<and> running a) (dl_attempts d) = Some ix"
    "a = dl_attempts d ! ix" "settle_delivery d at c = Inr (s, e, na, fl)"
    "next_aggregate_version (dl_version d) = Inr v"
    "d' = d\<lparr> dl_state := s, dl_version := v, dl_lease := None, dl_nextActionAt := na,
       dl_attempts := (dl_attempts d)[ix := Finished (at_id a) (at_number a) (at_fence a) e
         (at_startedAt a) at () fl] \<rparr>"
proof -
  from assms obtain l ix p v at where
    l: "(if dl_state d \<noteq> Leased \<or> dl_currentFence d \<noteq> Some f then None else dl_lease d) = Some l"
      "wl_fence l = f"
    and ix: "find_index (\<lambda>a. at_id a = wl_attemptId l \<and> running a) (dl_attempts d) = Some ix"
    and p: "settle_delivery d at c = Inr p" and v: "next_aggregate_version (dl_version d) = Inr v"
    and r: "rbind (Inr v) (\<lambda>version. let active = dl_attempts d ! ix; (s, e, na, fl) = p in
       Inr (d\<lparr> dl_state := s, dl_version := version, dl_lease := None, dl_nextActionAt := na,
         dl_attempts := (dl_attempts d)[ix := Finished (at_id active) (at_number active)
           (at_fence active) e (at_startedAt active) at () fl] \<rparr>)) = (Inr d' :: delivery work_result)"
    unfolding complete_consumer_delivery_def
    by (elim stepsE) (auto elim!: rbind_InrE)
  obtain s e na fl where "p = (s, e, na, fl)" by (cases p)
  with l ix p v r show ?thesis
    by (intro that [of l ix "dl_attempts d ! ix" at s e na fl v]) (auto simp: Let_def split: if_splits)
qed

lemma lost_successD:
  assumes "record_consumer_lost_fence d i t = Inr d'"
  obtains ix a f v at where
    "find_index (\<lambda>a. at_id a = i \<and> running a) (dl_attempts d) = Some ix"
    "a = dl_attempts d ! ix" "dl_currentFence d = Some f" "at_fence a < f"
    "next_aggregate_version (dl_version d) = Inr v"
    "d' = d\<lparr> dl_version := v,
       dl_attempts := (dl_attempts d)[ix := Finished (at_id a) (at_number a) (at_fence a) ELostFence
         (at_startedAt a) at () None] \<rparr>"
  using assms unfolding record_consumer_lost_fence_def Let_def
  by (elim stepsE, intro that) auto

section \<open>The invariant\<close>

lemma foldl_count: "foldl (\<lambda>n a. n + (if P a then 0 else 1)) k as = k + int (length (filter (\<lambda>a. \<not> P a) as))"
  by (induction as arbitrary: k) simp_all

lemma lost_not_running: "lost a \<Longrightarrow> \<not> running a"
  by (cases a) simp_all

lemma count_policy_split:
  "count_policy_attempts as = charged as + int (length (filter running as))"
  unfolding count_policy_attempts_def foldl_count charged_def
  by (induction as) (auto dest: lost_not_running)

lemma charged_append [simp]: "charged (as @ bs) = charged as + charged bs"
  by (simp add: charged_def)

lemma charged_single [simp]: "charged [a] = (if running a \<or> lost a then 0 else 1)" "charged [] = 0"
  by (simp_all add: charged_def)

lemma charged_update:
  "i < length as \<Longrightarrow> running (as ! i) \<Longrightarrow>
   charged (as[i := a]) = charged as + (if running a \<or> lost a then 0 else 1)"
proof -
  assume i: "i < length as" "running (as ! i)"
  then have "as = take i as @ as ! i # drop (Suc i) as" by (simp add: id_take_nth_drop)
  then have "charged as = charged (take i as) + charged [as ! i] + charged (drop (Suc i) as)"
    by (metis add.assoc append_Cons append_Nil charged_append)
  moreover have "charged (as[i := a]) = charged (take i as) + charged [a] + charged (drop (Suc i) as)"
    using i(1) by (simp add: upd_conv_take_nth_drop charged_def)
  ultimately show ?thesis using i by simp
qed

lemma charged_nonneg: "0 \<le> charged as"
  by (simp add: charged_def)

text \<open>An expired lease has its running attempt; otherwise nothing is taken off the count.\<close>

lemma expired_attempt_ok:
  assumes "log_ok (dl_state d) (dl_currentFence d) (dl_lease d) (dl_attempts d)"
  shows "(if expired_attempt d = None then 0 else 1) \<le> int (length (filter running (dl_attempts d)))"
proof (cases "expired_attempt d")
  case (Some a)
  then have "a \<in> set (dl_attempts d) \<and> running a"
    by (auto simp: expired_attempt_def find_Some_iff split: work_state.splits option.splits)
  then have "filter running (dl_attempts d) \<noteq> []" by (auto simp: filter_empty_conv)
  then show ?thesis using Some by (cases "filter running (dl_attempts d)") simp_all
qed simp

lemma claim_keeps_ok:
  assumes ok: "delivery_ok d" and c: "claim_consumer_delivery d i = Inr d'"
  shows "delivery_ok d'"
proof -
  from ok have log: "log_ok (dl_state d) (dl_currentFence d) (dl_lease d) (dl_attempts d)"
    by (simp add: delivery_ok_def)
  from c show ?thesis
  proof (rule claim_successD)
    fix now ex f n v
    assume cnt: "count_policy_attempts (dl_attempts d) - (if expired_attempt d = None then 0 else 1)
        < dd_maximumAttempts d"
      and new: "ci_attemptId i \<notin> at_id ` set (dl_attempts d)"
      and f: "next_fence (dl_currentFence d) = Inr f"
      and n: "next_attempt_number (length (dl_attempts d)) = Inr n"
      and d': "d' = d\<lparr> dl_state := Leased, dl_version := v, dl_currentFence := Some f,
       dl_lease := Some \<lparr> wl_fence = f, wl_ownerKey = ci_ownerKey i,
         wl_attemptId = ci_attemptId i, wl_expiresAt = ex \<rparr>,
       dl_nextActionAt := None,
       dl_attempts := dl_attempts d @ [Running (ci_attemptId i) n f now] \<rparr>"
    from cnt expired_attempt_ok [OF log] have "charged (dl_attempts d) < dd_maximumAttempts d"
      unfolding count_policy_split by linarith
    moreover note log_ok_claim [OF log new next_fence_log [OF log f] next_attempt_number_value [OF n]]
    ultimately show ?thesis by (simp add: d' delivery_ok_def)
  qed
qed

lemma complete_keeps_ok:
  assumes ok: "delivery_ok d" and c: "complete_consumer_delivery d f t c = Inr d'"
  shows "delivery_ok d'"
  using c
proof (rule complete_successD)
  fix l ix a s e na fl v at
  assume st: "dl_state d = Leased" "dl_lease d = Some l"
    and ix: "find_index (\<lambda>a. at_id a = wl_attemptId l \<and> running a) (dl_attempts d) = Some ix"
    and a: "a = dl_attempts d ! ix" and set: "settle_delivery d at c = Inr (s, e, na, fl)"
    and d': "d' = d\<lparr> dl_state := s, dl_version := v, dl_lease := None, dl_nextActionAt := na,
       dl_attempts := (dl_attempts d)[ix := Finished (at_id a) (at_number a) (at_fence a) e
         (at_startedAt a) at () fl] \<rparr>"
  from ok st have log: "log_ok Leased (dl_currentFence d) (Some l) (dl_attempts d)"
    and ch: "charged (dl_attempts d) + 1 \<le> max 0 (dd_maximumAttempts d)"
    by (simp_all add: delivery_ok_def)
  have s: "s \<noteq> Leased" "e \<noteq> ELostFence" using settle_state [OF set] by simp_all
  have "ix < length (dl_attempts d)" "running (dl_attempts d ! ix)"
    using find_index_Some [OF ix] by simp_all
  with ch s have "charged (dl_attempts d') \<le> max 0 (dd_maximumAttempts d)"
    by (simp add: d' charged_update)
  then show ?thesis
    using log_ok_complete [OF log s(1) ix] s by (simp add: d' delivery_ok_def a)
qed

lemma lost_keeps_ok:
  assumes ok: "delivery_ok d" and c: "record_consumer_lost_fence d i t = Inr d'"
  shows "delivery_ok d'"
  using c
proof (rule lost_successD)
  fix ix a f v at
  assume ix: "find_index (\<lambda>a. at_id a = i \<and> running a) (dl_attempts d) = Some ix"
    and a: "a = dl_attempts d ! ix" and f: "dl_currentFence d = Some f" "at_fence a < f"
    and d': "d' = d\<lparr> dl_version := v,
       dl_attempts := (dl_attempts d)[ix := Finished (at_id a) (at_number a) (at_fence a) ELostFence
         (at_startedAt a) at () None] \<rparr>"
  from find_index_Some [OF ix] have i: "ix < length (dl_attempts d)" "running (dl_attempts d ! ix)"
    by simp_all
  from ok f have "log_ok (dl_state d) (Some f) (dl_lease d) (dl_attempts d)"
    by (simp add: delivery_ok_def)
  from log_ok_lost [OF this i(1)] f a ok i show ?thesis
    by (simp add: d' delivery_ok_def charged_update)
qed

lemma delivery_step_ok: "delivery_ok d \<Longrightarrow> delivery_step c d = Inr d' \<Longrightarrow> delivery_ok d'"
  by (cases c) (auto intro: claim_keeps_ok complete_keeps_ok lost_keeps_ok)

lemma delivery_ok_lease:
  "delivery_ok d \<Longrightarrow> snd (delivery_view d) = Some g \<Longrightarrow> g = fst (delivery_view d)"
  by (auto simp: delivery_ok_def log_ok_def delivery_view_def)

lemma delivery_step_lease:
  assumes ok: "delivery_ok d" and c: "delivery_step c d = Inr d'"
  shows "lease_next (delivery_event c d) (delivery_view d) = Some (delivery_view d')"
proof (cases c)
  case (DClaim i)
  from ok have log: "log_ok (dl_state d) (dl_currentFence d) (dl_lease d) (dl_attempts d)"
    by (simp add: delivery_ok_def)
  then have n: "fst (delivery_view d) = int (length (dl_attempts d))"
    by (simp add: delivery_view_def log_ok_def)
  from c DClaim show ?thesis
    using n
    by (auto elim!: claim_successD dest!: next_fence_log [OF log]) (simp_all add: delivery_view_def)
next
  case (DComplete f t co)
  with c show ?thesis
    by (auto elim!: complete_successD simp: delivery_view_def)
next
  case (DLost a t)
  with c show ?thesis by (auto elim!: lost_successD simp: delivery_view_def)
qed

lemma delivery_step_version:
  "delivery_step c d = Inr d' \<Longrightarrow> dl_version d' = dl_version d + 1"
  by (cases c)
    (auto elim!: claim_successD complete_successD lost_successD dest!: next_aggregate_version_value)

interpretation delivery: leased_work delivery_step delivery_event delivery_ok delivery_view dl_version
  by unfold_locales (auto intro: delivery_step_ok delivery_step_lease delivery_step_version)

lemma materialized_ok: "delivery_ok (materialize_delivery draft i)"
  by (simp add: delivery_ok_def materialize_delivery_def delivery_draft.defs log_ok_initial)

lemma materialized_view: "delivery_view (materialize_delivery draft i) = (0, None)"
  by (simp add: delivery_view_def materialize_delivery_def delivery_draft.defs)


section \<open>Properties of histories\<close>

text \<open>A delivery after a list of commands, refused ones included, and the accepted events.\<close>

definition delivery_run :: "delivery_command list \<Rightarrow> delivery_draft \<Rightarrow> string \<Rightarrow> delivery" where
  "delivery_run cs draft i = run_commands delivery_step cs (materialize_delivery draft i)"

definition delivery_events :: "delivery_command list \<Rightarrow> delivery_draft \<Rightarrow> string \<Rightarrow> lease_event list" where
  "delivery_events cs draft i = run_events delivery_step delivery_event cs (materialize_delivery draft i)"

lemma delivery_run_ok: "delivery_ok (delivery_run cs draft i)"
  unfolding delivery_run_def by (rule delivery.run_ok [OF materialized_ok])

text \<open>
  C1. In every history of a delivery the claims take the fences 1, 2, 3, and so on, and the
  completions are a subsequence of the claims: each lease completes at most once, in order, and
  nothing completes without a lease. The version counts the accepted commands, the attempts the
  claims.
\<close>

theorem delivery_history:
  "claims (delivery_events cs draft i) = [1..int (length (dl_attempts (delivery_run cs draft i)))]
   \<and> subseq (completions (delivery_events cs draft i)) (claims (delivery_events cs draft i))
   \<and> dl_version (delivery_run cs draft i) = 1 + int (length (delivery_events cs draft i))"
proof -
  let ?d = "delivery_run cs draft i"
  have "fst (delivery_view ?d) = int (length (dl_attempts ?d))"
    using delivery_run_ok [of cs draft i] by (simp add: delivery_ok_def log_ok_def delivery_view_def)
  with delivery.run_history [OF materialized_ok materialized_view, of cs draft i]
    delivery.run_version [OF materialized_ok, of cs draft i]
  show ?thesis
    by (simp add: delivery_run_def delivery_events_def materialize_delivery_def delivery_draft.defs)
qed

text \<open>
  C12. Fencing: once a later claim has succeeded, whatever happens afterwards, a completion that
  presents an earlier fence is refused with \<open>lost_fence\<close> and nothing changes.
\<close>

theorem stale_completion_refused:
  assumes "claim_consumer_delivery (delivery_run before draft i) c = Inr d"
    and "f < fst (delivery_view d)" and "canonical_instant_of t = Inr t'"
  shows "complete_consumer_delivery (run_commands delivery_step after d) f t completion
    = Inl (Refused Lost_fence)"
proof -
  let ?d = "run_commands delivery_step after d"
  have ok: "delivery_ok d" using claim_keeps_ok [OF delivery_run_ok assms(1)] .
  obtain n h n' h' where v: "delivery_view d = (n, h)" "delivery_view ?d = (n', h')"
    by (metis surj_pair)
  from delivery.run_lease [OF ok, of "after"] v
  have "lease_run (run_events delivery_step delivery_event after d) (n, h) = Some (n', h')" by simp
  then have "n \<le> n'" by (rule lease_run_history [THEN conjunct1])
  with assms(2) v have "f < fst (delivery_view ?d)" by simp
  then have "dl_currentFence ?d \<noteq> Some f" by (auto simp: delivery_view_def)
  then show ?thesis by (simp add: complete_consumer_delivery_def assms(3))
qed

definition sample_pointer :: outbox_pointer where
  "sample_pointer = \<lparr> op_key = ''ptr1_abcdefgh'',
     op_source = \<lparr> dr_kind = ''domain_fact'', dr_key = ''created'', dr_version = 1 \<rparr>,
     op_sourceIdentity = ''src1_abcdefgh'', op_sourceVersion = 1,
     op_availableAt = clock 0 \<rparr>"

definition sample_draft :: delivery_draft where
  "sample_draft =
     (let r = \<lparr> dr_kind = ''k'', dr_key = ''sample'', dr_version = 1 \<rparr> in
      \<lparr> dd_semanticKey = ''semantic'', dd_pointer = sample_pointer, dd_consumer = r,
        dd_definitionDigest = ''digest'', dd_targetOperation = r, dd_inputProjection = r,
        dd_capabilityRevisionId = ''capability'', dd_authorityCitation = r,
        dd_maximumAttempts = 1, dd_leaseDurationMs = 60000 \<rparr>)"

definition sample_claim :: "string \<Rightarrow> nat \<Rightarrow> nat \<Rightarrow> claim_input" where
  "sample_claim a now expires =
     \<lparr> ci_attemptId = a, ci_ownerKey = ''w'', ci_now = clock now, ci_leaseExpiresAt = clock expires \<rparr>"

text \<open>Enough evaluation for claims on the sample clock.\<close>

lemma worker_key_w: "assert_worker_key ''w'' = Inr ()"
  by code_simp

lemma next_fence_values [simp]:
  "next_fence None = Inr 1" "0 \<le> f \<Longrightarrow> f < 1000 \<Longrightarrow> next_fence (Some f) = Inr (f + 1)"
  "n < 1000 \<Longrightarrow> next_attempt_number n = Inr (int n + 1)"
  "0 \<le> v \<Longrightarrow> v < 1000 \<Longrightarrow> next_aggregate_version v = Inr (v + 1)"
  by (simp_all add: work_defs safe_integer_def max_safe_integer_def)

lemmas sample_claim_simps = claim_consumer_delivery_def sample_claim_def canonical_instant_of_def
  assert_after_def assert_within_duration_def worker_key_w is_terminal_def ensure_def
  count_policy_attempts_def expired_attempt_def materialize_delivery_def delivery_draft.defs
  sample_draft_def sample_pointer_def Let_def

lemma sample_crashed:
  "\<exists>d. claim_consumer_delivery (materialize_delivery sample_draft []) (sample_claim ''a1'' 2 3) = Inr d
    \<and> (\<exists>d'. claim_consumer_delivery d (sample_claim ''a2'' 4 6) = Inr d' \<and> fst (delivery_view d') = 2)"
  by (simp add: sample_claim_simps) (simp add: delivery_view_def)

theorem stale_completion_refused_witness:
  "\<exists>d d'. claim_consumer_delivery (materialize_delivery sample_draft []) (sample_claim ''a1'' 2 3) = Inr d
    \<and> claim_consumer_delivery d (sample_claim ''a2'' 4 6) = Inr d'
    \<and> complete_consumer_delivery d' 1 (clock 5) DSucceeded = Inl (Refused Lost_fence)"
proof -
  obtain d d' where
    d: "claim_consumer_delivery (materialize_delivery sample_draft []) (sample_claim ''a1'' 2 3) = Inr d"
    and d': "claim_consumer_delivery d (sample_claim ''a2'' 4 6) = Inr d'" "fst (delivery_view d') = 2"
    using sample_crashed by blast
  have "d = delivery_run [DClaim (sample_claim ''a1'' 2 3)] sample_draft []"
    by (simp add: delivery_run_def d)
  with d' have "claim_consumer_delivery (delivery_run [DClaim (sample_claim ''a1'' 2 3)] sample_draft [])
      (sample_claim ''a2'' 4 6) = Inr d'" by simp
  moreover have "1 < fst (delivery_view d')" using d'(2) by simp
  moreover have "canonical_instant_of (clock 5) = Inr (clock 5)" by (simp add: canonical_instant_of_def)
  ultimately have "complete_consumer_delivery (run_commands delivery_step [] d') 1 (clock 5) DSucceeded
      = Inl (Refused Lost_fence)"
    by (rule stale_completion_refused)
  with d d' show ?thesis by auto
qed

lemma delivery_step_maximum:
  "delivery_step c d = Inr d' \<Longrightarrow> dd_maximumAttempts d' = dd_maximumAttempts d"
  by (cases c) (auto elim!: claim_successD complete_successD lost_successD)

lemma delivery_run_maximum: "dd_maximumAttempts (delivery_run cs draft i) = dd_maximumAttempts draft"
  unfolding delivery_run_def
  by (rule run_commands_induct [where P = "\<lambda>d. dd_maximumAttempts d = dd_maximumAttempts draft"])
    (simp_all add: delivery_step_maximum materialize_delivery_def delivery_draft.defs)

text \<open>
  C34. The attempt policy: in every history the attempts that ended in a result, together with the
  leased one, never exceed the registered maximum. Attempts whose fence was lost are not charged.
\<close>

theorem delivery_policy_bound:
  "charged (dl_attempts (delivery_run cs draft i))
     + (if dl_state (delivery_run cs draft i) = Leased then 1 else 0)
   \<le> max 0 (dd_maximumAttempts draft)"
  using delivery_run_ok [of cs draft i] by (simp add: delivery_ok_def delivery_run_maximum)

text \<open>
  C35. Crash recovery: whatever the history, a delivery whose lease has expired and whose overtaken
  attempts have been recorded as lost is never stuck. A well-formed claim with a new attempt id
  succeeds, even when the policy allows a single attempt.
\<close>

theorem delivery_crash_recovery:
  assumes "d = delivery_run cs draft i" and "dl_lease d = Some l" and "wl_expiresAt l \<le> ci_now c"
    and "length (filter running (dl_attempts d)) = 1"
    and "canonical_instant (ci_now c)" and "canonical_instant (ci_leaseExpiresAt c)"
    and "ci_now c < ci_leaseExpiresAt c"
    and "date_parse (ci_leaseExpiresAt c) - date_parse (ci_now c) \<le> dd_leaseDurationMs d"
    and "assert_worker_key (ci_ownerKey c) = Inr ()"
    and "ci_attemptId c \<notin> at_id ` set (dl_attempts d)"
    and "int (length (dl_attempts d)) < max_safe_integer" and "dl_version d < max_safe_integer"
  shows "\<exists>d'. claim_consumer_delivery d c = Inr d' \<and> dl_state d' = Leased
    \<and> fst (delivery_view d') = fst (delivery_view d) + 1"
proof -
  have ok: "delivery_ok d" unfolding assms(1) by (rule delivery_run_ok)
  then have log: "log_ok (dl_state d) (dl_currentFence d) (Some l) (dl_attempts d)"
    and ch: "charged (dl_attempts d) + (if dl_state d = Leased then 1 else 0) \<le> max 0 (dd_maximumAttempts d)"
    by (simp_all add: delivery_ok_def assms(2))
  from log have st: "dl_state d = Leased" and ne: "dl_attempts d \<noteq> []"
    and last: "running (last (dl_attempts d))" "wl_attemptId l = at_id (last (dl_attempts d))"
    and fence: "dl_currentFence d = Some (int (length (dl_attempts d)))"
    by (auto simp: log_ok_def)
  have "expired_attempt d \<noteq> None"
    using ne last by (auto simp: expired_attempt_def st assms(2) find_None_iff intro!: bexI [of _ "last (dl_attempts d)"])
  then obtain a where a: "expired_attempt d = Some a" by blast
  have policy: "count_policy_attempts (dl_attempts d) - (if expired_attempt d = None then 0 else 1)
      < dd_maximumAttempts d"
    using ch st charged_nonneg [of "dl_attempts d"] by (simp add: count_policy_split assms(4) a)
  have version: "0 \<le> dl_version d"
    using delivery.run_version [OF materialized_ok, of cs draft i]
    by (simp add: assms(1) delivery_run_def materialize_delivery_def delivery_draft.defs)
  note inst = canonical_instant_def [THEN iffD1, OF assms(5)] canonical_instant_def [THEN iffD1, OF assms(6)]
  have new: "\<not> list_ex (\<lambda>a. at_id a = ci_attemptId c) (dl_attempts d)"
    using assms(10) by (force simp: list_ex_iff image_iff)
  have past: "\<not> ci_now c < wl_expiresAt l" using assms(3) by simp
  have counters: "next_fence (Some (int (length (dl_attempts d)))) = Inr (int (length (dl_attempts d)) + 1)"
    "next_attempt_number (length (dl_attempts d)) = Inr (int (length (dl_attempts d)) + 1)"
    "next_aggregate_version (dl_version d) = Inr (dl_version d + 1)"
    using assms(11,12) version by (simp_all add: work_defs safe_integer_def max_safe_integer_def)
  show ?thesis
    using past assms(7,8) policy new
    by (simp add: claim_consumer_delivery_def canonical_instant_of_def inst assert_after_def
        assert_within_duration_def assms(2,9) st is_terminal_def ensure_def counters not_le fence
        delivery_view_def del: next_fence_values)
qed

theorem delivery_crash_recovery_witness:
  "\<exists>d d'. claim_consumer_delivery (materialize_delivery sample_draft []) (sample_claim ''a1'' 2 3) = Inr d
    \<and> dd_maximumAttempts d = 1 \<and> claim_consumer_delivery d (sample_claim ''a2'' 4 6) = Inr d'"
proof -
  define d where "d = projr (claim_consumer_delivery (materialize_delivery sample_draft [])
    (sample_claim ''a1'' 2 3))"
  have c: "claim_consumer_delivery (materialize_delivery sample_draft []) (sample_claim ''a1'' 2 3) = Inr d"
    and l: "dl_lease d = Some \<lparr> wl_fence = 1, wl_ownerKey = ''w'', wl_attemptId = ''a1'', wl_expiresAt = clock 3 \<rparr>"
    and r: "dl_attempts d = [Running ''a1'' 1 1 (clock 2)]" and v: "dl_version d = 2"
    and p: "dd_maximumAttempts d = 1" "dd_leaseDurationMs d = 60000"
    by (simp_all add: d_def sample_claim_simps)
  have "\<exists>d'. claim_consumer_delivery d (sample_claim ''a2'' 4 6) = Inr d' \<and> dl_state d' = Leased
      \<and> fst (delivery_view d') = fst (delivery_view d) + 1"
  proof (rule delivery_crash_recovery [OF _ l])
    show "d = delivery_run [DClaim (sample_claim ''a1'' 2 3)] sample_draft []"
      by (simp add: delivery_run_def c)
  qed (simp_all add: sample_claim_def r v p worker_key_w canonical_instant_def max_safe_integer_def)
  with c p show ?thesis by blast
qed

text \<open>
  A settled delivery stays settled: after it succeeded, was cancelled or dead-lettered, no
  further command changes its state, its due time, its lease or the attempts charged to it; only
  evidence that an earlier attempt lost its fence can still be added.
\<close>

lemma terminal_step:
  assumes "delivery_step c d = Inr d'" "is_terminal (dl_state d)"
  shows "dl_state d' = dl_state d \<and> dl_nextActionAt d' = dl_nextActionAt d \<and> dl_lease d' = dl_lease d
    \<and> charged (dl_attempts d') = charged (dl_attempts d)"
proof (cases c)
  case (DClaim i)
  with assms show ?thesis by (auto elim: claim_successD)
next
  case (DComplete f t co)
  with assms show ?thesis by (auto elim: complete_successD simp: is_terminal_def)
next
  case (DLost a t)
  with assms(1) have "record_consumer_lost_fence d a t = Inr d'" by simp
  then show ?thesis
    by (rule lost_successD) (auto dest: find_index_Some simp: charged_update)
qed

theorem settled_delivery_stays_settled:
  assumes "is_terminal (dl_state (delivery_run cs draft i))"
  shows "dl_state (delivery_run (cs @ cs') draft i) = dl_state (delivery_run cs draft i)
    \<and> dl_nextActionAt (delivery_run (cs @ cs') draft i) = dl_nextActionAt (delivery_run cs draft i)
    \<and> dl_lease (delivery_run (cs @ cs') draft i) = None
    \<and> charged (dl_attempts (delivery_run (cs @ cs') draft i)) = charged (dl_attempts (delivery_run cs draft i))"
proof -
  let ?d = "delivery_run cs draft i"
  let ?P = "\<lambda>d. dl_state d = dl_state ?d \<and> dl_nextActionAt d = dl_nextActionAt ?d
    \<and> dl_lease d = dl_lease ?d \<and> charged (dl_attempts d) = charged (dl_attempts ?d)"
  have "?P (run_commands delivery_step cs' ?d)"
    by (rule run_commands_induct [where P = ?P]) (use assms terminal_step in auto)
  moreover have "dl_lease ?d = None"
    using delivery_run_ok [of cs draft i] assms by (auto simp: delivery_ok_def log_ok_def is_terminal_def)
  ultimately show ?thesis by (simp add: delivery_run_def run_commands_append)
qed

theorem settled_delivery_stays_settled_witness:
  "\<exists>d. delivery_run [DClaim (sample_claim ''a1'' 2 3), DComplete 1 (clock 3) DSucceeded] sample_draft [] = d
    \<and> dl_state d = Succeeded \<and> dl_state (delivery_run ([DClaim (sample_claim ''a1'' 2 3),
       DComplete 1 (clock 3) DSucceeded] @ [DClaim (sample_claim ''a2'' 4 6)]) sample_draft []) = Succeeded"
proof -
  have s: "dl_state (delivery_run [DClaim (sample_claim ''a1'' 2 3), DComplete 1 (clock 3) DSucceeded]
      sample_draft []) = Succeeded"
    by (simp add: delivery_run_def sample_claim_simps complete_consumer_delivery_def assert_not_before_def)
  with settled_delivery_stays_settled [of "[DClaim (sample_claim ''a1'' 2 3), DComplete 1 (clock 3) DSucceeded]"
      sample_draft "[]" "[DClaim (sample_claim ''a2'' 4 6)]"]
  show ?thesis by (simp add: is_terminal_def)
qed

section \<open>Properties of the fan-out\<close>

text \<open>The semantic key names the consumer exactly: it determines its key and version.\<close>

lemma semantic_key_inject:
  assumes "delivery_semantic_key p a = delivery_semantic_key q b"
  shows "dr_key a = dr_key b \<and> dr_version a = dr_version b"
proof -
  from assms have "canon (semantic_key_json p a) = canon (semantic_key_json q b)"
    by (simp add: delivery_semantic_key_def canonical_inject)
  from canon_obj_field [OF this [unfolded semantic_key_json_def], of "''consumer''"]
  have c: "canon (JObj [(''key'', JStr (dr_key a)), (''version'', JNum (dr_version a))])
      = canon (JObj [(''key'', JStr (dr_key b)), (''version'', JNum (dr_version b))])"
    by (simp del: canon.simps)
  from canon_obj_field [OF c, of "''key''"] canon_obj_field [OF c, of "''version''"]
  show ?thesis by simp
qed

lemma semantic_key_available:
  "delivery_semantic_key (p\<lparr> op_availableAt := t \<rparr>) c = delivery_semantic_key p c"
  by (simp add: delivery_semantic_key_def semantic_key_json_def)

lemma exact_consumer_key:
  "delivery_semantic_key p (consumer_ref a) = delivery_semantic_key p (consumer_ref b)
   \<Longrightarrow> exact_consumer a = exact_consumer b"
  by (drule semantic_key_inject) (simp add: consumer_ref_def exact_consumer_def)

text \<open>The drafts the loop creates: the accepting consumers whose semantic key does not exist yet.\<close>

lemma fanout_loop_result:
  "fanout_loop p ex seen cs = Inr ds \<Longrightarrow>
   ds = map (draft_for p)
     (filter (\<lambda>c. accepts_source c p \<and> delivery_semantic_key p (consumer_ref c) \<notin> set ex) cs)
   \<and> distinct (map exact_consumer cs) \<and> exact_consumer ` set cs \<inter> set seen = {}"
proof (induction cs arbitrary: seen ds)
  case (Cons c cs)
  from Cons.prems obtain rest where "exact_consumer c \<notin> set seen"
    "fanout_loop p ex (exact_consumer c # seen) cs = Inr rest"
    "ds = (if accepts_source c p \<and> delivery_semantic_key p (consumer_ref c) \<notin> set ex
      then draft_for p c # rest else rest)"
    by (auto simp: Let_def rbind_Inr_iff split: if_splits)
  with Cons.IH [of "exact_consumer c # seen" rest] show ?case by auto
qed simp

lemma fanout_loop_succeeds:
  "distinct (map exact_consumer cs) \<Longrightarrow> exact_consumer ` set cs \<inter> set seen = {} \<Longrightarrow>
   fanout_loop p ex seen cs = Inr (map (draft_for p)
     (filter (\<lambda>c. accepts_source c p \<and> delivery_semantic_key p (consumer_ref c) \<notin> set ex) cs))"
  by (induction cs arbitrary: seen) (auto simp: Let_def)

interpretation consumer_order: keyed_comparator compare_consumers exact_consumer
  by unfold_locales (simp add: compare_consumers_def js_compare_le)

lemma semantic_key_draft [simp]:
  "dd_semanticKey (draft_for p c) = delivery_semantic_key p (consumer_ref c)"
  by (simp add: draft_for_def)

lemma semantic_key_materialized [simp]:
  "dd_semanticKey (materialize_delivery draft i) = dd_semanticKey draft"
  by (simp add: materialize_delivery_def delivery_draft.defs)

lemma distinct_draft_keys:
  "distinct (map exact_consumer cs) \<Longrightarrow>
   distinct (map (\<lambda>c. delivery_semantic_key p (consumer_ref c)) (filter P cs))"
  unfolding distinct_map inj_on_def by (auto dest: exact_consumer_key)

lemma fanout_planned:
  assumes "plan_consumer_fanout p consumers existing = Inr plan"
  shows "\<exists>t. canonical_instant_of (op_availableAt p) = Inr t \<and> distinct (map dd_semanticKey existing)
    \<and> distinct (map exact_consumer (js_sort compare_consumers consumers))
    \<and> fp_existing plan = existing
    \<and> fp_creations plan = map (draft_for (p \<lparr> op_availableAt := t \<rparr>)) (filter (\<lambda>c. accepts_source c p
        \<and> delivery_semantic_key p (consumer_ref c) \<notin> dd_semanticKey ` set existing) (js_sort compare_consumers consumers))"
proof -
  from assms obtain t ds where t: "canonical_instant_of (op_availableAt p) = Inr t" "distinct (map dd_semanticKey existing)"
    and loop: "fanout_loop (p\<lparr> op_availableAt := t \<rparr>) (map dd_semanticKey existing) [] (js_sort compare_consumers consumers) = Inr ds"
    and plan: "plan = \<lparr> fp_existing = existing, fp_creations = ds \<rparr>"
    unfolding plan_consumer_fanout_def by (elim stepsE) auto
  have "accepts_source c (p\<lparr> op_availableAt := t \<rparr>) = accepts_source c p" for c by (simp add: accepts_source_def)
  with fanout_loop_result [OF loop] t plan show ?thesis by (simp add: semantic_key_available)
qed

lemma accepts_source_iff:
  "accepts_source c p \<longleftrightarrow> (\<exists>a \<in> set (cd_acceptedSources c). dr_kind a = dr_kind (op_source p)
     \<and> dr_key a = dr_key (op_source p) \<and> dr_version a = dr_version (op_source p))"
  by (simp add: accepts_source_def list_ex_iff)

lemma fanout_idempotent:
  assumes "plan_consumer_fanout p consumers existing = Inr plan" and "length ids = length (fp_creations plan)"
  shows "distinct (map dd_semanticKey (existing @ map2 materialize_delivery (fp_creations plan) ids))
    \<and> plan_consumer_fanout p consumers (existing @ map2 materialize_delivery (fp_creations plan) ids)
      = Inr \<lparr> fp_existing = existing @ map2 materialize_delivery (fp_creations plan) ids, fp_creations = [] \<rparr>"
proof -
  let ?cs = "js_sort compare_consumers consumers"
  let ?key = "\<lambda>c. delivery_semantic_key p (consumer_ref c)"
  let ?ex = "map dd_semanticKey existing"
  define stored where "stored = existing @ map2 materialize_delivery (fp_creations plan) ids"
  obtain t where t: "canonical_instant_of (op_availableAt p) = Inr t" and ex: "distinct ?ex" and d: "distinct (map exact_consumer ?cs)"
    and ds: "fp_creations plan = map (draft_for (p \<lparr> op_availableAt := t \<rparr>))
      (filter (\<lambda>c. accepts_source c p \<and> ?key c \<notin> set ?ex) ?cs)"
    using fanout_planned [OF assms(1)] by auto
  have keys: "map dd_semanticKey (fp_creations plan) = map ?key (filter (\<lambda>c. accepts_source c p \<and> ?key c \<notin> set ?ex) ?cs)"
    by (simp add: ds semantic_key_available)
  have sk: "map dd_semanticKey stored = ?ex @ map dd_semanticKey (fp_creations plan)"
    using assms(2) by (simp add: stored_def) (simp add: map2_map_map [symmetric] nth_equalityI list_eq_iff_nth_eq)
  have dis: "distinct (map dd_semanticKey stored)"
    using ex distinct_draft_keys [OF d, of p] by (force simp: sk keys)
  have "\<forall>c \<in> set ?cs. accepts_source c p \<longrightarrow> ?key c \<in> set (map dd_semanticKey stored)" by (auto simp: sk keys)
  then have "fanout_loop (p \<lparr> op_availableAt := t \<rparr>) (map dd_semanticKey stored) [] ?cs = Inr []"
    using fanout_loop_succeeds [OF d, of "[]" "p \<lparr> op_availableAt := t \<rparr>" "map dd_semanticKey stored"]
    by (simp add: accepts_source_def semantic_key_available filter_empty_conv)
  then have "plan_consumer_fanout p consumers stored = Inr \<lparr> fp_existing = stored, fp_creations = [] \<rparr>"
    using dis by (simp add: plan_consumer_fanout_def t)
  with dis show ?thesis by (simp add: stored_def)
qed

text \<open>
  C36. The fan-out creates exactly one delivery for each consumer version that accepts the source of the
  pointer (by its kind, key and version) and has no delivery yet, and none for any other consumer. Each draft
  carries the semantic key of its consumer, the pointer with its instant in canonical form, and the digest,
  operation, projection, capability, citation, attempts and lease of the definition; drafts are ordered by
  consumer. No two deliveries share a semantic key once the drafts are stored, under whatever
  identifiers, and planning again then creates nothing.
\<close>

theorem fanout_complete_and_idempotent:
  assumes "plan_consumer_fanout p consumers existing = Inr plan" and "length ids = length (fp_creations plan)"
  shows "\<exists>t. canonical_instant_of (op_availableAt p) = Inr t
    \<and> set (fp_creations plan) =
        (\<lambda>c. let r = \<lparr> dr_kind = ''consumer'', dr_key = cd_key c, dr_version = cd_version c \<rparr> in
          \<lparr> dd_semanticKey = delivery_semantic_key p r, dd_pointer = p \<lparr> op_availableAt := t \<rparr>, dd_consumer = r,
            dd_definitionDigest = cd_digest c, dd_targetOperation = cd_targetOperation c,
            dd_inputProjection = cd_inputProjection c, dd_capabilityRevisionId = cd_capabilityRevisionId c,
            dd_authorityCitation = cd_authorityCitation c, dd_maximumAttempts = cd_maximumAttempts c,
            dd_leaseDurationMs = cd_leaseDurationMs c \<rparr>) `
        {c \<in> set consumers.
          (\<exists>a \<in> set (cd_acceptedSources c). dr_kind a = dr_kind (op_source p) \<and> dr_key a = dr_key (op_source p)
            \<and> dr_version a = dr_version (op_source p))
          \<and> delivery_semantic_key p \<lparr> dr_kind = ''consumer'', dr_key = cd_key c, dr_version = cd_version c \<rparr>
              \<notin> dd_semanticKey ` set existing}
    \<and> sorted (map (\<lambda>d. dr_key (dd_consumer d) @ CHR 0x00 # int_text (dr_version (dd_consumer d))) (fp_creations plan))
    \<and> (let stored = existing @ map2 materialize_delivery (fp_creations plan) ids in
         distinct (map dd_semanticKey stored)
         \<and> plan_consumer_fanout p consumers stored = Inr \<lparr> fp_existing = stored, fp_creations = [] \<rparr>)"
proof -
  obtain t where t: "canonical_instant_of (op_availableAt p) = Inr t"
    and ds: "fp_creations plan = map (draft_for (p \<lparr> op_availableAt := t \<rparr>)) (filter (\<lambda>c. accepts_source c p
      \<and> delivery_semantic_key p (consumer_ref c) \<notin> dd_semanticKey ` set existing) (js_sort compare_consumers consumers))"
    using fanout_planned [OF assms(1)] by auto
  have "sorted (map exact_consumer (filter P (js_sort compare_consumers consumers)))" for P
    by (rule sorted_filter) (rule consumer_order.js_sort_sorted)
  then have "sorted (map (\<lambda>d. dr_key (dd_consumer d) @ CHR 0x00 # int_text (dr_version (dd_consumer d))) (fp_creations plan))"
    by (simp add: ds comp_def draft_for_def consumer_ref_def exact_consumer_def [abs_def])
  with fanout_idempotent [OF assms] t show ?thesis
    unfolding ds by (intro exI [of _ t]) (simp add: consumer_order.js_sort_set accepts_source_iff consumer_ref_def draft_for_def semantic_key_available Let_def)
qed

definition sample_consumer :: consumer_definition where
  "sample_consumer =
     (let r = \<lparr> dr_kind = ''k'', dr_key = ''sample'', dr_version = 1 \<rparr>;
          schema = \<lparr> sr_key = ''sample'', sr_version = 1, sr_digest = ''digest'' \<rparr> in
      \<lparr> cd_key = ''consumer'', cd_version = 1, cd_digest = ''digest'',
        cd_acceptedSources = [op_source sample_pointer], cd_inputSchema = schema,
        cd_resultSchema = schema, cd_inputProjection = r, cd_targetOperation = r,
        cd_capabilityRevisionId = ''capability'', cd_authorityCitation = r,
        cd_maximumAttempts = 1, cd_leaseDurationMs = 60000, cd_backoff = r,
        cd_outputKind = Projection, cd_replay = r, cd_removal = r \<rparr>)"

theorem fanout_complete_and_idempotent_witness:
  "\<exists>plan. plan_consumer_fanout sample_pointer [sample_consumer, sample_consumer \<lparr> cd_version := 2, cd_acceptedSources := [] \<rparr>] [] = Inr plan
    \<and> map dd_consumer (fp_creations plan) = [\<lparr> dr_kind = ''consumer'', dr_key = ''consumer'', dr_version = 1 \<rparr>]
    \<and> plan_consumer_fanout sample_pointer [sample_consumer, sample_consumer \<lparr> cd_version := 2, cd_acceptedSources := [] \<rparr>]
        (map2 materialize_delivery (fp_creations plan) [''d1''])
      = Inr \<lparr> fp_existing = map2 materialize_delivery (fp_creations plan) [''d1''], fp_creations = [] \<rparr>"
proof -
  let ?other = "sample_consumer \<lparr> cd_version := 2, cd_acceptedSources := [] \<rparr>"
  have a: "accepts_source sample_consumer p = (op_source p = op_source sample_pointer)" "\<not> accepts_source ?other p" for p
    by (auto simp: accepts_source_def sample_consumer_def sample_pointer_def Let_def)
  have "int_text 1 \<noteq> int_text 2" by code_simp
  then have e: "exact_consumer sample_consumer \<noteq> exact_consumer ?other"
    by (simp add: exact_consumer_def sample_consumer_def Let_def)
  have k: "consumer_ref sample_consumer = \<lparr> dr_kind = ''consumer'', dr_key = ''consumer'', dr_version = 1 \<rparr>"
    by (simp add: consumer_ref_def sample_consumer_def Let_def)
  have "canonical_instant_of (op_availableAt sample_pointer) = Inr (op_availableAt sample_pointer)"
    by (simp add: canonical_instant_of_def sample_pointer_def)
  then obtain plan where p: "plan_consumer_fanout sample_pointer [sample_consumer, ?other] [] = Inr plan"
    and c: "map dd_consumer (fp_creations plan) = [\<lparr> dr_kind = ''consumer'', dr_key = ''consumer'', dr_version = 1 \<rparr>]"
    using e by (auto simp: plan_consumer_fanout_def js_sort_def a draft_for_def k)
  from c have "length (fp_creations plan) = 1" by (metis length_map length_Cons list.size(3) One_nat_def)
  with fanout_complete_and_idempotent [OF p, of "[''d1'']"] p c show ?thesis by (auto simp: Let_def)
qed

end
