(* ===== verification/Job.thy ===== *)
theory Job
  imports Delivery
begin

text \<open>
  Registered jobs, \<open>packages/reliability/src/job.ts\<close>. A job is leased like a delivery, but its work
  has external effects, so an expired lease is never handed to another worker: jobs are interpreted
  as serial leased work, and the properties say that no two attempts of a job ever run together.
\<close>

section \<open>Data\<close>

record job_source =
  js_definition :: definition_ref
  js_identity :: string
  js_version :: int

text \<open>The result of a finished attempt is the reference of a payload, or null.\<close>

type_synonym job_attempt = "string option attempt"

record job =
  jb_id :: string
  jb_definition :: definition_ref
  jb_definitionDigest :: string
  jb_idempotencyIdentity :: string
  jb_source :: job_source
  jb_inputRef :: string
  jb_inputProjection :: definition_ref
  jb_targetOperation :: definition_ref
  jb_capabilityRevisionId :: string
  jb_authorityCitation :: definition_ref
  jb_externalRetryPolicy :: external_retry_policy
  jb_maximumAttempts :: int
  jb_leaseDurationMs :: int
  jb_timeoutMs :: int
  jb_state :: work_state
  jb_version :: int
  jb_currentFence :: "int option"
  jb_lease :: "work_lease option"
  jb_nextActionAt :: "string option"
  jb_attempts :: "job_attempt list"

record create_job_input =
  cj_id :: string
  cj_definition :: job_definition
  cj_idempotencyIdentity :: string
  cj_source :: job_source
  cj_inputRef :: string
  cj_availableAt :: string

section \<open>Operations\<close>

definition create_job :: "create_job_input \<Rightarrow> job work_result" where
  "create_job i =
     (if cj_idempotencyIdentity i = [] \<or> 240 < length (cj_idempotencyIdentity i)
        \<or> js_trim (cj_idempotencyIdentity i) \<noteq> cj_idempotencyIdentity i
      then Inl TypeErr
      else rbind (canonical_instant_of (cj_availableAt i)) (\<lambda>availableAt.
        let df = cj_definition i in
        Inr \<lparr> jb_id = cj_id i,
          jb_definition = \<lparr> dr_kind = ''job'', dr_key = jd_key df, dr_version = jd_version df \<rparr>,
          jb_definitionDigest = jd_digest df, jb_idempotencyIdentity = cj_idempotencyIdentity i,
          jb_source = cj_source i, jb_inputRef = cj_inputRef i,
          jb_inputProjection = jd_inputProjection df, jb_targetOperation = jd_targetOperation df,
          jb_capabilityRevisionId = jd_capabilityRevisionId df,
          jb_authorityCitation = jd_authorityCitation df,
          jb_externalRetryPolicy = jd_externalRetryPolicy df,
          jb_maximumAttempts = jd_maximumAttempts df, jb_leaseDurationMs = jd_leaseDurationMs df,
          jb_timeoutMs = jd_timeoutMs df, jb_state = Pending, jb_version = 1, jb_currentFence = None,
          jb_lease = None, jb_nextActionAt = Some availableAt, jb_attempts = [] \<rparr>))"

definition claim_job :: "job \<Rightarrow> claim_input \<Rightarrow> job work_result" where
  "claim_job j i =
     rbind (canonical_instant_of (ci_now i)) (\<lambda>now.
     rbind (canonical_instant_of (ci_leaseExpiresAt i)) (\<lambda>leaseExpiresAt.
     rbind (assert_after leaseExpiresAt now) (\<lambda>_.
     rbind (assert_within_duration leaseExpiresAt now (jb_leaseDurationMs j)) (\<lambda>_.
     rbind (assert_worker_key (ci_ownerKey i)) (\<lambda>_.
     rbind (ensure (\<not> is_terminal (jb_state j)) (Refused Terminal)) (\<lambda>_.
     rbind (ensure (\<not> (jb_state j = Leased
         \<and> (case jb_lease j of Some l \<Rightarrow> wl_expiresAt l > now | None \<Rightarrow> False))) (Refused Lease_busy)) (\<lambda>_.
     rbind (ensure (\<not> (jb_state j = Leased \<and> jb_lease j \<noteq> None))
       (Refused (if jb_externalRetryPolicy j = AnchorInspectionOnly then Reconciliation_required
         else External_retry_forbidden))) (\<lambda>_.
     rbind (ensure (\<not> (jb_state j \<noteq> Leased
         \<and> (case jb_nextActionAt j of Some t \<Rightarrow> t > now | None \<Rightarrow> False))) (Refused Not_ready)) (\<lambda>_.
     rbind (ensure (\<not> int (length (jb_attempts j)) \<ge> jb_maximumAttempts j) (Refused Attempt_limit)) (\<lambda>_.
     rbind (ensure (\<not> list_ex (\<lambda>a. at_id a = ci_attemptId i) (jb_attempts j))
       (Refused Duplicate_identity)) (\<lambda>_.
     rbind (next_fence (jb_currentFence j)) (\<lambda>fence.
     rbind (next_attempt_number (length (jb_attempts j))) (\<lambda>n.
     rbind (next_aggregate_version (jb_version j)) (\<lambda>version.
       Inr (j\<lparr> jb_state := Leased, jb_version := version, jb_currentFence := Some fence,
         jb_lease := Some \<lparr> wl_fence = fence, wl_ownerKey = ci_ownerKey i,
           wl_attemptId = ci_attemptId i, wl_expiresAt = leaseExpiresAt \<rparr>,
         jb_nextActionAt := None,
         jb_attempts := jb_attempts j @ [Running (ci_attemptId i) n fence now] \<rparr>)))))))))))))))"

datatype job_completion =
    JSucceeded "string option"
  | JRetry string safe_failure
  | JDeadLettered safe_failure
  | JCancelled string

record job_settlement =
  st_state :: work_state
  st_attempt :: attempt_end
  st_nextActionAt :: "string option"
  st_failure :: "safe_failure option"
  st_result :: "string option"

definition settle_job_failure ::
  "job \<Rightarrow> string \<Rightarrow> string option \<Rightarrow> safe_failure \<Rightarrow> job_settlement work_result"
where
  "settle_job_failure j completedAt retry failure =
     rbind (assert_safe_code (sf_code failure)) (\<lambda>_.
     rbind (ensure (\<not> (retry \<noteq> None \<and> sf_classification failure = Ambiguous))
       (Refused Reconciliation_required)) (\<lambda>_.
       let dead = \<lparr> st_state = DeadLettered, st_attempt = EDeadLettered, st_nextActionAt = None,
         st_failure = Some failure, st_result = None \<rparr> in
       case retry of
         None \<Rightarrow> Inr dead
       | Some retryAtValue \<Rightarrow>
           if int (length (jb_attempts j)) < jb_maximumAttempts j
           then rbind (canonical_instant_of retryAtValue) (\<lambda>retryAt.
             rbind (assert_after retryAt completedAt) (\<lambda>_.
               Inr \<lparr> st_state = RetryWait, st_attempt = ERetryScheduled, st_nextActionAt = Some retryAt,
                 st_failure = Some failure, st_result = None \<rparr>))
           else Inr dead))"

fun settle_job :: "job \<Rightarrow> string \<Rightarrow> job_completion \<Rightarrow> job_settlement work_result" where
  "settle_job j completedAt (JSucceeded resultRef) =
     Inr \<lparr> st_state = Succeeded, st_attempt = ESucceeded, st_nextActionAt = None, st_failure = None,
       st_result = resultRef \<rparr>"
| "settle_job j completedAt (JCancelled reason) =
     rbind (assert_safe_code reason) (\<lambda>_.
       Inr \<lparr> st_state = Cancelled, st_attempt = ECancelled, st_nextActionAt = None, st_failure = None,
         st_result = None \<rparr>)"
| "settle_job j completedAt (JRetry retryAt failure) = settle_job_failure j completedAt (Some retryAt) failure"
| "settle_job j completedAt (JDeadLettered failure) = settle_job_failure j completedAt None failure"

definition complete_job :: "job \<Rightarrow> int \<Rightarrow> string \<Rightarrow> job_completion \<Rightarrow> job work_result" where
  "complete_job j fence completedAtValue completion =
     rbind (canonical_instant_of completedAtValue) (\<lambda>completedAt.
     rbind (need (Refused Lost_fence)
       (if jb_state j \<noteq> Leased \<or> jb_currentFence j \<noteq> Some fence then None else jb_lease j)) (\<lambda>l.
     rbind (ensure (wl_fence l = fence) (Refused Lost_fence)) (\<lambda>_.
     rbind (need (Refused Unknown_attempt)
       (find_index (\<lambda>a. at_id a = wl_attemptId l \<and> running a) (jb_attempts j))) (\<lambda>ix.
     rbind (assert_not_before completedAt (at_startedAt (jb_attempts j ! ix))) (\<lambda>_.
     rbind (settle_job j completedAt completion) (\<lambda>s.
     rbind (next_aggregate_version (jb_version j)) (\<lambda>version.
       let active = jb_attempts j ! ix in
       Inr (j\<lparr> jb_state := st_state s, jb_version := version, jb_lease := None,
         jb_nextActionAt := st_nextActionAt s,
         jb_attempts := (jb_attempts j)[ix := Finished (at_id active) (at_number active)
           (at_fence active) (st_attempt s) (at_startedAt active) completedAt (st_result s)
           (st_failure s)] \<rparr>))))))))"

definition record_job_lost_fence :: "job \<Rightarrow> string \<Rightarrow> string \<Rightarrow> job work_result" where
  "record_job_lost_fence j invocationId observedAtValue =
     rbind (canonical_instant_of observedAtValue) (\<lambda>observedAt.
     rbind (need (Refused Unknown_attempt)
       (find_index (\<lambda>a. at_id a = invocationId \<and> running a) (jb_attempts j))) (\<lambda>ix.
     rbind (need (Refused Lost_fence) (jb_currentFence j)) (\<lambda>current.
     rbind (ensure (\<not> at_fence (jb_attempts j ! ix) \<ge> current) (Refused Lost_fence)) (\<lambda>_.
     rbind (assert_not_before observedAt (at_startedAt (jb_attempts j ! ix))) (\<lambda>_.
     rbind (next_aggregate_version (jb_version j)) (\<lambda>version.
       let attempt = jb_attempts j ! ix in
       Inr (j\<lparr> jb_version := version,
         jb_attempts := (jb_attempts j)[ix := Finished (at_id attempt) (at_number attempt)
           (at_fence attempt) ELostFence (at_startedAt attempt) observedAt None None] \<rparr>)))))))"

section \<open>Histories\<close>

datatype job_command =
    JClaim claim_input
  | JComplete int string job_completion
  | JLost string string

fun job_step :: "job_command \<Rightarrow> job \<Rightarrow> job work_result" where
  "job_step (JClaim i) j = claim_job j i"
| "job_step (JComplete f t c) j = complete_job j f t c"
| "job_step (JLost a t) j = record_job_lost_fence j a t"

definition job_view :: "job \<Rightarrow> lease_view" where
  "job_view j = ((case jb_currentFence j of None \<Rightarrow> 0 | Some f \<Rightarrow> f), map_option wl_fence (jb_lease j))"

fun job_event :: "job_command \<Rightarrow> job \<Rightarrow> lease_event" where
  "job_event (JClaim _) j = Claimed (fst (job_view j) + 1)"
| "job_event (JComplete f _ _) j = Completed f"
| "job_event (JLost _ _) j = Observed"

text \<open>In every history only the last attempt can be running and no attempt lost its fence.\<close>

definition job_ok :: "job \<Rightarrow> bool" where
  "job_ok j \<longleftrightarrow>
     log_ok (jb_state j) (jb_currentFence j) (jb_lease j) (jb_attempts j)
     \<and> int (length (jb_attempts j)) \<le> max 0 (jb_maximumAttempts j)
     \<and> (\<forall>a \<in> set (butlast (jb_attempts j)). \<not> running a)
     \<and> (\<forall>a \<in> set (jb_attempts j). \<not> lost a)"

lemma claim_job_successD:
  assumes "claim_job j i = Inr j'"
  obtains now ex f n v where
    "\<not> (jb_state j = Leased \<and> jb_lease j \<noteq> None)"
    "int (length (jb_attempts j)) < jb_maximumAttempts j"
    "ci_attemptId i \<notin> at_id ` set (jb_attempts j)"
    "next_fence (jb_currentFence j) = Inr f" "next_attempt_number (length (jb_attempts j)) = Inr n"
    "next_aggregate_version (jb_version j) = Inr v"
    "j' = j\<lparr> jb_state := Leased, jb_version := v, jb_currentFence := Some f,
       jb_lease := Some \<lparr> wl_fence = f, wl_ownerKey = ci_ownerKey i,
         wl_attemptId = ci_attemptId i, wl_expiresAt = ex \<rparr>,
       jb_nextActionAt := None,
       jb_attempts := jb_attempts j @ [Running (ci_attemptId i) n f now] \<rparr>"
  using assms unfolding claim_job_def
  by (elim stepsE, intro that) (auto simp: list_ex_iff not_le)

lemma settle_job_state:
  "settle_job j t c = Inr s \<Longrightarrow> st_state s \<noteq> Leased \<and> st_attempt s \<noteq> ELostFence"
  by (cases c) (auto simp: settle_job_failure_def outcome_iffs Let_def split: option.splits if_splits)

lemma complete_job_successD:
  assumes "complete_job j f t c = Inr j'"
  obtains l ix a s v at where
    "jb_state j = Leased" "jb_lease j = Some l" "jb_currentFence j = Some f" "wl_fence l = f"
    "find_index (\<lambda>a. at_id a = wl_attemptId l \<and> running a) (jb_attempts j) = Some ix"
    "a = jb_attempts j ! ix" "settle_job j at c = Inr s" "next_aggregate_version (jb_version j) = Inr v"
    "j' = j\<lparr> jb_state := st_state s, jb_version := v, jb_lease := None,
       jb_nextActionAt := st_nextActionAt s,
       jb_attempts := (jb_attempts j)[ix := Finished (at_id a) (at_number a) (at_fence a) (st_attempt s)
         (at_startedAt a) at (st_result s) (st_failure s)] \<rparr>"
  using assms unfolding complete_job_def Let_def
  by (elim stepsE, intro that) (auto split: if_splits)

lemma lost_job_successD:
  assumes "record_job_lost_fence j i t = Inr j'"
  obtains ix f where
    "find_index (\<lambda>a. at_id a = i \<and> running a) (jb_attempts j) = Some ix"
    "jb_currentFence j = Some f" "at_fence (jb_attempts j ! ix) < f"
  using assms unfolding record_job_lost_fence_def Let_def
  by (elim stepsE, intro that) auto

text \<open>Evidence of a lost fence is refused: the running attempt holds the current fence.\<close>

lemma job_lost_refused: "job_ok j \<Longrightarrow> record_job_lost_fence j i t \<noteq> Inr j'"
proof
  assume ok: "job_ok j" and "record_job_lost_fence j i t = Inr j'"
  from this(2) obtain ix f where
    ix: "find_index (\<lambda>a. at_id a = i \<and> running a) (jb_attempts j) = Some ix"
    and f: "jb_currentFence j = Some f" "at_fence (jb_attempts j ! ix) < f"
    by (rule lost_job_successD)
  from ok have log: "log_ok (jb_state j) (jb_currentFence j) (jb_lease j) (jb_attempts j)"
    and b: "\<forall>a \<in> set (butlast (jb_attempts j)). \<not> running a"
    by (simp_all add: job_ok_def)
  from find_index_Some [OF ix] have i: "ix < length (jb_attempts j)" "running (jb_attempts j ! ix)"
    by simp_all
  from log f(1) have "f = int (length (jb_attempts j))" by (auto simp: log_ok_def split: if_splits)
  with f(2) log_fence_nth [OF log i(1)] have lt: "ix < length (butlast (jb_attempts j))" by simp
  then have "butlast (jb_attempts j) ! ix = jb_attempts j ! ix" by (simp add: nth_butlast)
  with lt b i(2) show False by (metis nth_mem)
qed

lemma claim_job_keeps_ok:
  assumes ok: "job_ok j" and c: "claim_job j i = Inr j'"
  shows "job_ok j'"
  using c
proof (rule claim_job_successD)
  fix now ex f n v
  assume un: "\<not> (jb_state j = Leased \<and> jb_lease j \<noteq> None)"
    and lim: "int (length (jb_attempts j)) < jb_maximumAttempts j"
    and new: "ci_attemptId i \<notin> at_id ` set (jb_attempts j)"
    and f: "next_fence (jb_currentFence j) = Inr f"
    and n: "next_attempt_number (length (jb_attempts j)) = Inr n"
    and j': "j' = j\<lparr> jb_state := Leased, jb_version := v, jb_currentFence := Some f,
       jb_lease := Some \<lparr> wl_fence = f, wl_ownerKey = ci_ownerKey i,
         wl_attemptId = ci_attemptId i, wl_expiresAt = ex \<rparr>,
       jb_nextActionAt := None,
       jb_attempts := jb_attempts j @ [Running (ci_attemptId i) n f now] \<rparr>"
  from ok have log: "log_ok (jb_state j) (jb_currentFence j) (jb_lease j) (jb_attempts j)"
    by (simp add: job_ok_def)
  with un have "jb_attempts j = [] \<or> \<not> running (last (jb_attempts j))" by (auto simp: log_ok_def)
  with ok have "\<forall>a \<in> set (jb_attempts j). \<not> running a"
    by (cases "jb_attempts j" rule: rev_cases) (auto simp: job_ok_def)
  with lim ok log_ok_claim [OF log new next_fence_log [OF log f] next_attempt_number_value [OF n]]
  show ?thesis by (simp add: j' job_ok_def butlast_append)
qed

lemma complete_job_keeps_ok:
  assumes ok: "job_ok j" and c: "complete_job j f t c = Inr j'"
  shows "job_ok j'"
  using c
proof (rule complete_job_successD)
  fix l ix a s v at
  assume st: "jb_state j = Leased" "jb_lease j = Some l"
    and ix: "find_index (\<lambda>a. at_id a = wl_attemptId l \<and> running a) (jb_attempts j) = Some ix"
    and a: "a = jb_attempts j ! ix" and set: "settle_job j at c = Inr s"
    and j': "j' = j\<lparr> jb_state := st_state s, jb_version := v, jb_lease := None,
       jb_nextActionAt := st_nextActionAt s,
       jb_attempts := (jb_attempts j)[ix := Finished (at_id a) (at_number a) (at_fence a) (st_attempt s)
         (at_startedAt a) at (st_result s) (st_failure s)] \<rparr>"
  from ok st have log: "log_ok Leased (jb_currentFence j) (Some l) (jb_attempts j)"
    by (simp add: job_ok_def)
  have s: "st_state s \<noteq> Leased" "st_attempt s \<noteq> ELostFence" using settle_job_state [OF set] by simp_all
  have "butlast (jb_attempts j') = butlast (jb_attempts j)"
    using active_index(2) [OF log ix]
    by (cases "jb_attempts j" rule: rev_cases) (simp_all add: j' list_update_append)
  moreover have "\<forall>b \<in> set (jb_attempts j'). \<not> lost b"
    using ok s by (auto simp: j' job_ok_def dest!: set_update_subset_insert [THEN subsetD])
  ultimately show ?thesis
    using ok log_ok_complete [OF log s(1) ix] by (simp add: j' job_ok_def a)
qed

lemma job_step_ok: "job_ok j \<Longrightarrow> job_step c j = Inr j' \<Longrightarrow> job_ok j'"
  by (cases c) (auto intro: claim_job_keeps_ok complete_job_keeps_ok simp: job_lost_refused)

lemma job_step_lease:
  assumes ok: "job_ok j" and c: "job_step c j = Inr j'"
  shows "lease_next (job_event c j) (job_view j) = Some (job_view j')"
proof (cases c)
  case (JClaim i)
  from ok have log: "log_ok (jb_state j) (jb_currentFence j) (jb_lease j) (jb_attempts j)"
    by (simp add: job_ok_def)
  then have "fst (job_view j) = int (length (jb_attempts j))"
    by (simp add: job_view_def log_ok_def)
  with c JClaim show ?thesis
    by (auto elim!: claim_job_successD dest!: next_fence_log [OF log]) (simp_all add: job_view_def)
next
  case (JComplete f t co)
  with c show ?thesis by (auto elim!: complete_job_successD simp: job_view_def)
next
  case (JLost a t)
  with ok c job_lost_refused show ?thesis by simp
qed

lemma job_step_version: "job_ok j \<Longrightarrow> job_step c j = Inr j' \<Longrightarrow> jb_version j' = jb_version j + 1"
  by (cases c)
    (auto elim!: claim_job_successD complete_job_successD dest!: next_aggregate_version_value
      simp: job_lost_refused)

lemma job_claim_unheld:
  "job_ok j \<Longrightarrow> job_step c j = Inr j' \<Longrightarrow> job_event c j = Claimed f \<Longrightarrow> snd (job_view j) = None"
  by (cases c) (auto elim!: claim_job_successD simp: job_view_def job_ok_def log_ok_def)

interpretation job: serial_work job_step job_event job_ok job_view jb_version
  by unfold_locales (auto intro: job_step_ok job_step_lease job_step_version dest: job_claim_unheld)

lemma created_job_ok:
  assumes "create_job i = Inr j"
  shows "job_ok j \<and> job_view j = (0, None) \<and> jb_version j = 1 \<and> jb_attempts j = []"
proof -
  from assms have "jb_state j = Pending" "jb_currentFence j = None" "jb_lease j = None"
    "jb_attempts j = []" "jb_version j = 1"
    unfolding create_job_def Let_def by (auto split: if_splits elim!: rbind_InrE)
  then show ?thesis by (simp add: job_ok_def job_view_def log_ok_initial)
qed

section \<open>Properties\<close>

definition job_run :: "job_command list \<Rightarrow> job \<Rightarrow> job" where
  "job_run cs j = run_commands job_step cs j"

definition job_events :: "job_command list \<Rightarrow> job \<Rightarrow> lease_event list" where
  "job_events cs j = run_events job_step job_event cs j"

lemma job_step_maximum: "job_ok j \<Longrightarrow> job_step c j = Inr j' \<Longrightarrow> jb_maximumAttempts j' = jb_maximumAttempts j"
  by (cases c) (auto elim!: claim_job_successD complete_job_successD simp: job_lost_refused)

lemma job_run_facts:
  assumes "job_ok j"
  shows "job_ok (job_run cs j) \<and> jb_maximumAttempts (job_run cs j) = jb_maximumAttempts j"
  unfolding job_run_def
  by (rule run_commands_induct
      [where P = "\<lambda>k. job_ok k \<and> jb_maximumAttempts k = jb_maximumAttempts j"])
    (use assms job_step_ok job_step_maximum in auto)

text \<open>
  C14. The workers of a job take turns. In every history of a created job each claim but a last, still
  open one is followed by its own completion before the next claim, so two attempts never run
  together; there are at most as many attempts as the registered maximum allows.
\<close>

theorem job_attempts_serial:
  assumes "create_job i = Inr j"
  shows "claims (job_events cs j)
      = completions (job_events cs j) @ held (map_option wl_fence (jb_lease (job_run cs j)))
    \<and> claims (job_events cs j) = [1..int (length (jb_attempts (job_run cs j)))]
    \<and> int (length (jb_attempts (job_run cs j))) \<le> max 0 (jb_maximumAttempts j)
    \<and> length (filter running (jb_attempts (job_run cs j))) = (if jb_state (job_run cs j) = Leased then 1 else 0)"
proof -
  from created_job_ok [OF assms] have ok: "job_ok j" and v: "job_view j = (0, None)" by simp_all
  let ?j = "job_run cs j"
  from job_run_facts [OF ok, of cs] have ok': "job_ok ?j"
    and m: "jb_maximumAttempts ?j = jb_maximumAttempts j" by simp_all
  have n: "fst (job_view ?j) = int (length (jb_attempts ?j))"
    using ok' by (simp add: job_ok_def log_ok_def job_view_def)
  have "length (filter running (jb_attempts ?j)) = (if jb_state ?j = Leased then 1 else 0)"
  proof (cases "jb_attempts ?j" rule: rev_cases)
    case Nil
    with ok' show ?thesis by (auto simp: job_ok_def log_ok_def split: option.splits)
  next
    case (snoc as a)
    with ok' have "filter running as = []" by (simp add: job_ok_def filter_empty_conv)
    with snoc ok' show ?thesis by (auto simp: job_ok_def log_ok_def split: option.splits)
  qed
  with ok' m n job.run_serial [OF ok, of cs] job.run_history(1) [OF ok v, of cs] show ?thesis
    by (simp add: job_run_def job_events_def v job_ok_def) (simp add: held_def job_view_def)
qed

text \<open>
  A job that crashed under its lease is never handed out again: while it is leased, every
  well-formed claim is refused, with \<open>lease_busy\<close> before the expiry and afterwards with the refusal of
  its external retry policy, and evidence of a lost fence is refused too.
\<close>

theorem leased_job_never_reclaimed:
  assumes "create_job i = Inr j0" and "j = job_run cs j0" and "jb_lease j = Some l"
    and "canonical_instant (ci_now c)" and "canonical_instant (ci_leaseExpiresAt c)"
    and "ci_now c < ci_leaseExpiresAt c"
    and "date_parse (ci_leaseExpiresAt c) - date_parse (ci_now c) \<le> jb_leaseDurationMs j"
    and "assert_worker_key (ci_ownerKey c) = Inr ()"
  shows "claim_job j c = Inl (Refused
      (if wl_expiresAt l > ci_now c then Lease_busy
       else if jb_externalRetryPolicy j = AnchorInspectionOnly then Reconciliation_required
       else External_retry_forbidden))
    \<and> (\<forall>a t. \<exists>e. record_job_lost_fence j a t = Inl e)"
proof -
  have ok: "job_ok j" using created_job_ok [OF assms(1)] job_run_facts assms(2) by simp
  then have st: "jb_state j = Leased" by (auto simp: job_ok_def log_ok_def assms(3))
  note inst = canonical_instant_def [THEN iffD1, OF assms(4)] canonical_instant_def [THEN iffD1, OF assms(5)]
  have "\<exists>e. record_job_lost_fence j a t = Inl e" for a t
    using job_lost_refused [OF ok] by (cases "record_job_lost_fence j a t") auto
  then show ?thesis
    using assms(6,7)
    by (simp add: claim_job_def canonical_instant_of_def inst assert_after_def not_le
        assert_within_duration_def assms(3,8) st is_terminal_def ensure_def)
qed

text \<open>
  Retrying a failed job: the holder of the lease gets a retry only for a failure that is not
  ambiguous and only while attempts are left; an ambiguous failure is refused and the job stays
  leased, and without an attempt left the job is dead-lettered with the failure.
\<close>

theorem job_retry_decision:
  assumes "create_job i = Inr j0" and "j = job_run cs j0" and "jb_lease j = Some l"
    and "canonical_instant t" and "at_startedAt (last (jb_attempts j)) \<le> t"
    and "canonical_instant (at_startedAt (last (jb_attempts j)))"
    and "canonical_instant retryAt" and "t < retryAt" and "assert_safe_code (sf_code failure) = Inr ()"
    and "jb_version j < max_safe_integer"
  shows "case complete_job j (wl_fence l) t (JRetry retryAt failure) of
      Inl e \<Rightarrow> sf_classification failure = Ambiguous \<and> e = Refused Reconciliation_required
    | Inr j' \<Rightarrow> sf_classification failure \<noteq> Ambiguous \<and> jb_lease j' = None
        \<and> jb_version j' = jb_version j + 1
        \<and> (if int (length (jb_attempts j)) < jb_maximumAttempts j
           then jb_state j' = RetryWait \<and> jb_nextActionAt j' = Some retryAt
           else jb_state j' = DeadLettered \<and> jb_nextActionAt j' = None)
        \<and> at_failure (last (jb_attempts j')) = Some failure"
proof -
  have ok: "job_ok j" using created_job_ok [OF assms(1)] job_run_facts assms(2) by simp
  then have log: "log_ok Leased (jb_currentFence j) (Some l) (jb_attempts j)" and st: "jb_state j = Leased"
    by (auto simp: job_ok_def log_ok_def assms(3))
  then obtain as a where as: "jb_attempts j = as @ [a]" by (cases "jb_attempts j" rule: rev_cases) (auto simp: log_ok_def)
  have cf: "jb_currentFence j = Some (wl_fence l)" using log by (auto simp: log_ok_def)
  have "find_index (\<lambda>a. at_id a = wl_attemptId l \<and> running a) (jb_attempts j) \<noteq> None"
    using log as by (auto simp: find_index_None log_ok_def)
  then obtain ix where ix: "find_index (\<lambda>a. at_id a = wl_attemptId l \<and> running a) (jb_attempts j) = Some ix"
    by blast
  with active_index(2) [OF log ix] as have n: "ix = length as" by simp
  have ver: "next_aggregate_version (jb_version j) = Inr (jb_version j + 1)"
    using assms(10) job.run_version [of j0 cs] created_job_ok [OF assms(1)]
    by (simp add: work_defs assms(2) job_run_def safe_integer_def max_safe_integer_def)
  note inst = canonical_instant_def [THEN iffD1, OF assms(4)] canonical_instant_def [THEN iffD1, OF assms(6)]
    canonical_instant_def [THEN iffD1, OF assms(7)]
  have start: "\<not> t < at_startedAt a" "parse_instant (at_startedAt a) = Inr (at_startedAt a)"
    using assms(5) inst(2) as by simp_all
  have ret: "\<not> retryAt \<le> t" using assms(8) by simp
  show ?thesis
    using ix n start
    by (simp add: ret complete_job_def canonical_instant_of_def inst st cf assms(3,9) as assert_not_before_def
        settle_job_failure_def assert_after_def not_le ensure_def ver Let_def
        del: next_fence_values)
qed

definition sample_definition :: job_definition where
  "sample_definition =
     (let r = \<lparr> dr_kind = ''k'', dr_key = ''sample'', dr_version = 1 \<rparr>;
          schema = \<lparr> sr_key = ''sample'', sr_version = 1, sr_digest = ''digest'' \<rparr> in
      \<lparr> jd_key = ''job'', jd_version = 1, jd_digest = ''digest'', jd_inputSchema = schema,
        jd_resultSchema = schema, jd_errorDetailSchema = schema, jd_source = r,
        jd_scopeCausation = r, jd_inputProjection = r, jd_targetOperation = r,
        jd_capabilityRevisionId = ''capability'', jd_authorityCitation = r,
        jd_leaseDurationMs = 60000, jd_maximumAttempts = 2, jd_backoff = r, jd_timeoutMs = 60000,
        jd_cancellation = r, jd_externalRetryPolicy = AnchorInspectionOnly \<rparr>)"

definition sample_create :: create_job_input where
  "sample_create = \<lparr> cj_id = ''job'', cj_definition = sample_definition, cj_idempotencyIdentity = ''w'',
     cj_source = \<lparr> js_definition = op_source sample_pointer, js_identity = ''src'', js_version = 1 \<rparr>,
     cj_inputRef = ''input'', cj_availableAt = clock 0 \<rparr>"

lemma sample_job_created: "\<exists>j. create_job sample_create = Inr j \<and> jb_state j = Pending
  \<and> jb_leaseDurationMs j = 60000 \<and> jb_nextActionAt j = Some (clock 0) \<and> jb_attempts j = []
  \<and> jb_maximumAttempts j = 2 \<and> jb_currentFence j = None \<and> jb_version j = 1
  \<and> jb_externalRetryPolicy j = AnchorInspectionOnly \<and> jb_lease j = None"
proof -
  have "js_trim ''w'' = ''w''" by code_simp
  then show ?thesis
    by (simp add: create_job_def sample_create_def sample_definition_def canonical_instant_of_def Let_def)
qed

lemma sample_job_claimed:
  "\<exists>j0 j. create_job sample_create = Inr j0 \<and> j = job_run [JClaim (sample_claim ''a1'' 2 3)] j0
    \<and> jb_lease j = Some \<lparr> wl_fence = 1, wl_ownerKey = ''w'', wl_attemptId = ''a1'', wl_expiresAt = clock 3 \<rparr>
    \<and> jb_attempts j = [Running ''a1'' 1 1 (clock 2)] \<and> jb_state j = Leased \<and> jb_version j = 2
    \<and> jb_maximumAttempts j = 2 \<and> jb_leaseDurationMs j = 60000
    \<and> jb_externalRetryPolicy j = AnchorInspectionOnly"
proof -
  obtain j0 where j0: "create_job sample_create = Inr j0" "jb_state j0 = Pending"
    "jb_leaseDurationMs j0 = 60000" "jb_nextActionAt j0 = Some (clock 0)" "jb_attempts j0 = []"
    "jb_maximumAttempts j0 = 2" "jb_currentFence j0 = None" "jb_version j0 = 1"
    "jb_externalRetryPolicy j0 = AnchorInspectionOnly" "jb_lease j0 = None"
    using sample_job_created by blast
  have "\<exists>j. claim_job j0 (sample_claim ''a1'' 2 3) = Inr j
    \<and> jb_lease j = Some \<lparr> wl_fence = 1, wl_ownerKey = ''w'', wl_attemptId = ''a1'', wl_expiresAt = clock 3 \<rparr>
    \<and> jb_attempts j = [Running ''a1'' 1 1 (clock 2)] \<and> jb_state j = Leased \<and> jb_version j = 2
    \<and> jb_maximumAttempts j = 2 \<and> jb_leaseDurationMs j = 60000
    \<and> jb_externalRetryPolicy j = AnchorInspectionOnly"
    by (simp add: j0 claim_job_def sample_claim_simps)
  moreover have "job_run [JClaim (sample_claim ''a1'' 2 3)] j0 = j"
    if "claim_job j0 (sample_claim ''a1'' 2 3) = Inr j" for j
    using that by (simp add: job_run_def)
  ultimately show ?thesis using j0(1) by metis
qed

theorem job_attempts_serial_witness:
  "\<exists>j. create_job sample_create = Inr j
    \<and> claims (job_events [JClaim (sample_claim ''a1'' 2 3)] j)
      = completions (job_events [JClaim (sample_claim ''a1'' 2 3)] j) @ [1]"
proof -
  obtain j0 j where j0: "create_job sample_create = Inr j0"
    and j: "j = job_run [JClaim (sample_claim ''a1'' 2 3)] j0"
    and l: "jb_lease j = Some \<lparr> wl_fence = 1, wl_ownerKey = ''w'', wl_attemptId = ''a1'', wl_expiresAt = clock 3 \<rparr>"
    using sample_job_claimed by blast
  from job_attempts_serial [OF j0, of "[JClaim (sample_claim ''a1'' 2 3)]"] j0 l [unfolded j] show ?thesis
    by (auto simp: held_def)
qed

theorem leased_job_never_reclaimed_witness:
  "\<exists>j0 j. create_job sample_create = Inr j0 \<and> j = job_run [JClaim (sample_claim ''a1'' 2 3)] j0
    \<and> claim_job j (sample_claim ''a2'' 4 6) = Inl (Refused Reconciliation_required)"
proof -
  obtain j0 j where j: "create_job sample_create = Inr j0" "j = job_run [JClaim (sample_claim ''a1'' 2 3)] j0"
      "jb_lease j = Some \<lparr> wl_fence = 1, wl_ownerKey = ''w'', wl_attemptId = ''a1'', wl_expiresAt = clock 3 \<rparr>"
      "jb_leaseDurationMs j = 60000" "jb_externalRetryPolicy j = AnchorInspectionOnly"
    using sample_job_claimed by blast
  have "claim_job j (sample_claim ''a2'' 4 6) = Inl (Refused
      (if wl_expiresAt \<lparr> wl_fence = 1, wl_ownerKey = ''w'', wl_attemptId = ''a1'', wl_expiresAt = clock 3 \<rparr>
          > ci_now (sample_claim ''a2'' 4 6) then Lease_busy
       else if jb_externalRetryPolicy j = AnchorInspectionOnly then Reconciliation_required
       else External_retry_forbidden))
    \<and> (\<forall>a t. \<exists>e. record_job_lost_fence j a t = Inl e)"
    by (rule leased_job_never_reclaimed [OF j(1,2,3)])
      (simp_all add: sample_claim_def j(4) worker_key_w canonical_instant_def)
  with j show ?thesis by (auto simp: sample_claim_def)
qed

theorem job_retry_decision_witness:
  "\<exists>j0 j. create_job sample_create = Inr j0 \<and> j = job_run [JClaim (sample_claim ''a1'' 2 3)] j0
    \<and> is_ok (complete_job j 1 (clock 4) (JRetry (clock 5) \<lparr> sf_code = ''x'', sf_classification = Transient \<rparr>))"
proof -
  obtain j0 j where j: "create_job sample_create = Inr j0" "j = job_run [JClaim (sample_claim ''a1'' 2 3)] j0"
      "jb_lease j = Some \<lparr> wl_fence = 1, wl_ownerKey = ''w'', wl_attemptId = ''a1'', wl_expiresAt = clock 3 \<rparr>"
      "jb_attempts j = [Running ''a1'' 1 1 (clock 2)]" "jb_version j = 2"
    using sample_job_claimed by blast
  have code: "assert_safe_code ''x'' = Inr ()" by code_simp
  from job_retry_decision [OF j(1,2,3), of "clock 4" "clock 5" "\<lparr> sf_code = ''x'', sf_classification = Transient \<rparr>"]
  have "is_ok (complete_job j 1 (clock 4) (JRetry (clock 5) \<lparr> sf_code = ''x'', sf_classification = Transient \<rparr>))"
    by (simp add: j(4,5) code canonical_instant_def max_safe_integer_def is_ok_def split: sum.splits)
  with j show ?thesis by blast
qed

end
