(* ===== verification/Inbox.thy ===== *)
theory Inbox
  imports Delivery
begin

text \<open>
  The verified inbox, \<open>packages/reliability/src/inbox.ts\<close>: a reducer that turns each verified message
  of an integration into a new receipt, a replay of one, or a conflict with one. The lemmas say that
  reachable inboxes are consistent and that the reducer is idempotent.
\<close>

section \<open>Data\<close>

record content_binding =
  cb_profile :: definition_ref
  cb_value :: string

record inbox_receipt =
  ir_id :: string
  ir_semanticKey :: string
  ir_sourceConnectionId :: string
  ir_sourceConnectionRevisionId :: string
  ir_semanticIdentity :: string
  ir_verifierRevisionId :: string
  ir_contentBindings :: "content_binding list"
  ir_adoptedPayloadRef :: string
  ir_receivedAt :: string

record inbox_pointer =
  ip_id :: string
  ip_receiptId :: string
  ip_createdAt :: string

record inbox_conflict =
  ic_id :: string
  ic_receiptId :: string
  ic_sourceConnectionRevisionId :: string
  ic_verifierRevisionId :: string
  ic_contentBindings :: "content_binding list"
  ic_quarantinedPayloadRef :: string
  ic_observedAt :: string

record inbox_attention =
  ia_id :: string
  ia_conflictId :: string
  ia_createdAt :: string

record inbox =
  ib_receipts :: "inbox_receipt list"
  ib_processingPointers :: "inbox_pointer list"
  ib_conflicts :: "inbox_conflict list"
  ib_attentions :: "inbox_attention list"
  ib_adoptedPayloadRefs :: "string list"
  ib_quarantinedPayloadRefs :: "string list"

definition empty_inbox :: inbox where
  "empty_inbox = \<lparr> ib_receipts = [], ib_processingPointers = [], ib_conflicts = [], ib_attentions = [],
     ib_adoptedPayloadRefs = [], ib_quarantinedPayloadRefs = [] \<rparr>"

record inbox_intake =
  ii_receiptId :: string
  ii_processingPointerId :: string
  ii_conflictId :: string
  ii_attentionId :: string
  ii_sourceConnectionId :: string
  ii_sourceConnectionRevisionId :: string
  ii_semanticIdentity :: string
  ii_verifierRevisionId :: string
  ii_contentBindings :: "content_binding list"
  ii_preparedPayloadRef :: string
  ii_receivedAt :: string

datatype reduction_kind = New | Same | Changed

datatype payload_disposition = Adopted | Ignored | Quarantined

record created_flags =
  cf_receipt :: bool
  cf_processingPointer :: bool
  cf_conflict :: bool
  cf_attention :: bool

record inbox_reduction =
  rd_kind :: reduction_kind
  rd_state :: inbox
  rd_receipt :: inbox_receipt
  rd_conflict :: "inbox_conflict option"
  rd_created :: created_flags
  rd_payloadDisposition :: payload_disposition

section \<open>Parsers and identities\<close>

definition parse_local_id :: "string \<Rightarrow> string work_result" where
  "parse_local_id value = (if \<not> matches application_uuid value then Inl TypeErr else Inr (to_lower value))"

definition parse_keyed_binding_value :: "string \<Rightarrow> string work_result" where
  "parse_keyed_binding_value value =
     (if \<not> opaque_identity ''kb1_'' 32 128 value then Inl TypeErr else Inr value)"

definition parse_inbox_semantic_identity :: "string \<Rightarrow> string work_result" where
  "parse_inbox_semantic_identity value =
     (if \<not> opaque_identity ''si1_'' 24 160 value then Inl TypeErr else Inr value)"

definition keyed_content_binding :: "string \<Rightarrow> int \<Rightarrow> string \<Rightarrow> content_binding work_result" where
  "keyed_content_binding profileKey profileVersion value =
     rbind (make_definition_ref ''content_binding'' profileKey profileVersion) (\<lambda>profile.
     rbind (parse_keyed_binding_value value) (\<lambda>v. Inr \<lparr> cb_profile = profile, cb_value = v \<rparr>))"

definition binding_identity_json :: "content_binding \<Rightarrow> json" where
  "binding_identity_json b =
     JObj [(''profile'', JObj [(''key'', JStr (dr_key (cb_profile b))),
         (''version'', JNum (dr_version (cb_profile b)))]),
       (''value'', JStr (cb_value b))]"

definition binding_identity :: "content_binding \<Rightarrow> string" where
  "binding_identity b = canonical (binding_identity_json b)"

fun freeze_loop :: "string list \<Rightarrow> content_binding list \<Rightarrow> unit work_result" where
  "freeze_loop identities [] = Inr ()"
| "freeze_loop identities (b # bs) =
     (if dr_kind (cb_profile b) \<noteq> ''content_binding'' then Inl TypeErr
      else rbind (parse_keyed_binding_value (cb_value b)) (\<lambda>_.
        if binding_identity b \<in> set identities then Inl TypeErr
        else freeze_loop (binding_identity b # identities) bs))"

definition freeze_bindings :: "content_binding list \<Rightarrow> content_binding list work_result" where
  "freeze_bindings bindings =
     (if 8 < length bindings then Inl TypeErr
      else rbind (freeze_loop [] bindings) (\<lambda>_.
        if bindings = [] then Inl TypeErr else Inr bindings))"

definition bindings_intersect :: "content_binding list \<Rightarrow> content_binding list \<Rightarrow> bool" where
  "bindings_intersect left right =
     (let identities = map binding_identity left in
      list_ex (\<lambda>b. binding_identity b \<in> set identities) right)"

definition inbox_key_json :: "string \<Rightarrow> string \<Rightarrow> json" where
  "inbox_key_json identity connection =
     JObj [(''semanticIdentity'', JStr identity), (''sourceConnectionId'', JStr connection)]"

definition inbox_semantic_key :: "inbox_intake \<Rightarrow> string" where
  "inbox_semantic_key i = canonical (inbox_key_json (ii_semanticIdentity i) (ii_sourceConnectionId i))"

section \<open>The reducer\<close>

definition assert_unique_proposed_ids :: "inbox \<Rightarrow> inbox_intake \<Rightarrow> unit work_result" where
  "assert_unique_proposed_ids s i =
     rbind (ensure (\<not> list_ex (\<lambda>r. ir_id r = ii_receiptId i) (ib_receipts s)) (Refused Duplicate_identity)) (\<lambda>_.
     rbind (ensure (\<not> list_ex (\<lambda>p. ip_id p = ii_processingPointerId i) (ib_processingPointers s))
       (Refused Duplicate_identity)) (\<lambda>_.
     rbind (ensure (\<not> list_ex (\<lambda>c. ic_id c = ii_conflictId i) (ib_conflicts s)) (Refused Duplicate_identity)) (\<lambda>_.
     rbind (ensure (\<not> list_ex (\<lambda>a. ia_id a = ii_attentionId i) (ib_attentions s)) (Refused Duplicate_identity)) (\<lambda>_.
     ensure (\<not> (ii_preparedPayloadRef i \<in> set (ib_adoptedPayloadRefs s)
         \<or> ii_preparedPayloadRef i \<in> set (ib_quarantinedPayloadRefs s))) (Refused Duplicate_identity)))))"

definition nothing_created :: created_flags where
  "nothing_created = \<lparr> cf_receipt = False, cf_processingPointer = False, cf_conflict = False, cf_attention = False \<rparr>"

definition new_receipt :: "inbox_intake \<Rightarrow> string \<Rightarrow> content_binding list \<Rightarrow> inbox_receipt" where
  "new_receipt i receivedAt bindings =
     \<lparr> ir_id = ii_receiptId i, ir_semanticKey = inbox_semantic_key i,
       ir_sourceConnectionId = ii_sourceConnectionId i,
       ir_sourceConnectionRevisionId = ii_sourceConnectionRevisionId i,
       ir_semanticIdentity = ii_semanticIdentity i, ir_verifierRevisionId = ii_verifierRevisionId i,
       ir_contentBindings = bindings, ir_adoptedPayloadRef = ii_preparedPayloadRef i,
       ir_receivedAt = receivedAt \<rparr>"

definition accept_new :: "inbox \<Rightarrow> inbox_intake \<Rightarrow> string \<Rightarrow> content_binding list \<Rightarrow> inbox_reduction" where
  "accept_new s i receivedAt bindings =
     (let receipt = new_receipt i receivedAt bindings;
          pointer = \<lparr> ip_id = ii_processingPointerId i, ip_receiptId = ir_id receipt, ip_createdAt = receivedAt \<rparr>
      in \<lparr> rd_kind = New,
           rd_state = s\<lparr> ib_receipts := ib_receipts s @ [receipt],
             ib_processingPointers := ib_processingPointers s @ [pointer],
             ib_adoptedPayloadRefs := ib_adoptedPayloadRefs s @ [ii_preparedPayloadRef i] \<rparr>,
           rd_receipt = receipt, rd_conflict = None,
           rd_created = \<lparr> cf_receipt = True, cf_processingPointer = True, cf_conflict = False, cf_attention = False \<rparr>,
           rd_payloadDisposition = Adopted \<rparr>)"

definition accept_conflict ::
  "inbox \<Rightarrow> inbox_intake \<Rightarrow> string \<Rightarrow> content_binding list \<Rightarrow> inbox_receipt \<Rightarrow> inbox_reduction"
where
  "accept_conflict s i receivedAt bindings receipt =
     (let conflict = \<lparr> ic_id = ii_conflictId i, ic_receiptId = ir_id receipt,
            ic_sourceConnectionRevisionId = ii_sourceConnectionRevisionId i,
            ic_verifierRevisionId = ii_verifierRevisionId i, ic_contentBindings = bindings,
            ic_quarantinedPayloadRef = ii_preparedPayloadRef i, ic_observedAt = receivedAt \<rparr>;
          attention = \<lparr> ia_id = ii_attentionId i, ia_conflictId = ic_id conflict, ia_createdAt = receivedAt \<rparr>
      in \<lparr> rd_kind = Changed,
           rd_state = s\<lparr> ib_conflicts := ib_conflicts s @ [conflict],
             ib_attentions := ib_attentions s @ [attention],
             ib_quarantinedPayloadRefs := ib_quarantinedPayloadRefs s @ [ii_preparedPayloadRef i] \<rparr>,
           rd_receipt = receipt, rd_conflict = Some conflict,
           rd_created = \<lparr> cf_receipt = False, cf_processingPointer = False, cf_conflict = True, cf_attention = True \<rparr>,
           rd_payloadDisposition = Quarantined \<rparr>)"

definition ignored :: "inbox \<Rightarrow> reduction_kind \<Rightarrow> inbox_receipt \<Rightarrow> inbox_conflict option \<Rightarrow> inbox_reduction" where
  "ignored s kind receipt conflict =
     \<lparr> rd_kind = kind, rd_state = s, rd_receipt = receipt, rd_conflict = conflict,
       rd_created = nothing_created, rd_payloadDisposition = Ignored \<rparr>"

definition matching_conflicts :: "inbox \<Rightarrow> inbox_receipt \<Rightarrow> content_binding list \<Rightarrow> inbox_conflict list" where
  "matching_conflicts s receipt bindings =
     filter (\<lambda>c. ic_receiptId c = ir_id receipt \<and> bindings_intersect (ic_contentBindings c) bindings)
       (ib_conflicts s)"

definition reduce_verified_inbox :: "inbox \<Rightarrow> inbox_intake \<Rightarrow> inbox_reduction work_result" where
  "reduce_verified_inbox s i =
     rbind (widen (parse_instant (ii_receivedAt i))) (\<lambda>receivedAt.
     rbind (freeze_bindings (ii_contentBindings i)) (\<lambda>bindings.
       case find (\<lambda>r. ir_semanticKey r = inbox_semantic_key i) (ib_receipts s) of
         None \<Rightarrow>
           rbind (assert_unique_proposed_ids s i) (\<lambda>_. Inr (accept_new s i receivedAt bindings))
       | Some receipt \<Rightarrow>
           (let canonicalMatch = bindings_intersect (ir_contentBindings receipt) bindings;
                matching = matching_conflicts s receipt bindings in
            if canonicalMatch \<and> 0 < length matching \<or> 1 < length matching
            then Inl (Refused Binding_collision)
            else if canonicalMatch then Inr (ignored s Same receipt None)
            else (case matching of
              c # _ \<Rightarrow> Inr (ignored s Changed receipt (Some c))
            | [] \<Rightarrow> rbind (assert_unique_proposed_ids s i) (\<lambda>_.
                Inr (accept_conflict s i receivedAt bindings receipt))))))"

section \<open>Identities name what they should\<close>

lemma binding_identity_inject:
  "binding_identity a = binding_identity b \<longleftrightarrow>
   dr_key (cb_profile a) = dr_key (cb_profile b) \<and> dr_version (cb_profile a) = dr_version (cb_profile b)
   \<and> cb_value a = cb_value b"
proof
  assume "binding_identity a = binding_identity b"
  then have c: "canon (binding_identity_json a) = canon (binding_identity_json b)"
    by (simp add: binding_identity_def canonical_inject)
  from canon_obj_field [OF c [unfolded binding_identity_json_def], of "''profile''"]
  have p: "canon (JObj [(''key'', JStr (dr_key (cb_profile a))), (''version'', JNum (dr_version (cb_profile a)))])
      = canon (JObj [(''key'', JStr (dr_key (cb_profile b))), (''version'', JNum (dr_version (cb_profile b)))])"
    by (simp del: canon.simps)
  from canon_obj_field [OF c [unfolded binding_identity_json_def], of "''value''"]
    canon_obj_field [OF p, of "''key''"] canon_obj_field [OF p, of "''version''"]
  show "dr_key (cb_profile a) = dr_key (cb_profile b) \<and> dr_version (cb_profile a) = dr_version (cb_profile b)
   \<and> cb_value a = cb_value b"
    by simp
qed (simp add: binding_identity_def binding_identity_json_def)

lemma inbox_key_inject:
  "canonical (inbox_key_json a b) = canonical (inbox_key_json c d) \<longleftrightarrow> a = c \<and> b = d"
proof
  assume "canonical (inbox_key_json a b) = canonical (inbox_key_json c d)"
  then have c: "canon (inbox_key_json a b) = canon (inbox_key_json c d)" by (simp add: canonical_inject)
  from canon_obj_field [OF c [unfolded inbox_key_json_def], of "''semanticIdentity''"]
    canon_obj_field [OF c [unfolded inbox_key_json_def], of "''sourceConnectionId''"]
  show "a = c \<and> b = d" by simp
qed simp

text \<open>Two binding lists have an alias in common.\<close>

definition share_binding :: "content_binding list \<Rightarrow> content_binding list \<Rightarrow> bool" where
  "share_binding as bs \<longleftrightarrow> (\<exists>a \<in> set as. \<exists>b \<in> set bs. cb_value a = cb_value b
     \<and> dr_key (cb_profile a) = dr_key (cb_profile b) \<and> dr_version (cb_profile a) = dr_version (cb_profile b))"

lemma bindings_intersect_iff: "bindings_intersect as bs \<longleftrightarrow> share_binding as bs"
  unfolding bindings_intersect_def Let_def list_ex_iff set_map image_iff share_binding_def
    binding_identity_inject
  by metis

lemma freeze_result: "freeze_bindings bs = Inr cs \<Longrightarrow> cs = bs \<and> bs \<noteq> []"
  by (auto simp: freeze_bindings_def split: if_splits elim!: rbind_InrE)

lemma share_binding_refl: "bs \<noteq> [] \<Longrightarrow> share_binding bs bs"
  by (cases bs) (auto simp: share_binding_def)

lemma share_binding_sym: "share_binding as bs \<longleftrightarrow> share_binding bs as"
  unfolding share_binding_def by metis

section \<open>Reachable inboxes\<close>

inductive reachable_inbox :: "inbox \<Rightarrow> bool" where
  empty: "reachable_inbox empty_inbox"
| reduce: "reachable_inbox s \<Longrightarrow> reduce_verified_inbox s i = Inr r \<Longrightarrow> reachable_inbox (rd_state r)"

text \<open>
  Receipts and processing pointers correspond one to one, as do conflicts and attentions; identities
  are unique; every payload was adopted by one receipt or quarantined by one conflict; and a binding
  of a receipt's message belongs to the receipt or to one of its conflicts, never to two of them.
\<close>

definition inbox_identities :: "inbox \<Rightarrow> bool" where
  "inbox_identities s \<longleftrightarrow>
     distinct (map ir_semanticKey (ib_receipts s)) \<and> distinct (map ir_id (ib_receipts s))
     \<and> map ip_receiptId (ib_processingPointers s) = map ir_id (ib_receipts s)
     \<and> distinct (map ip_id (ib_processingPointers s))
     \<and> distinct (map ic_id (ib_conflicts s))
     \<and> map ia_conflictId (ib_attentions s) = map ic_id (ib_conflicts s)
     \<and> distinct (map ia_id (ib_attentions s))
     \<and> ib_adoptedPayloadRefs s = map ir_adoptedPayloadRef (ib_receipts s)
     \<and> ib_quarantinedPayloadRefs s = map ic_quarantinedPayloadRef (ib_conflicts s)
     \<and> distinct (map ir_adoptedPayloadRef (ib_receipts s) @ map ic_quarantinedPayloadRef (ib_conflicts s))"

definition inbox_outcomes :: "inbox \<Rightarrow> bool" where
  "inbox_outcomes s \<longleftrightarrow>
     (\<forall>r \<in> set (ib_receipts s). ir_semanticKey r
          = canonical (inbox_key_json (ir_semanticIdentity r) (ir_sourceConnectionId r)))
     \<and> (\<forall>c \<in> set (ib_conflicts s). \<exists>r \<in> set (ib_receipts s). ic_receiptId c = ir_id r)
     \<and> (\<forall>c \<in> set (ib_conflicts s). \<forall>r \<in> set (ib_receipts s).
          ic_receiptId c = ir_id r \<longrightarrow> \<not> share_binding (ir_contentBindings r) (ic_contentBindings c))
     \<and> (\<forall>c \<in> set (ib_conflicts s). \<forall>d \<in> set (ib_conflicts s).
          ic_receiptId c = ic_receiptId d \<and> share_binding (ic_contentBindings c) (ic_contentBindings d)
          \<longrightarrow> c = d)"

definition inbox_ok :: "inbox \<Rightarrow> bool" where
  "inbox_ok s \<longleftrightarrow> inbox_identities s \<and> inbox_outcomes s"

lemma inbox_outcomesD:
  assumes "inbox_ok s"
  shows "r \<in> set (ib_receipts s) \<Longrightarrow>
      ir_semanticKey r = canonical (inbox_key_json (ir_semanticIdentity r) (ir_sourceConnectionId r))"
    and "c \<in> set (ib_conflicts s) \<Longrightarrow> ic_receiptId c \<in> ir_id ` set (ib_receipts s)"
    and "c \<in> set (ib_conflicts s) \<Longrightarrow> r \<in> set (ib_receipts s) \<Longrightarrow> ic_receiptId c = ir_id r \<Longrightarrow>
      \<not> share_binding (ir_contentBindings r) (ic_contentBindings c)"
    and "c \<in> set (ib_conflicts s) \<Longrightarrow> d \<in> set (ib_conflicts s) \<Longrightarrow> ic_receiptId c = ic_receiptId d \<Longrightarrow>
      share_binding (ic_contentBindings c) (ic_contentBindings d) \<Longrightarrow> c = d"
  using assms unfolding inbox_ok_def inbox_outcomes_def image_iff by blast+

text \<open>The four ways an intake is reduced.\<close>

lemma reduce_cases:
  assumes "reduce_verified_inbox s i = Inr r"
  obtains (New) t where "find (\<lambda>r. ir_semanticKey r = inbox_semantic_key i) (ib_receipts s) = None"
      "assert_unique_proposed_ids s i = Inr ()" "r = accept_new s i t (ii_contentBindings i)"
    | (Same) rc where "find (\<lambda>r. ir_semanticKey r = inbox_semantic_key i) (ib_receipts s) = Some rc"
      "share_binding (ir_contentBindings rc) (ii_contentBindings i)"
      "matching_conflicts s rc (ii_contentBindings i) = []" "r = ignored s Same rc None"
    | (Known) rc c where "find (\<lambda>r. ir_semanticKey r = inbox_semantic_key i) (ib_receipts s) = Some rc"
      "\<not> share_binding (ir_contentBindings rc) (ii_contentBindings i)"
      "matching_conflicts s rc (ii_contentBindings i) = [c]" "r = ignored s Changed rc (Some c)"
    | (Conflict) t rc where "find (\<lambda>r. ir_semanticKey r = inbox_semantic_key i) (ib_receipts s) = Some rc"
      "\<not> share_binding (ir_contentBindings rc) (ii_contentBindings i)"
      "matching_conflicts s rc (ii_contentBindings i) = []"
      "assert_unique_proposed_ids s i = Inr ()" "r = accept_conflict s i t (ii_contentBindings i) rc"
proof -
  from assms obtain t where fb: "freeze_bindings (ii_contentBindings i) = Inr (ii_contentBindings i)"
    and body: "(case find (\<lambda>r. ir_semanticKey r = inbox_semantic_key i) (ib_receipts s) of
         None \<Rightarrow> rbind (assert_unique_proposed_ids s i) (\<lambda>_. Inr (accept_new s i t (ii_contentBindings i)))
       | Some receipt \<Rightarrow>
           (let canonicalMatch = bindings_intersect (ir_contentBindings receipt) (ii_contentBindings i);
                matching = matching_conflicts s receipt (ii_contentBindings i) in
            if canonicalMatch \<and> 0 < length matching \<or> 1 < length matching
            then Inl (Refused Binding_collision)
            else if canonicalMatch then Inr (ignored s Same receipt None)
            else (case matching of
              c # _ \<Rightarrow> Inr (ignored s Changed receipt (Some c))
            | [] \<Rightarrow> rbind (assert_unique_proposed_ids s i) (\<lambda>_.
                Inr (accept_conflict s i t (ii_contentBindings i) receipt))))) = Inr r"
    unfolding reduce_verified_inbox_def by (elim rbind_InrE) (use freeze_result in blast)
  show ?thesis
  proof (cases "find (\<lambda>r. ir_semanticKey r = inbox_semantic_key i) (ib_receipts s)")
    case None
    with body New show ?thesis by (auto elim!: rbind_InrE)
  next
    case (Some rc)
    show ?thesis
    proof (cases "matching_conflicts s rc (ii_contentBindings i)")
      case Nil
      with Some body Same [OF Some] Conflict [OF Some] show ?thesis
        by (auto simp: bindings_intersect_iff split: if_splits elim!: rbind_InrE)
    next
      case (Cons c cs)
      with Some body Known [OF Some] show ?thesis
        by (auto simp: bindings_intersect_iff Let_def split: if_splits)
    qed
  qed
qed

lemma collision_cases:
  assumes "reduce_verified_inbox s i = Inl (Refused Binding_collision)"
  obtains rc where "find (\<lambda>r. ir_semanticKey r = inbox_semantic_key i) (ib_receipts s) = Some rc"
    "share_binding (ir_contentBindings rc) (ii_contentBindings i)
        \<and> matching_conflicts s rc (ii_contentBindings i) \<noteq> []
      \<or> 1 < length (matching_conflicts s rc (ii_contentBindings i))"
proof -
  have w: "widen m \<noteq> Inl (Refused c)" for m :: "(unit, string) outcome" and c :: reliability_code
    by (cases m rule: widen.cases) auto
  have p: "freeze_loop ids bs \<noteq> Inl (Refused c)" for ids bs c
    by (induction bs arbitrary: ids)
      (auto simp: rbind_Inl_iff parse_keyed_binding_value_def split: if_splits)
  have f: "freeze_bindings bs \<noteq> Inl (Refused c)" for bs c
    using p by (auto simp: freeze_bindings_def rbind_Inl_iff split: if_splits)
  have u: "assert_unique_proposed_ids s i \<noteq> Inl (Refused Binding_collision)"
    by (auto simp: assert_unique_proposed_ids_def rbind_Inl_iff ensure_def)
  let ?bs = "ii_contentBindings i"
  show ?thesis
  proof (cases "find (\<lambda>r. ir_semanticKey r = inbox_semantic_key i) (ib_receipts s)")
    case None
    with assms w f u show ?thesis by (auto simp: reduce_verified_inbox_def rbind_Inl_iff)
  next
    case (Some rc)
    obtain t where "widen (parse_instant (ii_receivedAt i)) = (Inr t :: string work_result)"
      using assms w by (auto simp: reduce_verified_inbox_def rbind_Inl_iff)
    moreover have "freeze_bindings ?bs = Inr ?bs"
      using assms w f freeze_result [of ?bs] by (auto simp: reduce_verified_inbox_def rbind_Inl_iff)
    ultimately show ?thesis
      using assms that [OF Some] u
      by (cases "matching_conflicts s rc ?bs")
        (auto simp: reduce_verified_inbox_def Some Let_def bindings_intersect_iff rbind_Inl_iff
          split: if_splits)
  qed
qed

lemma proposed_ids_fresh:
  "assert_unique_proposed_ids s i = Inr () \<Longrightarrow>
   ii_receiptId i \<notin> ir_id ` set (ib_receipts s)
   \<and> ii_processingPointerId i \<notin> ip_id ` set (ib_processingPointers s)
   \<and> ii_conflictId i \<notin> ic_id ` set (ib_conflicts s)
   \<and> ii_attentionId i \<notin> ia_id ` set (ib_attentions s)
   \<and> ii_preparedPayloadRef i \<notin> set (ib_adoptedPayloadRefs s @ ib_quarantinedPayloadRefs s)"
  by (auto simp: assert_unique_proposed_ids_def rbind_ensure_Inr_iff ensure_Inr_iff list_ex_iff)

lemma find_key_None:
  "find (\<lambda>r. ir_semanticKey r = k) rs = None \<longleftrightarrow> k \<notin> ir_semanticKey ` set rs"
  by (auto simp: find_None_iff)

lemma find_snoc_key:
  "k \<notin> ir_semanticKey ` set rs \<Longrightarrow> ir_semanticKey r = k \<Longrightarrow>
   find (\<lambda>r. ir_semanticKey r = k) (rs @ [r]) = Some r"
  by (induction rs) auto

lemma matching_conflicts_Nil:
  "matching_conflicts s rc bs = [] \<longleftrightarrow>
   (\<forall>c \<in> set (ib_conflicts s). ic_receiptId c = ir_id rc \<longrightarrow> \<not> share_binding (ic_contentBindings c) bs)"
  by (auto simp: matching_conflicts_def filter_empty_conv bindings_intersect_iff)

lemma accept_new_ok:
  assumes "inbox_ok s" "find (\<lambda>r. ir_semanticKey r = inbox_semantic_key i) (ib_receipts s) = None"
    "assert_unique_proposed_ids s i = Inr ()"
  shows "inbox_ok (rd_state (accept_new s i t bs))"
proof -
  note fresh = proposed_ids_fresh [OF assms(3)]
  have "inbox_identities (rd_state (accept_new s i t bs))"
    using assms(1) assms(2) [unfolded find_key_None] fresh
    by (simp add: inbox_ok_def inbox_identities_def accept_new_def new_receipt_def Let_def)
  moreover have old: "ic_receiptId c \<noteq> ii_receiptId i" if "c \<in> set (ib_conflicts s)" for c
    using inbox_outcomesD(2) [OF assms(1) that] fresh by auto
  let ?s = "rd_state (accept_new s i t bs)"
  have st: "ib_receipts ?s = ib_receipts s @ [new_receipt i t bs]" "ib_conflicts ?s = ib_conflicts s"
    by (simp_all add: accept_new_def Let_def)
  have "inbox_outcomes ?s"
    unfolding inbox_outcomes_def st
  proof (intro conjI ballI impI, goal_cases)
    case (1 r)
    with inbox_outcomesD(1) [OF assms(1), of r] show ?case
      by (auto simp: new_receipt_def inbox_semantic_key_def)
  next
    case (2 c)
    with inbox_outcomesD(2) [OF assms(1), of c] show ?case by auto
  next
    case (3 c r)
    with inbox_outcomesD(3) [OF assms(1), of c r] old [of c] show ?case
      by (auto simp: new_receipt_def)
  next
    case (4 c d)
    with inbox_outcomesD(4) [OF assms(1), of c d] show ?case by blast
  qed
  ultimately show ?thesis by (simp add: inbox_ok_def)
qed

lemma accept_conflict_ok:
  assumes "inbox_ok s" "rc \<in> set (ib_receipts s)"
    "\<not> share_binding (ir_contentBindings rc) bs" "matching_conflicts s rc bs = []"
    "assert_unique_proposed_ids s i = Inr ()"
  shows "inbox_ok (rd_state (accept_conflict s i t bs rc))"
proof -
  have "inbox_identities (rd_state (accept_conflict s i t bs rc))"
    using assms(1) proposed_ids_fresh [OF assms(5)]
    by (simp add: inbox_ok_def inbox_identities_def accept_conflict_def Let_def)
  moreover have one: "r = rc" if "r \<in> set (ib_receipts s)" "ir_id rc = ir_id r" for r
    using that assms(1,2) by (auto simp: inbox_ok_def inbox_identities_def distinct_map inj_on_def)
  let ?s = "rd_state (accept_conflict s i t bs rc)"
  obtain n where st: "ib_receipts ?s = ib_receipts s" "ib_conflicts ?s = ib_conflicts s @ [n]"
    and n: "ic_receiptId n = ir_id rc" "ic_contentBindings n = bs"
    by (simp add: accept_conflict_def Let_def)
  note apart = assms(4) [unfolded matching_conflicts_Nil]
  have "inbox_outcomes ?s"
    unfolding inbox_outcomes_def st
  proof (intro conjI ballI impI, goal_cases)
    case (1 r)
    with inbox_outcomesD(1) [OF assms(1), of r] show ?case .
  next
    case (2 c)
    with inbox_outcomesD(2) [OF assms(1), of c] assms(2) n show ?case by auto
  next
    case (3 c r)
    with inbox_outcomesD(3) [OF assms(1), of c r] one [of r] assms(3) n show ?case by auto
  next
    case (4 c d)
    have sym: "share_binding (ic_contentBindings n) b \<longleftrightarrow> share_binding b (ic_contentBindings n)" for b
      by (rule share_binding_sym)
    from 4 inbox_outcomesD(4) [OF assms(1), of c d] apart n show ?case
      by (auto simp: sym)
  qed
  ultimately show ?thesis by (simp add: inbox_ok_def)
qed

lemma reduce_keeps_ok: "inbox_ok s \<Longrightarrow> reduce_verified_inbox s i = Inr r \<Longrightarrow> inbox_ok (rd_state r)"
  by (erule reduce_cases)
    (auto simp: ignored_def accept_new_ok dest!: find_Some_iff [THEN iffD1] intro!: accept_conflict_ok)

lemma reachable_inbox_ok: "reachable_inbox s \<Longrightarrow> inbox_ok s"
proof (induction rule: reachable_inbox.induct)
  case empty
  show ?case by (simp add: inbox_ok_def inbox_identities_def inbox_outcomes_def empty_inbox_def)
next
  case (reduce s i r)
  then show ?case by (intro reduce_keeps_ok)
qed

lemma distinct_equal_length: "distinct xs \<Longrightarrow> (\<And>x y. x \<in> set xs \<Longrightarrow> y \<in> set xs \<Longrightarrow> x = y) \<Longrightarrow> length xs \<le> 1"
proof (cases xs)
  case (Cons x ys)
  assume "distinct xs" "\<And>x y. x \<in> set xs \<Longrightarrow> y \<in> set xs \<Longrightarrow> x = y"
  with Cons have "\<not> y \<in> set ys" for y by (metis distinct.simps(2) list.set_intros)
  then have "ys = []" by (cases ys) auto
  with Cons show ?thesis by simp
qed simp

text \<open>A list with a single binding shares it with two others only if these share it as well.\<close>

lemma share_single:
  "length bs = 1 \<Longrightarrow> share_binding as bs \<Longrightarrow> share_binding cs bs \<Longrightarrow> share_binding as cs"
  by (cases bs) (simp_all add: share_binding_def, metis)

text \<open>
  C11. Every reachable inbox is consistent: one receipt per semantic identity, a processing pointer for
  each receipt and an attention for each conflict, every payload adopted or quarantined once, and no
  content binding of a message attributed to two outcomes. So an intake that brings a single binding
  never ends in a binding collision.
\<close>

theorem reachable_inbox_consistent:
  assumes "reachable_inbox s"
  shows "inbox_identities s \<and> inbox_outcomes s
    \<and> (length (ii_contentBindings i) = 1 \<longrightarrow> reduce_verified_inbox s i \<noteq> Inl (Refused Binding_collision))"
proof -
  have ok: "inbox_ok s" using assms by (rule reachable_inbox_ok)
  have "reduce_verified_inbox s i \<noteq> Inl (Refused Binding_collision)" if one: "length (ii_contentBindings i) = 1"
  proof
    let ?bs = "ii_contentBindings i"
    assume "reduce_verified_inbox s i = Inl (Refused Binding_collision)"
    then obtain rc where rc: "find (\<lambda>r. ir_semanticKey r = inbox_semantic_key i) (ib_receipts s) = Some rc"
      and col: "share_binding (ir_contentBindings rc) ?bs \<and> matching_conflicts s rc ?bs \<noteq> []
        \<or> 1 < length (matching_conflicts s rc ?bs)"
      by (rule collision_cases)
    from rc have rs: "rc \<in> set (ib_receipts s)" by (auto simp: find_Some_iff)
    have m: "c \<in> set (ib_conflicts s) \<and> ic_receiptId c = ir_id rc \<and> share_binding (ic_contentBindings c) ?bs"
      if "c \<in> set (matching_conflicts s rc ?bs)" for c
      using that by (simp add: matching_conflicts_def bindings_intersect_iff)
    have none: "\<not> share_binding (ir_contentBindings rc) ?bs \<or> matching_conflicts s rc ?bs = []"
    proof (rule ccontr)
      assume "\<not> ?thesis"
      then obtain c where c: "c \<in> set (matching_conflicts s rc ?bs)" "share_binding (ir_contentBindings rc) ?bs"
        by (cases "matching_conflicts s rc ?bs") auto
      with m [OF c(1)] share_single [OF one c(2)] inbox_outcomesD(3) [OF ok _ rs] show False by blast
    qed
    have "distinct (matching_conflicts s rc ?bs)"
      using ok by (auto simp: matching_conflicts_def inbox_ok_def inbox_identities_def distinct_map)
    moreover have "c = d" if "c \<in> set (matching_conflicts s rc ?bs)" "d \<in> set (matching_conflicts s rc ?bs)" for c d
      using m [OF that(1)] m [OF that(2)] share_single [OF one]
      by (intro inbox_outcomesD(4) [OF ok]) auto
    ultimately have "length (matching_conflicts s rc ?bs) \<le> 1"
      by (rule distinct_equal_length)
    with col none show False by auto
  qed
  with ok show ?thesis by (simp add: inbox_ok_def)
qed

definition sample_intake :: "string \<Rightarrow> inbox_intake" where
  "sample_intake p = \<lparr> ii_receiptId = ''r1'', ii_processingPointerId = ''p1'', ii_conflictId = ''c1'',
     ii_attentionId = ''a1'', ii_sourceConnectionId = ''conn'', ii_sourceConnectionRevisionId = ''rev'',
     ii_semanticIdentity = ''si'', ii_verifierRevisionId = ''ver'',
     ii_contentBindings = [\<lparr> cb_profile = \<lparr> dr_kind = ''content_binding'', dr_key = ''k'', dr_version = 1 \<rparr>,
       cb_value = ''kb1_'' @ replicate 32 CHR ''a'' \<rparr>],
     ii_preparedPayloadRef = p, ii_receivedAt = clock 1 \<rparr>"

lemma sample_intake_accepted:
  "\<exists>r. reduce_verified_inbox empty_inbox (sample_intake ''p'') = Inr r \<and> rd_kind r = New"
proof -
  have "parse_keyed_binding_value (''kb1_'' @ replicate 32 CHR ''a'') = Inr (''kb1_'' @ replicate 32 CHR ''a'')"
    by code_simp
  then show ?thesis
    using clock_parse [of 1]
    by (simp add: reduce_verified_inbox_def sample_intake_def freeze_bindings_def empty_inbox_def
        assert_unique_proposed_ids_def accept_new_def Let_def)
qed

theorem reachable_inbox_consistent_witness:
  "\<exists>r. reduce_verified_inbox empty_inbox (sample_intake ''p'') = Inr r \<and> inbox_ok (rd_state r)"
proof -
  obtain r where r: "reduce_verified_inbox empty_inbox (sample_intake ''p'') = Inr r"
    using sample_intake_accepted by blast
  from reachable_inbox_consistent [OF reachable_inbox.reduce [OF reachable_inbox.empty r]] r
  show ?thesis by (auto simp: inbox_ok_def)
qed

text \<open>
  The reducer is idempotent. Once an intake was reduced, delivering the same message again, with
  whatever newly proposed identifiers and payload, changes nothing: the state stays, nothing is
  created, the payload is ignored, and the receipt and the conflict reported are those of the first
  delivery.
\<close>

theorem inbox_replay_ignored:
  assumes "reachable_inbox s" and "reduce_verified_inbox s i = Inr r"
    and "ii_sourceConnectionId i' = ii_sourceConnectionId i"
    and "ii_semanticIdentity i' = ii_semanticIdentity i"
    and "ii_contentBindings i' = ii_contentBindings i"
    and "canonical_instant (ii_receivedAt i')"
  shows "reduce_verified_inbox (rd_state r) i' = Inr (ignored (rd_state r)
    (if rd_kind r = New then Same else rd_kind r) (rd_receipt r) (rd_conflict r))"
proof -
  let ?bs = "ii_contentBindings i"
  have ok: "inbox_ok s" using assms(1) by (rule reachable_inbox_ok)
  from assms(2) have fb: "freeze_bindings ?bs = Inr ?bs" and ne: "?bs \<noteq> []"
    unfolding reduce_verified_inbox_def by (auto elim!: rbind_InrE dest: freeze_result)
  have key: "inbox_semantic_key i' = inbox_semantic_key i" by (simp add: inbox_semantic_key_def assms(3,4))
  note t = assms(6) [unfolded canonical_instant_def]
  from assms(2) show ?thesis
  proof (cases rule: reduce_cases)
    case (New t')
    let ?rc = "new_receipt i t' ?bs"
    have "find (\<lambda>r. ir_semanticKey r = inbox_semantic_key i) (ib_receipts s @ [?rc]) = Some ?rc"
      using New(1) [unfolded find_key_None]
      by (intro find_snoc_key) (simp_all add: new_receipt_def)
    moreover have "ic_receiptId c \<noteq> ii_receiptId i" if "c \<in> set (ib_conflicts s)" for c
      using inbox_outcomesD(2) [OF ok that] proposed_ids_fresh [OF New(2)] by auto
    then have "matching_conflicts (rd_state r) ?rc ?bs = []"
      by (auto simp: New(3) matching_conflicts_Nil accept_new_def Let_def new_receipt_def)
    ultimately show ?thesis
      using share_binding_refl [OF ne]
      by (simp add: reduce_verified_inbox_def t assms(5) fb key bindings_intersect_iff Let_def New(3)
          accept_new_def) (simp add: new_receipt_def)
  next
    case (Same rc)
    then show ?thesis
      by (simp add: reduce_verified_inbox_def t assms(5) fb key bindings_intersect_iff Let_def ignored_def)
  next
    case (Known rc c)
    then show ?thesis
      by (simp add: reduce_verified_inbox_def t assms(5) fb key bindings_intersect_iff Let_def ignored_def)
  next
    case (Conflict t' rc)
    have "matching_conflicts (rd_state r) rc ?bs = [the (rd_conflict r)]"
      using Conflict(3) share_binding_refl [OF ne]
      by (simp add: Conflict(5) matching_conflicts_def accept_conflict_def Let_def bindings_intersect_iff)
    with Conflict show ?thesis
      by (simp add: reduce_verified_inbox_def t assms(5) fb key bindings_intersect_iff Let_def
          accept_conflict_def)
  qed
qed

theorem inbox_replay_ignored_witness:
  "\<exists>r. reduce_verified_inbox empty_inbox (sample_intake ''p'') = Inr r
    \<and> (\<exists>r'. reduce_verified_inbox (rd_state r) (sample_intake ''q'') = Inr r'
        \<and> rd_state r' = rd_state r \<and> rd_kind r' = Same)"
proof -
  obtain r where r: "reduce_verified_inbox empty_inbox (sample_intake ''p'') = Inr r" "rd_kind r = New"
    using sample_intake_accepted by blast
  have "reduce_verified_inbox (rd_state r) (sample_intake ''q'') = Inr (ignored (rd_state r)
    (if rd_kind r = New then Same else rd_kind r) (rd_receipt r) (rd_conflict r))"
    using clock_parse [of 1]
    by (intro inbox_replay_ignored [OF reachable_inbox.empty r(1)])
      (simp_all add: sample_intake_def canonical_instant_def)
  with r show ?thesis by (simp add: ignored_def)
qed

text \<open>
  What the reducer decides depends on identity and content alone: a message is new exactly when no
  receipt has its connection and semantic identity, the same exactly when it shares a content binding
  with that receipt, and changed otherwise; a changed message never touches the adopted payloads.
\<close>

theorem inbox_classification:
  assumes "reachable_inbox s" and "reduce_verified_inbox s i = Inr r"
  defines "known \<equiv> \<lambda>rc. rc \<in> set (ib_receipts s) \<and> ir_semanticIdentity rc = ii_semanticIdentity i
    \<and> ir_sourceConnectionId rc = ii_sourceConnectionId i"
  shows "(rd_kind r = New \<longleftrightarrow> (\<nexists>rc. known rc))
    \<and> (rd_kind r = Same \<longleftrightarrow> (\<exists>rc. known rc \<and> share_binding (ir_contentBindings rc) (ii_contentBindings i)))
    \<and> (rd_kind r = Changed \<longrightarrow> ib_adoptedPayloadRefs (rd_state r) = ib_adoptedPayloadRefs s
        \<and> ib_receipts (rd_state r) = ib_receipts s)"
proof -
  have ok: "inbox_ok s" using assms(1) by (rule reachable_inbox_ok)
  have known: "known rc \<longleftrightarrow> rc \<in> set (ib_receipts s) \<and> ir_semanticKey rc = inbox_semantic_key i" for rc
    using ok by (auto simp: known_def inbox_ok_def inbox_outcomes_def inbox_semantic_key_def inbox_key_inject)
  have one: "rc = rc'" if "known rc" "known rc'" for rc rc'
    using that ok by (auto simp: known inbox_ok_def inbox_identities_def distinct_map inj_on_def)
  have found: "known rc" if "find (\<lambda>r. ir_semanticKey r = inbox_semantic_key i) (ib_receipts s) = Some rc" for rc
    using that by (auto simp: known find_Some_iff)
  from assms(2) show ?thesis
  proof (cases rule: reduce_cases)
    case (New t)
    then have "\<not> known rc" for rc by (force simp: known find_key_None)
    with New show ?thesis by (simp add: accept_new_def Let_def)
  next
    case (Same rc)
    with found [OF Same(1)] show ?thesis by (auto simp: ignored_def)
  next
    case (Known rc c)
    with found [OF Known(1)] one show ?thesis by (auto simp: ignored_def)
  next
    case (Conflict t rc)
    with found [OF Conflict(1)] one show ?thesis by (auto simp: accept_conflict_def Let_def)
  qed
qed

theorem inbox_classification_witness:
  "\<exists>r. reduce_verified_inbox empty_inbox (sample_intake ''p'') = Inr r \<and> rd_kind r = New
    \<and> \<not> (\<exists>rc. rc \<in> set (ib_receipts empty_inbox) \<and> ir_semanticIdentity rc = ''si'')"
proof -
  obtain r where r: "reduce_verified_inbox empty_inbox (sample_intake ''p'') = Inr r"
    using sample_intake_accepted by blast
  from inbox_classification [OF reachable_inbox.empty r] r show ?thesis by (auto simp: empty_inbox_def)
qed

end
