(* ===== verification/Vocabulary.thy ===== *)
theory Vocabulary
  imports Json Identifiers Definitions
begin

text \<open>
  The program vocabulary of an event, \<open>packages/program/src/model.ts\<close> with the scalar schemas of
  \<open>packages/contracts/src/program-vocabulary.ts\<close>: rooms, tracks and formats with canonical names and
  identifiers. A state is built by \<open>create_vocabulary_state\<close>; the lemmas say that what it builds is
  well formed and that the stored form parses back to the same state.
\<close>

section \<open>Names, identifiers and accents\<close>

function collapse_spaces :: "string \<Rightarrow> string" where
  "collapse_spaces [] = []"
| "collapse_spaces (c # s) =
     (if js_space c then CHR '' '' # collapse_spaces (dropWhile js_space s) else c # collapse_spaces s)"
  by pat_completeness auto
termination
  by (relation "measure length") (simp_all add: le_imp_less_Suc length_dropWhile_le)

definition normalized_name :: "string \<Rightarrow> string" where
  "normalized_name value = collapse_spaces (js_trim value)"

definition normalize_name_input :: "string \<Rightarrow> (unit, string) outcome" where
  "normalize_name_input value =
     (let normalized = normalized_name value in
      if length normalized = 0 \<or> 200 < length normalized then Inl TypeErr else Inr normalized)"

definition canonical_name :: "string \<Rightarrow> bool" where
  "canonical_name value \<longleftrightarrow> 0 < length value \<and> length value \<le> 200 \<and> normalized_name value = value"

definition normalize_vocabulary_name :: "string \<Rightarrow> (unit, string) outcome" where
  "normalize_vocabulary_name value =
     rbind (normalize_name_input value) (\<lambda>normalized.
       if \<not> canonical_name normalized then Inl TypeErr else Inr normalized)"

datatype vocabulary_kind = Room | Track | Format

datatype vocabulary_status = Active | Retired

datatype track_accent = Lavender | Sea | Neutral

definition canonical_uuid :: "(char \<Rightarrow> bool) list" where
  "canonical_uuid =
     replicate 8 lower_hex @ [\<lambda>c. c = CHR ''-''] @ replicate 4 lower_hex @ [\<lambda>c. c = CHR ''-'']
     @ [\<lambda>c. c \<in> set ''47''] @ replicate 3 lower_hex @ [\<lambda>c. c = CHR ''-'']
     @ [\<lambda>c. c \<in> set ''89ab''] @ replicate 3 lower_hex @ [\<lambda>c. c = CHR ''-'']
     @ replicate 12 lower_hex"

definition vocabulary_id :: "string \<Rightarrow> bool" where
  "vocabulary_id s \<longleftrightarrow> matches canonical_uuid s"

definition parse_vocabulary_id :: "vocabulary_kind \<Rightarrow> string \<Rightarrow> (unit, string) outcome" where
  "parse_vocabulary_id kind value =
     (if \<not> matches application_uuid value then Inl TypeErr else Inr (to_lower value))"

definition derive_track_accent :: "string \<Rightarrow> (unit, track_accent) outcome" where
  "derive_track_accent i =
     (if \<not> vocabulary_id i then Inl SchemaErr
      else (let finalByte = 16 * hex_value (i ! (length i - 2)) + hex_value (i ! (length i - 1)) in
        Inr ([Lavender, Sea, Neutral] ! (finalByte mod 3))))"

definition parse_room_capacity :: "int option \<Rightarrow> (unit, int option) outcome" where
  "parse_room_capacity value =
     (case value of
        None \<Rightarrow> Inr None
      | Some n \<Rightarrow> if \<not> safe_integer n \<or> n \<le> 0 then Inl TypeErr else Inr (Some n))"

section \<open>Items and states\<close>

record vocabulary_scope =
  sc_workspaceId :: string
  sc_eventId :: string

text \<open>
  The fields that depend on the kind: a room has a capacity or null, a track an accent. An item without
  its scope is what plans carry.
\<close>

datatype item_detail = RoomDetail "int option" | TrackDetail track_accent | FormatDetail

fun detail_kind :: "item_detail \<Rightarrow> vocabulary_kind" where
  "detail_kind (RoomDetail _) = Room"
| "detail_kind (TrackDetail _) = Track"
| "detail_kind FormatDetail = Format"

record planned_item =
  pi_id :: string
  pi_name :: string
  pi_status :: vocabulary_status
  pi_version :: int
  pi_detail :: item_detail

definition pi_kind :: "('a) planned_item_scheme \<Rightarrow> vocabulary_kind" where
  "pi_kind it = detail_kind (pi_detail it)"

record vocabulary_item = planned_item +
  vi_scope :: vocabulary_scope

record vocabulary =
  vs_scope :: vocabulary_scope
  vs_setVersion :: int
  vs_rooms :: "vocabulary_item list"
  vs_tracks :: "vocabulary_item list"
  vs_formats :: "vocabulary_item list"

text \<open>The input of a state: rooms bring a capacity, tracks and formats do not.\<close>

record named_input =
  ni_id :: string
  ni_name :: string
  ni_status :: vocabulary_status
  ni_version :: int

record room_input = named_input +
  ri_capacity :: "int option"

record vocabulary_input =
  vn_workspaceId :: string
  vn_eventId :: string
  vn_setVersion :: int
  vn_rooms :: "room_input list"
  vn_tracks :: "named_input list"
  vn_formats :: "named_input list"

definition parse_scope :: "string \<Rightarrow> string \<Rightarrow> (unit, vocabulary_scope) outcome" where
  "parse_scope workspaceId eventId =
     rbind (parse_application_id Workspace workspaceId) (\<lambda>w.
     rbind (parse_application_id Event eventId) (\<lambda>e.
       Inr \<lparr> sc_workspaceId = w, sc_eventId = e \<rparr>))"

definition compare_items :: "('a) planned_item_scheme \<Rightarrow> ('a) planned_item_scheme \<Rightarrow> int" where
  "compare_items l r = js_compare (pi_id l) (pi_id r)"

definition parse_room :: "vocabulary_scope \<Rightarrow> room_input \<Rightarrow> (unit, vocabulary_item) outcome" where
  "parse_room scope i =
     rbind (parse_vocabulary_id Room (ni_id i)) (\<lambda>iid.
     rbind (normalize_vocabulary_name (ni_name i)) (\<lambda>name.
     rbind (parse_room_capacity (ri_capacity i)) (\<lambda>capacity.
     rbind (positive_version (ni_version i)) (\<lambda>version.
       Inr \<lparr> pi_id = iid, pi_name = name, pi_status = ni_status i, pi_version = version,
         pi_detail = RoomDetail capacity, vi_scope = scope \<rparr>))))"

definition parse_track :: "vocabulary_scope \<Rightarrow> named_input \<Rightarrow> (unit, vocabulary_item) outcome" where
  "parse_track scope i =
     rbind (parse_vocabulary_id Track (ni_id i)) (\<lambda>iid.
     rbind (normalize_vocabulary_name (ni_name i)) (\<lambda>name.
     rbind (derive_track_accent iid) (\<lambda>accent.
     rbind (positive_version (ni_version i)) (\<lambda>version.
       Inr \<lparr> pi_id = iid, pi_name = name, pi_status = ni_status i, pi_version = version,
         pi_detail = TrackDetail accent, vi_scope = scope \<rparr>))))"

definition parse_format :: "vocabulary_scope \<Rightarrow> named_input \<Rightarrow> (unit, vocabulary_item) outcome" where
  "parse_format scope i =
     rbind (parse_vocabulary_id Format (ni_id i)) (\<lambda>iid.
     rbind (normalize_vocabulary_name (ni_name i)) (\<lambda>name.
     rbind (positive_version (ni_version i)) (\<lambda>version.
       Inr \<lparr> pi_id = iid, pi_name = name, pi_status = ni_status i, pi_version = version,
         pi_detail = FormatDetail, vi_scope = scope \<rparr>)))"

definition create_vocabulary_state :: "vocabulary_input \<Rightarrow> (unit, vocabulary) outcome" where
  "create_vocabulary_state i =
     rbind (parse_scope (vn_workspaceId i) (vn_eventId i)) (\<lambda>scope.
     rbind (traverse (parse_room scope) (vn_rooms i)) (\<lambda>rooms'.
     rbind (traverse (parse_track scope) (vn_tracks i)) (\<lambda>tracks'.
     rbind (traverse (parse_format scope) (vn_formats i)) (\<lambda>formats'.
       let rooms = js_sort compare_items rooms'; tracks = js_sort compare_items tracks';
           formats = js_sort compare_items formats' in
       if \<not> distinct (map pi_id (rooms @ tracks @ formats)) then Inl TypeErr
       else rbind (positive_version (vn_setVersion i)) (\<lambda>setVersion.
         Inr \<lparr> vs_scope = scope, vs_setVersion = setVersion, vs_rooms = rooms, vs_tracks = tracks,
           vs_formats = formats \<rparr>)))))"

definition vocabulary_items :: "vocabulary \<Rightarrow> vocabulary_item list" where
  "vocabulary_items s = vs_rooms s @ vs_tracks s @ vs_formats s"

fun items_of_kind :: "vocabulary \<Rightarrow> vocabulary_kind \<Rightarrow> vocabulary_item list" where
  "items_of_kind s Room = vs_rooms s"
| "items_of_kind s Track = vs_tracks s"
| "items_of_kind s Format = vs_formats s"

definition resolve_item :: "vocabulary \<Rightarrow> vocabulary_kind \<Rightarrow> string \<Rightarrow> vocabulary_item option" where
  "resolve_item s kind i = find (\<lambda>it. pi_id it = i) (items_of_kind s kind)"

definition active_items :: "vocabulary \<Rightarrow> vocabulary_kind \<Rightarrow> vocabulary_item list" where
  "active_items s kind = filter (\<lambda>it. pi_status it = Active) (items_of_kind s kind)"

definition require_active_assignment ::
  "vocabulary \<Rightarrow> vocabulary_kind \<Rightarrow> string \<Rightarrow> (string, vocabulary_item) outcome"
where
  "require_active_assignment s kind i =
     (case resolve_item s kind i of
        None \<Rightarrow> Inl (Refused ''program_vocabulary_item_missing'')
      | Some it \<Rightarrow> if pi_status it \<noteq> Active then Inl (Refused ''program_vocabulary_item_retired'') else Inr it)"

section \<open>The stored form\<close>

definition named_schema :: "('a) named_input_scheme \<Rightarrow> bool" where
  "named_schema i \<longleftrightarrow> vocabulary_id (ni_id i) \<and> canonical_name (ni_name i) \<and> positive_safe (ni_version i)"

definition room_schema :: "room_input \<Rightarrow> bool" where
  "room_schema i \<longleftrightarrow> named_schema i \<and> (case ri_capacity i of None \<Rightarrow> True | Some n \<Rightarrow> positive_safe n)"

fun strictly_ordered :: "'k::linorder list \<Rightarrow> bool" where
  "strictly_ordered (x # y # xs) \<longleftrightarrow> x < y \<and> strictly_ordered (y # xs)"
| "strictly_ordered _ = True"

definition canonical_state_schema :: "vocabulary_input \<Rightarrow> bool" where
  "canonical_state_schema i \<longleftrightarrow>
     vocabulary_id (vn_workspaceId i) \<and> vocabulary_id (vn_eventId i) \<and> positive_safe (vn_setVersion i)
     \<and> list_all room_schema (vn_rooms i) \<and> list_all named_schema (vn_tracks i)
     \<and> list_all named_schema (vn_formats i)
     \<and> strictly_ordered (map ni_id (vn_rooms i)) \<and> strictly_ordered (map ni_id (vn_tracks i))
     \<and> strictly_ordered (map ni_id (vn_formats i))
     \<and> distinct (map ni_id (vn_rooms i) @ map ni_id (vn_tracks i) @ map ni_id (vn_formats i))"

definition parse_vocabulary_state :: "vocabulary_input \<Rightarrow> (unit, vocabulary) outcome" where
  "parse_vocabulary_state i =
     (if \<not> canonical_state_schema i then Inl TypeErr else create_vocabulary_state i)"

text \<open>The input that stores a state.\<close>

definition stored_named :: "('a) planned_item_scheme \<Rightarrow> named_input" where
  "stored_named it = \<lparr> ni_id = pi_id it, ni_name = pi_name it, ni_status = pi_status it, ni_version = pi_version it \<rparr>"

definition stored_room :: "('a) planned_item_scheme \<Rightarrow> room_input" where
  "stored_room it = \<lparr> ni_id = pi_id it, ni_name = pi_name it, ni_status = pi_status it,
     ni_version = pi_version it,
     ri_capacity = (case pi_detail it of RoomDetail c \<Rightarrow> c | _ \<Rightarrow> None) \<rparr>"

definition stored_state :: "vocabulary \<Rightarrow> vocabulary_input" where
  "stored_state s = \<lparr> vn_workspaceId = sc_workspaceId (vs_scope s), vn_eventId = sc_eventId (vs_scope s),
     vn_setVersion = vs_setVersion s, vn_rooms = map stored_room (vs_rooms s),
     vn_tracks = map stored_named (vs_tracks s), vn_formats = map stored_named (vs_formats s) \<rparr>"


section \<open>Names are normalized once\<close>

text \<open>No space at the end, and every space a single blank.\<close>

fun squeezed :: "string \<Rightarrow> bool" where
  "squeezed [] = True"
| "squeezed [c] = (\<not> js_space c)"
| "squeezed (c # d # s) = ((js_space c \<longrightarrow> c = CHR '' '' \<and> \<not> js_space d) \<and> squeezed (d # s))"

lemma last_dropWhile: "dropWhile P xs \<noteq> [] \<Longrightarrow> last (dropWhile P xs) = last xs"
  by (induction xs) auto

lemma dropWhile_nonempty: "xs \<noteq> [] \<Longrightarrow> \<not> P (last xs) \<Longrightarrow> dropWhile P xs \<noteq> []"
  by (induction xs) (auto split: if_splits)

lemma blank_space: "js_space CHR '' ''"
  by (simp add: js_space_def code_of_def)

lemma collapse_squeezed:
  "s = [] \<or> \<not> js_space (last s) \<Longrightarrow>
   squeezed (collapse_spaces s) \<and> (s \<noteq> [] \<and> \<not> js_space (hd s) \<longrightarrow>
     collapse_spaces s \<noteq> [] \<and> hd (collapse_spaces s) = hd s)"
proof (induction s rule: collapse_spaces.induct)
  case (2 c s)
  show ?case
  proof (cases "js_space c")
    case True
    let ?t = "dropWhile js_space s"
    from 2(3) True have "s \<noteq> []" "\<not> js_space (last s)" by (auto split: if_splits)
    then have t: "?t \<noteq> []" by (rule dropWhile_nonempty)
    then have t: "?t \<noteq> []" "last ?t = last s" "\<not> js_space (hd ?t)"
      by (simp_all add: last_dropWhile hd_dropWhile)
    with 2(1) [OF True] \<open>\<not> js_space (last s)\<close>
    have "squeezed (collapse_spaces ?t)" "collapse_spaces ?t \<noteq> []" "hd (collapse_spaces ?t) = hd ?t"
      by auto
    then obtain d u where "collapse_spaces ?t = d # u" "d = hd ?t" "squeezed (d # u)"
      by (cases "collapse_spaces ?t") auto
    with t(3) True show ?thesis by simp
  next
    case False
    with 2(2) [OF False] 2(3) have "squeezed (collapse_spaces s)" by (cases "s = []") auto
    with False show ?thesis by (cases "collapse_spaces s") auto
  qed
qed simp

lemma squeezed_collapse: "squeezed s \<Longrightarrow> collapse_spaces s = s"
  by (induction s rule: squeezed.induct) auto

lemma squeezed_last: "squeezed s \<Longrightarrow> s = [] \<or> \<not> js_space (last s)"
  by (induction s rule: squeezed.induct) auto

lemma js_trim_id: "s = [] \<or> \<not> js_space (hd s) \<and> \<not> js_space (last s) \<Longrightarrow> js_trim s = s"
proof (cases "s = []")
  case False
  assume "s = [] \<or> \<not> js_space (hd s) \<and> \<not> js_space (last s)"
  with False have "dropWhile js_space s = s" "dropWhile js_space (rev s) = rev s"
    by (simp_all add: dropWhile_eq_self_iff hd_rev)
  then show ?thesis by (simp add: js_trim_def)
qed (simp add: js_trim_def)

lemma js_trim_ends: "js_trim s = [] \<or> \<not> js_space (hd (js_trim s)) \<and> \<not> js_space (last (js_trim s))"
proof (cases "js_trim s = []")
  case False
  let ?t = "dropWhile js_space s"
  from False have n: "dropWhile js_space (rev ?t) \<noteq> []" by (simp add: js_trim_def)
  have "?t = js_trim s @ rev (takeWhile js_space (rev ?t))"
    unfolding js_trim_def by (metis rev_append rev_rev_ident takeWhile_dropWhile_id)
  with False have "hd (js_trim s) = hd ?t" "?t \<noteq> []" by (metis hd_append2, force)
  moreover have "\<not> js_space (hd (dropWhile js_space (rev ?t)))" by (rule hd_dropWhile [OF n])
  ultimately show ?thesis using False hd_dropWhile [of js_space s]
    by (simp add: js_trim_def last_rev)
qed simp

lemma normalized_name_idem: "normalized_name (normalized_name v) = normalized_name v"
proof -
  let ?t = "js_trim v"
  from js_trim_ends [of v] have sq: "squeezed (normalized_name v)"
    and hd: "?t \<noteq> [] \<longrightarrow> hd (normalized_name v) = hd ?t"
    using collapse_squeezed [of ?t] by (auto simp: normalized_name_def)
  have "normalized_name v = [] \<or> \<not> js_space (hd (normalized_name v)) \<and> \<not> js_space (last (normalized_name v))"
    using js_trim_ends [of v] squeezed_last [OF sq] hd by (cases "?t = []") (auto simp: normalized_name_def)
  from js_trim_id [OF this] squeezed_collapse [OF sq] show ?thesis
    unfolding normalized_name_def [of "normalized_name v"] by simp
qed

lemma normalize_vocabulary_name_iff:
  "normalize_vocabulary_name v = Inr w \<longleftrightarrow> w = normalized_name v \<and> canonical_name w"
  by (auto simp: normalize_vocabulary_name_def normalize_name_input_def canonical_name_def Let_def
      normalized_name_idem)

lemma normalize_canonical: "canonical_name v \<Longrightarrow> normalize_vocabulary_name v = Inr v"
  by (simp add: normalize_vocabulary_name_iff canonical_name_def)

section \<open>Canonical identifiers\<close>

lemma lower_hex_lower: "lower_hex c \<Longrightarrow> lower_char c = c"
  by (auto simp: lower_hex_def digit_def lower_char_def)

lemma any_hex_lower: "any_hex c \<Longrightarrow> lower_hex (lower_char c)"
  unfolding any_hex_def lower_hex_def digit_def code_lower_char by auto

lemma variant_lower: "c \<in> set ''89abAB'' \<Longrightarrow> lower_char c \<in> set ''89ab''"
  unfolding set_simps insert_iff empty_iff code_of_inj [symmetric] code_lower_char code_of_literals
  by auto

lemma literal_lower: "lower_char CHR ''-'' = CHR ''-''" "c \<in> set ''47'' \<Longrightarrow> lower_char c = c"
  "c \<in> set ''89ab'' \<Longrightarrow> lower_char c = c"
  by (auto simp: lower_char_def code_of_def)

lemma matches_mono:
  "matches ps s \<Longrightarrow> list_all2 (\<lambda>p q. \<forall>c. p c \<longrightarrow> q (f c)) ps qs \<Longrightarrow> matches qs (map f s)"
  unfolding matches_def
proof (induction ps s arbitrary: qs rule: list_all2_induct)
  case (Cons p ps c s)
  then show ?case by (cases qs) auto
qed simp

lemma uuid_lower: "matches application_uuid s \<Longrightarrow> vocabulary_id (to_lower s)"
  unfolding vocabulary_id_def to_lower_def
  by (erule matches_mono)
    (simp add: application_uuid_def canonical_uuid_def numeral_eq_Suc any_hex_lower variant_lower
      literal_lower del: list.set)

lemma lower_char_literals:
  "lower_char CHR ''4'' = CHR ''4''" "lower_char CHR ''7'' = CHR ''7''" "lower_char CHR ''8'' = CHR ''8''"
  "lower_char CHR ''9'' = CHR ''9''" "lower_char CHR ''a'' = CHR ''a''" "lower_char CHR ''b'' = CHR ''b''"
  "lower_char CHR ''-'' = CHR ''-''"
  by (simp_all add: lower_char_def code_of_def)

lemma detail_kind_iff [simp]:
  "detail_kind d = Format \<longleftrightarrow> d = FormatDetail"
  "detail_kind d = Track \<longleftrightarrow> (\<exists>a. d = TrackDetail a)"
  "detail_kind d = Room \<longleftrightarrow> (\<exists>c. d = RoomDetail c)"
  by (cases d; simp)+

lemma matches_weaken:
  "matches ps s \<Longrightarrow> list_all2 (\<lambda>p q. \<forall>c. p c \<longrightarrow> q c) ps qs \<Longrightarrow> matches qs s"
  using matches_mono [where f = "\<lambda>c. c"] by simp

lemma vocabulary_id_lower:
  assumes "vocabulary_id s"
  shows "to_lower s = s" and "matches application_uuid s"
proof -
  from assms have "matches (map (\<lambda>p c. lower_char c = c) canonical_uuid) s"
    unfolding vocabulary_id_def
    by (rule matches_weaken)
      (auto simp: canonical_uuid_def numeral_eq_Suc lower_hex_lower lower_char_literals)
  then have "\<forall>i < length s. lower_char (s ! i) = s ! i"
    by (simp add: matches_def list_all2_conv_all_nth)
  then show "to_lower s = s" by (simp add: to_lower_def list_eq_iff_nth_eq)
  from assms show "matches application_uuid s"
    unfolding vocabulary_id_def
    by (rule matches_weaken) (simp add: canonical_uuid_def application_uuid_def numeral_eq_Suc any_hex_def)
qed

lemma parse_vocabulary_id_iff: "parse_vocabulary_id k v = Inr i \<longleftrightarrow> matches application_uuid v \<and> i = to_lower v"
  by (auto simp: parse_vocabulary_id_def)

lemma parse_vocabulary_id_canonical: "vocabulary_id i \<Longrightarrow> parse_vocabulary_id k i = Inr i"
  by (simp add: parse_vocabulary_id_iff vocabulary_id_lower)

lemma parse_application_id_canonical_id: "vocabulary_id i \<Longrightarrow> parse_application_id k i = Inr i"
  by (simp add: parse_application_id_def vocabulary_id_lower)

section \<open>Well-formed states\<close>

definition scope_ok :: "vocabulary_scope \<Rightarrow> bool" where
  "scope_ok sc \<longleftrightarrow> vocabulary_id (sc_workspaceId sc) \<and> vocabulary_id (sc_eventId sc)"

definition detail_ok :: "string \<Rightarrow> item_detail \<Rightarrow> bool" where
  "detail_ok i d = (case d of
     RoomDetail c \<Rightarrow> (case c of None \<Rightarrow> True | Some n \<Rightarrow> positive_safe n)
   | TrackDetail a \<Rightarrow> derive_track_accent i = Inr a
   | FormatDetail \<Rightarrow> True)"

definition planned_ok :: "('a) planned_item_scheme \<Rightarrow> bool" where
  "planned_ok it \<longleftrightarrow> vocabulary_id (pi_id it) \<and> canonical_name (pi_name it)
     \<and> positive_safe (pi_version it) \<and> detail_ok (pi_id it) (pi_detail it)"

definition family_ok :: "vocabulary_scope \<Rightarrow> vocabulary_kind \<Rightarrow> vocabulary_item list \<Rightarrow> bool" where
  "family_ok sc k items \<longleftrightarrow> (\<forall>it \<in> set items. vi_scope it = sc \<and> pi_kind it = k \<and> planned_ok it)
     \<and> sorted (map pi_id items)"

definition vocabulary_ok :: "vocabulary \<Rightarrow> bool" where
  "vocabulary_ok s \<longleftrightarrow> scope_ok (vs_scope s) \<and> positive_safe (vs_setVersion s)
     \<and> family_ok (vs_scope s) Room (vs_rooms s) \<and> family_ok (vs_scope s) Track (vs_tracks s)
     \<and> family_ok (vs_scope s) Format (vs_formats s) \<and> distinct (map pi_id (vocabulary_items s))"

interpretation item_order: keyed_comparator compare_items "pi_id :: ('a) planned_item_scheme \<Rightarrow> string"
  by unfold_locales (simp add: compare_items_def js_compare_le)

lemma parse_room_ok: "parse_room sc i = Inr it \<Longrightarrow> vi_scope it = sc \<and> pi_kind it = Room \<and> planned_ok it"
  unfolding parse_room_def
  by (elim stepsE)
    (auto simp: planned_ok_def detail_ok_def pi_kind_def parse_vocabulary_id_iff uuid_lower
      normalize_vocabulary_name_iff positive_version_iff parse_room_capacity_def positive_safe_def
      split: option.splits if_splits)

lemma parse_track_ok: "parse_track sc i = Inr it \<Longrightarrow> vi_scope it = sc \<and> pi_kind it = Track \<and> planned_ok it"
  unfolding parse_track_def
  by (elim stepsE)
    (auto simp: planned_ok_def detail_ok_def pi_kind_def parse_vocabulary_id_iff uuid_lower
      normalize_vocabulary_name_iff positive_version_iff)

lemma parse_format_ok: "parse_format sc i = Inr it \<Longrightarrow> vi_scope it = sc \<and> pi_kind it = Format \<and> planned_ok it"
  unfolding parse_format_def
  by (elim stepsE)
    (auto simp: planned_ok_def detail_ok_def pi_kind_def parse_vocabulary_id_iff uuid_lower
      normalize_vocabulary_name_iff positive_version_iff)

lemma parse_stored_room:
  "planned_ok it \<Longrightarrow> pi_kind it = Room \<Longrightarrow> vi_scope it = sc \<Longrightarrow> parse_room sc (stored_room it) = Inr it"
  by (cases it)
    (auto simp: parse_room_def stored_room_def planned_ok_def detail_ok_def pi_kind_def
      parse_vocabulary_id_canonical normalize_canonical positive_version_def positive_safe_def
      parse_room_capacity_def split: item_detail.splits option.splits)

lemma parse_stored_track:
  "planned_ok it \<Longrightarrow> pi_kind it = Track \<Longrightarrow> vi_scope it = sc \<Longrightarrow> parse_track sc (stored_named it) = Inr it"
  by (cases it)
    (auto simp: parse_track_def stored_named_def planned_ok_def detail_ok_def pi_kind_def
      parse_vocabulary_id_canonical normalize_canonical positive_version_def positive_safe_def
      split: item_detail.splits)

lemma parse_stored_format:
  "planned_ok it \<Longrightarrow> pi_kind it = Format \<Longrightarrow> vi_scope it = sc \<Longrightarrow> parse_format sc (stored_named it) = Inr it"
  by (cases it)
    (auto simp: parse_format_def stored_named_def planned_ok_def pi_kind_def
      parse_vocabulary_id_canonical normalize_canonical positive_version_def positive_safe_def
      split: item_detail.splits)

lemma traverse_ok: "traverse f xs = Inr ys \<Longrightarrow> (\<And>x y. f x = Inr y \<Longrightarrow> P y) \<Longrightarrow> y \<in> set ys \<Longrightarrow> P y"
  by (auto simp: traverse_Inr_iff list_all2_conv_all_nth in_set_conv_nth)

lemma create_vocabulary_state_ok:
  assumes "create_vocabulary_state i = Inr s"
  shows "vocabulary_ok s"
proof -
  from assms obtain sc rs ts fs v where
    sc: "parse_scope (vn_workspaceId i) (vn_eventId i) = Inr sc"
    and r: "traverse (parse_room sc) (vn_rooms i) = Inr rs"
    and t: "traverse (parse_track sc) (vn_tracks i) = Inr ts"
    and f: "traverse (parse_format sc) (vn_formats i) = Inr fs"
    and d: "distinct (map pi_id (js_sort compare_items rs @ js_sort compare_items ts @ js_sort compare_items fs))"
    and v: "positive_version (vn_setVersion i) = Inr v"
    and s: "s = \<lparr> vs_scope = sc, vs_setVersion = v, vs_rooms = js_sort compare_items rs,
      vs_tracks = js_sort compare_items ts, vs_formats = js_sort compare_items fs \<rparr>"
    unfolding create_vocabulary_state_def Let_def by (elim stepsE) auto
  have "scope_ok sc"
    using sc by (auto simp: parse_scope_def parse_application_id_def scope_ok_def rbind_Inr_iff uuid_lower
        split: if_splits)
  moreover have "family_ok sc Room (js_sort compare_items rs)"
    unfolding family_ok_def item_order.js_sort_set
    using traverse_ok [OF r, where P = "\<lambda>it. vi_scope it = sc \<and> pi_kind it = Room \<and> planned_ok it"] parse_room_ok
    by (simp add: item_order.js_sort_sorted)
  moreover have "family_ok sc Track (js_sort compare_items ts)"
    unfolding family_ok_def item_order.js_sort_set
    using traverse_ok [OF t, where P = "\<lambda>it. vi_scope it = sc \<and> pi_kind it = Track \<and> planned_ok it"] parse_track_ok
    by (simp add: item_order.js_sort_sorted)
  moreover have "family_ok sc Format (js_sort compare_items fs)"
    unfolding family_ok_def item_order.js_sort_set
    using traverse_ok [OF f, where P = "\<lambda>it. vi_scope it = sc \<and> pi_kind it = Format \<and> planned_ok it"] parse_format_ok
    by (simp add: item_order.js_sort_sorted)
  ultimately show ?thesis
    using d v by (simp add: s vocabulary_ok_def vocabulary_items_def positive_version_iff)
qed

lemma create_stored_state:
  assumes "vocabulary_ok s"
  shows "create_vocabulary_state (stored_state s) = Inr s"
proof -
  let ?sc = "vs_scope s"
  from assms have fam: "family_ok ?sc Room (vs_rooms s)" "family_ok ?sc Track (vs_tracks s)"
    "family_ok ?sc Format (vs_formats s)" and d: "distinct (map pi_id (vocabulary_items s))"
    and v: "positive_safe (vs_setVersion s)" and sc: "scope_ok ?sc"
    by (simp_all add: vocabulary_ok_def)
  have "traverse (parse_room ?sc) (map stored_room (vs_rooms s)) = Inr (vs_rooms s)"
    using fam(1) unfolding traverse_Inr_iff list_all2_map1
    by (auto simp: family_ok_def list_all2_same parse_stored_room)
  moreover have "traverse (parse_track ?sc) (map stored_named (vs_tracks s)) = Inr (vs_tracks s)"
    using fam(2) unfolding traverse_Inr_iff list_all2_map1
    by (auto simp: family_ok_def list_all2_same parse_stored_track)
  moreover have "traverse (parse_format ?sc) (map stored_named (vs_formats s)) = Inr (vs_formats s)"
    using fam(3) unfolding traverse_Inr_iff list_all2_map1
    by (auto simp: family_ok_def list_all2_same parse_stored_format)
  moreover have "js_sort compare_items (vs_rooms s) = vs_rooms s"
    "js_sort compare_items (vs_tracks s) = vs_tracks s"
    "js_sort compare_items (vs_formats s) = vs_formats s"
    using fam by (simp_all add: family_ok_def item_order.js_sort_idem)
  moreover have "parse_scope (sc_workspaceId ?sc) (sc_eventId ?sc) = Inr ?sc"
    using sc by (simp add: scope_ok_def parse_scope_def parse_application_id_canonical_id)
  ultimately show ?thesis
    using d v by (simp add: create_vocabulary_state_def stored_state_def Let_def vocabulary_items_def
        positive_version_def positive_safe_def)
qed

lemma strictly_ordered_sorted_wrt: "strictly_ordered xs \<longleftrightarrow> sorted_wrt (<) xs"
  by (induction xs rule: strictly_ordered.induct) (auto intro: less_trans)

lemma strictly_ordered_iff: "strictly_ordered xs \<longleftrightarrow> sorted xs \<and> distinct xs"
  by (simp add: strictly_ordered_sorted_wrt strict_sorted_iff)

lemma stored_ids: "map (ni_id \<circ> stored_named) xs = map pi_id xs" "map (ni_id \<circ> stored_room) xs = map pi_id xs"
  "ni_id (stored_named it) = pi_id it" "ni_id (stored_room it) = pi_id it"
  by (simp_all add: stored_named_def stored_room_def)

lemma named_schema_stored: "planned_ok it \<Longrightarrow> named_schema (stored_named it)"
  by (simp add: planned_ok_def named_schema_def stored_named_def)

lemma room_schema_stored: "planned_ok it \<Longrightarrow> pi_kind it = Room \<Longrightarrow> room_schema (stored_room it)"
  by (auto simp: planned_ok_def room_schema_def named_schema_def stored_room_def pi_kind_def detail_ok_def)

lemma stored_state_canonical:
  assumes "vocabulary_ok s"
  shows "canonical_state_schema (stored_state s)"
proof -
  have "list_all room_schema (map stored_room (vs_rooms s))"
    "list_all named_schema (map stored_named (vs_tracks s))"
    "list_all named_schema (map stored_named (vs_formats s))"
    using assms by (auto simp: vocabulary_ok_def family_ok_def list_all_iff room_schema_stored named_schema_stored)
  then show ?thesis
    using assms
    by (simp add: canonical_state_schema_def stored_state_def stored_ids strictly_ordered_iff
        vocabulary_ok_def family_ok_def vocabulary_items_def scope_ok_def)
qed

section \<open>Properties of states\<close>

text \<open>
  Building a state yields a well-formed one, and storing it is lossless: items are sorted by
  identifier within their kind, identifiers are unique across kinds, names and identifiers are canonical
  and accents are those of the identifiers; the stored form passes the canonical schema and parses back
  to the same state, unchanged.
\<close>

theorem vocabulary_stored_form:
  assumes "create_vocabulary_state i = Inr s"
  shows "vocabulary_ok s \<and> canonical_state_schema (stored_state s)
    \<and> parse_vocabulary_state (stored_state s) = Inr s"
  using create_vocabulary_state_ok [OF assms]
  by (simp add: parse_vocabulary_state_def stored_state_canonical create_stored_state)

text \<open>
  Normalizing a name is idempotent and enough: a name is accepted exactly when its normal form has 1
  to 200 characters, the result is that normal form, and normalizing it again changes nothing; the
  source's second check, that the normal form is canonical, never fails.
\<close>

theorem vocabulary_name_normal_form:
  "normalize_vocabulary_name v =
    (if 1 \<le> length (normalized_name v) \<and> length (normalized_name v) \<le> 200 then Inr (normalized_name v)
     else Inl TypeErr)
   \<and> normalized_name (normalized_name v) = normalized_name v"
  by (auto simp: normalize_vocabulary_name_def normalize_name_input_def canonical_name_def Let_def
      normalized_name_idem Suc_le_eq)

section \<open>A sample vocabulary\<close>

definition sample_id :: "char \<Rightarrow> string" where
  "sample_id c = ''00000000-0000-4000-8000-00000000000'' @ [c]"

lemma sample_vocabulary_id [simp]: "digit c \<Longrightarrow> vocabulary_id (sample_id c)"
  by (simp add: vocabulary_id_def canonical_uuid_def numeral_eq_Suc sample_id_def lower_hex_def digit_def
      code_of_def)

lemma sample_id_eq [simp]: "sample_id c = sample_id d \<longleftrightarrow> c = d"
  by (simp add: sample_id_def)

lemma sample_digits [simp]: "digit CHR ''1''" "digit CHR ''2''" "digit CHR ''3''" "digit CHR ''4''"
  "digit CHR ''5''" "digit CHR ''6''" "digit CHR ''7''" "digit CHR ''8''" "digit CHR ''9''"
  by (simp_all add: digit_def code_of_def)

definition sample_vocabulary_input :: vocabulary_input where
  "sample_vocabulary_input = \<lparr> vn_workspaceId = sample_id CHR ''1'', vn_eventId = sample_id CHR ''2'',
     vn_setVersion = 1,
     vn_rooms = [\<lparr> ni_id = sample_id CHR ''3'', ni_name = ''Hall'', ni_status = Active, ni_version = 1,
       ri_capacity = None \<rparr>],
     vn_tracks = [], vn_formats = [] \<rparr>"

definition sample_scope :: vocabulary_scope where
  "sample_scope = \<lparr> sc_workspaceId = sample_id CHR ''1'', sc_eventId = sample_id CHR ''2'' \<rparr>"

definition sample_room :: vocabulary_item where
  "sample_room = \<lparr> pi_id = sample_id CHR ''3'', pi_name = ''Hall'', pi_status = Active, pi_version = 1,
     pi_detail = RoomDetail None, vi_scope = sample_scope \<rparr>"

text \<open>A stand-in for the digest.\<close>

definition sample_sha :: "string \<Rightarrow> string" where
  "sample_sha t = replicate 64 CHR ''0''"

lemma sample_sha_hex: "\<forall>t. sha256_hex (sample_sha t)"
  by (simp add: sample_sha_def sha256_hex_def list_all_replicate lower_hex_def digit_def code_of_def)

definition sample_vocabulary :: vocabulary where
  "sample_vocabulary = \<lparr> vs_scope = sample_scope, vs_setVersion = 1, vs_rooms = [sample_room],
     vs_tracks = [], vs_formats = [] \<rparr>"

lemma sample_name: "canonical_name ''Hall''"
  by code_simp

lemma sample_vocabulary_created: "create_vocabulary_state sample_vocabulary_input = Inr sample_vocabulary"
  by (simp add: create_vocabulary_state_def sample_vocabulary_input_def sample_vocabulary_def sample_room_def
      sample_scope_def parse_scope_def parse_application_id_canonical_id parse_room_def
      parse_vocabulary_id_canonical normalize_canonical [OF sample_name] parse_room_capacity_def
      positive_version_def safe_integer_def max_safe_integer_def js_sort_def)

lemma sample_vocabulary_ok: "vocabulary_ok sample_vocabulary"
  using sample_vocabulary_created by (rule create_vocabulary_state_ok)

theorem vocabulary_stored_form_witness:
  "parse_vocabulary_state (stored_state sample_vocabulary) = Inr sample_vocabulary"
  using vocabulary_stored_form [OF sample_vocabulary_created] by simp

end
