(* ===== verification/References.thy ===== *)
theory References
  imports Vocabulary
begin

text \<open>
  Who refers to the vocabulary, \<open>packages/program/src/references.ts\<close>: a registry of contributors, and the
  snapshot of all their references that deleting and merging items is decided on. The source keeps the
  objects it issued in weak sets and refuses all others; that provenance is a field \<open>issued\<close> here.
\<close>

section \<open>Data\<close>

record contributor_ref =
  cr_key :: string
  cr_version :: int

record reference_destination =
  ds_kind :: string
  ds_id :: string

datatype reference_mode = Current | Historical

record item_target =
  tg_kind :: vocabulary_kind
  tg_id :: string

record reference_record =
  rr_referenceKey :: string
  rr_version :: int
  rr_item :: item_target
  rr_mode :: reference_mode
  rr_destination :: reference_destination

record reference_guard =
  gd_id :: string
  gd_version :: int
  gd_digest :: string

record contributor_snapshot =
  ct_contributor :: contributor_ref
  ct_scope :: vocabulary_scope
  ct_guard :: reference_guard
  ct_references :: "reference_record list"

record reference_snapshot =
  sn_issued :: bool
  sn_registryDigest :: string
  sn_contributors :: "contributor_snapshot list"

record reference_registry =
  rg_issued :: bool
  rg_digest :: string
  rg_contributors :: "contributor_ref list"

text \<open>What a source answers: nothing, something that is no snapshot (a promise, say), or a snapshot.\<close>

datatype source_value = Undefined | Malformed | Snapshot contributor_snapshot

type_synonym reference_source = "contributor_ref \<Rightarrow> vocabulary_scope \<Rightarrow> source_value"

datatype registry_issue_code =
    Duplicate_expected | Duplicate_contributor | Missing_registered | Unexpected_contributor
  | Wrong_version | Invalid_contributor

type_synonym registry_issue = "registry_issue_code \<times> string"

datatype snapshot_error =
    Missing_contributor | Invalid_snapshot | Wrong_contributor | Wrong_snapshot_scope
  | Duplicate_reference | Duplicate_guard | Unknown_item | Invalid_registry

section \<open>Schemas\<close>

definition bounded_text :: "nat \<Rightarrow> string \<Rightarrow> bool" where
  "bounded_text n s \<longleftrightarrow> 1 \<le> length s \<and> length s \<le> n \<and> js_trim s = s"

definition guard_char :: "char \<Rightarrow> bool" where
  "guard_char c \<longleftrightarrow> digit c \<or> lower_letter c \<or> 65 \<le> code_of c \<and> code_of c \<le> 90 \<or> c \<in> set ''._~:-''"

text \<open>The regular expression \<open>^program_reference:[A-Za-z0-9._~:-]+$\<close>.\<close>

definition guard_id :: "string \<Rightarrow> bool" where
  "guard_id s \<longleftrightarrow> take 18 s = ''program_reference:'' \<and> drop 18 s \<noteq> [] \<and> list_all guard_char (drop 18 s)"

definition reference_schema :: "reference_record \<Rightarrow> bool" where
  "reference_schema r \<longleftrightarrow> bounded_text 300 (rr_referenceKey r) \<and> positive_safe (rr_version r)
     \<and> vocabulary_id (tg_id (rr_item r))
     \<and> length (ds_kind (rr_destination r)) \<le> 160 \<and> definition_key (ds_kind (rr_destination r))
     \<and> bounded_text 300 (ds_id (rr_destination r))"

definition contributor_snapshot_schema :: "contributor_snapshot \<Rightarrow> bool" where
  "contributor_snapshot_schema c \<longleftrightarrow>
     length (cr_key (ct_contributor c)) \<le> 160 \<and> definition_key (cr_key (ct_contributor c))
     \<and> positive_safe (cr_version (ct_contributor c))
     \<and> scope_ok (ct_scope c) \<and> guard_id (gd_id (ct_guard c)) \<and> positive_safe (gd_version (ct_guard c))
     \<and> sha256_hex (gd_digest (ct_guard c)) \<and> list_all reference_schema (ct_references c)"

section \<open>The registry\<close>

definition contributor_identity :: "contributor_ref \<Rightarrow> string" where
  "contributor_identity c = cr_key c @ CHR ''@'' # int_text (cr_version c)"

definition parse_contributor :: "contributor_ref \<Rightarrow> contributor_ref option" where
  "parse_contributor c =
     (if \<not> definition_key (cr_key c) \<or> \<not> safe_integer (cr_version c) \<or> cr_version c \<le> 0 then None else Some c)"

text \<open>A loop over raw contributors, with the map it fills (in order of insertion).\<close>

fun collect_contributors ::
  "registry_issue_code \<Rightarrow> contributor_ref list \<Rightarrow> contributor_ref list
   \<Rightarrow> registry_issue list \<times> contributor_ref list"
where
  "collect_contributors duplicate seen [] = ([], seen)"
| "collect_contributors duplicate seen (raw # rest) =
     (case parse_contributor raw of
        None \<Rightarrow> (let (issues, found) = collect_contributors duplicate seen rest in
          ((Invalid_contributor, cr_key raw) # issues, found))
      | Some c \<Rightarrow>
          if cr_key c \<in> cr_key ` set seen
          then (let (issues, found) = collect_contributors duplicate seen rest in
            ((duplicate, cr_key c) # issues, found))
          else collect_contributors duplicate (seen @ [c]) rest)"

definition expected_issues :: "contributor_ref list \<Rightarrow> contributor_ref \<Rightarrow> registry_issue list" where
  "expected_issues contributors e =
     (case find (\<lambda>c. cr_key c = cr_key e) contributors of
        None \<Rightarrow> [(Missing_registered, cr_key e)]
      | Some c \<Rightarrow> if cr_version c \<noteq> cr_version e then [(Wrong_version, cr_key e)] else [])"

definition compare_contributors :: "contributor_ref \<Rightarrow> contributor_ref \<Rightarrow> int" where
  "compare_contributors l r = js_compare (contributor_identity l) (contributor_identity r)"

definition contributor_json :: "contributor_ref \<Rightarrow> json" where
  "contributor_json c = JObj [(''key'', JStr (cr_key c)), (''version'', JNum (cr_version c))]"

definition registry_digest :: "(string \<Rightarrow> string) \<Rightarrow> contributor_ref list \<Rightarrow> string" where
  "registry_digest sha ordered =
     sha (canonical (JObj [(''schemaVersion'', JNum 1), (''contributors'', JArr (map contributor_json ordered))]))"

definition create_reference_registry ::
  "(string \<Rightarrow> string) \<Rightarrow> contributor_ref list \<Rightarrow> contributor_ref list
   \<Rightarrow> (registry_issue list, reference_registry) outcome"
where
  "create_reference_registry sha expectedInput contributorInput =
     (let (issues1, expected) = collect_contributors Duplicate_expected [] expectedInput;
          (issues2, contributors) = collect_contributors Duplicate_contributor [] contributorInput;
          issues3 = concat (map (expected_issues contributors) expected);
          issues4 = map (\<lambda>c. (Unexpected_contributor, cr_key c))
            (filter (\<lambda>c. cr_key c \<notin> cr_key ` set expected) contributors);
          issues = issues1 @ issues2 @ issues3 @ issues4 in
      if issues \<noteq> [] then Inl (Refused issues)
      else (let ordered = js_sort compare_contributors contributors in
        Inr \<lparr> rg_issued = True, rg_digest = registry_digest sha ordered, rg_contributors = ordered \<rparr>))"

section \<open>Snapshots\<close>

definition compare_references :: "reference_record \<Rightarrow> reference_record \<Rightarrow> int" where
  "compare_references l r = js_compare (rr_referenceKey l) (rr_referenceKey r)"

definition parse_snapshot ::
  "source_value \<Rightarrow> contributor_ref \<Rightarrow> vocabulary_scope \<Rightarrow> (snapshot_error, contributor_snapshot) outcome"
where
  "parse_snapshot value expected scope =
     (case value of
        Undefined \<Rightarrow> Inl (Refused Missing_contributor)
      | Malformed \<Rightarrow> Inl (Refused Invalid_snapshot)
      | Snapshot c \<Rightarrow>
          if \<not> contributor_snapshot_schema c then Inl (Refused Invalid_snapshot)
          else if cr_key (ct_contributor c) \<noteq> cr_key expected
            \<or> cr_version (ct_contributor c) \<noteq> cr_version expected then Inl (Refused Wrong_contributor)
          else if sc_workspaceId (ct_scope c) \<noteq> sc_workspaceId scope
            \<or> sc_eventId (ct_scope c) \<noteq> sc_eventId scope then Inl (Refused Wrong_snapshot_scope)
          else if \<not> distinct (map rr_referenceKey (ct_references c)) then Inl (Refused Duplicate_reference)
          else Inr \<lparr> ct_contributor = ct_contributor c, ct_scope = scope, ct_guard = ct_guard c,
            ct_references = js_sort compare_references (ct_references c) \<rparr>)"

text \<open>\<open>captureRegisteredProgramReferences\<close>.\<close>

definition capture_references ::
  "reference_registry \<Rightarrow> vocabulary_scope \<Rightarrow> reference_source \<Rightarrow> (snapshot_error, reference_snapshot) outcome"
where
  "capture_references registry scope source =
     (if \<not> rg_issued registry then Inl (Refused Invalid_registry)
      else rbind (traverse (\<lambda>c. parse_snapshot (source c scope) c scope) (rg_contributors registry)) (\<lambda>snapshots.
        if \<not> distinct (map (gd_id \<circ> ct_guard) snapshots) then Inl (Refused Duplicate_guard)
        else Inr \<lparr> sn_issued = True, sn_registryDigest = rg_digest registry, sn_contributors = snapshots \<rparr>))"

definition same_scope :: "vocabulary_scope \<Rightarrow> vocabulary_scope \<Rightarrow> bool" where
  "same_scope l r \<longleftrightarrow> sc_workspaceId l = sc_workspaceId r \<and> sc_eventId l = sc_eventId r"

definition validate_contributor_targets ::
  "vocabulary \<Rightarrow> contributor_snapshot \<Rightarrow> (snapshot_error, unit) outcome"
where
  "validate_contributor_targets s c =
     (if \<not> same_scope (vs_scope s) (ct_scope c) then Inl (Refused Wrong_snapshot_scope)
      else if \<not> list_all (\<lambda>r. resolve_item s (tg_kind (rr_item r)) (tg_id (rr_item r)) \<noteq> None) (ct_references c)
      then Inl (Refused Unknown_item) else Inr ())"

definition validate_reference_targets ::
  "vocabulary \<Rightarrow> reference_snapshot \<Rightarrow> (snapshot_error, unit) outcome"
where
  "validate_reference_targets s snapshot =
     (if \<not> sn_issued snapshot then Inl (Refused Invalid_snapshot)
      else rbind (traverse (validate_contributor_targets s) (sn_contributors snapshot)) (\<lambda>_. Inr ()))"

definition refers_to :: "item_target \<Rightarrow> reference_record \<Rightarrow> bool" where
  "refers_to t r \<longleftrightarrow> tg_kind (rr_item r) = tg_kind t \<and> tg_id (rr_item r) = tg_id t"

text \<open>The numbers of current references and of historical pins of an item.\<close>

definition all_references :: "reference_snapshot \<Rightarrow> reference_record list" where
  "all_references snapshot = concat (map ct_references (sn_contributors snapshot))"

definition reference_usage ::
  "reference_snapshot \<Rightarrow> item_target \<Rightarrow> (snapshot_error, nat \<times> nat) outcome"
where
  "reference_usage snapshot t =
     (if \<not> sn_issued snapshot then Inl (Refused Invalid_snapshot)
      else Inr
        (length (filter (\<lambda>r. refers_to t r \<and> rr_mode r = Current) (all_references snapshot)),
         length (filter (\<lambda>r. refers_to t r \<and> rr_mode r = Historical) (all_references snapshot))))"

section \<open>What a capture guarantees\<close>

interpretation contributor_order: keyed_comparator compare_contributors contributor_identity
  by unfold_locales (simp add: compare_contributors_def js_compare_le)

interpretation reference_order: keyed_comparator compare_references rr_referenceKey
  by unfold_locales (simp add: compare_references_def js_compare_le)

text \<open>A parsed contributor snapshot: its schema holds and its references are strictly ordered by key.\<close>

definition contributor_ok :: "vocabulary_scope \<Rightarrow> contributor_snapshot \<Rightarrow> bool" where
  "contributor_ok scope c \<longleftrightarrow> contributor_snapshot_schema c \<and> ct_scope c = scope
     \<and> strictly_ordered (map rr_referenceKey (ct_references c))"

lemma parse_snapshot_ok:
  assumes "parse_snapshot v expected scope = Inr c" "scope_ok scope"
  shows "contributor_ok scope c \<and> ct_contributor c = expected"
proof -
  from assms obtain raw where v: "v = Snapshot raw" and sch: "contributor_snapshot_schema raw"
    and key: "cr_key (ct_contributor raw) = cr_key expected" "cr_version (ct_contributor raw) = cr_version expected"
    and d: "distinct (map rr_referenceKey (ct_references raw))"
    and c: "c = \<lparr> ct_contributor = ct_contributor raw, ct_scope = scope, ct_guard = ct_guard raw,
            ct_references = js_sort compare_references (ct_references raw) \<rparr>"
    by (auto simp: parse_snapshot_def split: source_value.splits if_splits)
  have "strictly_ordered (map rr_referenceKey (js_sort compare_references (ct_references raw)))"
    by (simp add: strictly_ordered_iff reference_order.js_sort_sorted reference_order.js_sort_distinct d)
  with sch key assms(2) show ?thesis
    by (simp add: c contributor_ok_def contributor_snapshot_schema_def list_all_iff
        reference_order.js_sort_set)
qed

text \<open>A registry that was created: its contributors are strictly ordered by identity.\<close>

definition registry_ok :: "reference_registry \<Rightarrow> bool" where
  "registry_ok registry \<longleftrightarrow> rg_issued registry
     \<and> strictly_ordered (map contributor_identity (rg_contributors registry))"

lemma digits_at_split:
  "list_all digit a \<Longrightarrow> list_all digit b \<Longrightarrow> x @ CHR ''@'' # a = y @ CHR ''@'' # b \<Longrightarrow> x = y \<and> a = b"
proof -
  assume a: "list_all digit a" and b: "list_all digit b" and eq: "x @ CHR ''@'' # a = y @ CHR ''@'' # b"
  have n: "\<not> digit CHR ''@''" by (simp add: digit_def code_of_def)
  have t: "takeWhile digit (rev (z @ CHR ''@'' # c)) = rev c" if "list_all digit c" for z c
  proof -
    have "takeWhile digit (rev c @ CHR ''@'' # rev z) = rev c @ takeWhile digit (CHR ''@'' # rev z)"
      using that by (intro takeWhile_append2) (simp add: list_all_iff)
    then show ?thesis using n by simp
  qed
  from t [OF a, of x] t [OF b, of y] eq have "a = b" by simp
  with eq show ?thesis by simp
qed

lemma contributor_identity_inject:
  assumes "contributor_identity a = contributor_identity b" "0 < cr_version a" "0 < cr_version b"
  shows "a = b"
proof -
  have "cr_key a = cr_key b \<and> nat_text (nat (cr_version a)) = nat_text (nat (cr_version b))"
    using assms by (intro digits_at_split) (simp_all add: contributor_identity_def int_text_def nat_text_digits)
  then have "cr_key a = cr_key b" "cr_version a = cr_version b"
    using assms(2,3) by (metis, metis decimal_value_nat_text nat_eq_iff2 less_le)
  then show ?thesis by simp
qed

lemma collect_contributors_result:
  "collect_contributors dup seen raws = ([], found) \<Longrightarrow>
   found = seen @ raws \<and> (\<forall>c \<in> set raws. definition_key (cr_key c) \<and> positive_safe (cr_version c))
   \<and> (distinct (map cr_key seen) \<longrightarrow> distinct (map cr_key found))"
proof (induction raws arbitrary: seen)
  case (Cons raw raws)
  then have p: "parse_contributor raw = Some raw" and n: "cr_key raw \<notin> cr_key ` set seen"
    and r: "collect_contributors dup (seen @ [raw]) raws = ([], found)"
    by (auto simp: parse_contributor_def split: if_splits prod.splits)
  from Cons.IH [OF r] p n show ?case
    by (auto simp: parse_contributor_def positive_safe_def split: if_splits)
qed simp

lemma create_registry_ok:
  assumes "create_reference_registry sha expected contributors = Inr registry"
  shows "registry_ok registry \<and> set (rg_contributors registry) = set contributors
    \<and> set contributors = set expected \<and> rg_digest registry = registry_digest sha (rg_contributors registry)"
proof -
  obtain is1 ex where 1: "collect_contributors Duplicate_expected [] expected = (is1, ex)"
    by (cases "collect_contributors Duplicate_expected [] expected")
  obtain is2 cs where 2: "collect_contributors Duplicate_contributor [] contributors = (is2, cs)"
    by (cases "collect_contributors Duplicate_contributor [] contributors")
  from assms 1 2 have e: "is1 = []" "is2 = []" "concat (map (expected_issues cs) ex) = []"
    "filter (\<lambda>c. cr_key c \<notin> cr_key ` set ex) cs = []"
    and r: "registry = \<lparr> rg_issued = True, rg_digest = registry_digest sha (js_sort compare_contributors cs),
      rg_contributors = js_sort compare_contributors cs \<rparr>"
    by (auto simp: create_reference_registry_def Let_def split: if_splits)
  note c1 = collect_contributors_result [OF 1 [unfolded e]]
  note c2 = collect_contributors_result [OF 2 [unfolded e]]
  from c1 c2 have ids: "ex = expected" "cs = contributors" and dk: "distinct (map cr_key cs)"
    and pos: "\<forall>c \<in> set cs. 0 < cr_version c"
    by (auto simp: positive_safe_def)
  have in_cs: "x \<in> set cs" if "x \<in> set ex" for x
  proof -
    from e(3) that have "expected_issues cs x = []" by simp
    then obtain c where "find (\<lambda>c. cr_key c = cr_key x) cs = Some c" "cr_version c = cr_version x"
      by (auto simp: expected_issues_def split: option.splits if_splits)
    then have "c \<in> set cs" "c = x" by (auto simp: find_Some_iff)
    then show ?thesis by simp
  qed
  moreover have "c \<in> set ex" if c: "c \<in> set cs" for c
  proof -
    from e(4) c obtain x where "x \<in> set ex" "cr_key x = cr_key c" by (auto simp: filter_empty_conv)
    moreover from in_cs [OF this(1)] this(2) dk c have "x = c" by (auto simp: distinct_map inj_on_def)
    ultimately show ?thesis by simp
  qed
  ultimately have "set cs = set ex" by blast
  moreover have "distinct (map contributor_identity cs)"
    using dk pos contributor_identity_inject by (auto simp: distinct_map inj_on_def)
  ultimately show ?thesis
    by (simp add: r registry_ok_def strictly_ordered_iff contributor_order.js_sort_sorted
        contributor_order.js_sort_distinct contributor_order.js_sort_set ids)
qed

text \<open>A captured snapshot.\<close>

definition snapshot_ok :: "reference_registry \<Rightarrow> vocabulary_scope \<Rightarrow> reference_snapshot \<Rightarrow> bool" where
  "snapshot_ok registry scope snapshot \<longleftrightarrow> sn_issued snapshot
     \<and> sn_registryDigest snapshot = rg_digest registry
     \<and> map ct_contributor (sn_contributors snapshot) = rg_contributors registry
     \<and> (\<forall>c \<in> set (sn_contributors snapshot). contributor_ok scope c)
     \<and> distinct (map (gd_id \<circ> ct_guard) (sn_contributors snapshot))"

lemma capture_ok:
  assumes "capture_references registry scope source = Inr snapshot" "scope_ok scope"
  shows "snapshot_ok registry scope snapshot"
proof -
  from assms(1) obtain cs where
    cs: "traverse (\<lambda>c. parse_snapshot (source c scope) c scope) (rg_contributors registry) = Inr cs"
    and d: "distinct (map (gd_id \<circ> ct_guard) cs)"
    and s: "snapshot = \<lparr> sn_issued = True, sn_registryDigest = rg_digest registry, sn_contributors = cs \<rparr>"
    unfolding capture_references_def by (elim stepsE) auto
  from cs have l: "list_all2 (\<lambda>x y. parse_snapshot (source x scope) x scope = Inr y) (rg_contributors registry) cs"
    by (simp add: traverse_Inr_iff)
  then have "map ct_contributor cs = rg_contributors registry"
    using parse_snapshot_ok [OF _ assms(2)]
    by (auto simp: list_all2_conv_all_nth intro!: nth_equalityI)
  moreover have "contributor_ok scope c" if "c \<in> set cs" for c
    using that l parse_snapshot_ok [OF _ assms(2)] by (auto simp: list_all2_conv_all_nth in_set_conv_nth)
  ultimately show ?thesis using d by (simp add: s snapshot_ok_def)
qed

end
