(* ===== verification/VocabularyPlans.thy ===== *)
theory VocabularyPlans
  imports References
begin

text \<open>
  Planned changes of the program vocabulary, \<open>packages/program/src/domain.ts\<close>: a plan records what an
  author's input means against one version of the set, and is checked again and applied later, when the
  set and the references to it may have moved on. The lemmas relate planning, checking and applying.

  The source compares values by the SHA-256 of their canonical JSON; the hash is a parameter \<open>sha\<close> on the
  canonical text, and no result assumes that it is injective.
\<close>

section \<open>Data\<close>

record reference_repoint =
  rt_referenceKey :: string
  rt_expectedVersion :: int
  rt_from :: item_target
  rt_to :: item_target
  rt_destination :: reference_destination

record historical_pin =
  hp_referenceKey :: string
  hp_version :: int
  hp_item :: item_target
  hp_destination :: reference_destination

record contribution_plan =
  cp_contributor :: contributor_ref
  cp_guard :: reference_guard
  cp_liveRepoints :: "reference_repoint list"
  cp_historicalPins :: "historical_pin list"

record plan_base =
  pb_scope :: vocabulary_scope
  pb_expectedSetVersion :: int
  pb_setGuardDigest :: string

record reference_part =
  rp_registryDigest :: string
  rp_references :: "contribution_plan list"

text \<open>
  \<open>Create base after\<close>, \<open>Edit base before after\<close>, \<open>Delete base before references\<close>,
  \<open>Merge base sourceBefore sourceAfter target references\<close>, and the compensation of a merge, whose flag
  says whether the source is restored.
\<close>

datatype mutation_plan =
    Create_plan plan_base planned_item
  | Edit_plan plan_base planned_item planned_item
  | Retire_plan plan_base planned_item planned_item
  | Restore_plan plan_base planned_item planned_item
  | Delete_plan plan_base planned_item reference_part
  | Merge_plan plan_base planned_item planned_item planned_item reference_part
  | Compensation_plan plan_base planned_item planned_item planned_item bool reference_part

datatype draft_detail = Room_draft "int option" | Track_draft | Format_draft

fun draft_kind :: "draft_detail \<Rightarrow> vocabulary_kind" where
  "draft_kind (Room_draft _) = Room"
| "draft_kind Track_draft = Track"
| "draft_kind Format_draft = Format"

record guarded_input =
  gi_scope :: vocabulary_scope
  gi_expectedSetVersion :: int

record item_input = guarded_input +
  ii_kind :: vocabulary_kind
  ii_id :: string
  ii_expectedItemVersion :: int

record merge_input = guarded_input +
  mi_kind :: vocabulary_kind
  mi_sourceId :: string
  mi_targetId :: string
  mi_expectedSourceVersion :: int
  mi_expectedTargetVersion :: int

record compensation_input = merge_input +
  ci_restoreSource :: bool
  ci_references :: "(contributor_ref \<times> string list) list"

text \<open>\<open>Edit_input\<close> has the new name and, for a room, the new capacity.\<close>

datatype author_input =
    Create_input guarded_input draft_detail string string
  | Edit_input item_input string "int option"
  | Retire_input item_input
  | Restore_input item_input
  | Delete_input item_input
  | Merge_input merge_input
  | Compensation_input compensation_input

datatype planning_error =
    Invalid_plan | Wrong_scope | Stale_set | Item_exists | Item_missing | Stale_item
  | Invalid_transition | Delete_referenced | Invalid_merge | Stale_reference
  | Snapshot_refused snapshot_error

type_synonym 'a planned = "(planning_error, 'a) outcome"

fun from_references :: "(snapshot_error, 'a) outcome \<Rightarrow> 'a planned" where
  "from_references (Inl (Refused e)) = Inl (Refused (Snapshot_refused e))"
| "from_references (Inl RangeErr) = Inl RangeErr"
| "from_references (Inl SchemaErr) = Inl SchemaErr"
| "from_references (Inl TypeErr) = Inl TypeErr"
| "from_references (Inr x) = Inr x"

section \<open>Canonical JSON of the data\<close>

fun kind_text :: "vocabulary_kind \<Rightarrow> string" where
  "kind_text Room = ''room''"
| "kind_text Track = ''track''"
| "kind_text Format = ''format''"

fun status_text :: "vocabulary_status \<Rightarrow> string" where
  "status_text Active = ''active''"
| "status_text Retired = ''retired''"

fun accent_text :: "track_accent \<Rightarrow> string" where
  "accent_text Lavender = ''lavender''"
| "accent_text Sea = ''sea''"
| "accent_text Neutral = ''neutral''"

fun detail_fields :: "item_detail \<Rightarrow> (string \<times> json) list" where
  "detail_fields (RoomDetail None) = [(''capacity'', JNull)]"
| "detail_fields (RoomDetail (Some n)) = [(''capacity'', JNum n)]"
| "detail_fields (TrackDetail a) = [(''accent'', JStr (accent_text a))]"
| "detail_fields FormatDetail = []"

definition item_fields :: "('a) planned_item_scheme \<Rightarrow> (string \<times> json) list" where
  "item_fields it = [(''kind'', JStr (kind_text (pi_kind it))), (''id'', JStr (pi_id it)),
     (''name'', JStr (pi_name it)), (''status'', JStr (status_text (pi_status it))),
     (''version'', JNum (pi_version it))] @ detail_fields (pi_detail it)"

definition scope_json :: "vocabulary_scope \<Rightarrow> json" where
  "scope_json sc = JObj [(''workspaceId'', JStr (sc_workspaceId sc)), (''eventId'', JStr (sc_eventId sc))]"

definition target_json :: "item_target \<Rightarrow> json" where
  "target_json t = JObj [(''kind'', JStr (kind_text (tg_kind t))), (''id'', JStr (tg_id t))]"

definition destination_json :: "reference_destination \<Rightarrow> json" where
  "destination_json d = JObj [(''kind'', JStr (ds_kind d)), (''id'', JStr (ds_id d))]"

definition guard_json :: "reference_guard \<Rightarrow> json" where
  "guard_json g = JObj [(''id'', JStr (gd_id g)), (''version'', JNum (gd_version g)), (''digest'', JStr (gd_digest g))]"

definition repoint_json :: "reference_repoint \<Rightarrow> json" where
  "repoint_json r = JObj [(''referenceKey'', JStr (rt_referenceKey r)), (''expectedVersion'', JNum (rt_expectedVersion r)),
     (''from'', target_json (rt_from r)), (''to'', target_json (rt_to r)),
     (''destination'', destination_json (rt_destination r))]"

definition pin_json :: "historical_pin \<Rightarrow> json" where
  "pin_json p = JObj [(''referenceKey'', JStr (hp_referenceKey p)), (''version'', JNum (hp_version p)),
     (''item'', target_json (hp_item p)), (''destination'', destination_json (hp_destination p))]"

definition contribution_json :: "contribution_plan \<Rightarrow> json" where
  "contribution_json c = JObj [(''contributor'', contributor_json (cp_contributor c)), (''guard'', guard_json (cp_guard c)),
     (''liveRepoints'', JArr (map repoint_json (cp_liveRepoints c))),
     (''historicalPins'', JArr (map pin_json (cp_historicalPins c)))]"

fun mode_text :: "reference_mode \<Rightarrow> string" where
  "mode_text Current = ''current''"
| "mode_text Historical = ''historical''"

definition reference_json :: "reference_record \<Rightarrow> json" where
  "reference_json r = JObj [(''referenceKey'', JStr (rr_referenceKey r)), (''version'', JNum (rr_version r)),
     (''item'', target_json (rr_item r)), (''mode'', JStr (mode_text (rr_mode r))),
     (''destination'', destination_json (rr_destination r))]"

definition sha_of :: "(string \<Rightarrow> string) \<Rightarrow> json \<Rightarrow> string" where
  "sha_of sha j = sha (canonical j)"

definition same_canonical_value :: "(string \<Rightarrow> string) \<Rightarrow> json \<Rightarrow> json \<Rightarrow> bool" where
  "same_canonical_value sha l r \<longleftrightarrow> sha_of sha l = sha_of sha r"

definition planned_of :: "vocabulary_item \<Rightarrow> planned_item" where
  "planned_of it = planned_item.truncate it"

definition item_digest :: "(string \<Rightarrow> string) \<Rightarrow> planned_item \<Rightarrow> string" where
  "item_digest sha it = sha_of sha (JObj (item_fields it))"

definition set_digest :: "(string \<Rightarrow> string) \<Rightarrow> vocabulary \<Rightarrow> string" where
  "set_digest sha s = sha_of sha (JObj [(''scope'', scope_json (vs_scope s)), (''setVersion'', JNum (vs_setVersion s)),
     (''items'', JArr (map (\<lambda>it. JObj (item_fields (planned_of it))) (vocabulary_items s)))])"

section \<open>Well-formed plans\<close>

fun plan_base_of :: "mutation_plan \<Rightarrow> plan_base" where
  "plan_base_of (Create_plan b _) = b"
| "plan_base_of (Edit_plan b _ _) = b"
| "plan_base_of (Retire_plan b _ _) = b"
| "plan_base_of (Restore_plan b _ _) = b"
| "plan_base_of (Delete_plan b _ _) = b"
| "plan_base_of (Merge_plan b _ _ _ _) = b"
| "plan_base_of (Compensation_plan b _ _ _ _ _) = b"

text \<open>The items and the reference evidence a plan mentions.\<close>

fun plan_items :: "mutation_plan \<Rightarrow> planned_item list" where
  "plan_items (Create_plan _ after) = [after]"
| "plan_items (Edit_plan _ before after) = [before, after]"
| "plan_items (Retire_plan _ before after) = [before, after]"
| "plan_items (Restore_plan _ before after) = [before, after]"
| "plan_items (Delete_plan _ before _) = [before]"
| "plan_items (Merge_plan _ sourceBefore sourceAfter target _) = [sourceBefore, sourceAfter, target]"
| "plan_items (Compensation_plan _ sourceBefore sourceAfter target _ _) = [sourceBefore, sourceAfter, target]"

fun plan_references :: "mutation_plan \<Rightarrow> reference_part option" where
  "plan_references (Delete_plan _ _ r) = Some r"
| "plan_references (Merge_plan _ _ _ _ r) = Some r"
| "plan_references (Compensation_plan _ _ _ _ _ r) = Some r"
| "plan_references _ = None"

definition planned_item_schema :: "planned_item \<Rightarrow> bool" where
  "planned_item_schema it \<longleftrightarrow> vocabulary_id (pi_id it) \<and> canonical_name (pi_name it) \<and> positive_safe (pi_version it)
     \<and> (case pi_detail it of RoomDetail (Some n) \<Rightarrow> positive_safe n | _ \<Rightarrow> True)"

definition target_schema :: "item_target \<Rightarrow> bool" where
  "target_schema t \<longleftrightarrow> vocabulary_id (tg_id t)"

definition destination_schema :: "reference_destination \<Rightarrow> bool" where
  "destination_schema d \<longleftrightarrow> definition_key (ds_kind d) \<and> bounded_text 300 (ds_id d)"

definition contribution_schema :: "contribution_plan \<Rightarrow> bool" where
  "contribution_schema c \<longleftrightarrow>
     definition_key (cr_key (cp_contributor c)) \<and> positive_safe (cr_version (cp_contributor c))
     \<and> guard_id (gd_id (cp_guard c)) \<and> positive_safe (gd_version (cp_guard c)) \<and> sha256_hex (gd_digest (cp_guard c))
     \<and> list_all (\<lambda>r. bounded_text 300 (rt_referenceKey r) \<and> positive_safe (rt_expectedVersion r)
         \<and> target_schema (rt_from r) \<and> target_schema (rt_to r) \<and> destination_schema (rt_destination r))
         (cp_liveRepoints c)
     \<and> list_all (\<lambda>p. bounded_text 300 (hp_referenceKey p) \<and> positive_safe (hp_version p)
         \<and> target_schema (hp_item p) \<and> destination_schema (hp_destination p)) (cp_historicalPins c)"

definition raw_plan_schema :: "mutation_plan \<Rightarrow> bool" where
  "raw_plan_schema plan \<longleftrightarrow>
     scope_ok (pb_scope (plan_base_of plan)) \<and> positive_safe (pb_expectedSetVersion (plan_base_of plan))
     \<and> sha256_hex (pb_setGuardDigest (plan_base_of plan))
     \<and> list_all planned_item_schema (plan_items plan)
     \<and> (case plan_references plan of None \<Rightarrow> True
        | Some r \<Rightarrow> sha256_hex (rp_registryDigest r) \<and> list_all contribution_schema (rp_references r))"

definition same_item_identity :: "planned_item \<Rightarrow> planned_item \<Rightarrow> bool" where
  "same_item_identity l r \<longleftrightarrow> pi_kind l = pi_kind r \<and> pi_id l = pi_id r"

definition same_item_except :: "(string \<Rightarrow> string) \<Rightarrow> planned_item \<Rightarrow> planned_item \<Rightarrow> string list \<Rightarrow> bool" where
  "same_item_except sha l r omitted =
     (let strip = (\<lambda>it. JObj (filter (\<lambda>(key, _). key \<notin> set omitted) (item_fields it))) in
      same_canonical_value sha (strip l) (strip r))"

datatype reference_direction = Forward | Reverse | No_direction

definition target_of :: "('a) planned_item_scheme \<Rightarrow> item_target" where
  "target_of it = \<lparr> tg_kind = pi_kind it, tg_id = pi_id it \<rparr>"

definition repoint_canonical ::
  "item_target \<Rightarrow> item_target option \<Rightarrow> reference_direction \<Rightarrow> reference_repoint \<Rightarrow> bool"
where
  "repoint_canonical source target direction r =
     (let from = (if direction = Reverse then target else Some source);
          to = (if direction = Reverse then Some source else target) in
      case (from, to) of (Some f, Some t) \<Rightarrow> rt_from r = f \<and> rt_to r = t | _ \<Rightarrow> False)"

definition contribution_canonical ::
  "item_target \<Rightarrow> item_target option \<Rightarrow> reference_direction \<Rightarrow> contribution_plan \<Rightarrow> bool"
where
  "contribution_canonical source target direction c \<longleftrightarrow>
     strictly_ordered (map rt_referenceKey (cp_liveRepoints c))
     \<and> strictly_ordered (map hp_referenceKey (cp_historicalPins c))
     \<and> distinct (map rt_referenceKey (cp_liveRepoints c) @ map hp_referenceKey (cp_historicalPins c))
     \<and> (direction = No_direction \<longrightarrow> cp_liveRepoints c = [] \<and> cp_historicalPins c = [])
     \<and> list_all (repoint_canonical source target direction) (cp_liveRepoints c)
     \<and> list_all (\<lambda>p. hp_item p = source) (cp_historicalPins c)"

definition references_canonical ::
  "contribution_plan list \<Rightarrow> item_target \<Rightarrow> item_target option \<Rightarrow> reference_direction \<Rightarrow> bool"
where
  "references_canonical references source target direction \<longleftrightarrow>
     strictly_ordered (map (contributor_identity \<circ> cp_contributor) references)
     \<and> distinct (map (gd_id \<circ> cp_guard) references)
     \<and> list_all (contribution_canonical source target direction) references"

definition accent_coherent :: "planned_item \<Rightarrow> bool" where
  "accent_coherent it = (case pi_detail it of TrackDetail a \<Rightarrow> derive_track_accent (pi_id it) = Inr a | _ \<Rightarrow> True)"

definition lifecycle_coherent ::
  "(string \<Rightarrow> string) \<Rightarrow> vocabulary_status \<Rightarrow> vocabulary_status \<Rightarrow> planned_item \<Rightarrow> planned_item \<Rightarrow> bool"
where
  "lifecycle_coherent sha beforeStatus afterStatus before after \<longleftrightarrow>
     same_item_identity before after \<and> pi_status before = beforeStatus \<and> pi_status after = afterStatus
     \<and> pi_version after = pi_version before + 1 \<and> same_item_except sha before after [''status'', ''version'']"

definition merge_identities :: "planned_item \<Rightarrow> planned_item \<Rightarrow> planned_item \<Rightarrow> bool" where
  "merge_identities sourceBefore sourceAfter target \<longleftrightarrow>
     pi_kind sourceBefore = pi_kind sourceAfter \<and> pi_kind sourceBefore = pi_kind target
     \<and> pi_id sourceBefore \<noteq> pi_id target \<and> same_item_identity sourceBefore sourceAfter"

fun plan_coherent :: "(string \<Rightarrow> string) \<Rightarrow> mutation_plan \<Rightarrow> bool" where
  "plan_coherent sha (Create_plan _ after) \<longleftrightarrow>
     accent_coherent after \<and> pi_status after = Active \<and> pi_version after = 1"
| "plan_coherent sha (Edit_plan _ before after) \<longleftrightarrow>
     accent_coherent before \<and> accent_coherent after \<and> same_item_identity before after
     \<and> pi_status before = pi_status after \<and> pi_version after = pi_version before + 1"
| "plan_coherent sha (Retire_plan _ before after) \<longleftrightarrow>
     accent_coherent before \<and> accent_coherent after \<and> lifecycle_coherent sha Active Retired before after"
| "plan_coherent sha (Restore_plan _ before after) \<longleftrightarrow>
     accent_coherent before \<and> accent_coherent after \<and> lifecycle_coherent sha Retired Active before after"
| "plan_coherent sha (Delete_plan _ before r) \<longleftrightarrow>
     accent_coherent before \<and> references_canonical (rp_references r) (target_of before) None No_direction"
| "plan_coherent sha (Merge_plan _ sourceBefore sourceAfter target r) \<longleftrightarrow>
     accent_coherent sourceBefore \<and> accent_coherent sourceAfter \<and> accent_coherent target
     \<and> merge_identities sourceBefore sourceAfter target
     \<and> pi_status sourceAfter = Retired \<and> pi_version sourceAfter = pi_version sourceBefore + 1
     \<and> pi_status target = Active \<and> same_item_except sha sourceBefore sourceAfter [''status'', ''version'']
     \<and> references_canonical (rp_references r) (target_of sourceBefore) (Some (target_of target)) Forward"
| "plan_coherent sha (Compensation_plan _ sourceBefore sourceAfter target restoreSource r) \<longleftrightarrow>
     accent_coherent sourceBefore \<and> accent_coherent sourceAfter \<and> accent_coherent target
     \<and> merge_identities sourceBefore sourceAfter target
     \<and> (if restoreSource
        then pi_status sourceAfter = Active \<and> pi_version sourceAfter = pi_version sourceBefore + 1
          \<and> same_item_except sha sourceBefore sourceAfter [''status'', ''version'']
        else same_canonical_value sha (JObj (item_fields sourceBefore)) (JObj (item_fields sourceAfter)))
     \<and> references_canonical (rp_references r) (target_of sourceBefore) (Some (target_of target)) Reverse"

text \<open>\<open>parseProgramVocabularyMutationPlan\<close>; a plan of the model is a value the parser returns unchanged.\<close>

definition parse_mutation_plan :: "(string \<Rightarrow> string) \<Rightarrow> mutation_plan \<Rightarrow> mutation_plan planned" where
  "parse_mutation_plan sha plan =
     (if \<not> raw_plan_schema plan \<or> \<not> plan_coherent sha plan then Inl (Refused Invalid_plan) else Inr plan)"

section \<open>Planning\<close>

definition require_set_guard :: "vocabulary \<Rightarrow> vocabulary_scope \<Rightarrow> int \<Rightarrow> unit planned" where
  "require_set_guard s sc expected =
     (if \<not> same_scope (vs_scope s) sc then Inl (Refused Wrong_scope)
      else if vs_setVersion s \<noteq> expected then Inl (Refused Stale_set) else Inr ())"

definition require_item :: "vocabulary \<Rightarrow> vocabulary_kind \<Rightarrow> string \<Rightarrow> int \<Rightarrow> vocabulary_item planned" where
  "require_item s kind i expectedVersion =
     (case resolve_item s kind i of
        None \<Rightarrow> Inl (Refused Item_missing)
      | Some it \<Rightarrow> if pi_version it \<noteq> expectedVersion then Inl (Refused Stale_item) else Inr it)"

definition common_plan :: "(string \<Rightarrow> string) \<Rightarrow> vocabulary \<Rightarrow> plan_base" where
  "common_plan sha s = \<lparr> pb_scope = vs_scope s, pb_expectedSetVersion = vs_setVersion s,
     pb_setGuardDigest = set_digest sha s \<rparr>"

definition pin_of :: "reference_record \<Rightarrow> historical_pin" where
  "pin_of r = \<lparr> hp_referenceKey = rr_referenceKey r, hp_version = rr_version r, hp_item = rr_item r,
     hp_destination = rr_destination r \<rparr>"

definition repoint_of :: "item_target \<Rightarrow> reference_record \<Rightarrow> reference_repoint" where
  "repoint_of to r = \<lparr> rt_referenceKey = rr_referenceKey r, rt_expectedVersion = rr_version r,
     rt_from = rr_item r, rt_to = to, rt_destination = rr_destination r \<rparr>"

definition contributor_plan ::
  "contributor_snapshot \<Rightarrow> item_target \<Rightarrow> item_target option \<Rightarrow> string list option \<Rightarrow> contribution_plan"
where
  "contributor_plan c source target selectedKeys =
     \<lparr> cp_contributor = ct_contributor c, cp_guard = ct_guard c,
       cp_liveRepoints = (case target of None \<Rightarrow> []
         | Some to \<Rightarrow> map (repoint_of to)
             (filter (\<lambda>r. refers_to source r \<and> rr_mode r \<noteq> Historical
                \<and> (case selectedKeys of None \<Rightarrow> True | Some keys \<Rightarrow> rr_referenceKey r \<in> set keys)) (ct_references c))),
       cp_historicalPins = map pin_of (filter (\<lambda>r. refers_to source r \<and> rr_mode r = Historical) (ct_references c)) \<rparr>"

definition capture_checked ::
  "vocabulary \<Rightarrow> reference_registry \<Rightarrow> reference_source \<Rightarrow> reference_snapshot planned"
where
  "capture_checked s registry source =
     from_references (rbind (capture_references registry (vs_scope s) source) (\<lambda>snapshot.
       rbind (validate_reference_targets s snapshot) (\<lambda>_. Inr snapshot)))"

definition next_version :: "int \<Rightarrow> int planned" where
  "next_version v = widen (positive_version (v + 1))"

definition plan_create ::
  "(string \<Rightarrow> string) \<Rightarrow> guarded_input \<Rightarrow> draft_detail \<Rightarrow> string \<Rightarrow> string \<Rightarrow> vocabulary \<Rightarrow> mutation_plan planned"
where
  "plan_create sha i detail idInput nameInput s =
     rbind (require_set_guard s (gi_scope i) (gi_expectedSetVersion i)) (\<lambda>_.
     rbind (widen (parse_vocabulary_id (draft_kind detail) idInput)) (\<lambda>iid.
       if \<exists>it \<in> set (vocabulary_items s). pi_id it = iid then Inl (Refused Item_exists)
       else rbind (widen (normalize_vocabulary_name nameInput)) (\<lambda>name.
         rbind (case detail of
             Room_draft capacity \<Rightarrow> widen (rbind (parse_room_capacity capacity) (\<lambda>c. Inr (RoomDetail c)))
           | Track_draft \<Rightarrow> widen (rbind (derive_track_accent iid) (\<lambda>a. Inr (TrackDetail a)))
           | Format_draft \<Rightarrow> Inr FormatDetail) (\<lambda>d.
         Inr (Create_plan (common_plan sha s)
           \<lparr> pi_id = iid, pi_name = name, pi_status = Active, pi_version = 1, pi_detail = d \<rparr>)))))"

definition plan_edit ::
  "(string \<Rightarrow> string) \<Rightarrow> item_input \<Rightarrow> string \<Rightarrow> int option \<Rightarrow> vocabulary \<Rightarrow> mutation_plan planned"
where
  "plan_edit sha i nameInput capacityInput s =
     rbind (require_set_guard s (gi_scope i) (gi_expectedSetVersion i)) (\<lambda>_.
     rbind (require_item s (ii_kind i) (ii_id i) (ii_expectedItemVersion i)) (\<lambda>it.
     rbind (widen (normalize_vocabulary_name nameInput)) (\<lambda>name.
     rbind (next_version (pi_version it)) (\<lambda>version.
     rbind (if pi_kind it = Room then widen (rbind (parse_room_capacity capacityInput) (\<lambda>c. Inr (RoomDetail c)))
            else Inr (pi_detail it)) (\<lambda>d.
       Inr (Edit_plan (common_plan sha s) (planned_of it)
         ((planned_of it) \<lparr> pi_name := name, pi_version := version, pi_detail := d \<rparr>)))))))"

definition plan_lifecycle ::
  "(string \<Rightarrow> string) \<Rightarrow> bool \<Rightarrow> item_input \<Rightarrow> vocabulary \<Rightarrow> mutation_plan planned"
where
  "plan_lifecycle sha retire i s =
     rbind (require_set_guard s (gi_scope i) (gi_expectedSetVersion i)) (\<lambda>_.
     rbind (require_item s (ii_kind i) (ii_id i) (ii_expectedItemVersion i)) (\<lambda>it.
       let required = (if retire then Active else Retired) in
       if pi_status it \<noteq> required then Inl (Refused Invalid_transition)
       else rbind (next_version (pi_version it)) (\<lambda>version.
         let before = planned_of it;
             after = before \<lparr> pi_status := (if retire then Retired else Active), pi_version := version \<rparr> in
         Inr ((if retire then Retire_plan else Restore_plan) (common_plan sha s) before after))))"

definition plan_delete ::
  "(string \<Rightarrow> string) \<Rightarrow> item_input \<Rightarrow> vocabulary \<Rightarrow> reference_registry \<Rightarrow> reference_source \<Rightarrow> mutation_plan planned"
where
  "plan_delete sha i s registry source =
     rbind (require_set_guard s (gi_scope i) (gi_expectedSetVersion i)) (\<lambda>_.
     rbind (require_item s (ii_kind i) (ii_id i) (ii_expectedItemVersion i)) (\<lambda>it.
     rbind (capture_checked s registry source) (\<lambda>references.
     rbind (from_references (reference_usage references (target_of it))) (\<lambda>usage.
       if fst usage \<noteq> 0 \<or> snd usage \<noteq> 0 then Inl (Refused Delete_referenced)
       else Inr (Delete_plan (common_plan sha s) (planned_of it)
         \<lparr> rp_registryDigest = sn_registryDigest references,
           rp_references = map (\<lambda>c. contributor_plan c (target_of it) None None) (sn_contributors references) \<rparr>)))))"

definition plan_merge ::
  "(string \<Rightarrow> string) \<Rightarrow> merge_input \<Rightarrow> vocabulary \<Rightarrow> reference_registry \<Rightarrow> reference_source \<Rightarrow> mutation_plan planned"
where
  "plan_merge sha i s registry source =
     rbind (require_set_guard s (gi_scope i) (gi_expectedSetVersion i)) (\<lambda>_.
     if mi_sourceId i = mi_targetId i then Inl (Refused Invalid_merge)
     else rbind (require_item s (mi_kind i) (mi_sourceId i) (mi_expectedSourceVersion i)) (\<lambda>sourceItem.
     rbind (require_item s (mi_kind i) (mi_targetId i) (mi_expectedTargetVersion i)) (\<lambda>targetItem.
       if pi_status targetItem \<noteq> Active then Inl (Refused Invalid_merge)
       else rbind (capture_checked s registry source) (\<lambda>references.
       rbind (next_version (pi_version sourceItem)) (\<lambda>version.
         let sourceBefore = planned_of sourceItem in
         Inr (Merge_plan (common_plan sha s) sourceBefore
           (sourceBefore \<lparr> pi_status := Retired, pi_version := version \<rparr>) (planned_of targetItem)
           \<lparr> rp_registryDigest = sn_registryDigest references,
             rp_references = map (\<lambda>c. contributor_plan c (target_of sourceItem) (Some (target_of targetItem)) None)
               (sn_contributors references) \<rparr>))))))"

definition with_source_pins :: "contribution_plan \<Rightarrow> contributor_snapshot \<Rightarrow> item_target \<Rightarrow> contribution_plan" where
  "with_source_pins p c source = p \<lparr> cp_historicalPins := cp_historicalPins (contributor_plan c source None None) \<rparr>"

definition plan_merge_compensation ::
  "(string \<Rightarrow> string) \<Rightarrow> compensation_input \<Rightarrow> vocabulary \<Rightarrow> reference_registry \<Rightarrow> reference_source
   \<Rightarrow> mutation_plan planned"
where
  "plan_merge_compensation sha i s registry source =
     rbind (require_set_guard s (gi_scope i) (gi_expectedSetVersion i)) (\<lambda>_.
     rbind (require_item s (mi_kind i) (mi_sourceId i) (mi_expectedSourceVersion i)) (\<lambda>sourceItem.
     rbind (require_item s (mi_kind i) (mi_targetId i) (mi_expectedTargetVersion i)) (\<lambda>targetItem.
     rbind (capture_checked s registry source) (\<lambda>references.
       let selected = map_entry (map (\<lambda>(c, keys). (contributor_identity c, keys)) (ci_references i)) in
     rbind (traverse (\<lambda>c.
         let selectedKeys = (case selected (contributor_identity (ct_contributor c)) of None \<Rightarrow> [] | Some keys \<Rightarrow> keys);
             contribution = with_source_pins
               (contributor_plan c (target_of targetItem) (Some (target_of sourceItem)) (Some selectedKeys))
               c (target_of sourceItem) in
         if length (cp_liveRepoints contribution) \<noteq> length (remdups selectedKeys)
         then Inl (Refused Stale_reference) else Inr contribution) (sn_contributors references)) (\<lambda>contributions.
     rbind (if ci_restoreSource i
            then rbind (next_version (pi_version sourceItem)) (\<lambda>version.
              Inr ((planned_of sourceItem) \<lparr> pi_status := Active, pi_version := version \<rparr>))
            else Inr (planned_of sourceItem)) (\<lambda>sourceAfter.
       Inr (Compensation_plan (common_plan sha s) (planned_of sourceItem) sourceAfter (planned_of targetItem)
         (ci_restoreSource i)
         \<lparr> rp_registryDigest = sn_registryDigest references, rp_references = contributions \<rparr>)))))))"

fun plan_mutation ::
  "(string \<Rightarrow> string) \<Rightarrow> author_input \<Rightarrow> vocabulary \<Rightarrow> reference_registry \<Rightarrow> reference_source \<Rightarrow> mutation_plan planned"
where
  "plan_mutation sha (Create_input i detail iid name) s registry source = plan_create sha i detail iid name s"
| "plan_mutation sha (Edit_input i name capacity) s registry source = plan_edit sha i name capacity s"
| "plan_mutation sha (Retire_input i) s registry source = plan_lifecycle sha True i s"
| "plan_mutation sha (Restore_input i) s registry source = plan_lifecycle sha False i s"
| "plan_mutation sha (Delete_input i) s registry source = plan_delete sha i s registry source"
| "plan_mutation sha (Merge_input i) s registry source = plan_merge sha i s registry source"
| "plan_mutation sha (Compensation_input i) s registry source = plan_merge_compensation sha i s registry source"

section \<open>Checking and applying\<close>

definition item_matches :: "(string \<Rightarrow> string) \<Rightarrow> vocabulary_item option \<Rightarrow> planned_item \<Rightarrow> bool" where
  "item_matches sha it expected =
     (case it of None \<Rightarrow> False | Some i \<Rightarrow> item_digest sha (planned_of i) = item_digest sha expected)"

definition reference_plans_match ::
  "(string \<Rightarrow> string) \<Rightarrow> contribution_plan list \<Rightarrow> contribution_plan list \<Rightarrow> bool"
where
  "reference_plans_match sha l r \<longleftrightarrow>
     same_canonical_value sha (JArr (map contribution_json l)) (JArr (map contribution_json r))"

definition expected_compensation ::
  "contribution_plan list \<Rightarrow> item_target \<Rightarrow> item_target \<Rightarrow> contributor_snapshot \<Rightarrow> contribution_plan"
where
  "expected_compensation references source target c =
     (case map_entry (map (\<lambda>p. (contributor_identity (cp_contributor p), p)) references)
         (contributor_identity (ct_contributor c)) of
        None \<Rightarrow> contributor_plan c target (Some source) (Some [])
      | Some p \<Rightarrow> with_source_pins
          (contributor_plan c target (Some source) (Some (map rt_referenceKey (cp_liveRepoints p)))) c source)"

text \<open>\<open>expectedReferencePlans\<close>, for the plans that carry reference evidence.\<close>

fun expected_reference_plans :: "mutation_plan \<Rightarrow> reference_snapshot \<Rightarrow> contribution_plan list option" where
  "expected_reference_plans (Delete_plan _ before _) current =
     (if reference_usage current (target_of before) \<noteq> Inr (0, 0) then None
      else Some (map (\<lambda>c. contributor_plan c (target_of before) None None) (sn_contributors current)))"
| "expected_reference_plans (Merge_plan _ sourceBefore _ target _) current =
     Some (map (\<lambda>c. contributor_plan c (target_of sourceBefore) (Some (target_of target)) None) (sn_contributors current))"
| "expected_reference_plans (Compensation_plan _ sourceBefore _ target _ r) current =
     Some (map (expected_compensation (rp_references r) (target_of sourceBefore) (target_of target))
       (sn_contributors current))"
| "expected_reference_plans _ current = None"

text \<open>The item a plan expects to find, and the target of a merge.\<close>

fun plan_before :: "mutation_plan \<Rightarrow> planned_item option" where
  "plan_before (Create_plan _ _) = None"
| "plan_before (Edit_plan _ before _) = Some before"
| "plan_before (Retire_plan _ before _) = Some before"
| "plan_before (Restore_plan _ before _) = Some before"
| "plan_before (Delete_plan _ before _) = Some before"
| "plan_before (Merge_plan _ sourceBefore _ _ _) = Some sourceBefore"
| "plan_before (Compensation_plan _ sourceBefore _ _ _ _) = Some sourceBefore"

fun plan_target :: "mutation_plan \<Rightarrow> planned_item option" where
  "plan_target (Merge_plan _ _ _ target _) = Some target"
| "plan_target (Compensation_plan _ _ _ target _ _) = Some target"
| "plan_target _ = None"

definition resolves_to :: "(string \<Rightarrow> string) \<Rightarrow> vocabulary \<Rightarrow> planned_item \<Rightarrow> bool" where
  "resolves_to sha s it = item_matches sha (resolve_item s (pi_kind it) (pi_id it)) it"

definition set_guard_matches :: "(string \<Rightarrow> string) \<Rightarrow> vocabulary \<Rightarrow> mutation_plan \<Rightarrow> bool" where
  "set_guard_matches sha s plan \<longleftrightarrow>
     vs_setVersion s = pb_expectedSetVersion (plan_base_of plan)
     \<and> set_digest sha s = pb_setGuardDigest (plan_base_of plan)"

text \<open>\<open>validateProgramVocabularyPlan\<close>: the reason to refuse a plan, if any.\<close>

definition validate_plan ::
  "(string \<Rightarrow> string) \<Rightarrow> vocabulary \<Rightarrow> mutation_plan \<Rightarrow> reference_registry \<Rightarrow> reference_source \<Rightarrow> planning_error option"
where
  "validate_plan sha s plan registry source =
     (case parse_mutation_plan sha plan of
        Inl _ \<Rightarrow> Some Invalid_plan
      | Inr parsed \<Rightarrow>
          if \<not> same_scope (vs_scope s) (pb_scope (plan_base_of parsed)) then Some Wrong_scope
          else if \<not> set_guard_matches sha s parsed then Some Stale_set
          else (case plan_before parsed of
            None \<Rightarrow> if \<exists>it \<in> set (vocabulary_items s). \<exists>after \<in> set (plan_items parsed). pi_id it = pi_id after
                    then Some Item_exists else None
          | Some before \<Rightarrow>
              if \<not> resolves_to sha s before then Some Stale_item
              else if \<not> (case plan_target parsed of None \<Rightarrow> True | Some target \<Rightarrow> resolves_to sha s target)
              then Some Stale_item
              else (case plan_references parsed of
                None \<Rightarrow> None
              | Some r \<Rightarrow>
                  if rg_digest registry \<noteq> rp_registryDigest r then Some Stale_reference
                  else (case capture_checked s registry source of
                    Inl _ \<Rightarrow> Some Stale_reference
                  | Inr current \<Rightarrow>
                      if sn_registryDigest current \<noteq> rp_registryDigest r then Some Stale_reference
                      else (case expected_reference_plans parsed current of
                        None \<Rightarrow> Some Stale_reference
                      | Some expected \<Rightarrow>
                          if \<not> reference_plans_match sha (rp_references r) expected then Some Stale_reference
                          else None)))))"

definition state_input_from :: "vocabulary \<Rightarrow> planned_item list \<Rightarrow> vocabulary_input" where
  "state_input_from s items =
     \<lparr> vn_workspaceId = sc_workspaceId (vs_scope s), vn_eventId = sc_eventId (vs_scope s),
       vn_setVersion = vs_setVersion s + 1,
       vn_rooms = map stored_room (filter (\<lambda>it. pi_kind it = Room) items),
       vn_tracks = map stored_named (filter (\<lambda>it. pi_kind it = Track) items),
       vn_formats = map stored_named (filter (\<lambda>it. pi_kind it = Format) items) \<rparr>"

text \<open>What replaces the item at its place: nothing for a deletion.\<close>

fun plan_after :: "mutation_plan \<Rightarrow> planned_item option" where
  "plan_after (Create_plan _ after) = Some after"
| "plan_after (Edit_plan _ _ after) = Some after"
| "plan_after (Retire_plan _ _ after) = Some after"
| "plan_after (Restore_plan _ _ after) = Some after"
| "plan_after (Delete_plan _ _ _) = None"
| "plan_after (Merge_plan _ _ sourceAfter _ _) = Some sourceAfter"
| "plan_after (Compensation_plan _ _ sourceAfter _ _ _) = Some sourceAfter"

definition planned_items :: "vocabulary \<Rightarrow> planned_item list" where
  "planned_items s = map planned_of (vocabulary_items s)"

text \<open>The items after the change: pushed at the end, replaced in place, or spliced out.\<close>

definition changed_items ::
  "(string \<Rightarrow> string) \<Rightarrow> vocabulary \<Rightarrow> mutation_plan \<Rightarrow> planned_item list planned"
where
  "changed_items sha s plan =
     (let items = planned_items s in
      case plan_before plan of
        None \<Rightarrow> (case plan_after plan of
            None \<Rightarrow> Inr items
          | Some after \<Rightarrow> if \<exists>it \<in> set items. pi_id it = pi_id after then Inl (Refused Item_exists)
                          else Inr (items @ [after]))
      | Some before \<Rightarrow>
          (case find_index (\<lambda>it. pi_kind it = pi_kind before \<and> pi_id it = pi_id before) items of
             None \<Rightarrow> Inl (Refused Stale_item)
           | Some i \<Rightarrow>
               if item_digest sha (items ! i) \<noteq> item_digest sha before then Inl (Refused Stale_item)
               else if \<not> (case plan_target plan of None \<Rightarrow> True | Some target \<Rightarrow> resolves_to sha s target)
               then Inl (Refused Stale_item)
               else (case plan_after plan of
                   None \<Rightarrow> Inr (take i items @ drop (Suc i) items)
                 | Some after \<Rightarrow> Inr (items[i := after]))))"

definition apply_plan :: "(string \<Rightarrow> string) \<Rightarrow> vocabulary \<Rightarrow> mutation_plan \<Rightarrow> vocabulary planned" where
  "apply_plan sha s plan =
     rbind (parse_mutation_plan sha plan) (\<lambda>parsed.
       if \<not> same_scope (vs_scope s) (pb_scope (plan_base_of parsed)) \<or> \<not> set_guard_matches sha s parsed
       then Inl (Refused Stale_set)
       else rbind (changed_items sha s parsed) (\<lambda>items.
         widen (create_vocabulary_state (state_input_from s items))))"

section \<open>Moving references\<close>

text \<open>
  The loop over the references of a contributor with the map of pending repoints, from which the used
  ones are deleted.
\<close>

fun repoint_references ::
  "reference_repoint list \<Rightarrow> reference_record list \<Rightarrow> (reference_record list \<times> reference_repoint list) planned"
where
  "repoint_references pending [] = Inr ([], pending)"
| "repoint_references pending (r # rs) =
     (case find (\<lambda>p. rt_referenceKey p = rr_referenceKey r) pending of
        None \<Rightarrow> rbind (repoint_references pending rs) (\<lambda>(ys, left). Inr (r # ys, left))
      | Some p \<Rightarrow>
          if rr_mode r \<noteq> Current \<or> rr_version r \<noteq> rt_expectedVersion p \<or> rr_item r \<noteq> rt_from p
          then Inl (Refused Stale_reference)
          else rbind (next_version (rr_version r)) (\<lambda>version.
            rbind (repoint_references (filter (\<lambda>q. rt_referenceKey q \<noteq> rr_referenceKey r) pending) rs) (\<lambda>(ys, left).
              Inr (r \<lparr> rr_version := version, rr_item := rt_to p \<rparr> # ys, left))))"

definition guard_digest :: "(string \<Rightarrow> string) \<Rightarrow> contributor_ref \<Rightarrow> int \<Rightarrow> reference_record list \<Rightarrow> string" where
  "guard_digest sha c version references =
     sha_of sha (JObj [(''contributor'', contributor_json c), (''guardVersion'', JNum version),
       (''references'', JArr (map reference_json references))])"

definition repoint_contributor ::
  "(string \<Rightarrow> string) \<Rightarrow> contribution_plan list \<Rightarrow> contributor_snapshot \<Rightarrow> contributor_snapshot planned"
where
  "repoint_contributor sha references c =
     (case find (\<lambda>p. cp_contributor p = ct_contributor c) references of
        None \<Rightarrow> Inl (Refused Stale_reference)
      | Some p \<Rightarrow>
          if ct_guard c \<noteq> cp_guard p then Inl (Refused Stale_reference)
          else if cp_liveRepoints p = [] then Inr c
          else rbind (repoint_references (rev (cp_liveRepoints p)) (ct_references c)) (\<lambda>(moved, left).
            if left \<noteq> [] then Inl (Refused Stale_reference)
            else rbind (next_version (gd_version (ct_guard c))) (\<lambda>version.
              Inr (c \<lparr> ct_guard := (ct_guard c) \<lparr> gd_version := version,
                       gd_digest := guard_digest sha (ct_contributor c) version moved \<rparr>,
                     ct_references := moved \<rparr>))))"

definition apply_repoints ::
  "(string \<Rightarrow> string) \<Rightarrow> reference_snapshot \<Rightarrow> mutation_plan \<Rightarrow> reference_snapshot planned"
where
  "apply_repoints sha current plan =
     (if \<not> sn_issued current then Inl (Refused (Snapshot_refused Invalid_snapshot))
      else rbind (parse_mutation_plan sha plan) (\<lambda>parsed.
        case (plan_target parsed, plan_references parsed) of
          (Some _, Some r) \<Rightarrow>
            (if sn_registryDigest current \<noteq> rp_registryDigest r
               \<or> \<not> (case expected_reference_plans parsed current of None \<Rightarrow> False
                     | Some expected \<Rightarrow> reference_plans_match sha (rp_references r) expected)
             then Inl (Refused Stale_reference)
             else rbind (traverse (repoint_contributor sha (rp_references r)) (sn_contributors current)) (\<lambda>cs.
               Inr (current \<lparr> sn_contributors := cs \<rparr>)))
        | _ \<Rightarrow> Inl (Refused Invalid_plan)))"

text \<open>\<open>mutationAffectedItems\<close> and \<open>mergeReferenceCounts\<close>.\<close>

fun affected_items :: "mutation_plan \<Rightarrow> planned_item list" where
  "affected_items (Create_plan _ after) = [after]"
| "affected_items (Merge_plan _ _ sourceAfter target _) = [sourceAfter, target]"
| "affected_items (Compensation_plan _ _ sourceAfter target _ _) = [sourceAfter, target]"
| "affected_items (Delete_plan _ before _) = [before]"
| "affected_items (Edit_plan _ _ after) = [after]"
| "affected_items (Retire_plan _ _ after) = [after]"
| "affected_items (Restore_plan _ _ after) = [after]"

definition reference_counts :: "contribution_plan list \<Rightarrow> nat \<times> nat" where
  "reference_counts references =
     (sum_list (map (length \<circ> cp_liveRepoints) references), sum_list (map (length \<circ> cp_historicalPins) references))"

section \<open>The items of a state\<close>

text \<open>The abstract view of a state: which item each identifier names.\<close>

definition catalog :: "vocabulary \<Rightarrow> string \<Rightarrow> planned_item option" where
  "catalog s = map_of (map (\<lambda>it. (pi_id it, it)) (planned_items s))"

definition attach :: "vocabulary_scope \<Rightarrow> planned_item \<Rightarrow> vocabulary_item" where
  "attach sc it = planned_item.extend it \<lparr> vi_scope = sc \<rparr>"

lemma attach_simps [simp]:
  "pi_id (attach sc it) = pi_id it" "pi_kind (attach sc it) = pi_kind it" "vi_scope (attach sc it) = sc"
  "stored_room (attach sc it) = stored_room it" "stored_named (attach sc it) = stored_named it"
  "planned_ok (attach sc it) = planned_ok it" "planned_of (attach sc it) = it"
  by (simp_all add: attach_def planned_item.defs pi_kind_def stored_room_def stored_named_def
      planned_ok_def planned_of_def)

lemma planned_of_simps [simp]:
  "pi_id (planned_of it) = pi_id it" "pi_name (planned_of it) = pi_name it"
  "pi_status (planned_of it) = pi_status it" "pi_version (planned_of it) = pi_version it"
  "pi_detail (planned_of it) = pi_detail it" "pi_kind (planned_of it) = pi_kind it"
  "target_of (planned_of it) = target_of it" "planned_ok (planned_of it) = planned_ok it"
  by (simp_all add: planned_of_def planned_item.defs pi_kind_def target_of_def planned_ok_def)

lemma planned_items_ids: "map pi_id (planned_items s) = map pi_id (vocabulary_items s)"
  by (simp add: planned_items_def)

lemma kind_cases: "k = Room \<or> k = Track \<or> k = Format"
  by (cases k) simp_all

lemma vocabulary_items_ok:
  assumes "vocabulary_ok s" "it \<in> set (vocabulary_items s)"
  shows "planned_ok it \<and> vi_scope it = vs_scope s"
  using assms by (auto simp: vocabulary_ok_def family_ok_def vocabulary_items_def)

lemma items_of_kind_iff:
  assumes "vocabulary_ok s"
  shows "it \<in> set (items_of_kind s k) \<longleftrightarrow> it \<in> set (vocabulary_items s) \<and> pi_kind it = k"
  using assms
  by (cases k) (auto simp: vocabulary_ok_def family_ok_def vocabulary_items_def)

lemma resolve_item_iff:
  assumes "vocabulary_ok s"
  shows "resolve_item s k i = Some it \<longleftrightarrow> it \<in> set (vocabulary_items s) \<and> pi_kind it = k \<and> pi_id it = i"
proof
  assume "resolve_item s k i = Some it"
  then show "it \<in> set (vocabulary_items s) \<and> pi_kind it = k \<and> pi_id it = i"
    unfolding resolve_item_def using find_result items_of_kind_iff [OF assms, of it k] by fast
next
  assume r: "it \<in> set (vocabulary_items s) \<and> pi_kind it = k \<and> pi_id it = i"
  then have m: "it \<in> set (items_of_kind s k)" using items_of_kind_iff [OF assms] by simp
  then obtain x where x: "resolve_item s k i = Some x"
    using r by (cases "resolve_item s k i") (auto simp: resolve_item_def find_None_iff)
  then have "x \<in> set (vocabulary_items s)" "pi_id x = i"
    using items_of_kind_iff [OF assms] find_result unfolding resolve_item_def by fast+
  moreover have "distinct (map pi_id (vocabulary_items s))" using assms by (simp add: vocabulary_ok_def)
  ultimately show "resolve_item s k i = Some it" using r x distinct_key_eq by metis
qed

lemma catalog_iff:
  assumes "vocabulary_ok s"
  shows "catalog s i = Some it \<longleftrightarrow> it \<in> set (planned_items s) \<and> pi_id it = i"
proof -
  have "distinct (map pi_id (planned_items s))"
    using assms by (simp add: planned_items_ids vocabulary_ok_def)
  then show ?thesis by (auto simp: catalog_def comp_def)
qed

lemma kinds_partition:
  "mset (map f (filter (\<lambda>it. pi_kind it = Room) items)) + mset (map f (filter (\<lambda>it. pi_kind it = Track) items))
    + mset (map f (filter (\<lambda>it. pi_kind it = Format) items)) = mset (map f items)"
proof (induction items)
  case (Cons it items)
  with kind_cases [of "pi_kind it"] show ?case by auto
qed simp

text \<open>A state is rebuilt from any list of well-formed items with distinct identifiers.\<close>

lemma create_from_items:
  assumes sc: "scope_ok (vs_scope s)" and v: "positive_safe (vs_setVersion s + 1)"
    and ok: "\<forall>it \<in> set items. planned_ok it" and d: "distinct (map pi_id items)"
  shows "\<exists>s'. create_vocabulary_state (state_input_from s items) = Inr s' \<and> vocabulary_ok s'
    \<and> vs_scope s' = vs_scope s \<and> vs_setVersion s' = vs_setVersion s + 1
    \<and> set (planned_items s') = set items"
proof -
  let ?sc = "vs_scope s"
  let ?part = "\<lambda>k. map (attach ?sc) (filter (\<lambda>it. pi_kind it = k) items)"
  have 1: "traverse (parse_room ?sc) (map stored_room (filter (\<lambda>it. pi_kind it = Room) items)) = Inr (?part Room)"
    unfolding traverse_Inr_iff list_all2_map1 list_all2_map2
    by (rule list.rel_refl_strong) (use ok parse_stored_room [of "attach ?sc _" ?sc] in auto)
  have 2: "traverse (parse_track ?sc) (map stored_named (filter (\<lambda>it. pi_kind it = Track) items)) = Inr (?part Track)"
    unfolding traverse_Inr_iff list_all2_map1 list_all2_map2
    by (rule list.rel_refl_strong) (use ok parse_stored_track [of "attach ?sc _" ?sc] in auto)
  have 3: "traverse (parse_format ?sc) (map stored_named (filter (\<lambda>it. pi_kind it = Format) items)) = Inr (?part Format)"
    unfolding traverse_Inr_iff list_all2_map1 list_all2_map2
    by (rule list.rel_refl_strong) (use ok parse_stored_format [of "attach ?sc _" ?sc] in auto)
  let ?s' = "\<lparr> vs_scope = ?sc, vs_setVersion = vs_setVersion s + 1,
    vs_rooms = js_sort compare_items (?part Room), vs_tracks = js_sort compare_items (?part Track),
    vs_formats = js_sort compare_items (?part Format) \<rparr>"
  have sets: "set (vocabulary_items ?s') = attach ?sc ` set items"
    using kind_cases by (fastforce simp: vocabulary_items_def item_order.js_sort_set)
  have ids: "mset (map pi_id (js_sort compare_items (?part k))) = mset (map pi_id (filter (\<lambda>it. pi_kind it = k) items))" for k
    unfolding mset_map [of pi_id "js_sort _ _"] item_order.js_sort_mset mset_map [symmetric] by (simp add: comp_def)
  have "mset (map pi_id (vocabulary_items ?s')) = mset (map pi_id items)"
    unfolding vocabulary_items_def vocabulary.simps map_append mset_append ids
    by (simp only: add.assoc [symmetric] kinds_partition)
  then have "distinct (map pi_id (vocabulary_items ?s'))"
    using d mset_eq_imp_distinct_iff by blast
  moreover have "parse_scope (sc_workspaceId ?sc) (sc_eventId ?sc) = Inr ?sc"
    using sc by (simp add: scope_ok_def parse_scope_def parse_application_id_canonical_id)
  ultimately have c: "create_vocabulary_state (state_input_from s items) = Inr ?s'"
    using 1 2 3 v
    by (simp add: create_vocabulary_state_def state_input_from_def Let_def vocabulary_items_def
        positive_version_def positive_safe_def)
  moreover have "set (planned_items ?s') = set items"
    by (simp add: planned_items_def sets image_image del: vocabulary_items_def)
  ultimately show ?thesis using create_vocabulary_state_ok [OF c] by (intro exI [of _ ?s']) simp
qed

section \<open>Applying a checked plan\<close>

text \<open>What a plan does to the catalog.\<close>

definition plan_effect :: "mutation_plan \<Rightarrow> (string \<Rightarrow> planned_item option) \<Rightarrow> string \<Rightarrow> planned_item option" where
  "plan_effect plan c =
     (case plan_before plan of
        None \<Rightarrow> (case plan_after plan of None \<Rightarrow> c | Some after \<Rightarrow> c(pi_id after \<mapsto> after))
      | Some before \<Rightarrow> c(pi_id before := plan_after plan))"

lemma planned_schema_ok: "planned_item_schema it \<Longrightarrow> accent_coherent it \<Longrightarrow> planned_ok it"
  by (auto simp: planned_item_schema_def accent_coherent_def planned_ok_def detail_ok_def
      split: item_detail.splits option.splits)

lemma parse_plan_items_ok:
  assumes "parse_mutation_plan sha plan = Inr parsed"
  shows "parsed = plan \<and> (\<forall>it \<in> set (plan_items plan). planned_ok it)"
proof -
  from assms have p: "parsed = plan" "raw_plan_schema plan" "plan_coherent sha plan"
    by (auto simp: parse_mutation_plan_def split: if_splits)
  then have "\<forall>it \<in> set (plan_items plan). planned_item_schema it \<and> accent_coherent it"
    by (cases plan) (auto simp: raw_plan_schema_def)
  with p(1) show ?thesis using planned_schema_ok by blast
qed

lemma plan_after_identity:
  assumes "plan_coherent sha plan" "plan_before plan = Some before" "plan_after plan = Some after"
  shows "pi_kind after = pi_kind before \<and> pi_id after = pi_id before"
  using assms by (cases plan) (auto simp: same_item_identity_def lifecycle_coherent_def merge_identities_def)

lemma plan_after_item: "plan_after plan = Some after \<Longrightarrow> after \<in> set (plan_items plan)"
  by (cases plan) auto

lemma update_distinct:
  assumes "distinct (map f xs)" "i < length xs" "f y = f (xs ! i)"
  shows "distinct (map f (xs[i := y])) \<and> set (xs[i := y]) = insert y (set xs - {xs ! i})"
proof -
  have "map f (xs[i := y]) = map f xs" using assms(2,3) by (metis list_update_id map_update nth_map)
  moreover have "distinct xs" using assms(1) by (simp add: distinct_map)
  ultimately show ?thesis using assms by (simp add: set_update_distinct)
qed

lemma splice_distinct:
  assumes "distinct (map f xs)" "i < length xs"
  shows "distinct (map f (take i xs @ drop (Suc i) xs)) \<and> set (take i xs @ drop (Suc i) xs) = set xs - {xs ! i}"
proof -
  have xs: "xs = take i xs @ xs ! i # drop (Suc i) xs" using assms(2) by (rule id_take_nth_drop)
  have "distinct (map f (take i xs @ xs ! i # drop (Suc i) xs))" using assms(1) xs by simp
  then have d: "distinct (map f (take i xs @ drop (Suc i) xs))"
    "f (xs ! i) \<notin> f ` (set (take i xs) \<union> set (drop (Suc i) xs))" by auto
  have "set xs = insert (xs ! i) (set (take i xs) \<union> set (drop (Suc i) xs))"
    using arg_cong [OF xs, of set] by simp
  with d show ?thesis by auto
qed

lemma changed_items_result:
  assumes ok: "vocabulary_ok s" and p: "parse_mutation_plan sha plan = Inr plan"
    and c: "changed_items sha s plan = Inr items"
  shows "distinct (map pi_id items) \<and> (\<forall>it \<in> set items. planned_ok it)
    \<and> (\<forall>i it. it \<in> set items \<and> pi_id it = i \<longleftrightarrow> plan_effect plan (catalog s) i = Some it)"
proof -
  let ?old = "planned_items s"
  have d: "distinct (map pi_id ?old)" using ok by (simp add: planned_items_ids vocabulary_ok_def)
  have oks: "\<forall>it \<in> set ?old. planned_ok it" using vocabulary_items_ok [OF ok] by (auto simp: planned_items_def)
  note cat = catalog_iff [OF ok]
  have new: "planned_ok after" if "plan_after plan = Some after" for after
    using parse_plan_items_ok [OF p] plan_after_item [OF that] by blast
  have coh: "plan_coherent sha plan" using p by (simp add: parse_mutation_plan_def split: if_splits)
  show ?thesis
  proof (cases "plan_before plan")
    case None
    then obtain after where a: "plan_after plan = Some after" by (cases plan) auto
    with None c have "items = ?old @ [after]" "pi_id after \<notin> pi_id ` set ?old"
      by (auto simp: changed_items_def Let_def split: if_splits)
    moreover from this(2) have "it \<notin> set ?old" if "pi_id it = pi_id after" for it
      using that by (metis imageI)
    ultimately show ?thesis using None a d oks new by (auto simp: plan_effect_def cat)
  next
    case (Some before)
    then obtain i where f: "find_index (\<lambda>it. pi_kind it = pi_kind before \<and> pi_id it = pi_id before) ?old = Some i"
      and items: "items = (case plan_after plan of None \<Rightarrow> take i ?old @ drop (Suc i) ?old | Some after \<Rightarrow> ?old[i := after])"
      using c by (auto simp: changed_items_def Let_def split: option.splits if_splits)
    have i: "i < length ?old" "pi_id (?old ! i) = pi_id before" using find_index_Some [OF f] by auto
    have only: "it = ?old ! i" if "it \<in> set ?old" "pi_id it = pi_id before" for it
      using distinct_key_eq [OF d that(1)] i that(2) nth_mem by metis
    show ?thesis
    proof (cases "plan_after plan")
      case None
      with items splice_distinct [OF d i(1)]
      have "distinct (map pi_id items) \<and> set items = set ?old - {?old ! i}" by simp
      with oks only None Some i show ?thesis by (auto simp: plan_effect_def cat)
    next
      case (Some after)
      have "pi_id after = pi_id (?old ! i)"
        using plan_after_identity [OF coh \<open>plan_before plan = Some before\<close> Some] i by simp
      with items Some update_distinct [OF d i(1)]
      have "distinct (map pi_id items) \<and> set items = insert after (set ?old - {?old ! i}) \<and> pi_id after = pi_id before"
        using i by simp
      with oks only Some \<open>plan_before plan = Some before\<close> new i(2) show ?thesis by (auto simp: plan_effect_def cat)
    qed
  qed
qed

lemma apply_plan_result:
  assumes ok: "vocabulary_ok s" and a: "apply_plan sha s plan = Inr s'"
  shows "vocabulary_ok s' \<and> vs_scope s' = vs_scope s \<and> vs_setVersion s' = vs_setVersion s + 1
    \<and> catalog s' = plan_effect plan (catalog s)"
proof -
  from a obtain parsed items where p: "parse_mutation_plan sha plan = Inr parsed"
    and items: "changed_items sha s parsed = Inr items"
    and c: "create_vocabulary_state (state_input_from s items) = Inr s'"
    unfolding apply_plan_def by (elim stepsE) (simp add: widen_Inr_iff)
  from parse_plan_items_ok [OF p] p have parsed: "parsed = plan" and p': "parse_mutation_plan sha plan = Inr plan"
    by simp_all
  note r = changed_items_result [OF ok p' items [unfolded parsed]]
  have v: "positive_safe (vs_setVersion s + 1)"
    using c unfolding create_vocabulary_state_def Let_def state_input_from_def
    by (elim stepsE) (simp add: positive_version_iff)
  have "scope_ok (vs_scope s)" using ok by (simp add: vocabulary_ok_def)
  from create_from_items [OF this v, of items] r obtain t where
    "create_vocabulary_state (state_input_from s items) = Inr t \<and> vocabulary_ok t \<and> vs_scope t = vs_scope s
      \<and> vs_setVersion t = vs_setVersion s + 1 \<and> set (planned_items t) = set items" by blast
  with c have s': "vocabulary_ok s'" "vs_scope s' = vs_scope s" "vs_setVersion s' = vs_setVersion s + 1"
    "set (planned_items s') = set items" by simp_all
  have "catalog s' i = Some it \<longleftrightarrow> plan_effect plan (catalog s) i = Some it" for i it
    using catalog_iff [OF s'(1)] s'(4) r by simp
  then have "catalog s' i = plan_effect plan (catalog s) i" for i
    by (metis not_Some_eq)
  with s' show ?thesis by blast
qed

text \<open>A plan that is not refused can be applied, unless the version of the set is exhausted.\<close>

lemma resolves_to_index:
  assumes ok: "vocabulary_ok s" and r: "resolves_to sha s before"
  shows "\<exists>i. find_index (\<lambda>it. pi_kind it = pi_kind before \<and> pi_id it = pi_id before) (planned_items s) = Some i
    \<and> item_digest sha (planned_items s ! i) = item_digest sha before"
proof -
  from r obtain it where it: "resolve_item s (pi_kind before) (pi_id before) = Some it"
    and g: "item_digest sha (planned_of it) = item_digest sha before"
    by (auto simp: resolves_to_def item_matches_def split: option.splits)
  have d: "distinct (map pi_id (planned_items s))" using ok by (simp add: planned_items_ids vocabulary_ok_def)
  have "planned_of it \<in> set (planned_items s)" "pi_kind it = pi_kind before" "pi_id it = pi_id before"
    using it by (auto simp: resolve_item_iff [OF ok] planned_items_def)
  with find_index_distinct [OF d, of "planned_of it" "\<lambda>it. pi_kind it = pi_kind before \<and> pi_id it = pi_id before"] g
  show ?thesis by auto
qed

lemma validate_plan_None:
  assumes "validate_plan sha s plan registry source = None"
  shows "parse_mutation_plan sha plan = Inr plan \<and> same_scope (vs_scope s) (pb_scope (plan_base_of plan))
    \<and> set_guard_matches sha s plan
    \<and> (case plan_before plan of
        None \<Rightarrow> \<forall>it \<in> set (vocabulary_items s). \<forall>after \<in> set (plan_items plan). pi_id it \<noteq> pi_id after
      | Some before \<Rightarrow> resolves_to sha s before
          \<and> (case plan_target plan of None \<Rightarrow> True | Some target \<Rightarrow> resolves_to sha s target))"
  using assms
  by (auto simp: validate_plan_def parse_mutation_plan_def split: sum.splits if_splits option.splits)

lemma validate_plan_references:
  assumes "validate_plan sha s plan registry source = None" "plan_references plan = Some r"
  shows "\<exists>current expected. capture_checked s registry source = Inr current
    \<and> sn_registryDigest current = rp_registryDigest r
    \<and> expected_reference_plans plan current = Some expected \<and> reference_plans_match sha (rp_references r) expected"
proof -
  obtain before where b: "plan_before plan = Some before" using assms(2) by (cases plan) auto
  from validate_plan_None [OF assms(1)] have "parse_mutation_plan sha plan = Inr plan" by blast
  with assms b show ?thesis
    by (auto simp: validate_plan_def split: sum.splits if_splits option.splits)
qed

lemma checked_plan_applies:
  assumes ok: "vocabulary_ok s" and v: "validate_plan sha s plan registry source = None"
    and n: "vs_setVersion s < max_safe_integer"
  shows "\<exists>s'. apply_plan sha s plan = Inr s'"
proof -
  note c = validate_plan_None [OF v]
  then have p: "parse_mutation_plan sha plan = Inr plan" by blast
  have "\<exists>items. changed_items sha s plan = Inr items"
  proof (cases "plan_before plan")
    case None
    then obtain after where a: "plan_after plan = Some after" by (cases plan) auto
    have "\<forall>it \<in> set (planned_items s). pi_id it \<noteq> pi_id after"
      using c None plan_after_item [OF a] by (auto simp: planned_items_def)
    with None a show ?thesis by (simp add: changed_items_def Let_def)
  next
    case (Some before)
    with c have "resolves_to sha s before" by simp
    from resolves_to_index [OF ok this] Some c show ?thesis
      by (auto simp: changed_items_def Let_def split: option.splits)
  qed
  then obtain items where items: "changed_items sha s plan = Inr items" by blast
  have "scope_ok (vs_scope s)" "positive_safe (vs_setVersion s + 1)"
    using ok n by (auto simp: vocabulary_ok_def positive_safe_iff)
  from create_from_items [OF this, of items] changed_items_result [OF ok p items]
  obtain s' where "create_vocabulary_state (state_input_from s items) = Inr s'" by blast
  with items p c show ?thesis by (auto simp: apply_plan_def)
qed

section \<open>Planned is checked\<close>

lemma planned_ok_schema: "planned_ok it \<Longrightarrow> planned_item_schema it \<and> accent_coherent it"
  by (auto simp: planned_item_schema_def accent_coherent_def planned_ok_def detail_ok_def
      split: item_detail.splits option.splits)

lemma require_item_result:
  assumes "vocabulary_ok s" "require_item s k i v = Inr it"
  shows "it \<in> set (vocabulary_items s) \<and> pi_kind it = k \<and> pi_id it = i \<and> pi_version it = v
    \<and> planned_ok it \<and> resolves_to sha s (planned_of it)"
proof -
  from assms(2) have r: "resolve_item s k i = Some it" "pi_version it = v"
    by (auto simp: require_item_def split: option.splits if_splits)
  then have "it \<in> set (vocabulary_items s)" "pi_kind it = k" "pi_id it = i"
    by (simp_all add: resolve_item_iff [OF assms(1)])
  with r vocabulary_items_ok [OF assms(1)] show ?thesis
    by (simp add: resolves_to_def item_matches_def)
qed

lemma next_version_iff: "next_version v = Inr w \<longleftrightarrow> w = v + 1 \<and> positive_safe w"
  by (auto simp: next_version_def widen_Inr_iff positive_version_iff)

lemma same_item_except_lifecycle:
  "same_item_except sha it (it \<lparr> pi_status := st, pi_version := v \<rparr>) [''status'', ''version'']"
  by (simp add: same_item_except_def same_canonical_value_def item_fields_def pi_kind_def)

lemma lifecycle_item:
  fixes it :: vocabulary_item
  assumes "planned_ok it" "positive_safe v"
  shows "planned_ok ((planned_of it) \<lparr> pi_status := st, pi_version := v \<rparr>)"
    and "pi_kind ((planned_of it) \<lparr> pi_status := st, pi_version := v \<rparr>) = pi_kind it"
  using assms by (simp_all add: planned_ok_def pi_kind_def)

lemma base_checks:
  assumes "vocabulary_ok s" "\<forall>t. sha256_hex (sha t)" "plan_base_of plan = common_plan sha s"
  shows "scope_ok (pb_scope (plan_base_of plan)) \<and> positive_safe (pb_expectedSetVersion (plan_base_of plan))
    \<and> sha256_hex (pb_setGuardDigest (plan_base_of plan))
    \<and> same_scope (vs_scope s) (pb_scope (plan_base_of plan)) \<and> set_guard_matches sha s plan"
  using assms
  by (simp add: common_plan_def vocabulary_ok_def same_scope_def set_guard_matches_def set_digest_def sha_of_def)

text \<open>A plan without reference evidence passes the check as soon as its items do.\<close>

lemma plan_without_references_checked:
  assumes base: "vocabulary_ok s" "\<forall>t. sha256_hex (sha t)" "plan_base_of plan = common_plan sha s"
    and none: "plan_references plan = None"
    and items: "\<forall>it \<in> set (plan_items plan). planned_ok it" and coh: "plan_coherent sha plan"
    and before: "case plan_before plan of
        None \<Rightarrow> \<forall>it \<in> set (vocabulary_items s). \<forall>after \<in> set (plan_items plan). pi_id it \<noteq> pi_id after
      | Some b \<Rightarrow> resolves_to sha s b"
  shows "validate_plan sha s plan registry source = None"
proof -
  have t: "plan_target plan = None" using none by (cases plan) auto
  have "raw_plan_schema plan"
    using base_checks [OF base] items planned_ok_schema none by (simp add: raw_plan_schema_def list_all_iff)
  then have "parse_mutation_plan sha plan = Inr plan" using coh by (simp add: parse_mutation_plan_def)
  then show ?thesis
    using base_checks [OF base] before none t by (auto simp: validate_plan_def split: option.splits)
qed

lemma plan_create_checked:
  assumes ok: "vocabulary_ok s" and h: "\<forall>t. sha256_hex (sha t)"
    and p: "plan_create sha i detail iid name s = Inr plan"
  shows "validate_plan sha s plan registry source = None"
proof -
  from p obtain id n d where id: "parse_vocabulary_id (draft_kind detail) iid = Inr id"
    and new: "\<forall>it \<in> set (vocabulary_items s). pi_id it \<noteq> id" and n: "normalize_vocabulary_name name = Inr n"
    and d: "(case detail of
             Room_draft capacity \<Rightarrow> widen (rbind (parse_room_capacity capacity) (\<lambda>c. Inr (RoomDetail c)))
           | Track_draft \<Rightarrow> widen (rbind (derive_track_accent id) (\<lambda>a. Inr (TrackDetail a)))
           | Format_draft \<Rightarrow> Inr FormatDetail) = (Inr d :: item_detail planned)"
    and plan: "plan = Create_plan (common_plan sha s)
           \<lparr> pi_id = id, pi_name = n, pi_status = Active, pi_version = 1, pi_detail = d \<rparr>"
    unfolding plan_create_def by (elim stepsE) (auto simp: widen_Inr_iff)
  have "detail_ok id d"
    using d by (auto simp: detail_ok_def widen_Inr_iff rbind_Inr_iff parse_room_capacity_def positive_safe_def
        split: draft_detail.splits option.splits if_splits)
  then have "planned_ok \<lparr> pi_id = id, pi_name = n, pi_status = Active, pi_version = 1, pi_detail = d \<rparr>"
    using id n by (auto simp: planned_ok_def parse_vocabulary_id_iff uuid_lower normalize_vocabulary_name_iff
        positive_safe_def safe_integer_def max_safe_integer_def)
  then show ?thesis
    using plan new ok h by (intro plan_without_references_checked) (auto simp: planned_ok_schema)
qed

lemma plan_edit_checked:
  assumes ok: "vocabulary_ok s" and h: "\<forall>t. sha256_hex (sha t)"
    and p: "plan_edit sha i name capacity s = Inr plan"
  shows "validate_plan sha s plan registry source = None"
proof -
  from p obtain it n v d where it: "require_item s (ii_kind i) (ii_id i) (ii_expectedItemVersion i) = Inr it"
    and n: "normalize_vocabulary_name name = Inr n" and v: "next_version (pi_version it) = Inr v"
    and d: "(if pi_kind it = Room then widen (rbind (parse_room_capacity capacity) (\<lambda>c. Inr (RoomDetail c)))
            else Inr (pi_detail it)) = (Inr d :: item_detail planned)"
    and plan: "plan = Edit_plan (common_plan sha s) (planned_of it)
         ((planned_of it) \<lparr> pi_name := n, pi_version := v, pi_detail := d \<rparr>)"
    unfolding plan_edit_def by (elim stepsE) (auto simp: widen_Inr_iff)
  note r = require_item_result [OF ok it, of sha]
  have d': "detail_ok (pi_id it) d \<and> detail_kind d = pi_kind it"
  proof (cases "pi_kind it = Room")
    case True
    with d show ?thesis
      by (auto simp: detail_ok_def widen_Inr_iff rbind_Inr_iff parse_room_capacity_def positive_safe_def
          split: option.splits if_splits)
  next
    case False
    with d have "d = pi_detail it" by simp
    moreover have "detail_ok (pi_id it) (pi_detail it)" using r unfolding planned_ok_def by blast
    ultimately show ?thesis by (simp add: pi_kind_def)
  qed
  then have "planned_ok ((planned_of it) \<lparr> pi_name := n, pi_version := v, pi_detail := d \<rparr>)"
    if "vocabulary_id (pi_id it)" "canonical_name n" "positive_safe v"
    using that by (simp add: planned_ok_def)
  moreover have "vocabulary_id (pi_id it)" "canonical_name n" "positive_safe v"
    using r n v unfolding planned_ok_def normalize_vocabulary_name_iff next_version_iff by blast+
  ultimately have "planned_ok ((planned_of it) \<lparr> pi_name := n, pi_version := v, pi_detail := d \<rparr>)" by blast
  then show ?thesis
    using plan ok h r v d'
    by (intro plan_without_references_checked)
      (auto simp: planned_ok_schema same_item_identity_def pi_kind_def next_version_iff)
qed

lemma plan_lifecycle_checked:
  assumes ok: "vocabulary_ok s" and h: "\<forall>t. sha256_hex (sha t)"
    and p: "plan_lifecycle sha retire i s = Inr plan"
  shows "validate_plan sha s plan registry source = None"
proof -
  from p obtain it v where it: "require_item s (ii_kind i) (ii_id i) (ii_expectedItemVersion i) = Inr it"
    and st: "pi_status it = (if retire then Active else Retired)" and v: "next_version (pi_version it) = Inr v"
    and plan: "plan = (if retire then Retire_plan else Restore_plan) (common_plan sha s) (planned_of it)
         ((planned_of it) \<lparr> pi_status := (if retire then Retired else Active), pi_version := v \<rparr>)"
    unfolding plan_lifecycle_def Let_def by (elim stepsE) auto
  note r = require_item_result [OF ok it]
  have v': "v = pi_version it + 1" "positive_safe v" using v unfolding next_version_iff by blast+
  note new = lifecycle_item [of it v, OF _ v'(2)]
  have "planned_ok it" using r by blast
  show ?thesis
  proof (rule plan_without_references_checked [OF ok h])
    show "plan_coherent sha plan"
      using plan r v' st new [OF \<open>planned_ok it\<close>] planned_ok_schema [of "planned_of it"] planned_ok_schema [OF new(1)]
      by (auto simp: lifecycle_coherent_def same_item_identity_def same_item_except_lifecycle)
  qed (use plan r new in auto)
qed

text \<open>The evidence planned from a capture has the shape the plan schema asks for.\<close>

lemma contributor_plan_parts:
  "cp_contributor (contributor_plan c source target keys) = ct_contributor c"
  "cp_guard (contributor_plan c source target keys) = ct_guard c"
  "cp_contributor (with_source_pins p c source) = cp_contributor p"
  "cp_guard (with_source_pins p c source) = cp_guard p"
  "cp_liveRepoints (with_source_pins p c source) = cp_liveRepoints p"
  "cp_historicalPins (with_source_pins p c source) = map pin_of (filter (\<lambda>r. refers_to source r \<and> rr_mode r = Historical) (ct_references c))"
  by (simp_all add: contributor_plan_def with_source_pins_def)

lemma refers_to_iff: "refers_to t r \<longleftrightarrow> rr_item r = t"
  by (auto simp: refers_to_def)

lemma contributor_plan_schema:
  assumes c: "contributor_ok scope c" and t: "target = None \<or> vocabulary_id (tg_id (the target))"
  shows "contribution_schema (contributor_plan c source target keys)"
proof -
  from c have "contributor_snapshot_schema c" by (simp add: contributor_ok_def)
  then show ?thesis
    using t by (auto simp: contribution_schema_def contributor_plan_def contributor_snapshot_schema_def
        list_all_iff reference_schema_def repoint_of_def pin_of_def target_schema_def destination_schema_def
        split: option.splits)
qed

lemma contribution_schema_pins:
  assumes "contribution_schema p" "contributor_ok scope c"
  shows "contribution_schema (with_source_pins p c source)"
  using assms contributor_plan_schema [OF assms(2), of None source None]
  by (simp add: contribution_schema_def with_source_pins_def)

lemma strictly_ordered_filter:
  fixes f :: "'a \<Rightarrow> 'k::linorder"
  shows "strictly_ordered (map f xs) \<Longrightarrow> strictly_ordered (map f (filter P xs))"
  by (simp add: strictly_ordered_iff sorted_filter distinct_map_filter)

lemma filters_apart:
  assumes "distinct (map f xs)" "\<And>x. \<not> (P x \<and> Q x)"
  shows "f ` {x \<in> set xs. P x} \<inter> f ` {x \<in> set xs. Q x} = {}"
  using assms distinct_key_eq [OF assms(1)] by auto

text \<open>Repoints of one direction and the pins of the source, from a capture.\<close>

lemma captured_contribution_canonical:
  assumes c: "contributor_ok scope c"
    and p: "cp_liveRepoints p = map (repoint_of to) (filter (\<lambda>r. refers_to origin r \<and> rr_mode r \<noteq> Historical \<and> Q r) (ct_references c))"
      "cp_historicalPins p = map pin_of (filter (\<lambda>r. refers_to source r \<and> rr_mode r = Historical) (ct_references c))"
    and d: "direction = Forward \<and> origin = source \<and> target = Some to \<or> direction = Reverse \<and> origin = the target \<and> to = source \<and> target \<noteq> None"
  shows "contribution_canonical source target direction p"
proof -
  let ?refs = "ct_references c"
  from c have o: "strictly_ordered (map rr_referenceKey ?refs)" by (simp add: contributor_ok_def)
  then have dk: "distinct (map rr_referenceKey ?refs)" by (simp add: strictly_ordered_iff)
  have keys: "map rt_referenceKey (cp_liveRepoints p) = map rr_referenceKey (filter (\<lambda>r. refers_to origin r \<and> rr_mode r \<noteq> Historical \<and> Q r) ?refs)"
    "map hp_referenceKey (cp_historicalPins p) = map rr_referenceKey (filter (\<lambda>r. refers_to source r \<and> rr_mode r = Historical) ?refs)"
    by (simp_all add: p repoint_of_def pin_of_def comp_def)
  have "list_all (repoint_canonical source target direction) (cp_liveRepoints p)"
    using d by (auto simp: p list_all_iff repoint_canonical_def repoint_of_def refers_to_iff Let_def)
  moreover have "list_all (\<lambda>q. hp_item q = source) (cp_historicalPins p)"
    by (auto simp: p list_all_iff pin_of_def refers_to_iff)
  moreover have "rr_referenceKey ` {x \<in> set ?refs. refers_to origin x \<and> rr_mode x \<noteq> Historical \<and> Q x}
      \<inter> rr_referenceKey ` {x \<in> set ?refs. refers_to source x \<and> rr_mode x = Historical} = {}"
    by (rule filters_apart [OF dk]) blast
  moreover have "direction \<noteq> No_direction" using d by auto
  ultimately show ?thesis
    unfolding contribution_canonical_def keys
    using strictly_ordered_filter [OF o] dk by (simp add: distinct_map_filter)
qed

lemma capture_checked_result:
  assumes ok: "vocabulary_ok s" and c: "capture_checked s registry source = Inr snapshot"
  shows "snapshot_ok registry (vs_scope s) snapshot \<and> capture_references registry (vs_scope s) source = Inr snapshot
    \<and> validate_reference_targets s snapshot = Inr ()"
proof -
  have "scope_ok (vs_scope s)" using ok by (simp add: vocabulary_ok_def)
  moreover from c have "capture_references registry (vs_scope s) source = Inr snapshot"
    "validate_reference_targets s snapshot = Inr ()"
    unfolding capture_checked_def
    by (cases "capture_references registry (vs_scope s) source"; cases "validate_reference_targets s snapshot";
        auto elim!: from_references.elims simp: rbind_def split: sum.splits)+
  ultimately show ?thesis using capture_ok by blast
qed

lemma captured_references_schema:
  assumes "snapshot_ok registry scope snapshot" "registry_ok registry"
    and "\<And>c. c \<in> set (sn_contributors snapshot) \<Longrightarrow> contributor_ok scope c \<Longrightarrow>
      cp_contributor (f c) = ct_contributor c \<and> cp_guard (f c) = ct_guard c \<and> contribution_schema (f c)
      \<and> contribution_canonical source target direction (f c)"
  shows "list_all contribution_schema (map f (sn_contributors snapshot))
    \<and> references_canonical (map f (sn_contributors snapshot)) source target direction"
proof -
  let ?cs = "sn_contributors snapshot"
  have f: "cp_contributor (f c) = ct_contributor c \<and> cp_guard (f c) = ct_guard c \<and> contribution_schema (f c)
      \<and> contribution_canonical source target direction (f c)" if "c \<in> set ?cs" for c
    using assms(1,3) that by (auto simp: snapshot_ok_def)
  have "map (contributor_identity \<circ> cp_contributor) (map f ?cs) = map contributor_identity (map ct_contributor ?cs)"
    using f by simp
  also have "map ct_contributor ?cs = rg_contributors registry" using assms(1) by (simp add: snapshot_ok_def)
  finally have "strictly_ordered (map (contributor_identity \<circ> cp_contributor) (map f ?cs))"
    using assms(2) by (simp only: registry_ok_def)
  moreover have "map (gd_id \<circ> cp_guard) (map f ?cs) = map (gd_id \<circ> ct_guard) ?cs"
    using f by simp
  then have "distinct (map (gd_id \<circ> cp_guard) (map f ?cs))"
    using assms(1) by (simp only: snapshot_ok_def)
  ultimately show ?thesis
    using f by (simp add: references_canonical_def list_all_iff)
qed

text \<open>A plan with reference evidence passes the check when the evidence is what the capture gives.\<close>

lemma plan_with_references_checked:
  assumes base: "vocabulary_ok s" "\<forall>t. sha256_hex (sha t)" "plan_base_of plan = common_plan sha s"
    and r: "plan_references plan = Some r" "rp_registryDigest r = rg_digest registry"
    and reg: "registry_ok registry" "sha256_hex (rg_digest registry)"
    and cap: "capture_checked s registry source = Inr snapshot"
    and ex: "expected_reference_plans plan snapshot = Some (rp_references r)"
    and items: "\<forall>it \<in> set (plan_items plan). planned_ok it" and coh: "plan_coherent sha plan"
    and sch: "list_all contribution_schema (rp_references r)"
    and before: "\<And>b. plan_before plan = Some b \<Longrightarrow> resolves_to sha s b"
    and target: "\<And>t. plan_target plan = Some t \<Longrightarrow> resolves_to sha s t"
  shows "validate_plan sha s plan registry source = None"
proof -
  obtain b where b: "plan_before plan = Some b" using r(1) by (cases plan) auto
  have "sn_registryDigest snapshot = rg_digest registry"
    using capture_checked_result [OF base(1) cap] by (simp add: snapshot_ok_def)
  moreover have "raw_plan_schema plan"
    using base_checks [OF base] items planned_ok_schema r reg sch by (simp add: raw_plan_schema_def list_all_iff)
  then have "parse_mutation_plan sha plan = Inr plan" using coh by (simp add: parse_mutation_plan_def)
  ultimately show ?thesis
    using base_checks [OF base] before [OF b] target b r cap ex
    by (auto simp: validate_plan_def reference_plans_match_def same_canonical_value_def split: option.splits)
qed

lemma from_references_Inr_iff: "from_references m = Inr x \<longleftrightarrow> m = Inr x"
  by (cases m rule: from_references.cases) auto

lemma plan_delete_checked:
  assumes ok: "vocabulary_ok s" and h: "\<forall>t. sha256_hex (sha t)"
    and reg: "registry_ok registry" "sha256_hex (rg_digest registry)"
    and p: "plan_delete sha i s registry source = Inr plan"
  shows "validate_plan sha s plan registry source = None"
proof -
  from p obtain it snap usage where it: "require_item s (ii_kind i) (ii_id i) (ii_expectedItemVersion i) = Inr it"
    and cap: "capture_checked s registry source = Inr snap"
    and u: "reference_usage snap (target_of it) = Inr usage" "fst usage = 0" "snd usage = 0"
    and plan: "plan = Delete_plan (common_plan sha s) (planned_of it)
         \<lparr> rp_registryDigest = sn_registryDigest snap,
           rp_references = map (\<lambda>c. contributor_plan c (target_of it) None None) (sn_contributors snap) \<rparr>"
    unfolding plan_delete_def by (elim stepsE) (auto simp: from_references_Inr_iff)
  note r = require_item_result [OF ok it] and c = capture_checked_result [OF ok cap]
  have u': "reference_usage snap (target_of it) = Inr (0, 0)" using u by (cases usage) simp
  have none: "\<not> refers_to (target_of it) x \<or> rr_mode x \<noteq> Historical"
    if "c \<in> set (sn_contributors snap)" "x \<in> set (ct_references c)" for c x
    using u' that by (auto simp: reference_usage_def all_references_def filter_empty_conv split: if_splits)
  have "list_all contribution_schema (map (\<lambda>c. contributor_plan c (target_of it) None None) (sn_contributors snap))
    \<and> references_canonical (map (\<lambda>c. contributor_plan c (target_of it) None None) (sn_contributors snap)) (target_of it) None No_direction"
  proof (rule captured_references_schema [OF _ reg(1)])
    fix x assume x: "x \<in> set (sn_contributors snap)" "contributor_ok (vs_scope s) x"
    then have "cp_historicalPins (contributor_plan x (target_of it) None None) = []"
      using none by (fastforce simp: contributor_plan_def filter_empty_conv)
    then show "cp_contributor (contributor_plan x (target_of it) None None) = ct_contributor x
      \<and> cp_guard (contributor_plan x (target_of it) None None) = ct_guard x
      \<and> contribution_schema (contributor_plan x (target_of it) None None)
      \<and> contribution_canonical (target_of it) None No_direction (contributor_plan x (target_of it) None None)"
      using contributor_plan_schema [OF x(2)]
      by (simp add: contribution_canonical_def contributor_plan_parts) (simp add: contributor_plan_def)
  qed (use c in blast)
  note refs = this
  show ?thesis
    by (rule plan_with_references_checked [OF ok h _ _ _ reg cap])
      (use plan r c u' refs in \<open>auto simp: snapshot_ok_def planned_ok_schema\<close>)
qed

lemma vocabulary_id_planned: "planned_ok it \<Longrightarrow> vocabulary_id (tg_id (target_of it))"
  by (simp add: planned_ok_def target_of_def)

lemma plan_merge_result:
  assumes ok: "vocabulary_ok s" and h: "\<forall>t. sha256_hex (sha t)"
    and reg: "registry_ok registry" "sha256_hex (rg_digest registry)"
    and p: "plan_merge sha i s registry source = Inr plan"
  shows "\<exists>src tgt snap. plan = Merge_plan (common_plan sha s) (planned_of src)
      ((planned_of src) \<lparr> pi_status := Retired, pi_version := pi_version src + 1 \<rparr>) (planned_of tgt)
      \<lparr> rp_registryDigest = sn_registryDigest snap,
        rp_references = map (\<lambda>c. contributor_plan c (target_of src) (Some (target_of tgt)) None) (sn_contributors snap) \<rparr>
    \<and> capture_checked s registry source = Inr snap \<and> target_of src \<noteq> target_of tgt
    \<and> src \<in> set (vocabulary_items s) \<and> target_of src = \<lparr> tg_kind = mi_kind i, tg_id = mi_sourceId i \<rparr>
    \<and> target_of tgt = \<lparr> tg_kind = mi_kind i, tg_id = mi_targetId i \<rparr>
    \<and> validate_plan sha s plan registry source = None"
proof -
  from p obtain src tgt snap v where
    ne: "mi_sourceId i \<noteq> mi_targetId i"
    and src: "require_item s (mi_kind i) (mi_sourceId i) (mi_expectedSourceVersion i) = Inr src"
    and tgt: "require_item s (mi_kind i) (mi_targetId i) (mi_expectedTargetVersion i) = Inr tgt"
    and act: "pi_status tgt = Active" and cap: "capture_checked s registry source = Inr snap"
    and v: "next_version (pi_version src) = Inr v"
    and plan: "plan = Merge_plan (common_plan sha s) (planned_of src)
      ((planned_of src) \<lparr> pi_status := Retired, pi_version := v \<rparr>) (planned_of tgt)
      \<lparr> rp_registryDigest = sn_registryDigest snap,
        rp_references = map (\<lambda>c. contributor_plan c (target_of src) (Some (target_of tgt)) None) (sn_contributors snap) \<rparr>"
    unfolding plan_merge_def Let_def by (elim stepsE) auto
  note rs = require_item_result [OF ok src] and rt = require_item_result [OF ok tgt]
    and c = capture_checked_result [OF ok cap]
  have v': "v = pi_version src + 1" "positive_safe v" using v unfolding next_version_iff by blast+
  have oks: "planned_ok src" "planned_ok tgt" using rs rt by blast+
  note new = lifecycle_item [OF oks(1) v'(2), of Retired]
  have refs: "list_all contribution_schema (map (\<lambda>c. contributor_plan c (target_of src) (Some (target_of tgt)) None) (sn_contributors snap))
    \<and> references_canonical (map (\<lambda>c. contributor_plan c (target_of src) (Some (target_of tgt)) None) (sn_contributors snap))
        (target_of src) (Some (target_of tgt)) Forward"
  proof (rule captured_references_schema [OF _ reg(1)])
    fix x assume x: "x \<in> set (sn_contributors snap)" "contributor_ok (vs_scope s) x"
    have "contribution_canonical (target_of src) (Some (target_of tgt)) Forward
        (contributor_plan x (target_of src) (Some (target_of tgt)) None)"
      by (rule captured_contribution_canonical [where Q = "\<lambda>_. True" and to = "target_of tgt" and origin = "target_of src", OF x(2)])
        (simp_all add: contributor_plan_def)
    with contributor_plan_schema [OF x(2)] vocabulary_id_planned [OF oks(2)]
    show "cp_contributor (contributor_plan x (target_of src) (Some (target_of tgt)) None) = ct_contributor x
      \<and> cp_guard (contributor_plan x (target_of src) (Some (target_of tgt)) None) = ct_guard x
      \<and> contribution_schema (contributor_plan x (target_of src) (Some (target_of tgt)) None)
      \<and> contribution_canonical (target_of src) (Some (target_of tgt)) Forward
          (contributor_plan x (target_of src) (Some (target_of tgt)) None)"
      by (simp add: contributor_plan_parts)
  qed (use c in blast)
  have t: "target_of ((planned_of src) \<lparr> pi_status := Retired, pi_version := v \<rparr>) = target_of src"
    by (simp add: target_of_def pi_kind_def)
  have ids: "merge_identities (planned_of src) ((planned_of src) \<lparr> pi_status := Retired, pi_version := v \<rparr>) (planned_of tgt)"
    using rs rt ne new(2) by (auto simp: merge_identities_def same_item_identity_def)
  have "validate_plan sha s plan registry source = None"
  proof (rule plan_with_references_checked [OF ok h _ _ _ reg cap])
    show "plan_coherent sha plan"
      using ids act refs v' planned_ok_schema [of "planned_of src"] planned_ok_schema [of "planned_of tgt"]
        planned_ok_schema [OF new(1)] oks
      by (simp add: plan same_item_except_lifecycle)
  qed (use plan rs rt c refs new oks in \<open>auto simp: snapshot_ok_def\<close>)
  moreover have "target_of src = \<lparr> tg_kind = mi_kind i, tg_id = mi_sourceId i \<rparr>"
    "target_of tgt = \<lparr> tg_kind = mi_kind i, tg_id = mi_targetId i \<rparr>" "src \<in> set (vocabulary_items s)"
    using rs rt by (simp_all add: target_of_def)
  moreover from this ne have "target_of src \<noteq> target_of tgt" by simp
  ultimately show ?thesis using plan v' cap by blast
qed

text \<open>Selecting by the keys of the selected repoints selects the same ones again.\<close>

lemma reselect_contributor_plan:
  assumes "contributor_ok scope c"
  shows "contributor_plan c source target
      (Some (map rt_referenceKey (cp_liveRepoints (contributor_plan c source target (Some keys)))))
    = contributor_plan c source target (Some keys)"
proof -
  let ?refs = "ct_references c"
  have d: "distinct (map rr_referenceKey ?refs)" using assms by (simp add: contributor_ok_def strictly_ordered_iff)
  have "refers_to source r \<and> rr_mode r \<noteq> Historical
      \<and> rr_referenceKey r \<in> rr_referenceKey ` {x \<in> set ?refs. refers_to source x \<and> rr_mode x \<noteq> Historical \<and> rr_referenceKey x \<in> set keys}
    \<longleftrightarrow> refers_to source r \<and> rr_mode r \<noteq> Historical \<and> rr_referenceKey r \<in> set keys" if "r \<in> set ?refs" for r
    using that by auto
  then have "filter (\<lambda>r. refers_to source r \<and> rr_mode r \<noteq> Historical
      \<and> rr_referenceKey r \<in> rr_referenceKey ` {x \<in> set ?refs. refers_to source x \<and> rr_mode x \<noteq> Historical \<and> rr_referenceKey x \<in> set keys}) ?refs
    = filter (\<lambda>r. refers_to source r \<and> rr_mode r \<noteq> Historical \<and> rr_referenceKey r \<in> set keys) ?refs"
    by (rule filter_cong [OF refl])
  then show ?thesis
    by (simp add: contributor_plan_def repoint_of_def image_image split: option.splits)
qed

lemma contributor_identity_order:
  assumes "snapshot_ok registry scope snap" "registry_ok registry"
  shows "distinct (map (contributor_identity \<circ> ct_contributor) (sn_contributors snap))"
proof -
  have "map (contributor_identity \<circ> ct_contributor) (sn_contributors snap)
      = map contributor_identity (map ct_contributor (sn_contributors snap))" by simp
  also have "map ct_contributor (sn_contributors snap) = rg_contributors registry"
    using assms(1) by (simp add: snapshot_ok_def)
  finally show ?thesis using assms(2) by (simp only: registry_ok_def strictly_ordered_iff)
qed

lemma expected_compensation_planned:
  assumes snap: "snapshot_ok registry scope snap" and reg: "registry_ok registry"
    and c: "c \<in> set (sn_contributors snap)"
    and f: "\<And>c. f c = with_source_pins (contributor_plan c target (Some source) (Some (keys c))) c source"
  shows "expected_compensation (map f (sn_contributors snap)) source target c = f c"
proof -
  let ?es = "map (\<lambda>p. (contributor_identity (cp_contributor p), p)) (map f (sn_contributors snap))"
  have "map fst ?es = map (contributor_identity \<circ> ct_contributor) (sn_contributors snap)"
    by (simp add: f contributor_plan_parts)
  then have d: "distinct (map fst ?es)"
    using contributor_identity_order [OF snap reg] by (simp only:)
  have "(contributor_identity (ct_contributor c), f c) \<in> set ?es"
    using c by (auto simp: f contributor_plan_parts)
  from map_entry_own [OF d this]
  have e: "map_entry ?es (contributor_identity (ct_contributor c)) = Some (f c)" .
  have "contributor_ok scope c" using snap c by (simp add: snapshot_ok_def)
  from reselect_contributor_plan [OF this, of target "Some source" "keys c"]
  show ?thesis by (simp add: expected_compensation_def e [unfolded map_map] f contributor_plan_parts)
qed

definition selected_keys :: "compensation_input \<Rightarrow> contributor_snapshot \<Rightarrow> string list" where
  "selected_keys i c =
     (case map_entry (map (\<lambda>(c, keys). (contributor_identity c, keys)) (ci_references i))
         (contributor_identity (ct_contributor c)) of None \<Rightarrow> [] | Some keys \<Rightarrow> keys)"

definition compensation_evidence ::
  "compensation_input \<Rightarrow> item_target \<Rightarrow> item_target \<Rightarrow> contributor_snapshot \<Rightarrow> contribution_plan"
where
  "compensation_evidence i source target c =
     with_source_pins (contributor_plan c target (Some source) (Some (selected_keys i c))) c source"

definition compensation_after :: "bool \<Rightarrow> vocabulary_item \<Rightarrow> planned_item" where
  "compensation_after restore src =
     (if restore then (planned_of src) \<lparr> pi_status := Active, pi_version := pi_version src + 1 \<rparr> else planned_of src)"

lemma plan_compensation_parts:
  assumes "plan_merge_compensation sha i s registry source = Inr plan"
  shows "\<exists>src tgt snap. require_item s (mi_kind i) (mi_sourceId i) (mi_expectedSourceVersion i) = Inr src
    \<and> require_item s (mi_kind i) (mi_targetId i) (mi_expectedTargetVersion i) = Inr tgt
    \<and> capture_checked s registry source = Inr snap
    \<and> (\<forall>c \<in> set (sn_contributors snap).
        length (cp_liveRepoints (compensation_evidence i (target_of src) (target_of tgt) c)) = length (remdups (selected_keys i c)))
    \<and> (ci_restoreSource i \<longrightarrow> positive_safe (pi_version src + 1))
    \<and> plan = Compensation_plan (common_plan sha s) (planned_of src) (compensation_after (ci_restoreSource i) src)
        (planned_of tgt) (ci_restoreSource i)
        \<lparr> rp_registryDigest = sn_registryDigest snap,
          rp_references = map (compensation_evidence i (target_of src) (target_of tgt)) (sn_contributors snap) \<rparr>"
proof -
  from assms obtain src tgt snap contributions sourceAfter where
    src: "require_item s (mi_kind i) (mi_sourceId i) (mi_expectedSourceVersion i) = Inr src"
    and tgt: "require_item s (mi_kind i) (mi_targetId i) (mi_expectedTargetVersion i) = Inr tgt"
    and cap: "capture_checked s registry source = Inr snap"
    and cs: "traverse (\<lambda>c. if length (cp_liveRepoints (compensation_evidence i (target_of src) (target_of tgt) c))
        \<noteq> length (remdups (selected_keys i c)) then Inl (Refused Stale_reference)
        else Inr (compensation_evidence i (target_of src) (target_of tgt) c)) (sn_contributors snap)
      = (Inr contributions :: contribution_plan list planned)"
    and after: "(if ci_restoreSource i
            then rbind (next_version (pi_version src)) (\<lambda>version.
              Inr ((planned_of src) \<lparr> pi_status := Active, pi_version := version \<rparr>))
            else Inr (planned_of src)) = (Inr sourceAfter :: planned_item planned)"
    and plan: "plan = Compensation_plan (common_plan sha s) (planned_of src) sourceAfter (planned_of tgt)
         (ci_restoreSource i) \<lparr> rp_registryDigest = sn_registryDigest snap, rp_references = contributions \<rparr>"
    unfolding plan_merge_compensation_def Let_def selected_keys_def [symmetric] compensation_evidence_def [symmetric]
    by (elim stepsE) blast
  from after have "sourceAfter = compensation_after (ci_restoreSource i) src
      \<and> (ci_restoreSource i \<longrightarrow> positive_safe (pi_version src + 1))"
    by (auto simp: compensation_after_def rbind_Inr_iff next_version_iff split: if_splits)
  with traverse_if [OF cs] src tgt cap plan show ?thesis by blast
qed

lemma plan_compensation_result:
  assumes ok: "vocabulary_ok s" and h: "\<forall>t. sha256_hex (sha t)"
    and reg: "registry_ok registry" "sha256_hex (rg_digest registry)"
    and p: "plan_merge_compensation sha i s registry source = Inr plan" and ne: "mi_sourceId i \<noteq> mi_targetId i"
  shows "validate_plan sha s plan registry source = None"
proof -
  from plan_compensation_parts [OF p] obtain src tgt snap where
    src: "require_item s (mi_kind i) (mi_sourceId i) (mi_expectedSourceVersion i) = Inr src"
    and tgt: "require_item s (mi_kind i) (mi_targetId i) (mi_expectedTargetVersion i) = Inr tgt"
    and cap: "capture_checked s registry source = Inr snap"
    and v: "ci_restoreSource i \<longrightarrow> positive_safe (pi_version src + 1)"
    and plan: "plan = Compensation_plan (common_plan sha s) (planned_of src) (compensation_after (ci_restoreSource i) src)
        (planned_of tgt) (ci_restoreSource i)
        \<lparr> rp_registryDigest = sn_registryDigest snap,
          rp_references = map (compensation_evidence i (target_of src) (target_of tgt)) (sn_contributors snap) \<rparr>"
    by blast
  let ?f = "compensation_evidence i (target_of src) (target_of tgt)"
  let ?after = "compensation_after (ci_restoreSource i) src"
  note rs = require_item_result [OF ok src] and rt = require_item_result [OF ok tgt]
    and c = capture_checked_result [OF ok cap]
  have oks: "planned_ok src" "planned_ok tgt" using rs rt by blast+
  have new: "planned_ok ?after" "pi_kind ?after = pi_kind src" "pi_id ?after = pi_id src"
    using oks(1) v lifecycle_item [of src "pi_version src + 1" Active] by (auto simp: compensation_after_def)
  have refs: "list_all contribution_schema (map ?f (sn_contributors snap))
    \<and> references_canonical (map ?f (sn_contributors snap)) (target_of src) (Some (target_of tgt)) Reverse"
  proof (rule captured_references_schema [OF _ reg(1)])
    fix x assume x: "x \<in> set (sn_contributors snap)" "contributor_ok (vs_scope s) x"
    have "contribution_canonical (target_of src) (Some (target_of tgt)) Reverse (?f x)"
      by (rule captured_contribution_canonical [where Q = "\<lambda>r. rr_referenceKey r \<in> set (selected_keys i x)"
            and to = "target_of src" and origin = "target_of tgt", OF x(2)])
        (simp_all add: compensation_evidence_def contributor_plan_parts, simp add: contributor_plan_def)
    moreover have "contribution_schema (?f x)"
      using contribution_schema_pins [OF contributor_plan_schema [OF x(2)] x(2)] vocabulary_id_planned [OF oks(1)]
      by (simp add: compensation_evidence_def)
    ultimately show "cp_contributor (?f x) = ct_contributor x \<and> cp_guard (?f x) = ct_guard x
      \<and> contribution_schema (?f x) \<and> contribution_canonical (target_of src) (Some (target_of tgt)) Reverse (?f x)"
      by (simp add: contributor_plan_parts compensation_evidence_def)
  qed (use c in blast)
  have ids: "merge_identities (planned_of src) ?after (planned_of tgt)"
    using rs rt ne new by (auto simp: merge_identities_def same_item_identity_def)
  have ex: "map (expected_compensation (map ?f (sn_contributors snap)) (target_of src) (target_of tgt)) (sn_contributors snap)
      = map ?f (sn_contributors snap)"
    using c expected_compensation_planned [OF _ reg(1), of "vs_scope s" snap _ ?f "target_of tgt" "target_of src" "selected_keys i"]
    by (auto simp: compensation_evidence_def [abs_def])
  show ?thesis
  proof (rule plan_with_references_checked [OF ok h _ _ _ reg cap])
    show "plan_coherent sha plan"
      using ids refs planned_ok_schema [of "planned_of src"] planned_ok_schema [of "planned_of tgt"]
        planned_ok_schema [OF new(1)] oks
      by (auto simp: plan compensation_after_def same_item_except_lifecycle same_canonical_value_def)
  qed (use plan rs rt c refs new oks ex in \<open>auto simp: snapshot_ok_def\<close>)
qed

end
