(* ===== verification/Planning.thy ===== *)
theory Planning
  imports Prelude
begin

text \<open>
  The contract shared by the components that plan a change against a version of their state and apply
  it later (the program vocabulary, the placements and the breaks of the schedule, the sessions): a plan names the
  version it was made against, it is applied at that version only, and applying it moves the state to
  the next version. What follows from the contract is proved once here.
\<close>

text \<open>Applying plans one after the other; the first refusal ends the run.\<close>

fun apply_plans :: "('s \<Rightarrow> 'p \<Rightarrow> 'e + 's) \<Rightarrow> 's \<Rightarrow> 'p list \<Rightarrow> 'e + 's" where
  "apply_plans exec s [] = Inr s"
| "apply_plans exec s (p # ps) = rbind (exec s p) (\<lambda>s'. apply_plans exec s' ps)"

locale versioned_plans =
  fixes ok :: "'s \<Rightarrow> bool"
    and state_version :: "'s \<Rightarrow> int"
    and plan_version :: "'p \<Rightarrow> int"
    and exec :: "'s \<Rightarrow> 'p \<Rightarrow> 'e + 's"
  assumes apply_ok: "ok s \<Longrightarrow> exec s p = Inr s' \<Longrightarrow> ok s'"
    and apply_version: "ok s \<Longrightarrow> exec s p = Inr s' \<Longrightarrow> state_version s' = state_version s + 1"
    and apply_guard: "ok s \<Longrightarrow> exec s p = Inr s' \<Longrightarrow> plan_version p = state_version s"
begin

text \<open>The plans of a run were made against consecutive versions, so no two of them against one version.\<close>

lemma plans_consecutive:
  "ok s \<Longrightarrow> apply_plans exec s ps = Inr s' \<Longrightarrow>
   map plan_version ps = map (\<lambda>k. state_version s + int k) [0..<length ps]
   \<and> state_version s' = state_version s + int (length ps) \<and> ok s'"
proof (induction ps arbitrary: s)
  case (Cons p ps)
  then obtain t where t: "exec s p = Inr t" and r: "apply_plans exec t ps = Inr s'"
    by (auto simp: rbind_Inr_iff)
  note h = apply_ok [OF Cons.prems(1) t] apply_version [OF Cons.prems(1) t] apply_guard [OF Cons.prems(1) t]
  have "map (\<lambda>k. state_version s + int k) [0..<length (p # ps)]
      = state_version s # map (\<lambda>k. state_version t + int k) [0..<length ps]"
    by (simp add: upt_conv_Cons map_Suc_upt [symmetric] comp_def h(2) del: upt_Suc)
  with Cons.IH [OF h(1) r] h show ?case by simp
qed simp

lemma plans_versions_distinct:
  assumes "ok s" "apply_plans exec s ps = Inr s'"
  shows "distinct (map plan_version ps)"
  using plans_consecutive [OF assms] by (simp add: distinct_map inj_on_def)

text \<open>A plan that was applied is refused in every later state, and so is its rival of the same version.\<close>

lemma rival_refused:
  assumes "ok s" "exec s p = Inr t" "apply_plans exec t ps = Inr s'" "plan_version q = plan_version p"
  shows "\<exists>e. exec s' q = Inl e"
proof (cases "exec s' q")
  case (Inr s'')
  note t = apply_ok [OF assms(1,2)] apply_version [OF assms(1,2)] apply_guard [OF assms(1,2)]
  from plans_consecutive [OF t(1) assms(3)] have s': "state_version s' = state_version t + int (length ps)" "ok s'"
    by simp_all
  from apply_guard [OF s'(2) Inr] t s' assms(4) show ?thesis by simp
qed simp

end

text \<open>
  Components whose check plans the stored input again and compares: a plan is valid exactly when it is
  what planning gives. The stored input may be a normal form of the one the plan was made from.
\<close>

locale replanned_plans = versioned_plans +
  fixes make :: "'i \<Rightarrow> 's \<Rightarrow> 'f + 'p"
    and input_of :: "'p \<Rightarrow> 'i"
    and valid :: "'s \<Rightarrow> 'p \<Rightarrow> bool"
  assumes valid_iff: "valid s p \<longleftrightarrow> make (input_of p) s = Inr p"
    and make_again: "make i s = Inr p \<Longrightarrow> make (input_of p) s = Inr p"
    and make_version: "make i s = Inr p \<Longrightarrow> make i t = Inr q \<Longrightarrow> plan_version p = plan_version q"
    and valid_exec: "ok s \<Longrightarrow> valid s p \<Longrightarrow> \<exists>s'. exec s p = Inr s'"
    and exec_valid: "exec s p = Inr s' \<Longrightarrow> valid s p"
begin

lemma made_executes:
  assumes "ok s" "make i s = Inr p"
  shows "valid s p \<and> (\<exists>s'. exec s p = Inr s')"
proof -
  have "valid s p" using make_again [OF assms(2)] by (simp add: valid_iff)
  with valid_exec [OF assms(1)] show ?thesis by blast
qed

text \<open>After a plan was applied, neither it nor a new plan for the same input is accepted again.\<close>

lemma made_once:
  assumes "ok s" "make i s = Inr p" "exec s p = Inr t" "apply_plans exec t ps = Inr s'"
  shows "\<not> valid s' p \<and> (\<forall>q. make i s' \<noteq> Inr q)"
proof -
  have t: "ok t" by (rule apply_ok [OF assms(1,3)])
  from plans_consecutive [OF t assms(4)] have ok': "ok s'" by blast
  have no: "make j s' \<noteq> Inr q" if j: "make j s = Inr p" for j q
  proof
    assume q: "make j s' = Inr q"
    from made_executes [OF ok' q] obtain s'' where "exec s' q = Inr s''" by blast
    moreover have "plan_version q = plan_version p" by (rule make_version [OF q j])
    ultimately show False using rival_refused [OF assms(1,3,4)] by fastforce
  qed
  from no [OF assms(2)] no [OF make_again [OF assms(2)]] show ?thesis by (simp add: valid_iff)
qed

end

end
