(* ===== verification/VocabularyChanges.thy ===== *)
theory VocabularyChanges
  imports VocabularyPlans Planning
begin

text \<open>
  What planned changes of the vocabulary guarantee: planning, checking and applying agree, every change
  is applied at one version of the set, no change leaves a dangling reference, and a merge moves
  exactly the current references and can be undone.
\<close>

section \<open>Plans against versions\<close>

definition plan_set_version :: "mutation_plan \<Rightarrow> int" where
  "plan_set_version plan = pb_expectedSetVersion (plan_base_of plan)"

lemma apply_plan_guard: "apply_plan sha s plan = Inr s' \<Longrightarrow> plan_set_version plan = vs_setVersion s"
  unfolding apply_plan_def plan_set_version_def
  by (elim stepsE) (auto simp: set_guard_matches_def dest: parse_plan_items_ok)

interpretation vocabulary: versioned_plans vocabulary_ok vs_setVersion plan_set_version "apply_plan sha"
  using apply_plan_result apply_plan_guard by unfold_locales blast+

lemma applied_plan_stale:
  assumes "vocabulary_ok s" "apply_plan sha s plan = Inr s'"
  shows "apply_plan sha s' plan = Inl (Refused Stale_set)
    \<and> validate_plan sha s' plan registry source = Some Stale_set"
proof -
  from assms(2) obtain parsed where p: "parse_mutation_plan sha plan = Inr parsed"
    and sc: "same_scope (vs_scope s) (pb_scope (plan_base_of parsed))"
    unfolding apply_plan_def by (elim stepsE) auto
  have "\<not> set_guard_matches sha s' parsed"
    using apply_plan_result [OF assms] apply_plan_guard [OF assms(2)] parse_plan_items_ok [OF p]
    by (simp add: set_guard_matches_def plan_set_version_def)
  with p sc apply_plan_result [OF assms] show ?thesis
    by (simp add: apply_plan_def validate_plan_def same_scope_def)
qed

section \<open>References stay resolved\<close>

lemma resolve_catalog:
  assumes "vocabulary_ok s"
  shows "resolve_item s k i \<noteq> None \<longleftrightarrow> (\<exists>it. catalog s i = Some it \<and> pi_kind it = k)"
proof -
  have "resolve_item s k i \<noteq> None \<longleftrightarrow> (\<exists>x \<in> set (vocabulary_items s). pi_kind x = k \<and> pi_id x = i)"
    using resolve_item_iff [OF assms, of k i] by blast
  then show ?thesis by (auto simp: catalog_iff [OF assms] planned_items_def)
qed

lemma targets_valid_iff:
  "validate_reference_targets s snap = Inr () \<longleftrightarrow> sn_issued snap
    \<and> (\<forall>c \<in> set (sn_contributors snap). same_scope (vs_scope s) (ct_scope c)
      \<and> (\<forall>r \<in> set (ct_references c). resolve_item s (tg_kind (rr_item r)) (tg_id (rr_item r)) \<noteq> None))"
proof -
  have v: "validate_contributor_targets s c = Inr () \<longleftrightarrow> same_scope (vs_scope s) (ct_scope c)
      \<and> (\<forall>r \<in> set (ct_references c). resolve_item s (tg_kind (rr_item r)) (tg_id (rr_item r)) \<noteq> None)" for c
    by (simp add: validate_contributor_targets_def list_all_iff)
  have "(\<exists>us. traverse (validate_contributor_targets s) cs = Inr us)
      \<longleftrightarrow> (\<forall>c \<in> set cs. validate_contributor_targets s c = Inr ())" for cs
    by (induction cs) (auto simp: rbind_Inr_iff)
  then show ?thesis
    by (auto simp: validate_reference_targets_def rbind_Inr_iff v)
qed

lemma catalog_after_plan:
  assumes ok: "vocabulary_ok s" and v: "validate_plan sha s plan registry source = None"
    and a: "apply_plan sha s plan = Inr s'"
    and it: "catalog s i = Some it" and kept: "\<And>b. plan_after plan = None \<Longrightarrow> plan_before plan = Some b \<Longrightarrow> target_of it \<noteq> target_of b"
  shows "\<exists>it'. catalog s' i = Some it' \<and> pi_kind it' = pi_kind it"
proof -
  note r = apply_plan_result [OF ok a] and c = validate_plan_None [OF v]
  have id: "pi_id it = i" "it \<in> set (planned_items s)" using it by (simp_all add: catalog_iff [OF ok])
  show ?thesis
  proof (cases "plan_before plan")
    case None
    then obtain after where after: "plan_after plan = Some after" by (cases plan) auto
    have "pi_id after \<noteq> i"
      using c None plan_after_item [OF after] id by (fastforce simp: planned_items_def)
    with r None after it show ?thesis by (simp add: plan_effect_def)
  next
    case (Some before)
    then have eff: "catalog s' = (catalog s)(pi_id before := plan_after plan)" using r by (simp add: plan_effect_def)
    show ?thesis
    proof (cases "pi_id before = i")
      case True
      from c Some have "resolve_item s (pi_kind before) (pi_id before) \<noteq> None"
        by (auto simp: resolves_to_def item_matches_def split: option.splits)
      then have k: "pi_kind it = pi_kind before" using it True unfolding resolve_catalog [OF ok] by auto
      with True id have t: "target_of it = target_of before" by (simp add: target_of_def)
      obtain after where after: "plan_after plan = Some after"
      proof (cases "plan_after plan")
        case None
        from kept [OF this Some] t show ?thesis by simp
      qed (rule that)
      have "plan_coherent sha plan" using c by (auto simp: parse_mutation_plan_def split: if_splits)
      from plan_after_identity [OF this Some after] after eff True k show ?thesis by simp
    next
      case False
      with eff it show ?thesis by simp
    qed
  qed
qed

lemma references_stay_resolved:
  assumes ok: "vocabulary_ok s" and v: "validate_plan sha s plan registry source = None"
    and a: "apply_plan sha s plan = Inr s'" and cap: "capture_checked s registry source = Inr snap"
  shows "capture_checked s' registry source = Inr snap"
proof -
  note r = apply_plan_result [OF ok a] and c = capture_checked_result [OF ok cap]
  have ok': "vocabulary_ok s'" using r by blast
  have "resolve_item s' (tg_kind (rr_item x)) (tg_id (rr_item x)) \<noteq> None"
    if x: "d \<in> set (sn_contributors snap)" "x \<in> set (ct_references d)" for d x
  proof -
    from c x have "resolve_item s (tg_kind (rr_item x)) (tg_id (rr_item x)) \<noteq> None"
      by (simp add: targets_valid_iff)
    then obtain it where it: "catalog s (tg_id (rr_item x)) = Some it" "pi_kind it = tg_kind (rr_item x)"
      unfolding resolve_catalog [OF ok] by blast
    then have t: "target_of it = rr_item x" by (simp add: target_of_def catalog_iff [OF ok])
    have "target_of it \<noteq> target_of b" if "plan_after plan = None" "plan_before plan = Some b" for b
    proof -
      obtain base refs where plan: "plan = Delete_plan base b refs"
        using \<open>plan_after plan = None\<close> \<open>plan_before plan = Some b\<close> by (cases plan) auto
      with validate_plan_references [OF v, of refs] cap
      have "reference_usage snap (target_of b) = Inr (0, 0)" by (auto split: if_splits)
      then show ?thesis
        using t x by (cases "rr_mode x")
          (force simp: reference_usage_def all_references_def filter_empty_conv refers_to_iff split: if_splits)+
    qed
    from catalog_after_plan [OF ok v a it(1) this] it(2) show ?thesis
      unfolding resolve_catalog [OF ok'] by auto
  qed
  then have "validate_reference_targets s' snap = Inr ()"
    using c r by (simp add: targets_valid_iff)
  with c r show ?thesis by (simp add: capture_checked_def)
qed

section \<open>Merging moves references\<close>

text \<open>
  The specification of a move: the selected references of a contributor name the new item at their next
  version, and the guard of a contributor moves on exactly when one of its references did.
\<close>

definition moved_reference :: "item_target \<Rightarrow> (reference_record \<Rightarrow> bool) \<Rightarrow> reference_record \<Rightarrow> reference_record" where
  "moved_reference to Q r = (if Q r then r \<lparr> rr_version := rr_version r + 1, rr_item := to \<rparr> else r)"

definition moved_contributor ::
  "(string \<Rightarrow> string) \<Rightarrow> item_target \<Rightarrow> (reference_record \<Rightarrow> bool) \<Rightarrow> contributor_snapshot \<Rightarrow> contributor_snapshot"
where
  "moved_contributor sha to Q c =
     (let refs = map (moved_reference to Q) (ct_references c); version = gd_version (ct_guard c) + 1 in
      if \<exists>r \<in> set (ct_references c). Q r
      then c \<lparr> ct_guard := (ct_guard c) \<lparr> gd_version := version,
             gd_digest := guard_digest sha (ct_contributor c) version refs \<rparr>, ct_references := refs \<rparr>
      else c)"

text \<open>No version of the evidence is the last one.\<close>

definition versions_free :: "reference_snapshot \<Rightarrow> bool" where
  "versions_free snap \<longleftrightarrow> (\<forall>c \<in> set (sn_contributors snap). gd_version (ct_guard c) < max_safe_integer
     \<and> (\<forall>r \<in> set (ct_references c). rr_version r < max_safe_integer))"

lemma repoint_references_moves:
  assumes "distinct (map rr_referenceKey refs)"
    and "\<And>r. r \<in> set refs \<Longrightarrow> find (\<lambda>p. rt_referenceKey p = rr_referenceKey r) pending = (if Q r then Some (repoint_of to r) else None)"
    and "\<And>r. r \<in> set refs \<Longrightarrow> Q r \<Longrightarrow> rr_mode r = Current \<and> positive_safe (rr_version r + 1)"
  shows "repoint_references pending refs = Inr (map (moved_reference to Q) refs,
    filter (\<lambda>p. rt_referenceKey p \<notin> rr_referenceKey ` set (filter Q refs)) pending)"
  using assms
proof (induction refs arbitrary: pending)
  case (Cons r rs)
  let ?rest = "filter (\<lambda>q. rt_referenceKey q \<noteq> rr_referenceKey r) pending"
  have find_rest: "find (\<lambda>p. rt_referenceKey p = k) ?rest = find (\<lambda>p. rt_referenceKey p = k) pending"
    if "k \<noteq> rr_referenceKey r" for k
    using that by (induction pending) auto
  show ?case
  proof (cases "Q r")
    case True
    have "rr_referenceKey x \<noteq> rr_referenceKey r" if "x \<in> set rs" for x
      using Cons.prems(1) that by (metis distinct.simps(2) image_eqI image_set list.simps(9))
    then have "repoint_references ?rest rs = Inr (map (moved_reference to Q) rs,
        filter (\<lambda>p. rt_referenceKey p \<notin> rr_referenceKey ` set (filter Q rs)) ?rest)"
      using Cons.prems by (intro Cons.IH) (simp_all add: find_rest)
    moreover have "find (\<lambda>p. rt_referenceKey p = rr_referenceKey r) pending = Some (repoint_of to r)"
      "rr_mode r = Current" "next_version (rr_version r) = Inr (rr_version r + 1)"
      using Cons.prems(2,3) [of r] True by (simp_all add: next_version_iff)
    moreover have "filter (\<lambda>p. rt_referenceKey p \<notin> rr_referenceKey ` set (filter Q rs)) ?rest
      = filter (\<lambda>p. rt_referenceKey p \<notin> rr_referenceKey ` set (filter Q (r # rs))) pending"
      using True by (auto intro: filter_cong)
    ultimately show ?thesis using True by (simp add: moved_reference_def repoint_of_def)
  next
    case False
    then have "find (\<lambda>p. rt_referenceKey p = rr_referenceKey r) pending = None" using Cons.prems(2) [of r] by simp
    moreover have "repoint_references pending rs = Inr (map (moved_reference to Q) rs,
        filter (\<lambda>p. rt_referenceKey p \<notin> rr_referenceKey ` set (filter Q rs)) pending)"
      using Cons.prems by (intro Cons.IH) simp_all
    ultimately show ?thesis using False by (simp add: moved_reference_def)
  qed
qed simp

lemma find_repoint:
  assumes "distinct (map rr_referenceKey refs)" "r \<in> set refs"
  shows "find (\<lambda>p. rt_referenceKey p = rr_referenceKey r) (rev (map (repoint_of to) (filter Q refs)))
    = (if Q r then Some (repoint_of to r) else None)"
proof (cases "find (\<lambda>p. rt_referenceKey p = rr_referenceKey r) (rev (map (repoint_of to) (filter Q refs)))")
  case None
  with assms(2) show ?thesis by (auto simp: find_None_iff repoint_of_def)
next
  case (Some p)
  from find_result [OF Some] obtain x where
    x: "x \<in> set refs" "Q x" "p = repoint_of to x" "rr_referenceKey x = rr_referenceKey r"
    by (auto simp: repoint_of_def)
  with distinct_key_eq [OF assms(1) x(1) assms(2)] Some show ?thesis by simp
qed

lemma repoint_contributor_moves:
  assumes c: "contributor_ok scope c"
    and p: "find (\<lambda>p. cp_contributor p = ct_contributor c) evidence = Some p" "cp_guard p = ct_guard c"
      "cp_liveRepoints p = map (repoint_of to) (filter Q (ct_references c))"
    and Q: "\<And>r. r \<in> set (ct_references c) \<Longrightarrow> Q r \<Longrightarrow> rr_mode r = Current"
    and free: "gd_version (ct_guard c) < max_safe_integer" "\<forall>r \<in> set (ct_references c). rr_version r < max_safe_integer"
  shows "repoint_contributor sha evidence c = Inr (moved_contributor sha to Q c)"
proof -
  let ?refs = "ct_references c"
  have d: "distinct (map rr_referenceKey ?refs)" using c by (simp add: contributor_ok_def strictly_ordered_iff)
  have pos: "positive_safe (rr_version r + 1)" if "r \<in> set ?refs" for r
    using c free that by (auto simp: contributor_ok_def contributor_snapshot_schema_def list_all_iff reference_schema_def positive_safe_iff)
  have gpos: "positive_safe (gd_version (ct_guard c) + 1)"
    using c free by (auto simp: contributor_ok_def contributor_snapshot_schema_def positive_safe_iff)
  have "repoint_references (rev (cp_liveRepoints p)) ?refs = Inr (map (moved_reference to Q) ?refs,
      filter (\<lambda>q. rt_referenceKey q \<notin> rr_referenceKey ` set (filter Q ?refs)) (rev (cp_liveRepoints p)))"
    unfolding p(3) using Q pos by (intro repoint_references_moves [OF d find_repoint [OF d]]) auto
  moreover have "filter (\<lambda>q. rt_referenceKey q \<notin> rr_referenceKey ` set (filter Q ?refs)) (rev (cp_liveRepoints p)) = []"
    by (auto simp: p(3) filter_empty_conv repoint_of_def)
  ultimately have r: "repoint_references (rev (cp_liveRepoints p)) ?refs = Inr (map (moved_reference to Q) ?refs, [])" by simp
  have g: "next_version (gd_version (ct_guard c)) = Inr (gd_version (ct_guard c) + 1)"
    using gpos by (simp add: next_version_iff)
  show ?thesis
    using p(1,2) r g
    by (auto simp: repoint_contributor_def moved_contributor_def Let_def p(3) filter_empty_conv)
qed

lemma find_contribution:
  assumes snap: "snapshot_ok registry scope snap" and reg: "registry_ok registry"
    and f: "\<And>c. cp_contributor (f c) = ct_contributor c" and c: "c \<in> set (sn_contributors snap)"
  shows "find (\<lambda>p. cp_contributor p = ct_contributor c) (map f (sn_contributors snap)) = Some (f c)"
proof (cases "find (\<lambda>p. cp_contributor p = ct_contributor c) (map f (sn_contributors snap))")
  case None
  with c f show ?thesis by (auto simp: find_None_iff)
next
  case (Some p)
  from find_result [OF Some] f obtain x where
    x: "x \<in> set (sn_contributors snap)" "p = f x" "ct_contributor x = ct_contributor c" by auto
  have "distinct (map (contributor_identity \<circ> ct_contributor) (sn_contributors snap))"
    by (rule contributor_identity_order [OF snap reg])
  from distinct_key_eq [OF this x(1) c] x Some show ?thesis by simp
qed

lemma apply_repoints_moves:
  assumes snap: "snapshot_ok registry scope snap" and reg: "registry_ok registry"
    and plan: "parse_mutation_plan sha plan = Inr plan" "plan_target plan = Some t" "plan_references plan = Some r"
      "rp_registryDigest r = sn_registryDigest snap" "expected_reference_plans plan snap = Some (rp_references r)"
    and f: "rp_references r = map f (sn_contributors snap)" "\<And>c. cp_contributor (f c) = ct_contributor c"
      "\<And>c. cp_guard (f c) = ct_guard c" "\<And>c. cp_liveRepoints (f c) = map (repoint_of to) (filter (Q c) (ct_references c))"
    and Q: "\<And>c r. Q c r \<Longrightarrow> rr_mode r = Current" and free: "versions_free snap"
  shows "apply_repoints sha snap plan
    = Inr (snap \<lparr> sn_contributors := map (\<lambda>c. moved_contributor sha to (Q c) c) (sn_contributors snap) \<rparr>)"
proof -
  have "repoint_contributor sha (rp_references r) c = Inr (moved_contributor sha to (Q c) c)"
    if c: "c \<in> set (sn_contributors snap)" for c
  proof (rule repoint_contributor_moves)
    show "contributor_ok scope c" using snap c by (simp add: snapshot_ok_def)
    show "find (\<lambda>p. cp_contributor p = ct_contributor c) (rp_references r) = Some (f c)"
      unfolding f(1) by (rule find_contribution [OF snap reg f(2) c])
  qed (use f Q free c in \<open>auto simp: versions_free_def\<close>)
  then have "traverse (repoint_contributor sha (rp_references r)) (sn_contributors snap)
      = Inr (map (\<lambda>c. moved_contributor sha to (Q c) c) (sn_contributors snap))"
    by (rule traverse_total)
  moreover have "sn_issued snap" using snap by (simp add: snapshot_ok_def)
  ultimately show ?thesis
    using plan by (simp add: apply_repoints_def reference_plans_match_def same_canonical_value_def)
qed

text \<open>What a merge moves: the current references to its source.\<close>

definition merge_moves :: "(string \<Rightarrow> string) \<Rightarrow> item_target \<Rightarrow> item_target \<Rightarrow> reference_snapshot \<Rightarrow> reference_snapshot" where
  "merge_moves sha source target snap =
     snap \<lparr> sn_contributors := map (moved_contributor sha target (\<lambda>r. refers_to source r \<and> rr_mode r = Current))
       (sn_contributors snap) \<rparr>"

lemma mode_not_historical: "m \<noteq> Historical \<longleftrightarrow> m = Current"
  by (cases m) simp_all

lemma merge_repoints:
  assumes ok: "vocabulary_ok s" and h: "\<forall>t. sha256_hex (sha t)"
    and reg: "registry_ok registry" "sha256_hex (rg_digest registry)"
    and p: "plan_merge sha i s registry source = Inr plan"
    and cap: "capture_checked s registry source = Inr snap" and free: "versions_free snap"
  shows "\<exists>src tgt. plan_before plan = Some (planned_of src) \<and> plan_target plan = Some (planned_of tgt)
    \<and> target_of src \<noteq> target_of tgt
    \<and> src \<in> set (vocabulary_items s) \<and> target_of src = \<lparr> tg_kind = mi_kind i, tg_id = mi_sourceId i \<rparr>
    \<and> target_of tgt = \<lparr> tg_kind = mi_kind i, tg_id = mi_targetId i \<rparr>
    \<and> plan_after plan = Some ((planned_of src) \<lparr> pi_status := Retired, pi_version := pi_version src + 1 \<rparr>)
    \<and> apply_repoints sha snap plan = Inr (merge_moves sha (target_of src) (target_of tgt) snap)"
proof -
  from plan_merge_result [OF ok h reg p] cap obtain src tgt where
    plan: "plan = Merge_plan (common_plan sha s) (planned_of src)
      ((planned_of src) \<lparr> pi_status := Retired, pi_version := pi_version src + 1 \<rparr>) (planned_of tgt)
      \<lparr> rp_registryDigest = sn_registryDigest snap,
        rp_references = map (\<lambda>c. contributor_plan c (target_of src) (Some (target_of tgt)) None) (sn_contributors snap) \<rparr>"
    and ne: "target_of src \<noteq> target_of tgt" and ids: "src \<in> set (vocabulary_items s)"
      "target_of src = \<lparr> tg_kind = mi_kind i, tg_id = mi_sourceId i \<rparr>"
      "target_of tgt = \<lparr> tg_kind = mi_kind i, tg_id = mi_targetId i \<rparr>"
    and v: "validate_plan sha s plan registry source = None" by auto
  let ?r = "\<lparr> rp_registryDigest = sn_registryDigest snap,
        rp_references = map (\<lambda>c. contributor_plan c (target_of src) (Some (target_of tgt)) None) (sn_contributors snap) \<rparr>"
  have snap: "snapshot_ok registry (vs_scope s) snap" using capture_checked_result [OF ok cap] by blast
  have "parse_mutation_plan sha plan = Inr plan" using validate_plan_None [OF v] by blast
  have "apply_repoints sha snap plan = Inr (merge_moves sha (target_of src) (target_of tgt) snap)"
    unfolding merge_moves_def
    by (rule apply_repoints_moves [where f = "\<lambda>c. contributor_plan c (target_of src) (Some (target_of tgt)) None"
          and t = "planned_of tgt" and r = ?r, OF snap reg(1) \<open>parse_mutation_plan sha plan = Inr plan\<close>])
      (use free in \<open>simp_all add: plan contributor_plan_def mode_not_historical\<close>)
  with plan ne ids show ?thesis by (intro exI [of _ src] exI [of _ tgt]) simp
qed

lemma compensation_repoints:
  assumes ok: "vocabulary_ok s" and h: "\<forall>t. sha256_hex (sha t)"
    and reg: "registry_ok registry" "sha256_hex (rg_digest registry)"
    and p: "plan_merge_compensation sha i s registry source = Inr plan" and ne: "mi_sourceId i \<noteq> mi_targetId i"
    and cap: "capture_checked s registry source = Inr snap" and free: "versions_free snap"
  shows "\<exists>src tgt. require_item s (mi_kind i) (mi_sourceId i) (mi_expectedSourceVersion i) = Inr src
    \<and> require_item s (mi_kind i) (mi_targetId i) (mi_expectedTargetVersion i) = Inr tgt
    \<and> plan_before plan = Some (planned_of src) \<and> plan_after plan = Some (compensation_after (ci_restoreSource i) src)
    \<and> apply_repoints sha snap plan = Inr (snap \<lparr> sn_contributors :=
        map (\<lambda>c. moved_contributor sha (target_of src)
            (\<lambda>r. refers_to (target_of tgt) r \<and> rr_mode r = Current \<and> rr_referenceKey r \<in> set (selected_keys i c)) c)
          (sn_contributors snap) \<rparr>)"
proof -
  from plan_compensation_parts [OF p] cap obtain src tgt where
    src: "require_item s (mi_kind i) (mi_sourceId i) (mi_expectedSourceVersion i) = Inr src"
    and tgt: "require_item s (mi_kind i) (mi_targetId i) (mi_expectedTargetVersion i) = Inr tgt"
    and plan: "plan = Compensation_plan (common_plan sha s) (planned_of src) (compensation_after (ci_restoreSource i) src)
        (planned_of tgt) (ci_restoreSource i)
        \<lparr> rp_registryDigest = sn_registryDigest snap,
          rp_references = map (compensation_evidence i (target_of src) (target_of tgt)) (sn_contributors snap) \<rparr>"
    by auto
  let ?f = "compensation_evidence i (target_of src) (target_of tgt)"
  let ?r = "\<lparr> rp_registryDigest = sn_registryDigest snap, rp_references = map ?f (sn_contributors snap) \<rparr>"
  have snap: "snapshot_ok registry (vs_scope s) snap" using capture_checked_result [OF ok cap] by blast
  have parsed: "parse_mutation_plan sha plan = Inr plan"
    using validate_plan_None [OF plan_compensation_result [OF ok h reg p ne]] by blast
  have ex: "map (expected_compensation (map ?f (sn_contributors snap)) (target_of src) (target_of tgt)) (sn_contributors snap)
      = map ?f (sn_contributors snap)"
    using expected_compensation_planned [OF snap reg(1), of _ ?f "target_of tgt" "target_of src" "selected_keys i"]
    by (auto simp: compensation_evidence_def [abs_def])
  have "apply_repoints sha snap plan = Inr (snap \<lparr> sn_contributors :=
        map (\<lambda>c. moved_contributor sha (target_of src)
            (\<lambda>r. refers_to (target_of tgt) r \<and> rr_mode r = Current \<and> rr_referenceKey r \<in> set (selected_keys i c)) c)
          (sn_contributors snap) \<rparr>)"
    by (rule apply_repoints_moves [where f = ?f and t = "planned_of tgt" and r = ?r
          and Q = "\<lambda>c r. refers_to (target_of tgt) r \<and> rr_mode r = Current \<and> rr_referenceKey r \<in> set (selected_keys i c)",
          OF snap reg(1) parsed])
      (use free ex in \<open>simp_all add: plan compensation_evidence_def contributor_plan_parts\<close>,
        simp add: contributor_plan_def mode_not_historical)
  with plan src tgt show ?thesis by simp
qed

text \<open>References without their versions.\<close>

definition reference_content :: "reference_record \<Rightarrow> reference_record" where
  "reference_content r = r \<lparr> rr_version := 0 \<rparr>"

definition snapshot_content :: "reference_snapshot \<Rightarrow> (contributor_ref \<times> reference_record list) list" where
  "snapshot_content snap = map (\<lambda>c. (ct_contributor c, map reference_content (ct_references c))) (sn_contributors snap)"

lemma moved_contributor_simps:
  "ct_contributor (moved_contributor sha to Q c) = ct_contributor c"
  "ct_references (moved_contributor sha to Q c) = map (moved_reference to Q) (ct_references c)"
  by (auto simp: moved_contributor_def Let_def moved_reference_def intro!: map_idI [symmetric])

lemma moved_back:
  assumes d: "distinct (map rr_referenceKey refs)" and r: "r \<in> set refs"
    and keys: "keys = rr_referenceKey ` {x \<in> set refs. refers_to src x \<and> rr_mode x = Current}"
  shows "reference_content (moved_reference src
      (\<lambda>x. refers_to tgt x \<and> rr_mode x = Current \<and> rr_referenceKey x \<in> keys)
      (moved_reference tgt (\<lambda>x. refers_to src x \<and> rr_mode x = Current) r)) = reference_content r"
proof (cases "refers_to src r \<and> rr_mode r = Current")
  case True
  then have "rr_referenceKey r \<in> keys" using r keys by blast
  with True show ?thesis by (simp add: moved_reference_def reference_content_def refers_to_iff)
next
  case False
  have "rr_referenceKey r \<notin> keys"
    using keys distinct_key_eq [OF d r] False by auto
  with False show ?thesis by (auto simp: moved_reference_def)
qed

section \<open>Moved references are again a capture\<close>

text \<open>A source that answers from the contributors of a snapshot.\<close>

definition answers :: "contributor_snapshot list \<Rightarrow> reference_source" where
  "answers snapshots c scope =
     (case find (\<lambda>x. ct_contributor x = c) snapshots of None \<Rightarrow> Undefined | Some x \<Rightarrow> Snapshot x)"

lemma find_contributor:
  assumes "snapshot_ok registry scope snap" "registry_ok registry" "c \<in> set (sn_contributors snap)"
  shows "find (\<lambda>x. ct_contributor x = ct_contributor c) (sn_contributors snap) = Some c"
proof (cases "find (\<lambda>x. ct_contributor x = ct_contributor c) (sn_contributors snap)")
  case None
  with assms(3) show ?thesis by (auto simp: find_None_iff)
next
  case (Some x)
  from find_result [OF Some] have x: "x \<in> set (sn_contributors snap)" "ct_contributor x = ct_contributor c" by auto
  with distinct_key_eq [OF contributor_identity_order [OF assms(1,2)] x(1) assms(3)] Some show ?thesis by simp
qed

lemma answers_captured:
  assumes snap: "snapshot_ok registry scope snap" and reg: "registry_ok registry"
  shows "capture_references registry scope (answers (sn_contributors snap)) = Inr snap"
proof -
  have parse: "parse_snapshot (answers (sn_contributors snap) (ct_contributor c) scope) (ct_contributor c) scope = Inr c"
    if c: "c \<in> set (sn_contributors snap)" for c
  proof -
    have ok: "contributor_ok scope c" using snap c by (simp add: snapshot_ok_def)
    then have "js_sort compare_references (ct_references c) = ct_references c"
      by (simp add: contributor_ok_def strictly_ordered_iff reference_order.js_sort_idem)
    with ok show ?thesis
      by (auto simp: answers_def find_contributor [OF snap reg c] parse_snapshot_def contributor_ok_def strictly_ordered_iff)
  qed
  have "rg_contributors registry = map ct_contributor (sn_contributors snap)" using snap by (simp add: snapshot_ok_def)
  then have "traverse (\<lambda>c. parse_snapshot (answers (sn_contributors snap) c scope) c scope) (rg_contributors registry)
      = Inr (sn_contributors snap)"
    unfolding traverse_Inr_iff by (simp add: list_all2_map1 list.rel_refl_strong parse)
  then show ?thesis
    using snap reg by (simp add: capture_references_def snapshot_ok_def registry_ok_def)
qed

lemma moved_contributor_ok:
  assumes c: "contributor_ok scope c" and to: "vocabulary_id (tg_id to)" and h: "\<forall>t. sha256_hex (sha t)"
    and free: "gd_version (ct_guard c) < max_safe_integer" "\<forall>r \<in> set (ct_references c). rr_version r < max_safe_integer"
  shows "contributor_ok scope (moved_contributor sha to Q c)"
proof -
  have keys: "map (rr_referenceKey \<circ> moved_reference to Q) xs = map rr_referenceKey xs" for xs
    by (simp add: moved_reference_def)
  have "reference_schema (moved_reference to Q r)" if "r \<in> set (ct_references c)" for r
    using c free to that
    by (auto simp: contributor_ok_def contributor_snapshot_schema_def list_all_iff moved_reference_def
        reference_schema_def positive_safe_iff)
  then show ?thesis
    using c free h
    by (auto simp: contributor_ok_def contributor_snapshot_schema_def moved_contributor_def Let_def list_all_iff
        positive_safe_iff guard_digest_def sha_of_def keys)
qed

lemma merge_moves_captured:
  assumes ok: "vocabulary_ok s" and snap: "snapshot_ok registry (vs_scope s) snap" and reg: "registry_ok registry"
    and h: "\<forall>t. sha256_hex (sha t)" and free: "versions_free snap"
    and old: "validate_reference_targets s snap = Inr ()"
    and tgt: "resolve_item s (tg_kind tgt) (tg_id tgt) \<noteq> None"
  shows "capture_checked s registry (answers (sn_contributors (merge_moves sha src tgt snap)))
    = Inr (merge_moves sha src tgt snap)"
proof -
  let ?m = "merge_moves sha src tgt snap" and ?Q = "\<lambda>r. refers_to src r \<and> rr_mode r = Current"
  have "vocabulary_id (tg_id tgt)"
    using tgt vocabulary_items_ok [OF ok] unfolding resolve_item_iff [OF ok] planned_ok_def
    by (metis option.exhaust resolve_item_iff [OF ok])
  then have "contributor_ok (vs_scope s) (moved_contributor sha tgt ?Q c)" if "c \<in> set (sn_contributors snap)" for c
    using that snap free h by (intro moved_contributor_ok) (auto simp: snapshot_ok_def versions_free_def)
  moreover have "gd_id (ct_guard (moved_contributor sha tgt ?Q c)) = gd_id (ct_guard c)" for c
    by (simp add: moved_contributor_def Let_def)
  ultimately have m: "snapshot_ok registry (vs_scope s) ?m"
    using snap by (simp add: snapshot_ok_def merge_moves_def moved_contributor_simps comp_def)
  have "resolve_item s (tg_kind (rr_item (moved_reference tgt ?Q r))) (tg_id (rr_item (moved_reference tgt ?Q r))) \<noteq> None"
    if "c \<in> set (sn_contributors snap)" "r \<in> set (ct_references c)" for c r
    using old tgt that unfolding targets_valid_iff by (simp add: moved_reference_def)
  moreover have "ct_scope (moved_contributor sha tgt ?Q c) = ct_scope c" for c
    by (simp add: moved_contributor_def Let_def)
  ultimately have "validate_reference_targets s ?m = Inr ()"
    using old unfolding targets_valid_iff by (simp add: merge_moves_def moved_contributor_simps)
  with answers_captured [OF m reg] show ?thesis by (simp add: capture_checked_def)
qed

section \<open>Properties of planned changes\<close>

lemma plan_mutation_checked:
  assumes ok: "vocabulary_ok s" and h: "\<forall>t. sha256_hex (sha t)"
    and reg: "registry_ok registry" "sha256_hex (rg_digest registry)"
    and p: "plan_mutation sha input s registry source = Inr plan"
    and ne: "\<And>i. input = Compensation_input i \<Longrightarrow> mi_sourceId i \<noteq> mi_targetId i"
  shows "validate_plan sha s plan registry source = None"
proof (cases input)
  case Create_input
  with p plan_create_checked [OF ok h] show ?thesis by simp
next
  case Edit_input
  with p plan_edit_checked [OF ok h] show ?thesis by simp
next
  case Retire_input
  with p plan_lifecycle_checked [OF ok h] show ?thesis by simp
next
  case Restore_input
  with p plan_lifecycle_checked [OF ok h] show ?thesis by simp
next
  case Delete_input
  with p plan_delete_checked [OF ok h reg] show ?thesis by simp
next
  case Merge_input
  with p plan_merge_result [OF ok h reg] show ?thesis by fastforce
next
  case (Compensation_input i)
  with p ne plan_compensation_result [OF ok h reg] show ?thesis by simp
qed

lemma registry_digest_hex:
  assumes "\<forall>t. sha256_hex (sha t)" "create_reference_registry sha expected contributors = Inr registry"
  shows "registry_ok registry \<and> sha256_hex (rg_digest registry)"
  using create_registry_ok [OF assms(2)] assms(1) by (simp add: registry_digest_def)

text \<open>
  Planning and checking agree: whatever the author asks for, the plan made for it passes the check
  against the state, the registry and the references it was made from. The one exception is the
  compensation of a merge of an item into itself, which the planner lets through.
\<close>

theorem planned_change_is_valid:
  assumes "vocabulary_ok s" "\<forall>t. sha256_hex (sha t)"
    and "create_reference_registry sha expected contributors = Inr registry"
    and "plan_mutation sha input s registry source = Inr plan"
    and "\<forall>i. input = Compensation_input i \<longrightarrow> mi_sourceId i \<noteq> mi_targetId i"
  shows "validate_plan sha s plan registry source = None"
  using registry_digest_hex [OF assms(2,3)] assms(1,2,4,5) by (intro plan_mutation_checked) auto

text \<open>
  C40. The exception: a compensation whose source and target are one item is planned, and the plan is
  refused by every later check and application, since the plan parser wants two items.
\<close>

theorem self_compensation_unusable:
  assumes "plan_mutation sha (Compensation_input i) s registry source = Inr plan"
    and "mi_sourceId i = mi_targetId i" and "vocabulary_ok s"
  shows "validate_plan sha t plan registry' source' = Some Invalid_plan
    \<and> apply_plan sha t plan = Inl (Refused Invalid_plan)"
proof -
  from assms(1) have "plan_merge_compensation sha i s registry source = Inr plan" by simp
  from plan_compensation_parts [OF this] obtain src tgt and snap :: reference_snapshot where
    src: "require_item s (mi_kind i) (mi_sourceId i) (mi_expectedSourceVersion i) = Inr src"
    and tgt: "require_item s (mi_kind i) (mi_targetId i) (mi_expectedTargetVersion i) = Inr tgt"
    and plan: "plan = Compensation_plan (common_plan sha s) (planned_of src) (compensation_after (ci_restoreSource i) src)
        (planned_of tgt) (ci_restoreSource i)
        \<lparr> rp_registryDigest = sn_registryDigest snap,
          rp_references = map (compensation_evidence i (target_of src) (target_of tgt)) (sn_contributors snap) \<rparr>"
    by blast
  have "pi_id src = pi_id tgt"
    using require_item_result [OF assms(3) src] require_item_result [OF assms(3) tgt] assms(2) by simp
  then have "parse_mutation_plan sha plan = Inl (Refused Invalid_plan)"
    by (simp add: plan parse_mutation_plan_def merge_identities_def)
  then show ?thesis by (simp add: validate_plan_def apply_plan_def)
qed

text \<open>
  C16. A plan that passes the check can be applied, does to the catalog of items exactly what it says
  (one item set, or removed), keeps the state well formed and its scope, moves the version of the set by
  one, and is refused as stale from then on: no change is applied twice.
\<close>

theorem valid_change_applies_once:
  assumes "vocabulary_ok s" "validate_plan sha s plan registry source = None"
    and "vs_setVersion s < max_safe_integer"
  shows "\<exists>s'. apply_plan sha s plan = Inr s' \<and> vocabulary_ok s' \<and> vs_scope s' = vs_scope s
    \<and> vs_setVersion s' = vs_setVersion s + 1 \<and> catalog s' = plan_effect plan (catalog s)
    \<and> apply_plan sha s' plan = Inl (Refused Stale_set)
    \<and> validate_plan sha s' plan registry source = Some Stale_set"
proof -
  obtain s' where "apply_plan sha s plan = Inr s'" using checked_plan_applies [OF assms] by blast
  with apply_plan_result [OF assms(1) this] applied_plan_stale [OF assms(1) this] show ?thesis by blast
qed

text \<open>
  C39. Any sequence of applied plans: they were made against consecutive versions of the set, so of two
  plans made at one version at most one is ever applied, and the catalog is that of their effects in
  order.
\<close>

theorem applied_changes_serialize:
  assumes "vocabulary_ok s" "apply_plans (apply_plan sha) s plans = Inr s'"
  shows "map plan_set_version plans = map (\<lambda>k. vs_setVersion s + int k) [0..<length plans]
    \<and> distinct (map plan_set_version plans) \<and> catalog s' = fold plan_effect plans (catalog s)"
proof -
  have "catalog s' = fold plan_effect plans (catalog s)"
    using assms
  proof (induction plans arbitrary: s)
    case (Cons p ps)
    then obtain t where "apply_plan sha s p = Inr t" "apply_plans (apply_plan sha) t ps = Inr s'"
      by (auto simp: rbind_Inr_iff)
    with Cons.IH [of t] apply_plan_result [OF Cons.prems(1), of sha p t] show ?case by simp
  qed simp
  with vocabulary.plans_consecutive [OF assms] vocabulary.plans_versions_distinct [OF assms]
  show ?thesis by blast
qed

text \<open>
  C6. No change leaves a dangling reference: when all references resolve before a valid change (and
  deleting an item needs that none is to it), the same references resolve after it.
\<close>

theorem change_keeps_references_resolved:
  assumes "vocabulary_ok s" "validate_plan sha s plan registry source = None" "apply_plan sha s plan = Inr s'"
    and "capture_checked s registry source = Inr snap"
  shows "capture_checked s' registry source = Inr snap"
  using assms by (rule references_stay_resolved)

text \<open>
  A merge moves references and loses none: applied to the captured references, its plan makes every
  current reference to the source one to the target, at its next version, and touches nothing else;
  historical references stay with the source, and exactly the contributors with a moved reference get a
  new guard. Afterwards the source has no current reference and the target has those of both.
\<close>

theorem merge_moves_references:
  assumes "vocabulary_ok s" "\<forall>t. sha256_hex (sha t)"
    and "create_reference_registry sha expected contributors = Inr registry"
    and "plan_mutation sha (Merge_input i) s registry source = Inr plan"
    and "capture_checked s registry source = Inr snap" "versions_free snap"
  shows "\<exists>src tgt snap'. plan_before plan = Some src \<and> plan_target plan = Some tgt
    \<and> apply_repoints sha snap plan = Inr snap' \<and> snap' = merge_moves sha (target_of src) (target_of tgt) snap
    \<and> reference_usage snap' (target_of src) =
        Inr (0, length (filter (\<lambda>r. refers_to (target_of src) r \<and> rr_mode r = Historical) (all_references snap)))
    \<and> reference_usage snap' (target_of tgt) =
        Inr (length (filter (\<lambda>r. (refers_to (target_of src) r \<or> refers_to (target_of tgt) r) \<and> rr_mode r = Current)
               (all_references snap)),
             length (filter (\<lambda>r. refers_to (target_of tgt) r \<and> rr_mode r = Historical) (all_references snap)))"
proof -
  note reg = registry_digest_hex [OF assms(2,3)]
  have mp: "plan_merge sha i s registry source = Inr plan" using assms(4) by simp
  from merge_repoints [OF assms(1,2) conjunct1 [OF reg] conjunct2 [OF reg] mp assms(5,6)]
  obtain src tgt where pl: "plan_before plan = Some (planned_of src)" "plan_target plan = Some (planned_of tgt)"
    "target_of src \<noteq> target_of tgt"
    and r: "apply_repoints sha snap plan = Inr (merge_moves sha (target_of src) (target_of tgt) snap)"
    by fastforce
  let ?Q = "\<lambda>r. refers_to (target_of src) r \<and> rr_mode r = Current"
  let ?snap' = "merge_moves sha (target_of src) (target_of tgt) snap"
  have refs: "all_references ?snap' = map (moved_reference (target_of tgt) ?Q) (all_references snap)"
    by (simp add: all_references_def merge_moves_def moved_contributor_simps map_concat comp_def)
  have "sn_issued ?snap'"
    using capture_checked_result [OF assms(1,5)] by (simp add: snapshot_ok_def merge_moves_def)
  moreover have "length (filter P (map (moved_reference (target_of tgt) ?Q) xs)) = length (filter P' xs)"
    if "\<And>x. P (moved_reference (target_of tgt) ?Q x) \<longleftrightarrow> P' x" for P P' xs
    using that by (simp add: filter_map comp_def)
  ultimately have "reference_usage ?snap' t = Inr
      (length (filter (\<lambda>r. refers_to t (moved_reference (target_of tgt) ?Q r) \<and> rr_mode (moved_reference (target_of tgt) ?Q r) = Current) (all_references snap)),
       length (filter (\<lambda>r. refers_to t (moved_reference (target_of tgt) ?Q r) \<and> rr_mode (moved_reference (target_of tgt) ?Q r) = Historical) (all_references snap)))" for t
    by (simp add: reference_usage_def refs filter_map comp_def)
  note u = this
  have m: "refers_to t (moved_reference (target_of tgt) ?Q r) \<longleftrightarrow> (if ?Q r then t = target_of tgt else refers_to t r)"
    "rr_mode (moved_reference (target_of tgt) ?Q r) = rr_mode r" for t r
    by (auto simp: moved_reference_def refers_to_iff)
  have "reference_usage ?snap' (target_of src) =
        Inr (0, length (filter (\<lambda>r. refers_to (target_of src) r \<and> rr_mode r = Historical) (all_references snap)))"
    unfolding u m using pl(3) by (auto simp: filter_empty_conv intro!: arg_cong [where f = length] filter_cong)
  moreover have "reference_usage ?snap' (target_of tgt) =
        Inr (length (filter (\<lambda>r. (refers_to (target_of src) r \<or> refers_to (target_of tgt) r) \<and> rr_mode r = Current)
               (all_references snap)),
             length (filter (\<lambda>r. refers_to (target_of tgt) r \<and> rr_mode r = Historical) (all_references snap)))"
    unfolding u m using pl(3) by (auto intro!: arg_cong [where f = length] filter_cong)
  ultimately show ?thesis using pl r by (intro exI [of _ "planned_of src"] exI [of _ "planned_of tgt"] exI [of _ ?snap']) simp
qed

text \<open>
  C13. A merge can be undone: after a merge was applied, with its references moved, the compensation that
  selects the moved references and restores the source brings back the references, all but their
  versions, and the source as it was, active and two versions on; every other item is untouched.
\<close>

theorem merge_compensation_restores:
  assumes "vocabulary_ok s" "\<forall>t. sha256_hex (sha t)"
    and "create_reference_registry sha expected contributors = Inr registry"
    and "plan_mutation sha (Merge_input i) s registry source = Inr plan" "apply_plan sha s plan = Inr s1"
    and "capture_checked s registry source = Inr snap" "versions_free snap"
    and "apply_repoints sha snap plan = Inr snap1"
    and "capture_checked s1 registry source1 = Inr snap1" "versions_free snap1"
    and "plan_mutation sha (Compensation_input j) s1 registry source1 = Inr plan2"
    and "mi_kind j = mi_kind i" "mi_sourceId j = mi_sourceId i" "mi_targetId j = mi_targetId i" "ci_restoreSource j"
    and "\<forall>c \<in> set (sn_contributors snap). set (selected_keys j c) = rr_referenceKey `
      {r \<in> set (ct_references c). refers_to \<lparr> tg_kind = mi_kind i, tg_id = mi_sourceId i \<rparr> r \<and> rr_mode r = Current}"
    and "apply_plan sha s1 plan2 = Inr s2" "apply_repoints sha snap1 plan2 = Inr snap2"
  shows "snapshot_content snap2 = snapshot_content snap
    \<and> (\<exists>it. catalog s (mi_sourceId i) = Some it
      \<and> catalog s2 = (catalog s)(mi_sourceId i \<mapsto> it \<lparr> pi_status := Active, pi_version := pi_version it + 2 \<rparr>))"
proof -
  note reg = registry_digest_hex [OF assms(2,3)]
  let ?src = "\<lparr> tg_kind = mi_kind i, tg_id = mi_sourceId i \<rparr>"
    and ?tgt = "\<lparr> tg_kind = mi_kind i, tg_id = mi_targetId i \<rparr>"
  have mp: "plan_merge sha i s registry source = Inr plan"
    and cp: "plan_merge_compensation sha j s1 registry source1 = Inr plan2"
    using assms(4,11) by simp_all
  from merge_repoints [OF assms(1,2) conjunct1 [OF reg] conjunct2 [OF reg] mp assms(6,7)] obtain src and tgt :: vocabulary_item where
    raw: "plan_before plan = Some (planned_of src)" "target_of src \<noteq> target_of tgt" "src \<in> set (vocabulary_items s)"
      "target_of src = ?src" "target_of tgt = ?tgt"
      "plan_after plan = Some ((planned_of src) \<lparr> pi_status := Retired, pi_version := pi_version src + 1 \<rparr>)"
      "apply_repoints sha snap plan = Inr (merge_moves sha (target_of src) (target_of tgt) snap)"
    by blast
  note m = raw(1) raw(2) [unfolded raw(4,5)] raw(3-6) raw(7) [unfolded raw(4,5)]
  have snap1: "snap1 = merge_moves sha ?src ?tgt snap" using m(7) assms(8) by simp
  have id: "pi_id src = mi_sourceId i" using m(4) by (simp add: target_of_def)
  have cat: "catalog s (mi_sourceId i) = Some (planned_of src)"
    using m(3) id by (simp add: catalog_iff [OF assms(1)] planned_items_def)
  note r1 = apply_plan_result [OF assms(1,5)]
  then have ok1: "vocabulary_ok s1" by blast
  have cat1: "catalog s1 = (catalog s)(mi_sourceId i \<mapsto> (planned_of src) \<lparr> pi_status := Retired, pi_version := pi_version src + 1 \<rparr>)"
    using r1 m(1,6) id by (simp add: plan_effect_def)
  have "mi_sourceId j \<noteq> mi_targetId j" using m(2) assms(13,14) by simp
  from compensation_repoints [OF ok1 assms(2) conjunct1 [OF reg] conjunct2 [OF reg] cp this assms(9,10)] assms(15)
  obtain src2 tgt2 where
    src2: "require_item s1 (mi_kind j) (mi_sourceId j) (mi_expectedSourceVersion j) = Inr src2"
    and tgt2: "require_item s1 (mi_kind j) (mi_targetId j) (mi_expectedTargetVersion j) = Inr tgt2"
    and c: "plan_before plan2 = Some (planned_of src2)" "plan_after plan2 = Some (compensation_after True src2)"
      "apply_repoints sha snap1 plan2 = Inr (snap1 \<lparr> sn_contributors :=
        map (\<lambda>c. moved_contributor sha (target_of src2)
            (\<lambda>r. refers_to (target_of tgt2) r \<and> rr_mode r = Current \<and> rr_referenceKey r \<in> set (selected_keys j c)) c)
          (sn_contributors snap1) \<rparr>)"
    by auto
  note rs = require_item_result [OF ok1 src2, of sha] and rt = require_item_result [OF ok1 tgt2, of sha]
  have t: "target_of src2 = ?src" "target_of tgt2 = ?tgt" using rs rt assms(12-14) by (simp_all add: target_of_def)
  have "catalog s1 (mi_sourceId i) = Some (planned_of src2)"
    using rs assms(13) by (simp add: catalog_iff [OF ok1] planned_items_def)
  then have "planned_of src2 = (planned_of src) \<lparr> pi_status := Retired, pi_version := pi_version src + 1 \<rparr>"
    using cat1 by simp
  moreover from arg_cong [OF this, of pi_version] have "pi_version src2 = pi_version src + 1" by simp
  ultimately have after: "compensation_after True src2 = (planned_of src) \<lparr> pi_status := Active, pi_version := pi_version src + 2 \<rparr>"
    by (simp add: compensation_after_def)
  have "catalog s2 = (catalog s1)(mi_sourceId i \<mapsto> compensation_after True src2)"
    using apply_plan_result [OF ok1 assms(17)] c(1,2) rs assms(13) by (simp add: plan_effect_def)
  then have "catalog s2 = (catalog s)(mi_sourceId i \<mapsto> (planned_of src) \<lparr> pi_status := Active, pi_version := pi_version (planned_of src) + 2 \<rparr>)"
    by (simp add: cat1 after)
  moreover have "snapshot_content snap2 = snapshot_content snap"
  proof -
    have d: "distinct (map rr_referenceKey (ct_references c))" if "c \<in> set (sn_contributors snap)" for c
      using capture_checked_result [OF assms(1,6)] that
      by (simp add: snapshot_ok_def contributor_ok_def strictly_ordered_iff)
    have sel: "selected_keys j (moved_contributor sha to Q c) = selected_keys j c" for to Q c
      by (simp add: selected_keys_def moved_contributor_simps)
    have "map reference_content (map (moved_reference ?src (\<lambda>r. refers_to ?tgt r \<and> rr_mode r = Current \<and> rr_referenceKey r \<in> set (selected_keys j c)))
          (map (moved_reference ?tgt (\<lambda>r. refers_to ?src r \<and> rr_mode r = Current)) (ct_references c)))
        = map reference_content (ct_references c)" if "c \<in> set (sn_contributors snap)" for c
      using moved_back [OF d [OF that] _ bspec [OF assms(16) that]] by simp
    moreover have "snap2 = snap1 \<lparr> sn_contributors :=
        map (\<lambda>c. moved_contributor sha ?src
            (\<lambda>r. refers_to ?tgt r \<and> rr_mode r = Current \<and> rr_referenceKey r \<in> set (selected_keys j c)) c)
          (sn_contributors snap1) \<rparr>"
      using c(3) assms(18) t by simp
    ultimately show ?thesis
      by (simp add: snapshot_content_def snap1 merge_moves_def moved_contributor_simps sel)
  qed
  ultimately show ?thesis using cat by blast
qed

section \<open>A sample merge\<close>

definition sample_annex :: vocabulary_item where
  "sample_annex = sample_room \<lparr> pi_id := sample_id CHR ''4'', pi_name := ''Annex'' \<rparr>"

definition sample_rooms :: vocabulary where
  "sample_rooms = sample_vocabulary \<lparr> vs_rooms := [sample_room, sample_annex] \<rparr>"

definition sample_contributor :: contributor_ref where
  "sample_contributor = \<lparr> cr_key = ''schedule'', cr_version = 2 \<rparr>"

definition sample_reference :: reference_record where
  "sample_reference = \<lparr> rr_referenceKey = ''slot'', rr_version = 2, rr_item = target_of sample_room, rr_mode = Current,
     rr_destination = \<lparr> ds_kind = ''schedule'', ds_id = ''slot'' \<rparr> \<rparr>"

definition sample_references :: contributor_snapshot where
  "sample_references = \<lparr> ct_contributor = sample_contributor, ct_scope = sample_scope,
     ct_guard = \<lparr> gd_id = ''program_reference:schedule'', gd_version = 2, gd_digest = replicate 64 CHR ''0'' \<rparr>,
     ct_references = [sample_reference] \<rparr>"

definition sample_registry :: reference_registry where
  "sample_registry = \<lparr> rg_issued = True, rg_digest = replicate 64 CHR ''0'', rg_contributors = [sample_contributor] \<rparr>"

definition sample_snapshot :: reference_snapshot where
  "sample_snapshot = \<lparr> sn_issued = True, sn_registryDigest = replicate 64 CHR ''0'', sn_contributors = [sample_references] \<rparr>"

definition sample_merge :: merge_input where
  "sample_merge = \<lparr> gi_scope = sample_scope, gi_expectedSetVersion = 1, mi_kind = Room,
     mi_sourceId = sample_id CHR ''3'', mi_targetId = sample_id CHR ''4'', mi_expectedSourceVersion = 1,
     mi_expectedTargetVersion = 1 \<rparr>"

lemma sample_texts: "definition_key ''schedule''" "guard_id ''program_reference:schedule''"
  "bounded_text 300 ''slot''" "canonical_name ''Annex''" "sha256_hex (replicate 64 CHR ''0'')"
  by code_simp+

lemma sample_registry_created:
  "create_reference_registry sample_sha [sample_contributor] [sample_contributor] = Inr sample_registry"
  by (simp add: create_reference_registry_def sample_registry_def sample_contributor_def parse_contributor_def
      sample_texts safe_integer_def max_safe_integer_def expected_issues_def registry_digest_def sample_sha_def
      js_sort_def)

lemma sample_ids_sorted: "sample_id CHR ''3'' \<le> sample_id CHR ''4''"
  by code_simp

lemma sample_rooms_ok: "vocabulary_ok sample_rooms"
  using sample_vocabulary_ok sample_texts(4) sample_ids_sorted
  by (auto simp: vocabulary_ok_def family_ok_def sample_rooms_def sample_vocabulary_def sample_annex_def
      sample_room_def vocabulary_items_def planned_ok_def detail_ok_def pi_kind_def)

lemma sample_references_schema: "contributor_snapshot_schema sample_references"
  using sample_texts
  by (simp add: contributor_snapshot_schema_def sample_references_def sample_contributor_def sample_reference_def
      reference_schema_def sample_scope_def scope_ok_def positive_safe_def safe_integer_def max_safe_integer_def
      target_of_def sample_room_def)

lemma sample_captured: "capture_checked sample_rooms sample_registry (answers [sample_references]) = Inr sample_snapshot"
proof -
  have "parse_snapshot (answers [sample_references] sample_contributor sample_scope) sample_contributor sample_scope
      = Inr sample_references"
    using sample_references_schema
    by (simp add: answers_def parse_snapshot_def) (simp add: sample_references_def js_sort_def)
  then have "capture_references sample_registry sample_scope (answers [sample_references]) = Inr sample_snapshot"
    by (simp add: capture_references_def sample_registry_def sample_snapshot_def)
  moreover have "validate_reference_targets sample_rooms sample_snapshot = Inr ()"
    by (simp add: targets_valid_iff sample_snapshot_def sample_references_def same_scope_def sample_rooms_def
        sample_vocabulary_def sample_reference_def target_of_def pi_kind_def sample_room_def resolve_item_def)
  ultimately show ?thesis
    by (simp add: capture_checked_def sample_rooms_def sample_vocabulary_def)
qed

lemma sample_versions_free: "versions_free sample_snapshot"
  by (simp add: versions_free_def sample_snapshot_def sample_references_def sample_reference_def max_safe_integer_def)

lemma sample_merge_planned:
  "\<exists>plan. plan_mutation sample_sha (Merge_input sample_merge) sample_rooms sample_registry (answers [sample_references]) = Inr plan"
  by (simp add: plan_merge_def sample_merge_def require_set_guard_def sample_rooms_def sample_vocabulary_def
      same_scope_def require_item_def resolve_item_def sample_room_def sample_annex_def next_version_def
      sample_captured [unfolded sample_rooms_def sample_vocabulary_def sample_room_def sample_annex_def, simplified]
      positive_version_def safe_integer_def max_safe_integer_def Let_def)

theorem planned_change_is_valid_witness:
  "\<exists>plan. plan_mutation sample_sha (Merge_input sample_merge) sample_rooms sample_registry (answers [sample_references]) = Inr plan
    \<and> validate_plan sample_sha sample_rooms plan sample_registry (answers [sample_references]) = None"
proof -
  obtain plan where p: "plan_mutation sample_sha (Merge_input sample_merge) sample_rooms sample_registry
      (answers [sample_references]) = Inr plan"
    using sample_merge_planned by blast
  with planned_change_is_valid [OF sample_rooms_ok sample_sha_hex sample_registry_created p] show ?thesis by simp
qed

lemma sample_registry_ok: "registry_ok sample_registry \<and> sha256_hex (rg_digest sample_registry)"
  by (rule registry_digest_hex [OF sample_sha_hex sample_registry_created])

lemma sample_change:
  "\<exists>plan s1. plan_mutation sample_sha (Merge_input sample_merge) sample_rooms sample_registry (answers [sample_references]) = Inr plan
    \<and> validate_plan sample_sha sample_rooms plan sample_registry (answers [sample_references]) = None
    \<and> apply_plan sample_sha sample_rooms plan = Inr s1"
proof -
  obtain plan where p: "plan_mutation sample_sha (Merge_input sample_merge) sample_rooms sample_registry
      (answers [sample_references]) = Inr plan"
    using sample_merge_planned by blast
  with sample_registry_ok have v: "validate_plan sample_sha sample_rooms plan sample_registry (answers [sample_references]) = None"
    by (intro plan_mutation_checked [OF sample_rooms_ok sample_sha_hex]) auto
  have "vs_setVersion sample_rooms < max_safe_integer"
    by (simp add: sample_rooms_def sample_vocabulary_def max_safe_integer_def)
  with checked_plan_applies [OF sample_rooms_ok v] p v show ?thesis by blast
qed

theorem valid_change_applies_once_witness:
  "\<exists>plan s1. apply_plan sample_sha sample_rooms plan = Inr s1 \<and> apply_plan sample_sha s1 plan = Inl (Refused Stale_set)"
proof -
  obtain plan where v: "validate_plan sample_sha sample_rooms plan sample_registry (answers [sample_references]) = None"
    using sample_change by blast
  have "vs_setVersion sample_rooms < max_safe_integer"
    by (simp add: sample_rooms_def sample_vocabulary_def max_safe_integer_def)
  from valid_change_applies_once [OF sample_rooms_ok v this] show ?thesis by blast
qed

theorem applied_changes_serialize_witness:
  "\<exists>plan s1. apply_plans (apply_plan sample_sha) sample_rooms [plan] = Inr s1
    \<and> catalog s1 = fold plan_effect [plan] (catalog sample_rooms)"
proof -
  obtain plan s1 where "apply_plan sample_sha sample_rooms plan = Inr s1" using sample_change by blast
  then have a: "apply_plans (apply_plan sample_sha) sample_rooms [plan] = Inr s1" by simp
  with applied_changes_serialize [OF sample_rooms_ok a] show ?thesis by blast
qed

theorem change_keeps_references_resolved_witness:
  "\<exists>s1. capture_checked s1 sample_registry (answers [sample_references]) = Inr sample_snapshot"
proof -
  obtain plan s1 where "validate_plan sample_sha sample_rooms plan sample_registry (answers [sample_references]) = None"
    "apply_plan sample_sha sample_rooms plan = Inr s1"
    using sample_change by blast
  from change_keeps_references_resolved [OF sample_rooms_ok this sample_captured] show ?thesis by blast
qed

definition sample_self_compensation :: compensation_input where
  "sample_self_compensation = merge_input.extend (sample_merge \<lparr> mi_targetId := sample_id CHR ''3'' \<rparr>)
     \<lparr> ci_restoreSource = False, ci_references = [] \<rparr>"

theorem self_compensation_unusable_witness:
  "\<exists>plan. plan_mutation sample_sha (Compensation_input sample_self_compensation) sample_rooms sample_registry
      (answers [sample_references]) = Inr plan
    \<and> apply_plan sample_sha sample_rooms plan = Inl (Refused Invalid_plan)"
proof -
  have "\<exists>plan. plan_mutation sample_sha (Compensation_input sample_self_compensation) sample_rooms sample_registry
      (answers [sample_references]) = Inr plan"
    by (simp add: plan_merge_compensation_def sample_self_compensation_def sample_merge_def merge_input.defs
      require_set_guard_def sample_rooms_def sample_vocabulary_def
      same_scope_def require_item_def resolve_item_def sample_room_def sample_annex_def
      sample_captured [unfolded sample_rooms_def sample_vocabulary_def sample_room_def sample_annex_def, simplified]
      sample_snapshot_def map_entry_def Let_def with_source_pins_def contributor_plan_def)
  then obtain plan where p: "plan_mutation sample_sha (Compensation_input sample_self_compensation) sample_rooms sample_registry
      (answers [sample_references]) = Inr plan" by blast
  have "mi_sourceId sample_self_compensation = mi_targetId sample_self_compensation"
    by (simp add: sample_self_compensation_def sample_merge_def merge_input.defs)
  from self_compensation_unusable [OF p this sample_rooms_ok] p show ?thesis by blast
qed

theorem merge_moves_references_witness:
  "\<exists>plan snap'. plan_mutation sample_sha (Merge_input sample_merge) sample_rooms sample_registry (answers [sample_references]) = Inr plan
    \<and> apply_repoints sample_sha sample_snapshot plan = Inr snap'"
proof -
  obtain plan where p: "plan_mutation sample_sha (Merge_input sample_merge) sample_rooms sample_registry
      (answers [sample_references]) = Inr plan"
    using sample_merge_planned by blast
  from merge_moves_references [OF sample_rooms_ok sample_sha_hex sample_registry_created p sample_captured sample_versions_free] p
  show ?thesis by blast
qed

definition sample_undo :: compensation_input where
  "sample_undo = merge_input.extend (sample_merge \<lparr> gi_expectedSetVersion := 2, mi_expectedSourceVersion := 2 \<rparr>)
     \<lparr> ci_restoreSource = True, ci_references = [(sample_contributor, [''slot''])] \<rparr>"

definition sample_moved :: reference_snapshot where
  "sample_moved = merge_moves sample_sha (target_of sample_room) (target_of sample_annex) sample_snapshot"

lemma sample_moved_contributors:
  "sn_contributors sample_moved = [moved_contributor sample_sha (target_of sample_annex)
     (\<lambda>r. refers_to (target_of sample_room) r \<and> rr_mode r = Current) sample_references]"
  by (simp add: sample_moved_def merge_moves_def sample_snapshot_def)

lemma sample_moved_references:
  "ct_references (hd (sn_contributors sample_moved)) = [sample_reference \<lparr> rr_version := 3, rr_item := target_of sample_annex \<rparr>]"
  by (simp add: sample_moved_contributors moved_contributor_simps moved_reference_def sample_references_def
      sample_reference_def refers_to_iff)

lemma moved_contributor_guard: "gd_version (ct_guard (moved_contributor sha to Q c)) \<le> gd_version (ct_guard c) + 1"
  by (simp add: moved_contributor_def Let_def)

lemma sample_moved_free: "versions_free sample_moved"
proof -
  have "gd_version (ct_guard sample_references) = 2" by (simp add: sample_references_def)
  then have g: "gd_version (ct_guard (moved_contributor sha to Q sample_references)) < max_safe_integer" for sha to Q
    using moved_contributor_guard [of sha to Q sample_references] by (simp add: max_safe_integer_def)
  have "ct_references sample_references = [sample_reference]" by (simp add: sample_references_def)
  moreover have "rr_version sample_reference = 2" by (simp add: sample_reference_def)
  ultimately have "\<forall>r \<in> set (ct_references (moved_contributor sha to Q sample_references)). rr_version r < max_safe_integer" for sha to Q
    by (simp add: moved_contributor_simps moved_reference_def max_safe_integer_def)
  with g show ?thesis by (simp add: versions_free_def sample_moved_contributors)
qed

lemma require_item_catalog:
  assumes "vocabulary_ok s" "catalog s i = Some it" "pi_kind it = k" "pi_version it = v"
  shows "\<exists>x. require_item s k i v = Inr x \<and> planned_of x = it"
proof -
  have "it \<in> set (planned_items s)" "pi_id it = i" using assms(2) by (simp_all add: catalog_iff [OF assms(1)])
  moreover from this(1) obtain x where x: "it = planned_of x" "x \<in> set (vocabulary_items s)"
    unfolding planned_items_def by auto
  ultimately have "pi_id x = i" by simp
  with x assms(3) have "resolve_item s k i = Some x" by (simp add: resolve_item_iff [OF assms(1)])
  then show ?thesis using x(1) assms(4) by (simp add: require_item_def)
qed

text \<open>The state after the sample merge.\<close>

lemma sample_merged:
  "\<exists>plan s1. plan_mutation sample_sha (Merge_input sample_merge) sample_rooms sample_registry (answers [sample_references]) = Inr plan
    \<and> apply_plan sample_sha sample_rooms plan = Inr s1 \<and> vocabulary_ok s1 \<and> vs_setVersion s1 = 2 \<and> vs_scope s1 = sample_scope
    \<and> catalog s1 (sample_id CHR ''3'') = Some ((planned_of sample_room) \<lparr> pi_status := Retired, pi_version := 2 \<rparr>)
    \<and> catalog s1 (sample_id CHR ''4'') = Some (planned_of sample_annex)
    \<and> apply_repoints sample_sha sample_snapshot plan = Inr sample_moved
    \<and> capture_checked s1 sample_registry (answers (sn_contributors sample_moved)) = Inr sample_moved"
proof -
  obtain plan s1 where p: "plan_mutation sample_sha (Merge_input sample_merge) sample_rooms sample_registry
      (answers [sample_references]) = Inr plan"
    and v: "validate_plan sample_sha sample_rooms plan sample_registry (answers [sample_references]) = None"
    and a: "apply_plan sample_sha sample_rooms plan = Inr s1"
    using sample_change by blast
  note reg = sample_registry_ok
  have mp: "plan_merge sample_sha sample_merge sample_rooms sample_registry (answers [sample_references]) = Inr plan"
    using p by simp
  from merge_repoints [OF sample_rooms_ok sample_sha_hex conjunct1 [OF reg] conjunct2 [OF reg] mp sample_captured sample_versions_free]
  obtain src and tgt :: vocabulary_item where
    m: "plan_before plan = Some (planned_of src)" "src \<in> set (vocabulary_items sample_rooms)"
      "target_of src = \<lparr> tg_kind = mi_kind sample_merge, tg_id = mi_sourceId sample_merge \<rparr>"
      "target_of tgt = \<lparr> tg_kind = mi_kind sample_merge, tg_id = mi_targetId sample_merge \<rparr>"
      "plan_after plan = Some ((planned_of src) \<lparr> pi_status := Retired, pi_version := pi_version src + 1 \<rparr>)"
      "apply_repoints sample_sha sample_snapshot plan = Inr (merge_moves sample_sha (target_of src) (target_of tgt) sample_snapshot)"
    by blast
  have ids: "target_of src = target_of sample_room" "target_of tgt = target_of sample_annex"
    unfolding m by (simp_all add: sample_merge_def target_of_def sample_room_def sample_annex_def pi_kind_def)
  from ids(1) m(2) have src: "src = sample_room"
    by (auto simp: sample_rooms_def sample_vocabulary_def vocabulary_items_def sample_annex_def target_of_def sample_room_def)
  note r = apply_plan_result [OF sample_rooms_ok a]
  have cat: "catalog s1 = (catalog sample_rooms)(sample_id CHR ''3'' \<mapsto> (planned_of sample_room) \<lparr> pi_status := Retired, pi_version := 2 \<rparr>)"
    using r m(1,5) src by (simp add: plan_effect_def sample_room_def)
  have cat4: "catalog sample_rooms (sample_id CHR ''4'') = Some (planned_of sample_annex)"
    unfolding catalog_iff [OF sample_rooms_ok]
    by (simp add: planned_items_def vocabulary_items_def sample_rooms_def sample_vocabulary_def
        sample_annex_def)
  have ok1: "vocabulary_ok s1" and sc: "vs_scope s1 = sample_scope" using r by (simp_all add: sample_rooms_def sample_vocabulary_def)
  have old: "capture_checked s1 sample_registry (answers [sample_references]) = Inr sample_snapshot"
    by (rule references_stay_resolved [OF sample_rooms_ok v a sample_captured])
  have tgt: "resolve_item s1 (tg_kind (target_of sample_annex)) (tg_id (target_of sample_annex)) \<noteq> None"
    unfolding resolve_catalog [OF ok1] by (simp add: cat cat4 target_of_def sample_annex_def)
  note c = capture_checked_result [OF ok1 old]
  have "capture_checked s1 sample_registry (answers (sn_contributors sample_moved)) = Inr sample_moved"
    unfolding sample_moved_def
    using merge_moves_captured [OF ok1 _ conjunct1 [OF reg] sample_sha_hex sample_versions_free _ tgt] c by blast
  moreover have "vs_setVersion s1 = 2" using r by (simp add: sample_rooms_def sample_vocabulary_def)
  ultimately show ?thesis
    using p a ok1 sc cat cat4 m(6) ids by (intro exI [of _ plan] exI [of _ s1]) (simp add: sample_moved_def)
qed

lemma sample_undo_fields:
  "gi_scope sample_undo = sample_scope" "gi_expectedSetVersion sample_undo = 2" "mi_kind sample_undo = Room"
  "mi_sourceId sample_undo = sample_id CHR ''3''" "mi_targetId sample_undo = sample_id CHR ''4''"
  "mi_expectedSourceVersion sample_undo = 2" "mi_expectedTargetVersion sample_undo = 1"
  "ci_restoreSource sample_undo" "ci_references sample_undo = [(sample_contributor, [''slot''])]"
  by (simp_all add: sample_undo_def sample_merge_def merge_input.defs)

lemma sample_undo_selected: "ct_contributor c = sample_contributor \<Longrightarrow> selected_keys sample_undo c = [''slot'']"
  by (simp add: selected_keys_def sample_undo_fields map_entry_def)

theorem merge_compensation_restores_witness:
  "\<exists>plan2 snap2. apply_repoints sample_sha sample_moved plan2 = Inr snap2
    \<and> snapshot_content snap2 = snapshot_content sample_snapshot"
proof -
  obtain plan s1 where p: "plan_mutation sample_sha (Merge_input sample_merge) sample_rooms sample_registry (answers [sample_references]) = Inr plan"
    and a: "apply_plan sample_sha sample_rooms plan = Inr s1" and ok1: "vocabulary_ok s1" and v1: "vs_setVersion s1 = 2"
    and sc: "vs_scope s1 = sample_scope"
    and cat: "catalog s1 (sample_id CHR ''3'') = Some ((planned_of sample_room) \<lparr> pi_status := Retired, pi_version := 2 \<rparr>)"
      "catalog s1 (sample_id CHR ''4'') = Some (planned_of sample_annex)"
    and r: "apply_repoints sample_sha sample_snapshot plan = Inr sample_moved"
    and cap: "capture_checked s1 sample_registry (answers (sn_contributors sample_moved)) = Inr sample_moved"
    using sample_merged by blast
  let ?source = "answers (sn_contributors sample_moved)"
  obtain src where src: "require_item s1 Room (sample_id CHR ''3'') 2 = Inr src"
    "planned_of src = (planned_of sample_room) \<lparr> pi_status := Retired, pi_version := 2 \<rparr>"
    using require_item_catalog [OF ok1 cat(1), of Room 2] by (auto simp: pi_kind_def sample_room_def)
  obtain tgt where tgt: "require_item s1 Room (sample_id CHR ''4'') 1 = Inr tgt" "planned_of tgt = planned_of sample_annex"
    using require_item_catalog [OF ok1 cat(2), of Room 1] by (auto simp: pi_kind_def sample_annex_def sample_room_def)
  have t: "target_of tgt = target_of sample_annex" by (metis planned_of_simps(7) tgt(2))
  have v: "pi_version src = 2" using arg_cong [OF src(2), of pi_version] by simp
  have refs: "ct_references (hd (sn_contributors sample_moved)) = [sample_reference \<lparr> rr_version := 3, rr_item := target_of sample_annex \<rparr>]"
    by (rule sample_moved_references)
  have one: "length (cp_liveRepoints (compensation_evidence sample_undo (target_of src) (target_of tgt) c)) = length (remdups (selected_keys sample_undo c))"
    if "c \<in> set (sn_contributors sample_moved)" for c
  proof -
    from that have c: "c = hd (sn_contributors sample_moved)" by (simp add: sample_moved_contributors)
    then have "ct_contributor c = sample_contributor"
      by (simp add: sample_moved_contributors moved_contributor_simps sample_references_def)
    with c refs show ?thesis
      by (simp add: compensation_evidence_def contributor_plan_parts sample_undo_selected)
        (simp add: contributor_plan_def t refers_to_iff sample_reference_def)
  qed
  then have "traverse (\<lambda>c. if length (cp_liveRepoints (compensation_evidence sample_undo (target_of src) (target_of tgt) c))
        \<noteq> length (remdups (selected_keys sample_undo c)) then Inl (Refused Stale_reference)
        else Inr (compensation_evidence sample_undo (target_of src) (target_of tgt) c)) (sn_contributors sample_moved)
      = (Inr (map (compensation_evidence sample_undo (target_of src) (target_of tgt)) (sn_contributors sample_moved)) :: contribution_plan list planned)"
    by (intro traverse_total) simp
  then have "\<exists>plan2. plan_mutation sample_sha (Compensation_input sample_undo) s1 sample_registry ?source = Inr plan2"
    unfolding plan_mutation.simps plan_merge_compensation_def Let_def selected_keys_def [symmetric] compensation_evidence_def [symmetric]
    by (simp add: sample_undo_fields require_set_guard_def same_scope_def sc v1 src(1) tgt(1) cap next_version_def v
        positive_version_def safe_integer_def max_safe_integer_def)
  then obtain plan2 where p2: "plan_mutation sample_sha (Compensation_input sample_undo) s1 sample_registry ?source = Inr plan2"
    by blast
  have ne: "mi_sourceId sample_undo \<noteq> mi_targetId sample_undo" by (simp add: sample_undo_fields)
  have "validate_plan sample_sha s1 plan2 sample_registry ?source = None"
    using sample_registry_ok ne by (intro plan_mutation_checked [OF ok1 sample_sha_hex _ _ p2]) auto
  from checked_plan_applies [OF ok1 this] v1 obtain s2 where a2: "apply_plan sample_sha s1 plan2 = Inr s2"
    by (auto simp: max_safe_integer_def)
  have "plan_merge_compensation sample_sha sample_undo s1 sample_registry ?source = Inr plan2" using p2 by simp
  from compensation_repoints [OF ok1 sample_sha_hex conjunct1 [OF sample_registry_ok] conjunct2 [OF sample_registry_ok] this ne cap sample_moved_free]
  obtain snap2 where r2: "apply_repoints sample_sha sample_moved plan2 = Inr snap2" by blast
  have sel: "\<forall>c \<in> set (sn_contributors sample_snapshot). set (selected_keys sample_undo c) = rr_referenceKey `
      {r \<in> set (ct_references c). refers_to \<lparr> tg_kind = mi_kind sample_merge, tg_id = mi_sourceId sample_merge \<rparr> r \<and> rr_mode r = Current}"
    by (simp add: sample_snapshot_def sample_undo_selected sample_references_def sample_reference_def refers_to_iff
        sample_merge_def target_of_def sample_room_def pi_kind_def conj_disj_distribR ex_disj_distrib Collect_conv_if cong: conj_cong)
  have eqs: "mi_kind sample_undo = mi_kind sample_merge" "mi_sourceId sample_undo = mi_sourceId sample_merge"
    "mi_targetId sample_undo = mi_targetId sample_merge"
    by (simp_all add: sample_undo_fields sample_merge_def)
  from merge_compensation_restores [OF sample_rooms_ok sample_sha_hex sample_registry_created p a sample_captured
      sample_versions_free r cap sample_moved_free p2 eqs sample_undo_fields(8) sel a2 r2] r2
  show ?thesis by blast
qed

end
