(* ===== verification/Breaks.thy ===== *)
theory Breaks
  imports References Instants Planning
begin

text \<open>
  The breaks of the schedule, \<open>packages/schedule/src/breaks.ts\<close> over the schemas of
  \<open>packages/contracts/src/schedule-breaks.ts\<close>: rooms are blocked for part of a day, breaks are added,
  removed and restored by plans against a version of the schedule, of the vocabulary and of the event.
\<close>

section \<open>Data\<close>

datatype break_status = Break_active | Break_removed

record break_head =
  bh_id :: string
  bh_label :: string
  bh_dayKey :: string
  bh_roomId :: string
  bh_startMin :: int
  bh_endMin :: int
  bh_status :: break_status
  bh_version :: int

record event_guard =
  eg_version :: int
  eg_startDate :: string
  eg_endDate :: string

record break_state =
  bs_scope :: vocabulary_scope
  bs_scheduleVersion :: int
  bs_breaks :: "break_head list"
  bs_event :: event_guard

record break_interval =
  iv_label :: string
  iv_dayKey :: string
  iv_startMin :: int
  iv_endMin :: int

text \<open>A new break has an identifier and a room, an expected one an identifier and a version.\<close>

datatype break_input =
    Break_add vocabulary_scope int break_interval "(string \<times> string) list"
  | Break_remove vocabulary_scope int "(string \<times> int) list"
  | Break_restore vocabulary_scope int "(string \<times> int) list"

record break_plan =
  bp_input :: break_input
  bp_before :: "break_head list"
  bp_after :: "break_head list"
  bp_versionBefore :: int
  bp_versionAfter :: int
  bp_vocabularySetVersion :: int
  bp_eventGuard :: event_guard

datatype break_code =
    B_wrong_scope | B_stale_schedule | B_stale_vocabulary | B_stale_event | B_break_exists | B_break_missing
  | B_stale_break | B_break_not_active | B_break_not_removed | B_room_missing | B_room_retired
  | B_day_outside_event | B_invalid_plan

type_synonym 'a breaks = "(break_code, 'a) outcome"

section \<open>Schemas\<close>

definition date_pattern :: "(char \<Rightarrow> bool) list" where
  "date_pattern = replicate 4 digit @ [is_char CHR ''-''] @ replicate 2 digit @ [is_char CHR ''-''] @ replicate 2 digit"

text \<open>An ISO calendar date.\<close>

definition iso_date :: "string \<Rightarrow> bool" where
  "iso_date s \<longleftrightarrow> matches date_pattern s
     \<and> (let y = decimal_value (slice 0 4 s); m = decimal_value (slice 5 7 s); d = decimal_value (slice 8 10 s) in
        1 \<le> m \<and> m \<le> 12 \<and> 1 \<le> d \<and> d \<le> days_in_month (int y) m)"

definition break_minute :: "int \<Rightarrow> bool" where
  "break_minute n \<longleftrightarrow> 0 \<le> n \<and> n \<le> 1440"

definition break_head_schema :: "break_head \<Rightarrow> bool" where
  "break_head_schema h \<longleftrightarrow> vocabulary_id (bh_id h) \<and> bounded_text 80 (bh_label h) \<and> iso_date (bh_dayKey h)
     \<and> vocabulary_id (bh_roomId h) \<and> break_minute (bh_startMin h) \<and> break_minute (bh_endMin h)
     \<and> positive_safe (bh_version h) \<and> bh_startMin h < bh_endMin h"

definition one_to_hundred :: "'a list \<Rightarrow> bool" where
  "one_to_hundred xs \<longleftrightarrow> 1 \<le> length xs \<and> length xs \<le> 100"

fun break_scope :: "break_input \<Rightarrow> vocabulary_scope" where
  "break_scope (Break_add sc _ _ _) = sc"
| "break_scope (Break_remove sc _ _) = sc"
| "break_scope (Break_restore sc _ _) = sc"

fun break_expected_version :: "break_input \<Rightarrow> int" where
  "break_expected_version (Break_add _ v _ _) = v"
| "break_expected_version (Break_remove _ v _) = v"
| "break_expected_version (Break_restore _ v _) = v"

definition expected_breaks_schema :: "(string \<times> int) list \<Rightarrow> bool" where
  "expected_breaks_schema bs \<longleftrightarrow> one_to_hundred bs
     \<and> list_all (\<lambda>(i, v). vocabulary_id i \<and> positive_safe v) bs \<and> distinct (map fst bs)"

fun break_details_schema :: "break_input \<Rightarrow> bool" where
  "break_details_schema (Break_add _ _ iv bs) \<longleftrightarrow>
     bounded_text 80 (iv_label iv) \<and> iso_date (iv_dayKey iv) \<and> break_minute (iv_startMin iv)
     \<and> break_minute (iv_endMin iv) \<and> one_to_hundred bs
     \<and> list_all (\<lambda>(i, r). vocabulary_id i \<and> vocabulary_id r) bs
     \<and> iv_startMin iv < iv_endMin iv \<and> distinct (map fst bs) \<and> distinct (map snd bs)"
| "break_details_schema (Break_remove _ _ bs) = expected_breaks_schema bs"
| "break_details_schema (Break_restore _ _ bs) = expected_breaks_schema bs"

definition break_input_schema :: "break_input \<Rightarrow> bool" where
  "break_input_schema i \<longleftrightarrow> scope_ok (break_scope i) \<and> positive_safe (break_expected_version i)
     \<and> break_details_schema i"

fun break_images_coherent :: "break_input \<Rightarrow> break_head list \<Rightarrow> break_head list \<Rightarrow> bool" where
  "break_images_coherent (Break_add _ _ _ bs) before after \<longleftrightarrow>
     before = [] \<and> length after = length bs \<and> list_all (\<lambda>h. bh_status h = Break_active) after"
| "break_images_coherent (Break_remove _ _ bs) before after \<longleftrightarrow>
     length before = length bs \<and> length after = length before \<and> list_all (\<lambda>h. bh_status h = Break_removed) after"
| "break_images_coherent (Break_restore _ _ bs) before after \<longleftrightarrow>
     length before = length bs \<and> length after = length before \<and> list_all (\<lambda>h. bh_status h = Break_active) after"

definition break_plan_schema :: "break_plan \<Rightarrow> bool" where
  "break_plan_schema p \<longleftrightarrow> break_input_schema (bp_input p)
     \<and> list_all break_head_schema (bp_before p) \<and> length (bp_before p) \<le> 100
     \<and> list_all break_head_schema (bp_after p) \<and> length (bp_after p) \<le> 100
     \<and> positive_safe (bp_versionBefore p) \<and> positive_safe (bp_versionAfter p)
     \<and> positive_safe (bp_vocabularySetVersion p)
     \<and> positive_safe (eg_version (bp_eventGuard p)) \<and> iso_date (eg_startDate (bp_eventGuard p))
     \<and> iso_date (eg_endDate (bp_eventGuard p))
     \<and> bp_versionAfter p = bp_versionBefore p + 1
     \<and> eg_startDate (bp_eventGuard p) \<le> eg_endDate (bp_eventGuard p)
     \<and> break_images_coherent (bp_input p) (bp_before p) (bp_after p)"

section \<open>Canonical JSON\<close>

fun break_status_text :: "break_status \<Rightarrow> string" where
  "break_status_text Break_active = ''active''"
| "break_status_text Break_removed = ''removed''"

definition break_head_json :: "break_head \<Rightarrow> json" where
  "break_head_json h = JObj [(''id'', JStr (bh_id h)), (''label'', JStr (bh_label h)), (''dayKey'', JStr (bh_dayKey h)),
     (''roomId'', JStr (bh_roomId h)), (''startMin'', JNum (bh_startMin h)), (''endMin'', JNum (bh_endMin h)),
     (''status'', JStr (break_status_text (bh_status h))), (''version'', JNum (bh_version h))]"

definition break_scope_json :: "vocabulary_scope \<Rightarrow> json" where
  "break_scope_json sc = JObj [(''workspaceId'', JStr (sc_workspaceId sc)), (''eventId'', JStr (sc_eventId sc))]"

definition expected_break_json :: "string \<times> int \<Rightarrow> json" where
  "expected_break_json b = JObj [(''id'', JStr (fst b)), (''expectedVersion'', JNum (snd b))]"

definition new_break_json :: "string \<times> string \<Rightarrow> json" where
  "new_break_json b = JObj [(''id'', JStr (fst b)), (''roomId'', JStr (snd b))]"

fun break_input_json :: "break_input \<Rightarrow> json" where
  "break_input_json (Break_add sc v iv bs) = JObj [(''action'', JStr ''break_add''), (''scope'', break_scope_json sc),
     (''expectedScheduleVersion'', JNum v), (''label'', JStr (iv_label iv)), (''dayKey'', JStr (iv_dayKey iv)),
     (''startMin'', JNum (iv_startMin iv)), (''endMin'', JNum (iv_endMin iv)),
     (''breaks'', JArr (map new_break_json bs))]"
| "break_input_json (Break_remove sc v bs) = JObj [(''action'', JStr ''break_remove''), (''scope'', break_scope_json sc),
     (''expectedScheduleVersion'', JNum v), (''breaks'', JArr (map expected_break_json bs))]"
| "break_input_json (Break_restore sc v bs) = JObj [(''action'', JStr ''break_restore''), (''scope'', break_scope_json sc),
     (''expectedScheduleVersion'', JNum v), (''breaks'', JArr (map expected_break_json bs))]"

definition event_guard_json :: "event_guard \<Rightarrow> json" where
  "event_guard_json g = JObj [(''version'', JNum (eg_version g)), (''startDate'', JStr (eg_startDate g)),
     (''endDate'', JStr (eg_endDate g))]"

definition break_plan_json :: "break_plan \<Rightarrow> json" where
  "break_plan_json p = JObj [(''input'', break_input_json (bp_input p)),
     (''before'', JArr (map break_head_json (bp_before p))), (''after'', JArr (map break_head_json (bp_after p))),
     (''scheduleVersion'', JObj [(''before'', JNum (bp_versionBefore p)), (''after'', JNum (bp_versionAfter p))]),
     (''vocabularySetVersion'', JNum (bp_vocabularySetVersion p)), (''eventGuard'', event_guard_json (bp_eventGuard p))]"

section \<open>Planning\<close>

definition break_key :: "break_head \<Rightarrow> string \<times> int \<times> string \<times> string" where
  "break_key h = (bh_dayKey h, bh_startMin h, bh_roomId h, bh_id h)"

definition compare_break_heads :: "break_head \<Rightarrow> break_head \<Rightarrow> int" where
  "compare_break_heads l r =
     (if bh_dayKey l \<noteq> bh_dayKey r then (if bh_dayKey l < bh_dayKey r then - 1 else 1)
      else if bh_startMin l \<noteq> bh_startMin r then bh_startMin l - bh_startMin r
      else if bh_roomId l \<noteq> bh_roomId r then (if bh_roomId l < bh_roomId r then - 1 else 1)
      else js_compare (bh_id l) (bh_id r))"

definition parse_break_head :: "break_head \<Rightarrow> break_head breaks" where
  "parse_break_head h = (if break_head_schema h then Inr h else Inl SchemaErr)"

definition breaks_by_id :: "break_state \<Rightarrow> string \<Rightarrow> break_head option" where
  "breaks_by_id s = map_entry (map (\<lambda>h. (bh_id h, h)) (bs_breaks s))"

definition outside_event :: "event_guard \<Rightarrow> string \<Rightarrow> bool" where
  "outside_event g day \<longleftrightarrow> day < eg_startDate g \<or> eg_endDate g < day"

text \<open>One turn of the loop that adds breaks.\<close>

definition add_break ::
  "break_state \<Rightarrow> vocabulary \<Rightarrow> break_interval \<Rightarrow> string \<times> string \<Rightarrow> break_head breaks"
where
  "add_break s vocab iv item =
     (if breaks_by_id s (fst item) \<noteq> None then Inl (Refused B_break_exists)
      else (case resolve_item vocab Room (snd item) of
          None \<Rightarrow> Inl (Refused B_room_missing)
        | Some room \<Rightarrow>
            if pi_status room \<noteq> Active then Inl (Refused B_room_retired)
            else parse_break_head \<lparr> bh_id = fst item, bh_label = iv_label iv, bh_dayKey = iv_dayKey iv,
              bh_roomId = snd item, bh_startMin = iv_startMin iv, bh_endMin = iv_endMin iv,
              bh_status = Break_active, bh_version = 1 \<rparr>))"

text \<open>One turn of the loop that removes (or restores) breaks: the images before and after.\<close>

definition change_break ::
  "bool \<Rightarrow> break_state \<Rightarrow> vocabulary \<Rightarrow> string \<times> int \<Rightarrow> (break_head \<times> break_head) breaks"
where
  "change_break restore s vocab expected =
     (case breaks_by_id s (fst expected) of
        None \<Rightarrow> Inl (Refused B_break_missing)
      | Some h \<Rightarrow>
          if bh_version h \<noteq> snd expected then Inl (Refused B_stale_break)
          else if \<not> restore \<and> bh_status h \<noteq> Break_active then Inl (Refused B_break_not_active)
          else if restore \<and> bh_status h \<noteq> Break_removed then Inl (Refused B_break_not_removed)
          else (case resolve_item vocab Room (bh_roomId h) of
              None \<Rightarrow> Inl (Refused B_room_missing)
            | Some room \<Rightarrow>
                if restore \<and> pi_status room \<noteq> Active then Inl (Refused B_room_retired)
                else if restore \<and> outside_event (bs_event s) (bh_dayKey h) then Inl (Refused B_day_outside_event)
                else rbind (parse_break_head
                    (h \<lparr> bh_status := (if restore then Break_active else Break_removed), bh_version := bh_version h + 1 \<rparr>))
                  (\<lambda>h'. Inr (h, h'))))"

fun break_images ::
  "break_input \<Rightarrow> break_state \<Rightarrow> vocabulary \<Rightarrow> (break_head list \<times> break_head list) breaks"
where
  "break_images (Break_add _ _ iv bs) s vocab =
     (if outside_event (bs_event s) (iv_dayKey iv) then Inl (Refused B_day_outside_event)
      else rbind (traverse (add_break s vocab iv) bs) (\<lambda>after. Inr ([], after)))"
| "break_images (Break_remove _ _ bs) s vocab =
     rbind (traverse (change_break False s vocab) bs) (\<lambda>images. Inr (map fst images, map snd images))"
| "break_images (Break_restore _ _ bs) s vocab =
     rbind (traverse (change_break True s vocab) bs) (\<lambda>images. Inr (map fst images, map snd images))"

definition plan_breaks :: "break_input \<Rightarrow> break_state \<Rightarrow> vocabulary \<Rightarrow> break_plan breaks" where
  "plan_breaks i s vocab =
     (if \<not> break_input_schema i then Inl SchemaErr
      else if \<not> same_scope (bs_scope s) (break_scope i) \<or> \<not> same_scope (vs_scope vocab) (break_scope i)
      then Inl (Refused B_wrong_scope)
      else if bs_scheduleVersion s \<noteq> break_expected_version i then Inl (Refused B_stale_schedule)
      else rbind (break_images i s vocab) (\<lambda>(before, after).
        let plan = \<lparr> bp_input = i, bp_before = js_sort compare_break_heads before,
              bp_after = js_sort compare_break_heads after, bp_versionBefore = bs_scheduleVersion s,
              bp_versionAfter = bs_scheduleVersion s + 1, bp_vocabularySetVersion = vs_setVersion vocab,
              bp_eventGuard = bs_event s \<rparr> in
        if break_plan_schema plan then Inr plan else Inl SchemaErr))"

definition validate_break_plan :: "break_state \<Rightarrow> vocabulary \<Rightarrow> break_plan \<Rightarrow> break_code option" where
  "validate_break_plan s vocab plan =
     (if vs_setVersion vocab \<noteq> bp_vocabularySetVersion plan then Some B_stale_vocabulary
      else if canonical (event_guard_json (bs_event s)) \<noteq> canonical (event_guard_json (bp_eventGuard plan))
      then Some B_stale_event
      else (case plan_breaks (bp_input plan) s vocab of
          Inl (Refused code) \<Rightarrow> Some code
        | Inl _ \<Rightarrow> Some B_invalid_plan
        | Inr rebuilt \<Rightarrow>
            if canonical (break_plan_json rebuilt) = canonical (break_plan_json plan) then None
            else Some B_invalid_plan))"

text \<open>The new state and the breaks of the result.\<close>

definition apply_break_plan :: "break_state \<Rightarrow> vocabulary \<Rightarrow> break_plan \<Rightarrow> (break_state \<times> break_head list) breaks" where
  "apply_break_plan s vocab plan =
     (case validate_break_plan s vocab plan of
        Some refusal \<Rightarrow> Inl (Refused refusal)
      | None \<Rightarrow>
          (let changed = bh_id ` set (bp_after plan);
               breaks = js_sort compare_break_heads
                 (filter (\<lambda>h. bh_id h \<notin> changed) (bs_breaks s) @ bp_after plan) in
           rbind (widen (positive_version (bp_versionAfter plan))) (\<lambda>version.
             if one_to_hundred (bp_after plan) \<and> list_all break_head_schema (bp_after plan)
             then Inr (s \<lparr> bs_scheduleVersion := version, bs_breaks := breaks \<rparr>, bp_after plan)
             else Inl SchemaErr)))"

section \<open>The JSON forms determine the values\<close>

lemma break_status_text_inject: "break_status_text a = break_status_text b \<longleftrightarrow> a = b"
  by (cases a; cases b) simp_all

lemma break_head_json_inject: "canon (break_head_json a) = canon (break_head_json b) \<longleftrightarrow> a = b"
  by (cases a; cases b)
    (simp add: break_head_json_def canon_obj_iff break_status_text_inject conj_ac del: canon.simps(2))

lemma break_scope_json_inject: "canon (break_scope_json a) = canon (break_scope_json b) \<longleftrightarrow> a = b"
  by (cases a; cases b) (simp add: break_scope_json_def canon_obj_iff del: canon.simps(2))

lemma expected_break_json_inject: "canon (expected_break_json a) = canon (expected_break_json b) \<longleftrightarrow> a = b"
  by (cases a; cases b) (simp add: expected_break_json_def canon_obj_iff del: canon.simps(2))

lemma new_break_json_inject: "canon (new_break_json a) = canon (new_break_json b) \<longleftrightarrow> a = b"
  by (cases a; cases b) (simp add: new_break_json_def canon_obj_iff del: canon.simps(2))

lemma event_guard_json_inject: "canon (event_guard_json a) = canon (event_guard_json b) \<longleftrightarrow> a = b"
  by (cases a; cases b) (simp add: event_guard_json_def canon_obj_iff del: canon.simps(2))

fun break_action :: "break_input \<Rightarrow> string" where
  "break_action (Break_add _ _ _ _) = ''break_add''"
| "break_action (Break_remove _ _ _) = ''break_remove''"
| "break_action (Break_restore _ _ _) = ''break_restore''"

lemma break_input_json_action:
  assumes "canon (break_input_json a) = canon (break_input_json b)"
  shows "break_action a = break_action b"
  using assms
  by (cases a; cases b) (auto dest: canon_obj_lookup [where k = "''action''"] simp del: canon.simps(2))

lemmas break_json_inject = break_head_json_inject break_scope_json_inject expected_break_json_inject
  new_break_json_inject event_guard_json_inject

lemma break_input_json_inject: "canon (break_input_json a) = canon (break_input_json b) \<longleftrightarrow> a = b"
proof
  assume eq: "canon (break_input_json a) = canon (break_input_json b)"
  from break_input_json_action [OF eq] eq show "a = b"
    by (cases a; cases b)
      (auto simp: canon_obj_iff break_json_inject map_canon_inject [OF new_break_json_inject]
        map_canon_inject [OF expected_break_json_inject] intro!: break_interval.equality simp del: canon.simps(2))
qed simp

lemma break_plan_json_inject: "canon (break_plan_json a) = canon (break_plan_json b) \<longleftrightarrow> a = b"
  by (cases a; cases b)
    (auto simp: break_plan_json_def canon_obj_iff break_input_json_inject break_json_inject
      map_canon_inject [OF break_head_json_inject] simp del: canon.simps(2))

section \<open>Well-formed break states\<close>

definition event_guard_ok :: "event_guard \<Rightarrow> bool" where
  "event_guard_ok g \<longleftrightarrow> positive_safe (eg_version g) \<and> iso_date (eg_startDate g) \<and> iso_date (eg_endDate g)
     \<and> eg_startDate g \<le> eg_endDate g"

definition break_state_ok :: "break_state \<Rightarrow> bool" where
  "break_state_ok s \<longleftrightarrow> scope_ok (bs_scope s) \<and> positive_safe (bs_scheduleVersion s)
     \<and> (\<forall>h \<in> set (bs_breaks s). break_head_schema h) \<and> sorted (map break_key (bs_breaks s))
     \<and> distinct (map bh_id (bs_breaks s)) \<and> event_guard_ok (bs_event s)"

definition break_catalog :: "break_state \<Rightarrow> string \<Rightarrow> break_head option" where
  "break_catalog s = map_of (map (\<lambda>h. (bh_id h, h)) (bs_breaks s))"

interpretation break_order: keyed_comparator compare_break_heads break_key
  by unfold_locales (auto simp: compare_break_heads_def break_key_def js_compare_def)

lemma map_entry_keyed:
  assumes "distinct (map f xs)"
  shows "map_entry (map (\<lambda>x. (f x, x)) xs) = map_of (map (\<lambda>x. (f x, x)) xs)"
proof -
  have "map_entry (map (\<lambda>x. (f x, x)) xs) k = Some v \<longleftrightarrow> map_of (map (\<lambda>x. (f x, x)) xs) k = Some v" for k v
  proof -
    have "distinct (map fst (map (\<lambda>x. (f x, x)) xs))" using assms by (simp add: comp_def)
    then show ?thesis using map_entry_own by (fastforce simp: map_entry_def rev_map [symmetric] dest: map_of_SomeD)
  qed
  then show ?thesis by (metis (no_types, lifting) ext not_Some_eq)
qed

lemma breaks_by_id_catalog: "break_state_ok s \<Longrightarrow> breaks_by_id s = break_catalog s"
  by (simp add: breaks_by_id_def break_catalog_def map_entry_keyed break_state_ok_def)

lemma break_catalog_iff:
  "break_state_ok s \<Longrightarrow> break_catalog s i = Some h \<longleftrightarrow> h \<in> set (bs_breaks s) \<and> bh_id h = i"
  unfolding break_catalog_def break_state_ok_def by (rule map_of_keyed) simp

section \<open>Planned changes of breaks\<close>

lemma plan_breaks_parts:
  assumes "plan_breaks i s vocab = Inr plan"
  shows "\<exists>before after. break_images i s vocab = Inr (before, after) \<and> break_input_schema i
    \<and> same_scope (bs_scope s) (break_scope i) \<and> bs_scheduleVersion s = break_expected_version i
    \<and> bp_input plan = i \<and> bp_before plan = js_sort compare_break_heads before
    \<and> bp_after plan = js_sort compare_break_heads after \<and> bp_versionBefore plan = bs_scheduleVersion s
    \<and> bp_versionAfter plan = bs_scheduleVersion s + 1 \<and> bp_vocabularySetVersion plan = vs_setVersion vocab
    \<and> bp_eventGuard plan = bs_event s \<and> break_plan_schema plan"
  using assms unfolding plan_breaks_def Let_def by (elim stepsE) (auto split: if_splits prod.splits)

lemma validate_break_plan_iff:
  "validate_break_plan s vocab plan = None \<longleftrightarrow> plan_breaks (bp_input plan) s vocab = Inr plan"
proof
  assume "validate_break_plan s vocab plan = None"
  then show "plan_breaks (bp_input plan) s vocab = Inr plan"
    by (auto simp: validate_break_plan_def canonical_inject break_plan_json_inject
        split: if_splits sum.splits failure.splits)
next
  assume p: "plan_breaks (bp_input plan) s vocab = Inr plan"
  then have "bp_vocabularySetVersion plan = vs_setVersion vocab \<and> bp_eventGuard plan = bs_event s"
    using plan_breaks_parts by blast
  with p show "validate_break_plan s vocab plan = None" by (simp add: validate_break_plan_def)
qed

text \<open>The identifiers of the images are those of the input, and so distinct.\<close>

fun break_ids :: "break_input \<Rightarrow> string list" where
  "break_ids (Break_add _ _ _ bs) = map fst bs"
| "break_ids (Break_remove _ _ bs) = map fst bs"
| "break_ids (Break_restore _ _ bs) = map fst bs"

lemma add_break_result:
  "add_break s vocab iv item = Inr h \<Longrightarrow> bh_id h = fst item \<and> breaks_by_id s (fst item) = None \<and> break_head_schema h"
  by (auto simp: add_break_def parse_break_head_def split: if_splits option.splits)

lemma change_break_result:
  assumes "change_break restore s vocab expected = Inr (h, h')"
  shows "breaks_by_id s (fst expected) = Some h \<and> bh_version h = snd expected \<and> break_head_schema h'
    \<and> bh_status h = (if restore then Break_removed else Break_active)
    \<and> h' = h \<lparr> bh_status := (if restore then Break_active else Break_removed), bh_version := bh_version h + 1 \<rparr>"
  using assms
  by (auto simp: change_break_def parse_break_head_def split: if_splits option.splits)

lemma breaks_by_id_key: "breaks_by_id s i = Some h \<Longrightarrow> bh_id h = i \<and> h \<in> set (bs_breaks s)"
  by (auto simp: breaks_by_id_def map_entry_def dest!: map_of_SomeD)

lemma change_breaks_ids:
  assumes "traverse (change_break restore s vocab) bs = Inr images"
  shows "map (bh_id \<circ> snd) images = map fst bs"
proof -
  have "list_all2 (\<lambda>b p. change_break restore s vocab b = Inr p) bs images" using assms by (simp add: traverse_Inr_iff)
  then show ?thesis
  proof (induction bs images rule: list_all2_induct)
    case (Cons b bs p ps)
    obtain h h' where p: "p = (h, h')" by (cases p)
    from change_break_result [of restore s vocab b h h'] Cons(1) p breaks_by_id_key [of s "fst b" h] Cons.IH
    show ?case by simp
  qed simp
qed

lemma break_images_ids:
  assumes "break_images i s vocab = Inr (before, after)"
  shows "map bh_id after = break_ids i"
proof (cases i)
  case (Break_add sc v iv bs)
  with assms have t: "traverse (add_break s vocab iv) bs = Inr after"
    by (auto simp: rbind_Inr_iff split: if_splits)
  then have "list_all2 (\<lambda>b h. add_break s vocab iv b = Inr h) bs after" by (simp add: traverse_Inr_iff)
  then have "list_all2 (\<lambda>b h. bh_id h = fst b) bs after"
    by (rule list_all2_mono) (use add_break_result in blast)
  then have "map bh_id after = map fst bs" by (induction rule: list_all2_induct) simp_all
  then show ?thesis by (simp add: Break_add)
next
  case Break_remove
  with assms show ?thesis using change_breaks_ids by (auto simp: rbind_Inr_iff)
next
  case Break_restore
  with assms show ?thesis using change_breaks_ids by (auto simp: rbind_Inr_iff)
qed

lemma break_ids_distinct: "break_input_schema i \<Longrightarrow> distinct (break_ids i) \<and> one_to_hundred (break_ids i)"
  by (cases i) (auto simp: break_input_schema_def expected_breaks_schema_def one_to_hundred_def)

lemma apply_break_plan_result:
  assumes ok: "break_state_ok s" and p: "plan_breaks (bp_input plan) s vocab = Inr plan"
  shows "\<exists>s'. apply_break_plan s vocab plan = Inr (s', bp_after plan) \<and> break_state_ok s'
    \<and> bs_scope s' = bs_scope s \<and> bs_event s' = bs_event s \<and> bs_scheduleVersion s' = bs_scheduleVersion s + 1
    \<and> break_catalog s' = break_catalog s ++ map_of (map (\<lambda>h. (bh_id h, h)) (bp_after plan))"
proof -
  from plan_breaks_parts [OF p] obtain before after where
    im: "break_images (bp_input plan) s vocab = Inr (before, after)" and sch: "break_input_schema (bp_input plan)"
    and after: "bp_after plan = js_sort compare_break_heads after"
    and v: "bp_versionAfter plan = bs_scheduleVersion s + 1" and ps: "break_plan_schema plan"
    by blast
  have ids: "distinct (map bh_id (bp_after plan))" "one_to_hundred (bp_after plan)"
    using break_images_ids [OF im] break_ids_distinct [OF sch]
    by (simp_all add: after break_order.js_sort_distinct one_to_hundred_def break_order.js_sort_length)
      (metis length_map)+
  have heads: "list_all break_head_schema (bp_after plan)" and vs: "positive_safe (bp_versionAfter plan)"
    using ps unfolding break_plan_schema_def by blast+
  let ?kept = "filter (\<lambda>h. bh_id h \<notin> bh_id ` set (bp_after plan)) (bs_breaks s)"
  let ?breaks = "js_sort compare_break_heads (?kept @ bp_after plan)"
  let ?s' = "s \<lparr> bs_scheduleVersion := bs_scheduleVersion s + 1, bs_breaks := ?breaks \<rparr>"
  have "validate_break_plan s vocab plan = None" using p by (simp add: validate_break_plan_iff)
  then have a: "apply_break_plan s vocab plan = Inr (?s', bp_after plan)"
    using ids heads vs v by (simp add: apply_break_plan_def Let_def positive_version_def positive_safe_def)
  have d: "distinct (map bh_id (?kept @ bp_after plan))"
    using ok ids by (auto simp: break_state_ok_def distinct_map_filter)
  have ok': "break_state_ok ?s'"
    using ok d heads vs v
    by (auto simp: break_state_ok_def break_order.js_sort_sorted break_order.js_sort_distinct
        break_order.js_sort_set list_all_iff)
  have "break_catalog ?s' i = Some h \<longleftrightarrow> (break_catalog s ++ map_of (map (\<lambda>h. (bh_id h, h)) (bp_after plan))) i = Some h" for i h
  proof -
    have m: "map_of (map (\<lambda>h. (bh_id h, h)) (bp_after plan)) i = Some h \<longleftrightarrow> h \<in> set (bp_after plan) \<and> bh_id h = i" for h
      by (rule map_of_keyed [OF ids(1)])
    have n: "map_of (map (\<lambda>h. (bh_id h, h)) (bp_after plan)) i = None \<longleftrightarrow> i \<notin> bh_id ` set (bp_after plan)"
      by (simp add: map_of_eq_None_iff image_image)
    show ?thesis
      unfolding break_catalog_iff [OF ok'] map_add_Some_iff m n break_catalog_iff [OF ok]
      by (auto simp: break_order.js_sort_set)
  qed
  then have "break_catalog ?s' = break_catalog s ++ map_of (map (\<lambda>h. (bh_id h, h)) (bp_after plan))"
    by (metis (no_types, lifting) ext not_Some_eq)
  with a ok' show ?thesis by (intro exI [of _ ?s']) simp
qed

text \<open>What removing (or restoring) does to the catalog.\<close>

definition toggled :: "bool \<Rightarrow> break_head \<Rightarrow> break_head" where
  "toggled restore h = h \<lparr> bh_status := (if restore then Break_active else Break_removed), bh_version := bh_version h + 1 \<rparr>"

lemma change_breaks_catalog:
  assumes ok: "break_state_ok s" and t: "traverse (change_break restore s vocab) bs = Inr images"
    and d: "distinct (map fst bs)"
  shows "(break_catalog s ++ map_of (map (\<lambda>h. (bh_id h, h)) (js_sort compare_break_heads (map snd images)))) i
    = (if i \<in> fst ` set bs then map_option (toggled restore) (break_catalog s i) else break_catalog s i)"
proof -
  have ids: "map bh_id (map snd images) = map fst bs" using change_breaks_ids [OF t] by simp
  have dd: "distinct (map bh_id (js_sort compare_break_heads (map snd images)))"
    using d ids by (simp add: break_order.js_sort_distinct)
  have m: "map_of (map (\<lambda>h. (bh_id h, h)) (js_sort compare_break_heads (map snd images))) i = Some h
      \<longleftrightarrow> h \<in> snd ` set images \<and> bh_id h = i" for h
    using map_of_keyed [OF dd] by (simp add: break_order.js_sort_set)
  have keys: "bh_id ` snd ` set images = fst ` set bs"
    using arg_cong [OF ids, of set] by (simp add: image_image)
  show ?thesis
  proof (cases "i \<in> fst ` set bs")
    case True
    with keys obtain p where p: "p \<in> set images" "bh_id (snd p) = i" by (metis (no_types, lifting) imageE)
    then obtain b where b: "b \<in> set bs" "change_break restore s vocab b = Inr p"
      using traverse_output [OF t] by blast
    obtain h h' where hh: "p = (h, h')" by (cases p)
    from change_break_result [of restore s vocab b h h'] b(2) hh
    have c: "break_catalog s (fst b) = Some h" "h' = toggled restore h"
      by (simp_all add: breaks_by_id_catalog [OF ok] toggled_def)
    then have "bh_id h = fst b" by (simp add: break_catalog_iff [OF ok])
    then have "fst b = i" using p(2) hh c(2) by (simp add: toggled_def)
    then have "map_of (map (\<lambda>h. (bh_id h, h)) (js_sort compare_break_heads (map snd images))) i = Some h'"
      unfolding m using p hh by force
    then show ?thesis using True c \<open>fst b = i\<close> by (simp add: map_add_def)
  next
    case False
    then have "map_of (map (\<lambda>h. (bh_id h, h)) (js_sort compare_break_heads (map snd images))) i = None"
      using m keys by (metis (no_types, lifting) image_eqI option.exhaust)
    with False show ?thesis by (simp add: map_add_def)
  qed
qed

lemma apply_toggle:
  assumes ok: "break_state_ok s" and p: "plan_breaks i s vocab = Inr plan"
    and i: "i = (if restore then Break_restore sc v bs else Break_remove sc v bs)"
    and a: "apply_break_plan s vocab plan = Inr (s', r)"
  shows "break_state_ok s' \<and> break_catalog s' = (\<lambda>k. if k \<in> fst ` set bs then map_option (toggled restore) (break_catalog s k) else break_catalog s k)"
proof -
  from plan_breaks_parts [OF p] obtain before after where
    im: "break_images i s vocab = Inr (before, after)" and sch: "break_input_schema i"
    and inp: "bp_input plan = i" and after: "bp_after plan = js_sort compare_break_heads after"
    by blast
  from im i obtain images where t: "traverse (change_break restore s vocab) bs = Inr images" "after = map snd images"
    by (auto simp: rbind_Inr_iff split: if_splits)
  have d: "distinct (map fst bs)" using break_ids_distinct [OF sch] i by (auto split: if_splits)
  from p inp have "plan_breaks (bp_input plan) s vocab = Inr plan" by simp
  from apply_break_plan_result [OF ok this] a
  have "break_state_ok s'" "break_catalog s' = break_catalog s ++ map_of (map (\<lambda>h. (bh_id h, h)) (bp_after plan))"
    by auto
  then show ?thesis
    using change_breaks_catalog [OF ok t(1) d] by (simp add: after t(2) fun_eq_iff)
qed

section \<open>The planning contract\<close>

text \<open>Plans with the vocabulary they are made and applied under.\<close>

fun break_exec :: "break_state \<Rightarrow> vocabulary \<times> break_plan \<Rightarrow> break_state breaks" where
  "break_exec s (vocab, plan) = rbind (apply_break_plan s vocab plan) (\<lambda>r. Inr (fst r))"

fun break_make :: "vocabulary \<times> break_input \<Rightarrow> break_state \<Rightarrow> (vocabulary \<times> break_plan) breaks" where
  "break_make (vocab, i) s = rbind (plan_breaks i s vocab) (\<lambda>p. Inr (vocab, p))"

lemma apply_break_plan_valid: "apply_break_plan s vocab plan = Inr r \<Longrightarrow> validate_break_plan s vocab plan = None"
  by (simp add: apply_break_plan_def split: option.splits)

interpretation break_plans: replanned_plans break_state_ok bs_scheduleVersion "\<lambda>(vocab, plan). bp_versionBefore plan"
  break_exec break_make "\<lambda>(vocab, plan). (vocab, bp_input plan)" "\<lambda>s (vocab, plan). validate_break_plan s vocab plan = None"
proof unfold_locales
  fix s :: break_state and p :: "vocabulary \<times> break_plan" and s'
  obtain vocab plan where p: "p = (vocab, plan)" by (cases p)
  assume ok: "break_state_ok s" and e: "break_exec s p = Inr s'"
  then obtain r where a: "apply_break_plan s vocab plan = Inr (s', r)" by (auto simp: p rbind_Inr_iff)
  have pl: "plan_breaks (bp_input plan) s vocab = Inr plan"
    using apply_break_plan_valid [OF a] by (simp add: validate_break_plan_iff)
  from apply_break_plan_result [OF ok pl] a
  show "break_state_ok s'" "bs_scheduleVersion s' = bs_scheduleVersion s + 1" by auto
  show "(case p of (vocab, plan) \<Rightarrow> bp_versionBefore plan) = bs_scheduleVersion s"
    using plan_breaks_parts [OF pl] p by auto
next
  fix s :: break_state and p :: "vocabulary \<times> break_plan"
  show "(case p of (vocab, plan) \<Rightarrow> validate_break_plan s vocab plan = None)
    = (break_make (case p of (vocab, plan) \<Rightarrow> (vocab, bp_input plan)) s = Inr p)"
    by (cases p) (auto simp: validate_break_plan_iff rbind_Inr_iff)
next
  fix s t :: break_state and i :: "vocabulary \<times> break_input" and p q
  obtain vocab inp where i: "i = (vocab, inp)" by (cases i)
  assume m: "break_make i s = Inr p"
  then obtain plan where p: "p = (vocab, plan)" "plan_breaks inp s vocab = Inr plan" by (auto simp: i rbind_Inr_iff)
  then have "(case p of (vocab, plan) \<Rightarrow> (vocab, bp_input plan)) = i"
    using plan_breaks_parts [OF p(2)] by (auto simp: i)
  with m show "break_make (case p of (vocab, plan) \<Rightarrow> (vocab, bp_input plan)) s = Inr p" by simp
  assume "break_make i t = Inr q"
  then obtain plan' where q: "q = (vocab, plan')" "plan_breaks inp t vocab = Inr plan'" by (auto simp: i rbind_Inr_iff)
  show "(case p of (vocab, plan) \<Rightarrow> bp_versionBefore plan) = (case q of (vocab, plan) \<Rightarrow> bp_versionBefore plan)"
    using plan_breaks_parts [OF p(2)] plan_breaks_parts [OF q(2)] p q by auto
next
  fix s :: break_state and p :: "vocabulary \<times> break_plan"
  assume "break_state_ok s" "case p of (vocab, plan) \<Rightarrow> validate_break_plan s vocab plan = None"
  then show "\<exists>s'. break_exec s p = Inr s'"
    using apply_break_plan_result by (cases p) (fastforce simp: validate_break_plan_iff)
next
  fix s :: break_state and p :: "vocabulary \<times> break_plan" and s'
  assume "break_exec s p = Inr s'"
  then show "case p of (vocab, plan) \<Rightarrow> validate_break_plan s vocab plan = None"
    using apply_break_plan_valid by (cases p) (auto simp: rbind_Inr_iff)
qed

section \<open>Properties of breaks\<close>

text \<open>
  The check of a stored plan of breaks accepts it exactly when planning its input again gives that
  very plan: the comparison of canonical texts, with the versions of the vocabulary and of the event,
  leaves nothing else open.
\<close>

theorem break_plan_valid_iff_replanned:
  "validate_break_plan s vocab plan = None \<longleftrightarrow> plan_breaks (bp_input plan) s vocab = Inr plan"
  by (rule validate_break_plan_iff)

text \<open>
  A planned change of breaks can be applied at once: the breaks of the plan replace those of the
  same identifiers, all others stay, the schedule moves to its next version, and the state stays well
  formed (valid heads in order, one per identifier). After it, and after any further changes, the plan is
  not valid and its input cannot be planned again.
\<close>

theorem break_change_applies_once:
  assumes "break_state_ok s" "plan_breaks i s vocab = Inr plan"
  shows "\<exists>s'. apply_break_plan s vocab plan = Inr (s', bp_after plan) \<and> break_state_ok s'
    \<and> bs_scheduleVersion s' = bs_scheduleVersion s + 1
    \<and> break_catalog s' = break_catalog s ++ map_of (map (\<lambda>h. (bh_id h, h)) (bp_after plan))
    \<and> (\<forall>later s''. apply_plans break_exec s' later = Inr s'' \<longrightarrow>
        validate_break_plan s'' vocab plan \<noteq> None \<and> (\<forall>q. plan_breaks i s'' vocab \<noteq> Inr q))"
proof -
  have inp: "bp_input plan = i" using plan_breaks_parts [OF assms(2)] by blast
  from apply_break_plan_result [OF assms(1), of plan vocab] assms(2) inp obtain s' where
    s': "apply_break_plan s vocab plan = Inr (s', bp_after plan)" "break_state_ok s'"
      "bs_scheduleVersion s' = bs_scheduleVersion s + 1"
      "break_catalog s' = break_catalog s ++ map_of (map (\<lambda>h. (bh_id h, h)) (bp_after plan))"
    by auto
  have "break_make (vocab, i) s = Inr (vocab, plan)" "break_exec s (vocab, plan) = Inr s'"
    using assms(2) s'(1) by simp_all
  from break_plans.made_once [OF assms(1) this]
  have "validate_break_plan s'' vocab plan \<noteq> None \<and> (\<forall>q. plan_breaks i s'' vocab \<noteq> Inr q)"
    if "apply_plans break_exec s' later = Inr s''" for later s''
    using that by (fastforce simp: rbind_Inr_iff)
  with s' show ?thesis by blast
qed

text \<open>
  Restoring undoes removing: breaks that were removed and then restored are what they were, two
  versions on, and no other break changed.
\<close>

theorem restored_breaks_return:
  assumes "break_state_ok s" "plan_breaks (Break_remove sc v bs) s vocab = Inr plan"
    and "apply_break_plan s vocab plan = Inr (s1, r1)"
    and "plan_breaks (Break_restore sc (v + 1) (map (\<lambda>(i, w). (i, w + 1)) bs)) s1 vocab' = Inr plan2"
    and "apply_break_plan s1 vocab' plan2 = Inr (s2, r2)"
  shows "break_catalog s2 = (\<lambda>k. if k \<in> fst ` set bs
      then map_option (\<lambda>h. h \<lparr> bh_version := bh_version h + 2 \<rparr>) (break_catalog s k) else break_catalog s k)"
proof -
  note 1 = apply_toggle [OF assms(1,2), of False sc v bs s1 r1] assms(3)
  then have ok1: "break_state_ok s1"
    and c1: "break_catalog s1 = (\<lambda>k. if k \<in> fst ` set bs then map_option (toggled False) (break_catalog s k) else break_catalog s k)"
    by simp_all
  note 2 = apply_toggle [OF ok1 assms(4), of True sc "v + 1" "map (\<lambda>(i, w). (i, w + 1)) bs" s2 r2] assms(5)
  have keys: "fst ` set (map (\<lambda>(i, w). (i, w + 1)) bs) = fst ` set bs" by force
  have c2: "break_catalog s2 = (\<lambda>k. if k \<in> fst ` set bs then map_option (toggled True) (break_catalog s1 k) else break_catalog s1 k)"
    using 2 unfolding keys by simp
  have active: "bh_status h = Break_active" if k: "k \<in> fst ` set bs" and h: "break_catalog s k = Some h" for k h
  proof -
    from plan_breaks_parts [OF assms(2)] obtain before after where
      "break_images (Break_remove sc v bs) s vocab = Inr (before, after)" by blast
    then obtain images where "traverse (change_break False s vocab) bs = Inr images" by (auto simp: rbind_Inr_iff)
    moreover from k obtain b where b: "b \<in> set bs" "fst b = k" by blast
    ultimately obtain h0 h1 where "change_break False s vocab b = Inr (h0, h1)" using traverse_input by (metis surj_pair)
    from change_break_result [OF this] have "breaks_by_id s (fst b) = Some h0" "bh_status h0 = Break_active" by simp_all
    with b(2) h show ?thesis by (simp add: breaks_by_id_catalog [OF assms(1)])
  qed
  have "map_option (toggled True) (map_option (toggled False) (break_catalog s k))
      = map_option (\<lambda>h. h \<lparr> bh_version := bh_version h + 2 \<rparr>) (break_catalog s k)" if "k \<in> fst ` set bs" for k
    using active [OF that] by (cases "break_catalog s k") (auto simp: toggled_def intro!: break_head.equality)
  then show ?thesis by (simp add: c1 c2 fun_eq_iff)
qed

section \<open>Sample breaks\<close>

definition sample_break :: break_head where
  "sample_break = \<lparr> bh_id = sample_id CHR ''5'', bh_label = ''Lunch'', bh_dayKey = ''2026-08-11'',
     bh_roomId = sample_id CHR ''3'', bh_startMin = 720, bh_endMin = 780, bh_status = Break_active, bh_version = 2 \<rparr>"

definition sample_breaks :: break_state where
  "sample_breaks = \<lparr> bs_scope = sample_scope, bs_scheduleVersion = 2, bs_breaks = [sample_break],
     bs_event = \<lparr> eg_version = 2, eg_startDate = ''2026-08-10'', eg_endDate = ''2026-08-12'' \<rparr> \<rparr>"

definition sample_removal :: break_input where
  "sample_removal = Break_remove sample_scope 2 [(sample_id CHR ''5'', 2)]"

lemma sample_break_texts:
  "iso_date ''2026-08-10''" "iso_date ''2026-08-11''" "iso_date ''2026-08-12''" "bounded_text 80 ''Lunch''"
  "''2026-08-10'' \<le> ''2026-08-12''" "\<not> ''2026-08-11'' < ''2026-08-10''" "\<not> ''2026-08-12'' < ''2026-08-11''"
  by code_simp+

lemma sample_scope_ok: "scope_ok sample_scope"
  by (simp add: scope_ok_def sample_scope_def)

lemma sample_break_ok: "break_head_schema (sample_break \<lparr> bh_status := st, bh_version := v \<rparr>) \<longleftrightarrow> positive_safe v"
  by (simp add: break_head_schema_def sample_break_def sample_break_texts break_minute_def)

lemma sample_break_same: "sample_break = sample_break \<lparr> bh_status := Break_active, bh_version := 2 \<rparr>"
  by (simp add: sample_break_def)

lemma small_positive [simp]: "positive_safe 1" "positive_safe (numeral n) \<longleftrightarrow> numeral n \<le> max_safe_integer"
  by (simp_all add: positive_safe_def safe_integer_def max_safe_integer_def)

lemma sample_breaks_ok: "break_state_ok sample_breaks"
  using sample_break_ok [of 2 Break_active] sample_break_same
  by (simp add: break_state_ok_def sample_breaks_def sample_scope_ok event_guard_ok_def sample_break_texts max_safe_integer_def)

lemma sample_scope_fields: "sc_workspaceId sample_scope = sample_id CHR ''1''" "sc_eventId sample_scope = sample_id CHR ''2''"
  by (simp_all add: sample_scope_def)

lemma sample_break_fields: "bh_id sample_break = sample_id CHR ''5''" "bh_roomId sample_break = sample_id CHR ''3''"
  "bh_status sample_break = Break_active" "bh_version sample_break = 2" "bh_dayKey sample_break = ''2026-08-11''"
  by (simp_all add: sample_break_def)

lemma sample_resolve: "resolve_item sample_vocabulary Room (sample_id CHR ''3'') = Some sample_room" "pi_status sample_room = Active"
  by (simp_all add: resolve_item_def sample_vocabulary_def sample_room_def)

lemma sample_vocabulary_fields: "vs_scope sample_vocabulary = sample_scope" "vs_setVersion sample_vocabulary = 1"
  by (simp_all add: sample_vocabulary_def)

lemmas sample_break_simps = break_input_schema_def expected_breaks_schema_def one_to_hundred_def sample_scope_ok
  same_scope_def sample_vocabulary_fields sample_break_texts sample_resolve js_sort_def break_plan_schema_def
  parse_break_head_def sample_break_fields sample_break_ok max_safe_integer_def breaks_by_id_def map_entry_def

definition sample_removal_plan :: break_plan where
  "sample_removal_plan = \<lparr> bp_input = sample_removal, bp_before = [sample_break],
     bp_after = [sample_break \<lparr> bh_status := Break_removed, bh_version := 3 \<rparr>], bp_versionBefore = 2, bp_versionAfter = 3,
     bp_vocabularySetVersion = 1, bp_eventGuard = bs_event sample_breaks \<rparr>"

lemma sample_break_schema: "break_head_schema sample_break"
  using sample_break_ok [of 2 Break_active] sample_break_same by (simp add: max_safe_integer_def)

lemma sample_removal_planned: "plan_breaks sample_removal sample_breaks sample_vocabulary = Inr sample_removal_plan"
  using sample_break_schema
  by (simp add: plan_breaks_def sample_removal_def sample_break_simps change_break_def
      sample_breaks_def sample_removal_plan_def Let_def)

theorem break_change_applies_once_witness:
  "\<exists>s'. apply_break_plan sample_breaks sample_vocabulary sample_removal_plan = Inr (s', bp_after sample_removal_plan)
    \<and> bs_scheduleVersion s' = 3"
  using break_change_applies_once [OF sample_breaks_ok sample_removal_planned] by (auto simp: sample_breaks_def)

definition sample_removed :: break_state where
  "sample_removed = sample_breaks \<lparr> bs_scheduleVersion := 3,
     bs_breaks := [sample_break \<lparr> bh_status := Break_removed, bh_version := 3 \<rparr>] \<rparr>"

lemma sample_removal_applied:
  "apply_break_plan sample_breaks sample_vocabulary sample_removal_plan = Inr (sample_removed, bp_after sample_removal_plan)"
proof -
  have "validate_break_plan sample_breaks sample_vocabulary sample_removal_plan = None"
    using sample_removal_planned by (simp add: validate_break_plan_iff sample_removal_plan_def)
  then show ?thesis
    by (simp add: apply_break_plan_def sample_removed_def sample_breaks_def sample_removal_plan_def sample_break_simps
        positive_version_def safe_integer_def Let_def)
qed

theorem restored_breaks_return_witness:
  "\<exists>plan2 s2. plan_breaks (Break_restore sample_scope 3 [(sample_id CHR ''5'', 3)]) sample_removed sample_vocabulary = Inr plan2
    \<and> apply_break_plan sample_removed sample_vocabulary plan2 = Inr (s2, bp_after plan2)
    \<and> break_catalog s2 (sample_id CHR ''5'') = Some (sample_break \<lparr> bh_version := 4 \<rparr>)"
proof -
  have "\<exists>plan2. plan_breaks (Break_restore sample_scope 3 [(sample_id CHR ''5'', 3)]) sample_removed sample_vocabulary = Inr plan2"
    using sample_break_schema
    by (simp add: plan_breaks_def sample_break_simps change_break_def outside_event_def
        sample_removed_def sample_breaks_def Let_def)
  then obtain plan2 where p: "plan_breaks (Break_restore sample_scope 3 [(sample_id CHR ''5'', 3)]) sample_removed sample_vocabulary = Inr plan2"
    by blast
  have ok: "break_state_ok sample_removed"
    using apply_toggle [OF sample_breaks_ok sample_removal_planned, of False] sample_removal_applied
    by (auto simp: sample_removal_def)
  have "bp_input plan2 = Break_restore sample_scope 3 [(sample_id CHR ''5'', 3)]" using plan_breaks_parts [OF p] by blast
  with apply_break_plan_result [OF ok, of plan2 sample_vocabulary] p obtain s2 where
    a: "apply_break_plan sample_removed sample_vocabulary plan2 = Inr (s2, bp_after plan2)" by auto
  have "plan_breaks (Break_restore sample_scope (2 + 1) (map (\<lambda>(i, w). (i, w + 1)) [(sample_id CHR ''5'', 2)])) sample_removed sample_vocabulary = Inr plan2"
    using p by simp
  from restored_breaks_return [OF sample_breaks_ok sample_removal_planned [unfolded sample_removal_def] sample_removal_applied this a]
  have "break_catalog s2 (sample_id CHR ''5'') = Some (sample_break \<lparr> bh_version := 4 \<rparr>)"
    by (simp add: break_catalog_def sample_breaks_def sample_break_fields)
  with p a show ?thesis by blast
qed

end
