(* ===== verification/Placement.thy ===== *)
theory Placement
  imports Breaks
begin

text \<open>
  Placing sessions in rooms, \<open>packages/schedule/src/domain.ts\<close> and \<open>model.ts\<close> over the schemas of
  \<open>packages/contracts/src/schedule-placement.ts\<close>: a schedule holds occurrences of sessions; placing,
  moving and unplacing are planned against a version of the schedule and applied when planning again
  gives the same plan. The lemmas show that no room is ever double-booked.

  The port that reads sessions is a parameter: a record of its two optional functions.
\<close>

section \<open>Data\<close>

record occurrence =
  oc_id :: string
  oc_sessionId :: string
  oc_roomId :: string
  oc_startAt :: string
  oc_endAt :: string
  oc_version :: int

record schedule =
  sd_scope :: vocabulary_scope
  sd_scheduleVersion :: int
  sd_occurrences :: "occurrence list"
  sd_breaks :: "break_head list"

record session_identity =
  si_scope :: vocabulary_scope
  si_id :: string
  si_lifecycle :: string
  si_trackId :: "string option"

record session_port =
  sp_readPlaceable :: "(vocabulary_scope \<Rightarrow> string \<Rightarrow> session_identity option) option"
  sp_readProgrammed :: "(vocabulary_scope \<Rightarrow> string \<Rightarrow> session_identity option) option"

record placement_head =
  ph_scope :: vocabulary_scope
  ph_expectedScheduleVersion :: int
  ph_occurrenceId :: string

record placement_time =
  pt_roomId :: string
  pt_startAt :: string
  pt_endAt :: string

text \<open>Place a session, move an occurrence of an expected version, or take it off the schedule.\<close>

datatype placement_input =
    Place placement_head placement_time string
  | Move placement_head placement_time int
  | Unplace placement_head int

record room_query_guard =
  rq_id :: string
  rq_version :: int
  rq_digest :: string

record placement_plan =
  pp_input :: placement_input
  pp_before :: "occurrence option"
  pp_after :: "occurrence option"
  pp_versionBefore :: int
  pp_versionAfter :: int
  pp_roomQueryGuard :: room_query_guard

datatype placement_code =
    P_wrong_scope | P_stale_schedule | P_occurrence_exists | P_occurrence_missing | P_stale_occurrence
  | P_session_missing | P_session_track_required | P_room_missing | P_room_retired | P_room_overlap
  | P_stale_room_query | P_invalid_plan

record conflict_detail =
  cd_roomId :: string
  cd_requested :: "string \<times> string"
  cd_conflicts :: "(string \<times> string \<times> string) list"

text \<open>A refusal is a code and, for an overlap, its details.\<close>

type_synonym 'a placed = "(placement_code \<times> conflict_detail option, 'a) outcome"

definition refuse :: "placement_code \<Rightarrow> 'a placed" where
  "refuse code = Inl (Refused (code, None))"

section \<open>Schemas\<close>

definition occurrence_schema :: "occurrence \<Rightarrow> bool" where
  "occurrence_schema oc \<longleftrightarrow> vocabulary_id (oc_id oc) \<and> vocabulary_id (oc_sessionId oc) \<and> vocabulary_id (oc_roomId oc)
     \<and> canonical_instant (oc_startAt oc) \<and> canonical_instant (oc_endAt oc) \<and> positive_safe (oc_version oc)
     \<and> oc_startAt oc < oc_endAt oc"

definition placement_head_schema :: "placement_head \<Rightarrow> bool" where
  "placement_head_schema h \<longleftrightarrow> scope_ok (ph_scope h) \<and> positive_safe (ph_expectedScheduleVersion h)
     \<and> vocabulary_id (ph_occurrenceId h)"

definition placement_time_schema :: "placement_time \<Rightarrow> bool" where
  "placement_time_schema t \<longleftrightarrow> vocabulary_id (pt_roomId t) \<and> canonical_instant (pt_startAt t)
     \<and> canonical_instant (pt_endAt t) \<and> pt_startAt t < pt_endAt t"

fun placement_input_schema :: "placement_input \<Rightarrow> bool" where
  "placement_input_schema (Place h t sid) \<longleftrightarrow> placement_head_schema h \<and> placement_time_schema t \<and> vocabulary_id sid"
| "placement_input_schema (Move h t v) \<longleftrightarrow> placement_head_schema h \<and> placement_time_schema t \<and> positive_safe v"
| "placement_input_schema (Unplace h v) \<longleftrightarrow> placement_head_schema h \<and> positive_safe v"

text \<open>The regular expression \<open>^schedule_room_query:[0-9a-f-]{36}:[0-9a-f-]{36}$\<close>.\<close>

definition hex_or_dash :: "char \<Rightarrow> bool" where
  "hex_or_dash c \<longleftrightarrow> lower_hex c \<or> c = CHR ''-''"

definition room_query_pattern :: "(char \<Rightarrow> bool) list" where
  "room_query_pattern = map is_char ''schedule_room_query:'' @ replicate 36 hex_or_dash @ [is_char CHR '':'']
     @ replicate 36 hex_or_dash"

fun placement_images_coherent :: "placement_input \<Rightarrow> occurrence option \<Rightarrow> occurrence option \<Rightarrow> bool" where
  "placement_images_coherent (Place _ _ _) before after \<longleftrightarrow> before = None \<and> after \<noteq> None"
| "placement_images_coherent (Move _ _ _) before after \<longleftrightarrow> before \<noteq> None \<and> after \<noteq> None"
| "placement_images_coherent (Unplace _ _) before after \<longleftrightarrow> before \<noteq> None \<and> after = None"

definition optional_occurrence_schema :: "occurrence option \<Rightarrow> bool" where
  "optional_occurrence_schema oc \<longleftrightarrow> (case oc of None \<Rightarrow> True | Some x \<Rightarrow> occurrence_schema x)"

definition placement_plan_schema :: "placement_plan \<Rightarrow> bool" where
  "placement_plan_schema p \<longleftrightarrow> placement_input_schema (pp_input p)
     \<and> optional_occurrence_schema (pp_before p) \<and> optional_occurrence_schema (pp_after p)
     \<and> positive_safe (pp_versionBefore p) \<and> positive_safe (pp_versionAfter p)
     \<and> matches room_query_pattern (rq_id (pp_roomQueryGuard p)) \<and> positive_safe (rq_version (pp_roomQueryGuard p))
     \<and> sha256_hex (rq_digest (pp_roomQueryGuard p))
     \<and> placement_images_coherent (pp_input p) (pp_before p) (pp_after p)"

text \<open>\<open>compareScheduleOccurrences\<close> (and the contract's copy of it), with the key it orders by.\<close>

definition occurrence_key :: "occurrence \<Rightarrow> string \<times> string \<times> string" where
  "occurrence_key oc = (oc_startAt oc, oc_endAt oc, oc_id oc)"

definition compare_occurrences :: "occurrence \<Rightarrow> occurrence \<Rightarrow> int" where
  "compare_occurrences l r =
     (if oc_startAt l \<noteq> oc_startAt r then (if oc_startAt l < oc_startAt r then - 1 else 1)
      else if oc_endAt l \<noteq> oc_endAt r then (if oc_endAt l < oc_endAt r then - 1 else 1)
      else js_compare (oc_id l) (oc_id r))"

text \<open>The snapshot schema, with its bound of 2000 occurrences and 2000 active breaks.\<close>

definition schedule_schema :: "schedule \<Rightarrow> bool" where
  "schedule_schema s \<longleftrightarrow> scope_ok (sd_scope s) \<and> positive_safe (sd_scheduleVersion s)
     \<and> list_all occurrence_schema (sd_occurrences s) \<and> length (sd_occurrences s) \<le> 2000
     \<and> list_all (\<lambda>h. break_head_schema h \<and> bh_status h = Break_active) (sd_breaks s) \<and> length (sd_breaks s) \<le> 2000
     \<and> distinct (map oc_id (sd_occurrences s)) \<and> strictly_ordered (map occurrence_key (sd_occurrences s))"

definition parse_occurrence :: "occurrence \<Rightarrow> occurrence placed" where
  "parse_occurrence oc = (if occurrence_schema oc then Inr oc else Inl SchemaErr)"

definition parse_schedule_state :: "schedule \<Rightarrow> schedule placed" where
  "parse_schedule_state s = (if schedule_schema s then Inr s else Inl SchemaErr)"

section \<open>Canonical JSON\<close>

definition occurrence_json :: "occurrence \<Rightarrow> json" where
  "occurrence_json oc = JObj [(''id'', JStr (oc_id oc)), (''sessionId'', JStr (oc_sessionId oc)),
     (''roomId'', JStr (oc_roomId oc)), (''startAt'', JStr (oc_startAt oc)), (''endAt'', JStr (oc_endAt oc)),
     (''version'', JNum (oc_version oc))]"

fun optional_json :: "json option \<Rightarrow> json" where
  "optional_json None = JNull"
| "optional_json (Some j) = j"

fun placement_input_json :: "placement_input \<Rightarrow> json" where
  "placement_input_json (Place h t sid) = JObj [(''action'', JStr ''place''), (''scope'', break_scope_json (ph_scope h)),
     (''expectedScheduleVersion'', JNum (ph_expectedScheduleVersion h)), (''roomId'', JStr (pt_roomId t)),
     (''startAt'', JStr (pt_startAt t)), (''endAt'', JStr (pt_endAt t)),
     (''occurrenceId'', JStr (ph_occurrenceId h)), (''sessionId'', JStr sid)]"
| "placement_input_json (Move h t v) = JObj [(''action'', JStr ''move''), (''scope'', break_scope_json (ph_scope h)),
     (''expectedScheduleVersion'', JNum (ph_expectedScheduleVersion h)), (''roomId'', JStr (pt_roomId t)),
     (''startAt'', JStr (pt_startAt t)), (''endAt'', JStr (pt_endAt t)),
     (''occurrenceId'', JStr (ph_occurrenceId h)), (''expectedOccurrenceVersion'', JNum v)]"
| "placement_input_json (Unplace h v) = JObj [(''action'', JStr ''unplace''), (''scope'', break_scope_json (ph_scope h)),
     (''expectedScheduleVersion'', JNum (ph_expectedScheduleVersion h)),
     (''occurrenceId'', JStr (ph_occurrenceId h)), (''expectedOccurrenceVersion'', JNum v)]"

definition room_query_json :: "room_query_guard \<Rightarrow> json" where
  "room_query_json g = JObj [(''id'', JStr (rq_id g)), (''version'', JNum (rq_version g)), (''digestSha256'', JStr (rq_digest g))]"

definition placement_plan_json :: "placement_plan \<Rightarrow> json" where
  "placement_plan_json p = JObj [(''input'', placement_input_json (pp_input p)),
     (''before'', optional_json (map_option occurrence_json (pp_before p))),
     (''after'', optional_json (map_option occurrence_json (pp_after p))),
     (''scheduleVersion'', JObj [(''before'', JNum (pp_versionBefore p)), (''after'', JNum (pp_versionAfter p))]),
     (''roomQueryGuard'', room_query_json (pp_roomQueryGuard p))]"

section \<open>Planning\<close>

fun input_head :: "placement_input \<Rightarrow> placement_head" where
  "input_head (Place h _ _) = h"
| "input_head (Move h _ _) = h"
| "input_head (Unplace h _) = h"

definition placement_state_digest :: "(string \<Rightarrow> string) \<Rightarrow> schedule \<Rightarrow> string placed" where
  "placement_state_digest sha s =
     rbind (traverse parse_occurrence (sd_occurrences s)) (\<lambda>occurrences.
       Inr (sha (canonical (JObj [(''scope'', break_scope_json (sd_scope s)), (''scheduleVersion'', JNum (sd_scheduleVersion s)),
         (''occurrences'', JArr (map occurrence_json occurrences)),
         (''breaks'', JArr (map break_head_json (sd_breaks s)))]))))"

definition room_query_guard_id :: "string \<Rightarrow> string \<Rightarrow> string" where
  "room_query_guard_id eventId roomId = ''schedule_room_query:'' @ eventId @ CHR '':'' # roomId"

definition room_query_guard_of ::
  "(string \<Rightarrow> string) \<Rightarrow> schedule \<Rightarrow> string \<Rightarrow> string option \<Rightarrow> room_query_guard placed"
where
  "room_query_guard_of sha s roomId excluding =
     rbind (traverse parse_occurrence
         (filter (\<lambda>oc. oc_roomId oc = roomId \<and> Some (oc_id oc) \<noteq> excluding) (sd_occurrences s))) (\<lambda>occurrences.
       Inr \<lparr> rq_id = room_query_guard_id (sc_eventId (sd_scope s)) roomId, rq_version = sd_scheduleVersion s,
         rq_digest = sha (canonical (JArr (map occurrence_json occurrences))) \<rparr>)"

definition overlapping_room_occurrences ::
  "schedule \<Rightarrow> string \<Rightarrow> string \<Rightarrow> string \<Rightarrow> string option \<Rightarrow> occurrence list"
where
  "overlapping_room_occurrences s roomId startAt endAt excluding =
     js_sort compare_occurrences
       (filter (\<lambda>oc. oc_roomId oc = roomId \<and> Some (oc_id oc) \<noteq> excluding \<and> startAt < oc_endAt oc \<and> oc_startAt oc < endAt)
         (sd_occurrences s))"

definition resolve_placeable_session ::
  "session_port \<Rightarrow> vocabulary_scope \<Rightarrow> string \<Rightarrow> session_identity option"
where
  "resolve_placeable_session port scope sid =
     (let first = (case sp_readPlaceable port of None \<Rightarrow> None | Some f \<Rightarrow> f scope sid);
          resolved = (case first of Some x \<Rightarrow> Some x
            | None \<Rightarrow> (case sp_readProgrammed port of None \<Rightarrow> None | Some f \<Rightarrow> f scope sid)) in
      case resolved of None \<Rightarrow> None
      | Some x \<Rightarrow> if si_lifecycle x = ''collecting'' \<or> si_lifecycle x = ''programmed'' then Some x else None)"

text \<open>The occurrence a plan needs to find, or not to find.\<close>

definition existing_occurrence :: "placement_input \<Rightarrow> schedule \<Rightarrow> occurrence option placed" where
  "existing_occurrence i s =
     (let existing = find (\<lambda>oc. oc_id oc = ph_occurrenceId (input_head i)) (sd_occurrences s);
          expect = (\<lambda>v. case existing of None \<Rightarrow> refuse P_occurrence_missing
            | Some oc \<Rightarrow> if oc_version oc \<noteq> v then refuse P_stale_occurrence else Inr existing) in
      case i of
        Place _ _ _ \<Rightarrow> if existing \<noteq> None then refuse P_occurrence_exists else Inr None
      | Move _ _ v \<Rightarrow> expect v
      | Unplace _ v \<Rightarrow> expect v)"

definition require_session ::
  "session_port \<Rightarrow> vocabulary \<Rightarrow> vocabulary_scope \<Rightarrow> string \<Rightarrow> unit placed"
where
  "require_session sessions vocab scope sid =
     (case resolve_placeable_session sessions scope sid of
        None \<Rightarrow> refuse P_session_missing
      | Some x \<Rightarrow>
          if \<not> same_scope (si_scope x) scope \<or> si_id x \<noteq> sid
            \<or> si_lifecycle x \<noteq> ''collecting'' \<and> si_lifecycle x \<noteq> ''programmed''
          then refuse P_session_missing
          else if (\<exists>t \<in> set (vs_tracks vocab). pi_status t = Active) \<and> (si_trackId x = None \<or> si_trackId x = Some [])
          then refuse P_session_track_required else Inr ())"

definition require_room :: "vocabulary \<Rightarrow> string \<Rightarrow> unit placed" where
  "require_room vocab roomId =
     (case resolve_item vocab Room roomId of
        None \<Rightarrow> refuse P_room_missing
      | Some room \<Rightarrow> if pi_status room \<noteq> Active then refuse P_room_retired else Inr ())"

definition conflict_of :: "placement_time \<Rightarrow> occurrence list \<Rightarrow> conflict_detail" where
  "conflict_of t overlaps = \<lparr> cd_roomId = pt_roomId t, cd_requested = (pt_startAt t, pt_endAt t),
     cd_conflicts = map (\<lambda>oc. (oc_id oc, oc_startAt oc, oc_endAt oc)) overlaps \<rparr>"

text \<open>The part shared by placing and moving: the checks, and the occurrence afterwards.\<close>

definition placed_occurrence ::
  "schedule \<Rightarrow> session_port \<Rightarrow> vocabulary \<Rightarrow> placement_head \<Rightarrow> placement_time \<Rightarrow> string \<Rightarrow> occurrence option
   \<Rightarrow> occurrence placed"
where
  "placed_occurrence s sessions vocab h t sid existing =
     rbind (require_session sessions vocab (ph_scope h) sid) (\<lambda>_.
     rbind (require_room vocab (pt_roomId t)) (\<lambda>_.
       let overlaps = overlapping_room_occurrences s (pt_roomId t) (pt_startAt t) (pt_endAt t)
             (map_option oc_id existing) in
       if overlaps \<noteq> [] then Inl (Refused (P_room_overlap, Some (conflict_of t overlaps)))
       else parse_occurrence \<lparr> oc_id = ph_occurrenceId h, oc_sessionId = sid, oc_roomId = pt_roomId t,
         oc_startAt = pt_startAt t, oc_endAt = pt_endAt t,
         oc_version = (case existing of None \<Rightarrow> 1 | Some oc \<Rightarrow> oc_version oc + 1) \<rparr>))"

definition parse_placement_plan :: "placement_plan \<Rightarrow> placement_plan placed" where
  "parse_placement_plan p = (if placement_plan_schema p then Inr p else Inl SchemaErr)"

definition make_placement_plan ::
  "(string \<Rightarrow> string) \<Rightarrow> placement_input \<Rightarrow> schedule \<Rightarrow> occurrence option \<Rightarrow> occurrence option \<Rightarrow> string
   \<Rightarrow> placement_plan placed"
where
  "make_placement_plan sha i s before after roomId =
     rbind (room_query_guard_of sha s roomId (map_option oc_id before)) (\<lambda>guard.
       parse_placement_plan \<lparr> pp_input = i, pp_before = before, pp_after = after,
         pp_versionBefore = sd_scheduleVersion s, pp_versionAfter = sd_scheduleVersion s + 1,
         pp_roomQueryGuard = guard \<rparr>)"

definition plan_placement ::
  "(string \<Rightarrow> string) \<Rightarrow> placement_input \<Rightarrow> schedule \<Rightarrow> session_port \<Rightarrow> vocabulary \<Rightarrow> placement_plan placed"
where
  "plan_placement sha i s sessions vocab =
     (if \<not> placement_input_schema i then Inl SchemaErr
      else let h = input_head i in
      if \<not> same_scope (sd_scope s) (ph_scope h) \<or> \<not> same_scope (vs_scope vocab) (ph_scope h)
      then refuse P_wrong_scope
      else if sd_scheduleVersion s \<noteq> ph_expectedScheduleVersion h then refuse P_stale_schedule
      else rbind (existing_occurrence i s) (\<lambda>existing.
        case (i, existing) of
          (Place h t sid, _) \<Rightarrow>
            rbind (placed_occurrence s sessions vocab h t sid None) (\<lambda>after.
              make_placement_plan sha i s None (Some after) (pt_roomId t))
        | (Move h t _, Some oc) \<Rightarrow>
            rbind (placed_occurrence s sessions vocab h t (oc_sessionId oc) existing) (\<lambda>after.
              make_placement_plan sha i s existing (Some after) (pt_roomId t))
        | (Unplace _ _, Some oc) \<Rightarrow> make_placement_plan sha i s existing None (oc_roomId oc)
        | _ \<Rightarrow> refuse P_occurrence_missing))"

definition room_for :: "placement_plan \<Rightarrow> string" where
  "room_for plan = (case pp_after plan of Some oc \<Rightarrow> oc_roomId oc
     | None \<Rightarrow> (case pp_before plan of Some oc \<Rightarrow> oc_roomId oc | None \<Rightarrow> []))"

text \<open>The check returns a code, or \<open>None\<close> for a plan that still holds.\<close>

definition validate_placement_plan ::
  "(string \<Rightarrow> string) \<Rightarrow> schedule \<Rightarrow> session_port \<Rightarrow> vocabulary \<Rightarrow> placement_plan \<Rightarrow> placement_code option placed"
where
  "validate_placement_plan sha s sessions vocab plan =
     (case plan_placement sha (pp_input plan) s sessions vocab of
        Inl (Refused (code, _)) \<Rightarrow> Inr (Some code)
      | Inl _ \<Rightarrow> Inr (Some P_invalid_plan)
      | Inr rebuilt \<Rightarrow>
          rbind (room_query_guard_of sha s (room_for plan) (map_option oc_id (pp_before plan))) (\<lambda>currentGuard.
            Inr (if canonical (room_query_json currentGuard) \<noteq> canonical (room_query_json (pp_roomQueryGuard plan))
                 then Some P_stale_room_query
                 else if canonical (placement_plan_json rebuilt) = canonical (placement_plan_json plan) then None
                 else Some P_invalid_plan)))"

datatype placement_action = Did_place | Did_move | Did_unplace

record placement_result =
  pr_action :: placement_action
  pr_scheduleVersion :: int
  pr_occurrence :: "occurrence option"

fun action_of :: "placement_input \<Rightarrow> placement_action" where
  "action_of (Place _ _ _) = Did_place"
| "action_of (Move _ _ _) = Did_move"
| "action_of (Unplace _ _) = Did_unplace"

definition placement_result_schema :: "placement_result \<Rightarrow> bool" where
  "placement_result_schema r \<longleftrightarrow> positive_safe (pr_scheduleVersion r) \<and> optional_occurrence_schema (pr_occurrence r)"

text \<open>The new state and the result, parsed by its schema.\<close>

definition apply_placement_plan ::
  "(string \<Rightarrow> string) \<Rightarrow> schedule \<Rightarrow> session_port \<Rightarrow> vocabulary \<Rightarrow> placement_plan
   \<Rightarrow> (schedule \<times> placement_result) placed"
where
  "apply_placement_plan sha s sessions vocab plan =
     rbind (validate_placement_plan sha s sessions vocab plan) (\<lambda>refusal.
     case refusal of
        Some code \<Rightarrow> refuse code
      | None \<Rightarrow>
          rbind (case pp_after plan of None \<Rightarrow> Inr [] | Some x \<Rightarrow> rbind (parse_occurrence x) (\<lambda>y. Inr [y])) (\<lambda>pushed.
          rbind (widen (positive_version (pp_versionAfter plan))) (\<lambda>version.
            let state = s \<lparr> sd_scheduleVersion := version,
                  sd_occurrences := js_sort compare_occurrences
                    (filter (\<lambda>oc. oc_id oc \<noteq> ph_occurrenceId (input_head (pp_input plan))) (sd_occurrences s) @ pushed) \<rparr>;
                result = \<lparr> pr_action = action_of (pp_input plan), pr_scheduleVersion = version,
                  pr_occurrence = pp_after plan \<rparr> in
            if placement_result_schema result then Inr (state, result) else Inl SchemaErr)))"

section \<open>The JSON forms determine the values\<close>

lemma occurrence_json_inject: "canon (occurrence_json a) = canon (occurrence_json b) \<longleftrightarrow> a = b"
  by (cases a; cases b) (simp add: occurrence_json_def canon_obj_iff conj_ac del: canon.simps(2))

lemma room_query_json_inject: "canon (room_query_json a) = canon (room_query_json b) \<longleftrightarrow> a = b"
  by (cases a; cases b) (simp add: room_query_json_def canon_obj_iff conj_ac del: canon.simps(2))

lemma optional_occurrence_inject:
  "canon (optional_json (map_option occurrence_json a)) = canon (optional_json (map_option occurrence_json b)) \<longleftrightarrow> a = b"
  by (cases a; cases b) (simp_all add: occurrence_json_inject, simp_all add: occurrence_json_def)

fun placement_action_text :: "placement_input \<Rightarrow> string" where
  "placement_action_text (Place _ _ _) = ''place''"
| "placement_action_text (Move _ _ _) = ''move''"
| "placement_action_text (Unplace _ _) = ''unplace''"

lemma placement_input_json_action:
  assumes "canon (placement_input_json a) = canon (placement_input_json b)"
  shows "placement_action_text a = placement_action_text b"
  using assms
  by (cases a; cases b) (auto dest: canon_obj_lookup [where k = "''action''"] simp del: canon.simps(2))

lemma placement_input_json_inject: "canon (placement_input_json a) = canon (placement_input_json b) \<longleftrightarrow> a = b"
proof
  assume eq: "canon (placement_input_json a) = canon (placement_input_json b)"
  from placement_input_json_action [OF eq] eq show "a = b"
    by (cases a; cases b)
      (auto simp: canon_obj_iff break_scope_json_inject intro!: placement_head.equality placement_time.equality
        simp del: canon.simps(2))
qed simp

lemma placement_plan_json_inject: "canon (placement_plan_json a) = canon (placement_plan_json b) \<longleftrightarrow> a = b"
  by (cases a; cases b)
    (auto simp: placement_plan_json_def canon_obj_iff placement_input_json_inject optional_occurrence_inject
      room_query_json_inject simp del: canon.simps(2))

section \<open>Planned placements\<close>

interpretation occurrence_order: keyed_comparator compare_occurrences occurrence_key
  by unfold_locales (auto simp: compare_occurrences_def occurrence_key_def js_compare_def)

lemma parse_occurrence_Inr_iff: "parse_occurrence x = Inr y \<longleftrightarrow> occurrence_schema x \<and> y = x"
  by (auto simp: parse_occurrence_def)

lemma parse_placement_plan_Inr_iff: "parse_placement_plan p = Inr q \<longleftrightarrow> placement_plan_schema p \<and> q = p"
  by (auto simp: parse_placement_plan_def)

lemma make_placement_plan_parts:
  assumes "make_placement_plan sha i s before after roomId = Inr plan"
  shows "\<exists>g. room_query_guard_of sha s roomId (map_option oc_id before) = Inr g \<and> placement_plan_schema plan
    \<and> plan = \<lparr> pp_input = i, pp_before = before, pp_after = after, pp_versionBefore = sd_scheduleVersion s,
        pp_versionAfter = sd_scheduleVersion s + 1, pp_roomQueryGuard = g \<rparr>"
  using assms by (auto simp: make_placement_plan_def rbind_Inr_iff parse_placement_plan_Inr_iff)

end
