(* ===== verification/PlacementChanges.thy ===== *)
theory PlacementChanges
  imports Placement
begin

text \<open>
  What planned placements do to a schedule: no room is ever double-booked, a planned placement applies
  once and changes nothing else, a refused overlap names the conflicting occurrences, and taking a
  placement off the schedule again restores it.
\<close>

section \<open>Well-formed schedules\<close>

definition disjoint_times :: "occurrence \<Rightarrow> occurrence \<Rightarrow> bool" where
  "disjoint_times x y \<longleftrightarrow> oc_endAt x \<le> oc_startAt y \<or> oc_endAt y \<le> oc_startAt x"

text \<open>Two different occurrences in one room do not overlap.\<close>

definition no_double_booking :: "occurrence list \<Rightarrow> bool" where
  "no_double_booking os \<longleftrightarrow>
     (\<forall>x \<in> set os. \<forall>y \<in> set os. oc_id x \<noteq> oc_id y \<longrightarrow> oc_roomId x = oc_roomId y \<longrightarrow> disjoint_times x y)"

definition schedule_ok :: "schedule \<Rightarrow> bool" where
  "schedule_ok s \<longleftrightarrow> scope_ok (sd_scope s) \<and> positive_safe (sd_scheduleVersion s)
     \<and> (\<forall>x \<in> set (sd_occurrences s). occurrence_schema x) \<and> sorted (map occurrence_key (sd_occurrences s))
     \<and> distinct (map oc_id (sd_occurrences s)) \<and> no_double_booking (sd_occurrences s)"

definition occurrence_catalog :: "schedule \<Rightarrow> string \<Rightarrow> occurrence option" where
  "occurrence_catalog s = map_of (map (\<lambda>x. (oc_id x, x)) (sd_occurrences s))"

lemma occurrence_catalog_iff:
  "schedule_ok s \<Longrightarrow> occurrence_catalog s i = Some x \<longleftrightarrow> x \<in> set (sd_occurrences s) \<and> oc_id x = i"
  unfolding occurrence_catalog_def schedule_ok_def by (rule map_of_keyed) simp

lemma find_occurrence:
  "find (\<lambda>x. oc_id x = i) (sd_occurrences s) = occurrence_catalog s i"
  by (simp add: occurrence_catalog_def find_keyed)

section \<open>Taking planning apart\<close>

lemma existing_occurrence_Inr:
  assumes "existing_occurrence i s = Inr existing"
  shows "existing = find (\<lambda>x. oc_id x = ph_occurrenceId (input_head i)) (sd_occurrences s)
    \<and> (case i of Place _ _ _ \<Rightarrow> existing = None
       | Move _ _ v \<Rightarrow> \<exists>x. existing = Some x \<and> oc_version x = v
       | Unplace _ v \<Rightarrow> \<exists>x. existing = Some x \<and> oc_version x = v)"
  using assms
  by (cases i; cases "find (\<lambda>x. oc_id x = ph_occurrenceId (input_head i)) (sd_occurrences s)")
    (auto simp: existing_occurrence_def refuse_def Let_def dest!: sym [of "Some _"] split: if_splits)

lemma placed_occurrence_Inr:
  "placed_occurrence s sessions vocab h t sid existing = Inr a \<longleftrightarrow>
    require_session sessions vocab (ph_scope h) sid = Inr () \<and> require_room vocab (pt_roomId t) = Inr ()
    \<and> overlapping_room_occurrences s (pt_roomId t) (pt_startAt t) (pt_endAt t) (map_option oc_id existing) = []
    \<and> occurrence_schema a
    \<and> a = \<lparr> oc_id = ph_occurrenceId h, oc_sessionId = sid, oc_roomId = pt_roomId t, oc_startAt = pt_startAt t,
        oc_endAt = pt_endAt t, oc_version = (case existing of None \<Rightarrow> 1 | Some x \<Rightarrow> oc_version x + 1) \<rparr>"
  unfolding placed_occurrence_def
  by (auto simp: rbind_Inr_iff parse_occurrence_def Let_def split: if_splits)

definition planned_image ::
  "schedule \<Rightarrow> session_port \<Rightarrow> vocabulary \<Rightarrow> placement_input \<Rightarrow> occurrence option \<Rightarrow> occurrence option \<Rightarrow> bool"
where
  "planned_image s sessions vocab i before after \<longleftrightarrow>
     (case i of
        Place h t sid \<Rightarrow> before = None \<and> (\<exists>a. after = Some a \<and> placed_occurrence s sessions vocab h t sid None = Inr a)
      | Move h t v \<Rightarrow> (\<exists>x a. before = Some x \<and> oc_version x = v \<and> after = Some a
          \<and> placed_occurrence s sessions vocab h t (oc_sessionId x) before = Inr a)
      | Unplace h v \<Rightarrow> (\<exists>x. before = Some x \<and> oc_version x = v \<and> after = None))"

lemma plan_placement_parts:
  assumes "plan_placement sha i s sessions vocab = Inr plan"
  shows "placement_input_schema i" "same_scope (sd_scope s) (ph_scope (input_head i))"
    "same_scope (vs_scope vocab) (ph_scope (input_head i))"
    "sd_scheduleVersion s = ph_expectedScheduleVersion (input_head i)"
    "pp_before plan = find (\<lambda>x. oc_id x = ph_occurrenceId (input_head i)) (sd_occurrences s)"
    "planned_image s sessions vocab i (pp_before plan) (pp_after plan)"
    "pp_input plan = i" "pp_versionBefore plan = sd_scheduleVersion s"
    "pp_versionAfter plan = sd_scheduleVersion s + 1" "placement_plan_schema plan"
    "room_query_guard_of sha s (room_for plan) (map_option oc_id (pp_before plan)) = Inr (pp_roomQueryGuard plan)"
proof -
  from assms have sch: "placement_input_schema i" and sc: "same_scope (sd_scope s) (ph_scope (input_head i))"
    "same_scope (vs_scope vocab) (ph_scope (input_head i))"
    and v: "sd_scheduleVersion s = ph_expectedScheduleVersion (input_head i)"
    by (auto simp: plan_placement_def refuse_def Let_def split: if_splits)
  with assms obtain existing where ex: "existing_occurrence i s = Inr existing"
    and m: "(case (i, existing) of
          (Place h t sid, _) \<Rightarrow>
            rbind (placed_occurrence s sessions vocab h t sid None) (\<lambda>after.
              make_placement_plan sha i s None (Some after) (pt_roomId t))
        | (Move h t _, Some x) \<Rightarrow>
            rbind (placed_occurrence s sessions vocab h t (oc_sessionId x) existing) (\<lambda>after.
              make_placement_plan sha i s existing (Some after) (pt_roomId t))
        | (Unplace _ _, Some x) \<Rightarrow> make_placement_plan sha i s existing None (oc_roomId x)
        | _ \<Rightarrow> refuse P_occurrence_missing) = Inr plan"
    by (auto simp: plan_placement_def rbind_Inr_iff Let_def)
  note e = existing_occurrence_Inr [OF ex]
  have "\<exists>before after roomId. make_placement_plan sha i s before after roomId = Inr plan \<and> before = existing
      \<and> planned_image s sessions vocab i before after
      \<and> roomId = (case after of Some x \<Rightarrow> oc_roomId x | None \<Rightarrow> (case before of Some x \<Rightarrow> oc_roomId x | None \<Rightarrow> []))"
  proof (cases i)
    case (Place h t sid)
    with m e show ?thesis by (auto simp: planned_image_def rbind_Inr_iff placed_occurrence_Inr)
  next
    case (Move h t w)
    with m e show ?thesis by (auto simp: planned_image_def rbind_Inr_iff placed_occurrence_Inr)
  next
    case (Unplace h w)
    with m e show ?thesis by (auto simp: planned_image_def)
  qed
  then obtain before after roomId where mk: "make_placement_plan sha i s before after roomId = Inr plan"
    and img: "before = existing" "planned_image s sessions vocab i before after"
      "roomId = (case after of Some x \<Rightarrow> oc_roomId x | None \<Rightarrow> (case before of Some x \<Rightarrow> oc_roomId x | None \<Rightarrow> []))"
    by blast
  note p = make_placement_plan_parts [OF mk]
  show "placement_input_schema i" "same_scope (sd_scope s) (ph_scope (input_head i))"
    "same_scope (vs_scope vocab) (ph_scope (input_head i))"
    "sd_scheduleVersion s = ph_expectedScheduleVersion (input_head i)" by fact+
  show "pp_before plan = find (\<lambda>x. oc_id x = ph_occurrenceId (input_head i)) (sd_occurrences s)"
    "planned_image s sessions vocab i (pp_before plan) (pp_after plan)"
    "pp_input plan = i" "pp_versionBefore plan = sd_scheduleVersion s"
    "pp_versionAfter plan = sd_scheduleVersion s + 1" "placement_plan_schema plan"
    "room_query_guard_of sha s (room_for plan) (map_option oc_id (pp_before plan)) = Inr (pp_roomQueryGuard plan)"
    using p e img by (auto simp: room_for_def split: option.splits)
qed

text \<open>The check of a stored plan accepts what planning again gives, and nothing else.\<close>

lemma validate_placement_plan_iff:
  "validate_placement_plan sha s sessions vocab plan = Inr None
    \<longleftrightarrow> plan_placement sha (pp_input plan) s sessions vocab = Inr plan"
proof
  assume "validate_placement_plan sha s sessions vocab plan = Inr None"
  then show "plan_placement sha (pp_input plan) s sessions vocab = Inr plan"
    by (auto simp: validate_placement_plan_def canonical_inject placement_plan_json_inject rbind_Inr_iff
        split: if_splits sum.splits failure.splits)
next
  assume p: "plan_placement sha (pp_input plan) s sessions vocab = Inr plan"
  from plan_placement_parts(11) [OF p] p show "validate_placement_plan sha s sessions vocab plan = Inr None"
    by (simp add: validate_placement_plan_def)
qed

section \<open>Applying a placement\<close>

lemma no_overlap_iff:
  "overlapping_room_occurrences s roomId startAt endAt excluding = [] \<longleftrightarrow>
    (\<forall>x \<in> set (sd_occurrences s). oc_roomId x = roomId \<longrightarrow> Some (oc_id x) \<noteq> excluding
      \<longrightarrow> endAt \<le> oc_startAt x \<or> oc_endAt x \<le> startAt)"
proof -
  have "overlapping_room_occurrences s roomId startAt endAt excluding = []
    \<longleftrightarrow> set (overlapping_room_occurrences s roomId startAt endAt excluding) = {}" by simp
  also have "\<dots> \<longleftrightarrow> (\<forall>x \<in> set (sd_occurrences s). \<not> (oc_roomId x = roomId \<and> Some (oc_id x) \<noteq> excluding
      \<and> startAt < oc_endAt x \<and> oc_startAt x < endAt))"
    unfolding overlapping_room_occurrences_def occurrence_order.js_sort_set by auto
  finally show ?thesis unfolding not_less [symmetric] by blast
qed

lemma no_double_booking_filter: "no_double_booking os \<Longrightarrow> no_double_booking (filter P os)"
  by (auto simp: no_double_booking_def)

lemma no_double_booking_mset: "set os' = set os \<Longrightarrow> no_double_booking os' = no_double_booking os"
  by (simp add: no_double_booking_def)

lemma disjoint_sym: "disjoint_times x y \<longleftrightarrow> disjoint_times y x"
  by (auto simp: disjoint_times_def)

lemma no_double_booking_snoc:
  assumes "no_double_booking os"
    and "\<And>x. x \<in> set os \<Longrightarrow> oc_id x \<noteq> oc_id a \<Longrightarrow> oc_roomId x = oc_roomId a \<Longrightarrow> disjoint_times x a"
  shows "no_double_booking (os @ [a])"
  using assms disjoint_sym by (auto simp: no_double_booking_def) (metis disjoint_sym)?

text \<open>The image after a plan: it has the planned identifier and overlaps no other occurrence.\<close>

lemma planned_image_after:
  assumes "planned_image s sessions vocab i before (Some a)"
    and "before = find (\<lambda>x. oc_id x = ph_occurrenceId (input_head i)) (sd_occurrences s)"
  shows "oc_id a = ph_occurrenceId (input_head i)" "occurrence_schema a"
    "x \<in> set (sd_occurrences s) \<Longrightarrow> oc_id x \<noteq> oc_id a \<Longrightarrow> oc_roomId x = oc_roomId a \<Longrightarrow> disjoint_times x a"
proof -
  obtain h t sid where a: "placed_occurrence s sessions vocab h t sid before = Inr a" and h: "h = input_head i"
    using assms(1) by (cases i) (auto simp: planned_image_def)
  show "occurrence_schema a" using a unfolding placed_occurrence_Inr by blast
  from a h show id: "oc_id a = ph_occurrenceId (input_head i)" by (simp add: placed_occurrence_Inr)
  assume x: "x \<in> set (sd_occurrences s)" "oc_id x \<noteq> oc_id a" "oc_roomId x = oc_roomId a"
  have "Some (oc_id x) \<noteq> map_option oc_id before"
  proof (cases before)
    case (Some b)
    with find_result [of "\<lambda>x. oc_id x = ph_occurrenceId (input_head i)" "sd_occurrences s" b] assms(2)
    have "oc_id b = ph_occurrenceId (input_head i)" by simp
    with Some x(2) id show ?thesis by simp
  qed simp
  then show "disjoint_times x a"
    using a x by (auto simp: placed_occurrence_Inr no_overlap_iff disjoint_times_def)
qed

definition placed_occurrences :: "schedule \<Rightarrow> placement_plan \<Rightarrow> occurrence list" where
  "placed_occurrences s plan = filter (\<lambda>x. oc_id x \<noteq> ph_occurrenceId (input_head (pp_input plan))) (sd_occurrences s)
     @ (case pp_after plan of None \<Rightarrow> [] | Some a \<Rightarrow> [a])"

lemma placed_occurrences_ok:
  assumes ok: "schedule_ok s" and p: "plan_placement sha (pp_input plan) s sessions vocab = Inr plan"
  shows "no_double_booking (placed_occurrences s plan) \<and> distinct (map oc_id (placed_occurrences s plan))
    \<and> (\<forall>x \<in> set (placed_occurrences s plan). occurrence_schema x)
    \<and> map_of (map (\<lambda>x. (oc_id x, x)) (placed_occurrences s plan))
      = (occurrence_catalog s)(ph_occurrenceId (input_head (pp_input plan)) := pp_after plan)"
proof -
  let ?k = "ph_occurrenceId (input_head (pp_input plan))"
  let ?kept = "filter (\<lambda>x. oc_id x \<noteq> ?k) (sd_occurrences s)"
  note img = planned_image_after [OF _ plan_placement_parts(5) [OF p]]
  have im: "planned_image s sessions vocab (pp_input plan) (pp_before plan) (pp_after plan)"
    by (rule plan_placement_parts(6) [OF p])
  from ok have kept: "no_double_booking ?kept" "distinct (map oc_id ?kept)" "\<forall>x \<in> set ?kept. occurrence_schema x"
    by (auto simp: schedule_ok_def no_double_booking_filter distinct_map_filter)
  have cat: "map_of (map (\<lambda>x. (oc_id x, x)) ?kept) = (occurrence_catalog s)(?k := None)"
    by (simp add: occurrence_catalog_def map_of_keyed_filter)
  show ?thesis
  proof (cases "pp_after plan")
    case None
    then have "placed_occurrences s plan = ?kept" by (simp add: placed_occurrences_def)
    then show ?thesis using kept cat None by simp
  next
    case (Some a)
    then have e: "placed_occurrences s plan = ?kept @ [a]" by (simp add: placed_occurrences_def)
    note a = img [OF im [unfolded Some]]
    have "no_double_booking (?kept @ [a])"
      using kept(1) a(3) by (intro no_double_booking_snoc) auto
    moreover have "distinct (map oc_id (?kept @ [a]))" using kept(2) a(1) by auto
    moreover have "map_of (map (\<lambda>x. (oc_id x, x)) (?kept @ [a])) = (occurrence_catalog s)(?k := Some a)"
      using a(1) by (auto simp: map_add_def cat fun_eq_iff split: option.split)
    ultimately show ?thesis unfolding e Some using kept(3) a(2) by auto
  qed
qed

lemma apply_placement_plan_result:
  assumes ok: "schedule_ok s" and p: "plan_placement sha (pp_input plan) s sessions vocab = Inr plan"
  shows "\<exists>s'. apply_placement_plan sha s sessions vocab plan
      = Inr (s', \<lparr> pr_action = action_of (pp_input plan), pr_scheduleVersion = sd_scheduleVersion s + 1,
          pr_occurrence = pp_after plan \<rparr>)
    \<and> schedule_ok s' \<and> sd_scope s' = sd_scope s \<and> sd_breaks s' = sd_breaks s
    \<and> sd_scheduleVersion s' = sd_scheduleVersion s + 1
    \<and> occurrence_catalog s' = (occurrence_catalog s)(ph_occurrenceId (input_head (pp_input plan)) := pp_after plan)"
proof -
  note placed = placed_occurrences_ok [OF ok p]
  let ?os = "js_sort compare_occurrences (placed_occurrences s plan)"
  let ?s' = "s \<lparr> sd_scheduleVersion := sd_scheduleVersion s + 1, sd_occurrences := ?os \<rparr>"
  have v: "pp_versionAfter plan = sd_scheduleVersion s + 1" by (rule plan_placement_parts(9) [OF p])
  have sch: "placement_plan_schema plan" by (rule plan_placement_parts(10) [OF p])
  then have vs: "positive_safe (sd_scheduleVersion s + 1)" and os: "optional_occurrence_schema (pp_after plan)"
    by (simp_all add: placement_plan_schema_def v)
  have pv: "positive_version (pp_versionAfter plan) = Inr (sd_scheduleVersion s + 1)"
    using vs by (simp add: positive_version_def v positive_safe_def)
  have "validate_placement_plan sha s sessions vocab plan = Inr None" using p by (simp add: validate_placement_plan_iff)
  moreover have "(case pp_after plan of None \<Rightarrow> Inr [] | Some x \<Rightarrow> rbind (parse_occurrence x) (\<lambda>y. Inr [y]))
      = Inr (case pp_after plan of None \<Rightarrow> [] | Some a \<Rightarrow> [a])"
    using os by (cases "pp_after plan") (simp_all add: optional_occurrence_schema_def parse_occurrence_def)
  ultimately have a: "apply_placement_plan sha s sessions vocab plan
      = Inr (?s', \<lparr> pr_action = action_of (pp_input plan), pr_scheduleVersion = sd_scheduleVersion s + 1,
          pr_occurrence = pp_after plan \<rparr>)"
    using pv vs os by (simp add: apply_placement_plan_def placed_occurrences_def placement_result_schema_def Let_def)
  have "schedule_ok ?s'"
    using ok vs placed no_double_booking_mset [of ?os "placed_occurrences s plan"]
    by (simp add: schedule_ok_def occurrence_order.js_sort_set occurrence_order.js_sort_sorted occurrence_order.js_sort_distinct)
  moreover have "occurrence_catalog ?s' = (occurrence_catalog s)(ph_occurrenceId (input_head (pp_input plan)) := pp_after plan)"
  proof -
    have "map_of (map (\<lambda>x. (oc_id x, x)) ?os) = map_of (map (\<lambda>x. (oc_id x, x)) (placed_occurrences s plan))"
      using placed
      by (intro map_of_keyed_set) (simp_all add: occurrence_order.js_sort_set occurrence_order.js_sort_distinct)
    then show ?thesis using placed by (simp add: occurrence_catalog_def)
  qed
  ultimately show ?thesis using a by auto
qed

section \<open>Histories of a schedule\<close>

text \<open>
  A plan is applied in the environment of its moment: the sessions that can be placed and the
  vocabulary. Both are part of the command, so a history may change them between any two plans.
\<close>

type_synonym placement_command = "session_port \<times> vocabulary \<times> placement_plan"

fun placement_exec :: "(string \<Rightarrow> string) \<Rightarrow> schedule \<Rightarrow> placement_command \<Rightarrow> schedule placed" where
  "placement_exec sha s (sessions, vocab, plan) = rbind (apply_placement_plan sha s sessions vocab plan) (\<lambda>r. Inr (fst r))"

fun placement_make ::
  "(string \<Rightarrow> string) \<Rightarrow> session_port \<times> vocabulary \<times> placement_input \<Rightarrow> schedule \<Rightarrow> placement_command placed"
where
  "placement_make sha (sessions, vocab, i) s =
     rbind (plan_placement sha i s sessions vocab) (\<lambda>p. Inr (sessions, vocab, p))"

definition command_plan :: "placement_command \<Rightarrow> placement_plan" where
  "command_plan c = snd (snd c)"

lemma apply_placement_valid:
  "apply_placement_plan sha s sessions vocab plan = Inr r \<Longrightarrow> validate_placement_plan sha s sessions vocab plan = Inr None"
  by (auto simp: apply_placement_plan_def rbind_Inr_iff refuse_def split: option.splits)

lemma placement_exec_Inr:
  assumes "schedule_ok s" "placement_exec sha s c = Inr s'"
  shows "\<exists>sessions vocab plan. c = (sessions, vocab, plan) \<and> plan_placement sha (pp_input plan) s sessions vocab = Inr plan
    \<and> schedule_ok s' \<and> sd_scheduleVersion s' = sd_scheduleVersion s + 1 \<and> sd_breaks s' = sd_breaks s
    \<and> sd_scope s' = sd_scope s
    \<and> occurrence_catalog s' = (occurrence_catalog s)(ph_occurrenceId (input_head (pp_input plan)) := pp_after plan)"
proof -
  obtain sessions vocab plan where c: "c = (sessions, vocab, plan)" by (cases c)
  with assms obtain r where a: "apply_placement_plan sha s sessions vocab plan = Inr (s', r)"
    by (auto simp: rbind_Inr_iff)
  have p: "plan_placement sha (pp_input plan) s sessions vocab = Inr plan"
    using apply_placement_valid [OF a] by (simp add: validate_placement_plan_iff)
  from apply_placement_plan_result [OF assms(1) p] a c p show ?thesis by auto
qed

interpretation placement_plans: replanned_plans schedule_ok sd_scheduleVersion "\<lambda>c. pp_versionBefore (command_plan c)"
  "placement_exec sha" "placement_make sha" "\<lambda>(sessions, vocab, plan). (sessions, vocab, pp_input plan)"
  "\<lambda>s (sessions, vocab, plan). validate_placement_plan sha s sessions vocab plan = Inr None"
proof unfold_locales
  fix s :: schedule and c :: placement_command and s'
  assume ok: "schedule_ok s" and e: "placement_exec sha s c = Inr s'"
  from placement_exec_Inr [OF this] obtain sessions vocab plan where c: "c = (sessions, vocab, plan)"
    and p: "plan_placement sha (pp_input plan) s sessions vocab = Inr plan"
    and r: "schedule_ok s'" "sd_scheduleVersion s' = sd_scheduleVersion s + 1" by blast
  show "schedule_ok s'" "sd_scheduleVersion s' = sd_scheduleVersion s + 1" by fact+
  show "pp_versionBefore (command_plan c) = sd_scheduleVersion s"
    using plan_placement_parts(8) [OF p] by (simp add: c command_plan_def)
next
  fix s :: schedule and c :: placement_command
  show "(case c of (sessions, vocab, plan) \<Rightarrow> validate_placement_plan sha s sessions vocab plan = Inr None)
    = (placement_make sha (case c of (sessions, vocab, plan) \<Rightarrow> (sessions, vocab, pp_input plan)) s = Inr c)"
    by (cases c) (auto simp: validate_placement_plan_iff rbind_Inr_iff)
next
  fix s t :: schedule and i :: "session_port \<times> vocabulary \<times> placement_input" and p q
  obtain sessions vocab inp where i: "i = (sessions, vocab, inp)" by (cases i)
  assume m: "placement_make sha i s = Inr p"
  then obtain plan where p: "p = (sessions, vocab, plan)" "plan_placement sha inp s sessions vocab = Inr plan"
    by (auto simp: i rbind_Inr_iff)
  then have "(case p of (sessions, vocab, plan) \<Rightarrow> (sessions, vocab, pp_input plan)) = i"
    using plan_placement_parts(7) [OF p(2)] by (simp add: i)
  with m show "placement_make sha (case p of (sessions, vocab, plan) \<Rightarrow> (sessions, vocab, pp_input plan)) s = Inr p"
    by simp
  assume "placement_make sha i t = Inr q"
  then obtain plan' where q: "q = (sessions, vocab, plan')" "plan_placement sha inp t sessions vocab = Inr plan'"
    by (auto simp: i rbind_Inr_iff)
  show "pp_versionBefore (command_plan p) = pp_versionBefore (command_plan q)"
    using plan_placement_parts(4,8) [OF p(2)] plan_placement_parts(4,8) [OF q(2)] p q by (simp add: command_plan_def)
next
  fix s :: schedule and c :: placement_command
  assume "schedule_ok s" "case c of (sessions, vocab, plan) \<Rightarrow> validate_placement_plan sha s sessions vocab plan = Inr None"
  then show "\<exists>s'. placement_exec sha s c = Inr s'"
    using apply_placement_plan_result by (cases c) (fastforce simp: validate_placement_plan_iff)
next
  fix s :: schedule and c :: placement_command and s'
  assume "placement_exec sha s c = Inr s'"
  then show "case c of (sessions, vocab, plan) \<Rightarrow> validate_placement_plan sha s sessions vocab plan = Inr None"
    using apply_placement_valid by (cases c) (auto simp: rbind_Inr_iff)
qed

section \<open>Properties of placements\<close>

text \<open>
  C5. No room is ever double-booked: whatever placements, moves and removals are applied to a schedule,
  in whatever order and whatever sessions and vocabulary they meet, two different occurrences of the
  schedule in one room never overlap, every occurrence is one of its identifier, and the schedule has
  moved on by one version per plan.
\<close>

theorem no_room_double_booked:
  assumes "schedule_ok s" "apply_plans (placement_exec sha) s commands = Inr s'"
  shows "sd_scheduleVersion s' = sd_scheduleVersion s + int (length commands)
    \<and> distinct (map oc_id (sd_occurrences s'))
    \<and> (\<forall>x \<in> set (sd_occurrences s'). \<forall>y \<in> set (sd_occurrences s'). oc_id x \<noteq> oc_id y \<longrightarrow> oc_roomId x = oc_roomId y
        \<longrightarrow> oc_endAt x \<le> oc_startAt y \<or> oc_endAt y \<le> oc_startAt x)"
  using placement_plans.plans_consecutive [OF assms]
  by (simp add: schedule_ok_def no_double_booking_def disjoint_times_def)

text \<open>
  A planned placement can be applied at once: the image of the plan takes the place of the occurrence
  it names and every other occurrence stays; the result names the action, the new version and the image.
  After it, and after any further placements, the plan is not valid and its input cannot be planned.
\<close>

theorem placement_applies_once:
  assumes "schedule_ok s" "plan_placement sha i s sessions vocab = Inr plan"
  shows "\<exists>s'. apply_placement_plan sha s sessions vocab plan
      = Inr (s', \<lparr> pr_action = action_of i, pr_scheduleVersion = sd_scheduleVersion s + 1, pr_occurrence = pp_after plan \<rparr>)
    \<and> schedule_ok s'
    \<and> occurrence_catalog s' = (occurrence_catalog s)(ph_occurrenceId (input_head i) := pp_after plan)
    \<and> (\<forall>later s''. apply_plans (placement_exec sha) s' later = Inr s'' \<longrightarrow>
        validate_placement_plan sha s'' sessions vocab plan \<noteq> Inr None
        \<and> (\<forall>q. plan_placement sha i s'' sessions vocab \<noteq> Inr q))"
proof -
  have inp: "pp_input plan = i" by (rule plan_placement_parts(7) [OF assms(2)])
  from apply_placement_plan_result [OF assms(1), of sha plan sessions vocab] assms(2) inp obtain s' where
    a: "apply_placement_plan sha s sessions vocab plan
      = Inr (s', \<lparr> pr_action = action_of i, pr_scheduleVersion = sd_scheduleVersion s + 1, pr_occurrence = pp_after plan \<rparr>)"
      "schedule_ok s'" "occurrence_catalog s' = (occurrence_catalog s)(ph_occurrenceId (input_head i) := pp_after plan)"
    by auto
  have "placement_make sha (sessions, vocab, i) s = Inr (sessions, vocab, plan)"
    "placement_exec sha s (sessions, vocab, plan) = Inr s'"
    using assms(2) a(1) by simp_all
  from placement_plans.made_once [OF assms(1) this]
  have "validate_placement_plan sha s'' sessions vocab plan \<noteq> Inr None
      \<and> (\<forall>q. plan_placement sha i s'' sessions vocab \<noteq> Inr q)"
    if "apply_plans (placement_exec sha) s' later = Inr s''" for later s''
    using that by (fastforce simp: rbind_Inr_iff)
  with a show ?thesis by blast
qed

text \<open>The time a placement or a move asks for.\<close>

fun input_time :: "placement_input \<Rightarrow> placement_time option" where
  "input_time (Place _ t _) = Some t"
| "input_time (Move _ t _) = Some t"
| "input_time (Unplace _ _) = None"

definition conflicting :: "schedule \<Rightarrow> placement_head \<Rightarrow> placement_time \<Rightarrow> occurrence set" where
  "conflicting s h t = {x \<in> set (sd_occurrences s). oc_roomId x = pt_roomId t \<and> oc_id x \<noteq> ph_occurrenceId h
     \<and> pt_startAt t < oc_endAt x \<and> oc_startAt x < pt_endAt t}"

lemma overlapping_conflicting:
  assumes "existing_occurrence i s = Inr existing" "h = input_head i"
  shows "set (overlapping_room_occurrences s (pt_roomId t) (pt_startAt t) (pt_endAt t) (map_option oc_id existing))
    = conflicting s h t"
proof -
  have e: "existing = find (\<lambda>x. oc_id x = ph_occurrenceId h) (sd_occurrences s)"
    using existing_occurrence_Inr [OF assms(1)] assms(2) by simp
  have "Some (oc_id x) \<noteq> map_option oc_id existing \<longleftrightarrow> oc_id x \<noteq> ph_occurrenceId h" if "x \<in> set (sd_occurrences s)" for x
  proof (cases existing)
    case None
    with e that show ?thesis by (auto simp: find_None_iff dest: sym)
  next
    case (Some b)
    with e have "oc_id b = ph_occurrenceId h" using find_result [of _ "sd_occurrences s" b] by force
    with Some show ?thesis by simp
  qed
  then show ?thesis
    unfolding overlapping_room_occurrences_def occurrence_order.js_sort_set by (auto simp: conflicting_def)
qed

text \<open>Only the search for overlaps refuses with \<open>room_overlap\<close>.\<close>

lemma no_overlap_refusal:
  "existing_occurrence i s \<noteq> Inl (Refused (P_room_overlap, d))"
  "make_placement_plan sha i s before after roomId \<noteq> Inl (Refused (P_room_overlap, d))"
  "require_session sessions vocab scope sid \<noteq> Inl (Refused (P_room_overlap, d))"
  "require_room vocab roomId \<noteq> Inl (Refused (P_room_overlap, d))"
proof -
  have t: "traverse parse_occurrence xs \<noteq> Inl (Refused e)" for xs e
    by (induction xs) (auto simp: rbind_Inl_iff parse_occurrence_def)
  show "existing_occurrence i s \<noteq> Inl (Refused (P_room_overlap, d))"
    by (cases i) (auto simp: existing_occurrence_def refuse_def Let_def split: option.splits)
  show "make_placement_plan sha i s before after roomId \<noteq> Inl (Refused (P_room_overlap, d))"
    using t by (auto simp: make_placement_plan_def room_query_guard_of_def parse_placement_plan_def rbind_Inl_iff)
  show "require_session sessions vocab scope sid \<noteq> Inl (Refused (P_room_overlap, d))"
    by (auto simp: require_session_def refuse_def split: option.splits)
  show "require_room vocab roomId \<noteq> Inl (Refused (P_room_overlap, d))"
    by (auto simp: require_room_def refuse_def split: option.splits)
qed

lemma placed_occurrence_overlap:
  assumes "placed_occurrence s sessions vocab h t sid existing = Inl (Refused (P_room_overlap, d))"
  shows "\<exists>overlaps. overlaps = overlapping_room_occurrences s (pt_roomId t) (pt_startAt t) (pt_endAt t) (map_option oc_id existing)
    \<and> overlaps \<noteq> [] \<and> d = Some (conflict_of t overlaps)"
  using assms no_overlap_refusal(3,4)
  by (auto simp: placed_occurrence_def rbind_Inl_iff parse_occurrence_def Let_def split: if_splits)

lemma plan_placement_overlap:
  assumes "plan_placement sha i s sessions vocab = Inl (Refused (P_room_overlap, d))"
  shows "\<exists>t sid existing. input_time i = Some t \<and> existing_occurrence i s = Inr existing
    \<and> placed_occurrence s sessions vocab (input_head i) t sid existing = Inl (Refused (P_room_overlap, d))"
proof -
  from assms obtain existing where e: "existing_occurrence i s = Inr existing"
    by (auto simp: plan_placement_def refuse_def rbind_Inl_iff no_overlap_refusal Let_def split: if_splits)
  with assms existing_occurrence_Inr [OF e, THEN conjunct2] show ?thesis
    by (cases i) (auto simp: plan_placement_def refuse_def rbind_Inl_iff no_overlap_refusal Let_def split: if_splits)
qed

lemma planned_no_conflict:
  assumes p: "plan_placement sha i s sessions vocab = Inr plan" and t: "input_time i = Some t"
  shows "conflicting s (input_head i) t = {}"
proof -
  note before = plan_placement_parts(5) [OF p] and img = plan_placement_parts(6) [OF p]
  obtain a sid where a: "placed_occurrence s sessions vocab (input_head i) t sid (pp_before plan) = Inr a"
    using img t by (cases i) (auto simp: planned_image_def)
  have "existing_occurrence i s = Inr (pp_before plan)"
    using img unfolding existing_occurrence_def Let_def before [symmetric]
    by (cases i) (auto simp: planned_image_def)
  from overlapping_conflicting [OF this refl, of t] a show ?thesis by (simp add: placed_occurrence_Inr)
qed

text \<open>
  C17. The refusal of an overlap is exact: it lists, in the order of the schedule, precisely the
  occurrences in the requested room whose time intersects the requested one, other than the occurrence
  being moved; there is at least one; and where there is one, nothing is ever planned.
\<close>

theorem overlap_refusal_exact:
  assumes "input_time i = Some t"
    and "conflicts = {x \<in> set (sd_occurrences s). oc_roomId x = pt_roomId t
      \<and> oc_id x \<noteq> ph_occurrenceId (input_head i) \<and> pt_startAt t < oc_endAt x \<and> oc_startAt x < pt_endAt t}"
  shows "(\<forall>d. plan_placement sha i s sessions vocab = Inl (Refused (P_room_overlap, d)) \<longrightarrow>
        conflicts \<noteq> {} \<and> (\<exists>listed. d = Some (conflict_of t listed) \<and> set listed = conflicts
          \<and> sorted (map occurrence_key listed)))
    \<and> (conflicts \<noteq> {} \<longrightarrow> (\<forall>plan. plan_placement sha i s sessions vocab \<noteq> Inr plan))"
proof -
  have c: "conflicts = conflicting s (input_head i) t" by (simp add: assms(2) conflicting_def)
  have "conflicts \<noteq> {} \<and> (\<exists>listed. d = Some (conflict_of t listed) \<and> set listed = conflicts
      \<and> sorted (map occurrence_key listed))"
    if r: "plan_placement sha i s sessions vocab = Inl (Refused (P_room_overlap, d))" for d
  proof -
    from plan_placement_overlap [OF r] assms(1) obtain sid existing where
      e: "existing_occurrence i s = Inr existing"
      and ov: "placed_occurrence s sessions vocab (input_head i) t sid existing = Inl (Refused (P_room_overlap, d))"
      by auto
    let ?listed = "overlapping_room_occurrences s (pt_roomId t) (pt_startAt t) (pt_endAt t) (map_option oc_id existing)"
    have "?listed \<noteq> []" "d = Some (conflict_of t ?listed)" using placed_occurrence_overlap [OF ov] by simp_all
    moreover have "set ?listed = conflicts" using overlapping_conflicting [OF e refl, of t] c by simp
    moreover have "sorted (map occurrence_key ?listed)"
      unfolding overlapping_room_occurrences_def by (rule occurrence_order.js_sort_sorted)
    ultimately show ?thesis by (metis set_empty)
  qed
  then show ?thesis using planned_no_conflict assms(1) c by blast
qed

text \<open>What a plan relies on, for the property below and for the components that provide the sessions.\<close>

lemma planned_placement_relies:
  assumes "plan_placement sha i s sessions vocab = Inr plan" "pp_after plan = Some a"
  shows "(\<exists>room. resolve_item vocab Room (oc_roomId a) = Some room \<and> pi_status room = Active)
    \<and> (\<exists>x. resolve_placeable_session sessions (ph_scope (input_head i)) (oc_sessionId a) = Some x
        \<and> si_id x = oc_sessionId a \<and> same_scope (si_scope x) (ph_scope (input_head i))
        \<and> si_lifecycle x \<in> {''collecting'', ''programmed''}
        \<and> ((\<exists>tr \<in> set (vs_tracks vocab). pi_status tr = Active) \<longrightarrow> si_trackId x \<noteq> None))
    \<and> input_time i = Some \<lparr> pt_roomId = oc_roomId a, pt_startAt = oc_startAt a, pt_endAt = oc_endAt a \<rparr>
    \<and> oc_id a = ph_occurrenceId (input_head i) \<and> oc_startAt a < oc_endAt a
    \<and> (case pp_before plan of None \<Rightarrow> oc_version a = 1
       | Some b \<Rightarrow> oc_version a = oc_version b + 1 \<and> oc_sessionId a = oc_sessionId b)"
proof -
  obtain t sid where t: "input_time i = Some t"
    and a: "placed_occurrence s sessions vocab (input_head i) t sid (pp_before plan) = Inr a"
    and sid: "case pp_before plan of None \<Rightarrow> True | Some b \<Rightarrow> sid = oc_sessionId b"
    using plan_placement_parts(6) [OF assms(1)] assms(2) by (cases i) (auto simp: planned_image_def)
  from a have se: "require_session sessions vocab (ph_scope (input_head i)) sid = Inr ()"
    and ro: "require_room vocab (pt_roomId t) = Inr ()" and os: "occurrence_schema a"
    and ae: "a = \<lparr> oc_id = ph_occurrenceId (input_head i), oc_sessionId = sid, oc_roomId = pt_roomId t,
      oc_startAt = pt_startAt t, oc_endAt = pt_endAt t,
      oc_version = (case pp_before plan of None \<Rightarrow> 1 | Some x \<Rightarrow> oc_version x + 1) \<rparr>"
    unfolding placed_occurrence_Inr by blast+
  have "\<exists>room. resolve_item vocab Room (oc_roomId a) = Some room \<and> pi_status room = Active"
    using ro ae by (auto simp: require_room_def refuse_def split: option.splits if_splits)
  moreover have "\<exists>x. resolve_placeable_session sessions (ph_scope (input_head i)) sid = Some x
      \<and> si_id x = sid \<and> same_scope (si_scope x) (ph_scope (input_head i))
      \<and> si_lifecycle x \<in> {''collecting'', ''programmed''}
      \<and> ((\<exists>tr \<in> set (vs_tracks vocab). pi_status tr = Active) \<longrightarrow> si_trackId x \<noteq> None)"
    using se unfolding require_session_def
    by (auto simp: refuse_def split: option.splits if_splits)
  moreover have "oc_startAt a < oc_endAt a" using os by (simp add: occurrence_schema_def)
  ultimately show ?thesis using t sid ae by (auto split: option.splits)
qed

text \<open>
  What a placement or a move relies on when it is planned: the room exists and is active, the session
  was resolved in this very scope as collecting or programmed and has a track whenever there are active
  tracks; the image names the planned occurrence, room and time, and keeps the session of a move.
\<close>

theorem planned_placement_grounded:
  assumes "plan_placement sha i s sessions vocab = Inr plan" "pp_after plan = Some a"
  shows "(\<exists>room. resolve_item vocab Room (oc_roomId a) = Some room \<and> pi_status room = Active)
    \<and> (\<exists>x. resolve_placeable_session sessions (ph_scope (input_head i)) (oc_sessionId a) = Some x
        \<and> si_id x = oc_sessionId a \<and> same_scope (si_scope x) (ph_scope (input_head i))
        \<and> si_lifecycle x \<in> {''collecting'', ''programmed''}
        \<and> ((\<exists>tr \<in> set (vs_tracks vocab). pi_status tr = Active) \<longrightarrow> si_trackId x \<noteq> None))
    \<and> input_time i = Some \<lparr> pt_roomId = oc_roomId a, pt_startAt = oc_startAt a, pt_endAt = oc_endAt a \<rparr>
    \<and> oc_id a = ph_occurrenceId (input_head i) \<and> oc_startAt a < oc_endAt a
    \<and> (case pp_before plan of None \<Rightarrow> oc_version a = 1
       | Some b \<Rightarrow> oc_version a = oc_version b + 1 \<and> oc_sessionId a = oc_sessionId b)"
  using assms by (rule planned_placement_relies)

lemma sorted_keys_unique:
  assumes "set xs = set ys" "sorted (map key xs)" "sorted (map key ys)" "distinct (map key xs)" "distinct (map key ys)"
  shows "xs = (ys :: 'a list)"
proof -
  have "map key xs = map key ys"
    using assms by (intro sorted_distinct_set_unique) simp_all
  moreover have "inj_on key (set xs \<union> set ys)" using assms(1,4) by (simp add: distinct_map)
  ultimately show ?thesis using map_inj_on by blast
qed

lemma occurrence_keys_distinct: "distinct (map oc_id os) \<Longrightarrow> distinct (map occurrence_key os)"
  by (auto simp: distinct_map inj_on_def occurrence_key_def)

lemma schedule_ok_unique:
  assumes "schedule_ok s" "schedule_ok t" "occurrence_catalog s = occurrence_catalog t"
  shows "sd_occurrences s = sd_occurrences t"
proof (rule sorted_keys_unique [where key = occurrence_key])
  show "set (sd_occurrences s) = set (sd_occurrences t)"
    using assms(3) occurrence_catalog_iff [OF assms(1)] occurrence_catalog_iff [OF assms(2)] by auto
qed (use assms(1,2) in \<open>simp_all add: schedule_ok_def occurrence_keys_distinct\<close>)

text \<open>
  Taking a placement off again leaves no trace but the version: if an occurrence was placed and then
  unplaced, the schedule is exactly the one before, two versions on.
\<close>

theorem unplaced_schedule_restored:
  assumes "schedule_ok s" "plan_placement sha (Place h t sid) s sessions vocab = Inr plan"
    and "apply_placement_plan sha s sessions vocab plan = Inr (s1, r1)"
    and "plan_placement sha (Unplace h' v) s1 sessions' vocab' = Inr plan2" "ph_occurrenceId h' = ph_occurrenceId h"
    and "apply_placement_plan sha s1 sessions' vocab' plan2 = Inr (s2, r2)"
  shows "s2 = s \<lparr> sd_scheduleVersion := sd_scheduleVersion s + 2 \<rparr>"
proof -
  note i1 = plan_placement_parts(7) [OF assms(2)] and i2 = plan_placement_parts(7) [OF assms(4)]
  from apply_placement_plan_result [OF assms(1), of sha plan sessions vocab] assms(2,3) i1
  have s1: "schedule_ok s1" "sd_scope s1 = sd_scope s" "sd_breaks s1 = sd_breaks s"
    "sd_scheduleVersion s1 = sd_scheduleVersion s + 1"
    "occurrence_catalog s1 = (occurrence_catalog s)(ph_occurrenceId h := pp_after plan)" by auto
  from apply_placement_plan_result [OF s1(1), of sha plan2 sessions' vocab'] assms(4-6) i2
  have s2: "schedule_ok s2" "sd_scope s2 = sd_scope s1" "sd_breaks s2 = sd_breaks s1"
    "sd_scheduleVersion s2 = sd_scheduleVersion s1 + 1"
    "occurrence_catalog s2 = (occurrence_catalog s1)(ph_occurrenceId h := pp_after plan2)" by auto
  have "pp_after plan2 = None"
    using plan_placement_parts(6) [OF assms(4)] by (auto simp: planned_image_def)
  moreover have "occurrence_catalog s (ph_occurrenceId h) = None"
    using plan_placement_parts(5,6) [OF assms(2)] by (simp add: planned_image_def find_occurrence)
  ultimately have "occurrence_catalog s2 = occurrence_catalog s" using s1(5) s2(5) by (auto simp: fun_eq_iff)
  from schedule_ok_unique [OF s2(1) assms(1) this] s1(2-4) s2(2-4) show ?thesis
    by (intro schedule.equality) simp_all
qed

section \<open>A sample schedule\<close>

text \<open>A talk in the sample room, and a later one to be placed there.\<close>

definition sample_head :: "int \<Rightarrow> char \<Rightarrow> placement_head" where
  "sample_head v c = \<lparr> ph_scope = sample_scope, ph_expectedScheduleVersion = v, ph_occurrenceId = sample_id c \<rparr>"

definition sample_time :: "nat \<Rightarrow> nat \<Rightarrow> placement_time" where
  "sample_time a b = \<lparr> pt_roomId = sample_id CHR ''3'', pt_startAt = clock a, pt_endAt = clock b \<rparr>"

definition sample_talk :: occurrence where
  "sample_talk = \<lparr> oc_id = sample_id CHR ''6'', oc_sessionId = sample_id CHR ''7'', oc_roomId = sample_id CHR ''3'',
     oc_startAt = clock 2, oc_endAt = clock 4, oc_version = 1 \<rparr>"

definition sample_schedule :: schedule where
  "sample_schedule = \<lparr> sd_scope = sample_scope, sd_scheduleVersion = 2, sd_occurrences = [sample_talk], sd_breaks = [] \<rparr>"

definition sample_sessions :: session_port where
  "sample_sessions = \<lparr> sp_readPlaceable = None, sp_readProgrammed = Some (\<lambda>scope sid.
     Some \<lparr> si_scope = scope, si_id = sid, si_lifecycle = ''programmed'', si_trackId = None \<rparr>) \<rparr>"

lemma sample_schedule_ok: "schedule_ok sample_schedule"
  by (simp add: schedule_ok_def sample_schedule_def sample_talk_def sample_scope_ok occurrence_schema_def
      no_double_booking_def canonical_instant_def max_safe_integer_def)

lemma sample_room_query: "matches room_query_pattern (room_query_guard_id (sample_id CHR ''2'') (sample_id CHR ''3''))"
  by code_simp

lemma sample_hash: "sha256_hex (sample_sha t)"
  using sample_sha_hex by blast

lemmas sample_placement_simps = plan_placement_def placed_occurrence_def existing_occurrence_def make_placement_plan_def
  require_session_def require_room_def resolve_placeable_session_def overlapping_room_occurrences_def
  room_query_guard_of_def parse_occurrence_def parse_placement_plan_def placement_plan_schema_def
  optional_occurrence_schema_def occurrence_schema_def canonical_instant_def placement_head_schema_def placement_time_schema_def
  sample_head_def sample_time_def sample_schedule_def sample_talk_def sample_sessions_def sample_scope_ok same_scope_def
  sample_vocabulary_fields sample_resolve js_sort_def max_safe_integer_def sample_room_query sample_hash sample_scope_fields

definition sample_place :: placement_input where
  "sample_place = Place (sample_head 2 CHR ''8'') (sample_time 4 6) (sample_id CHR ''7'')"

definition sample_placed_plan :: placement_plan where
  "sample_placed_plan = \<lparr> pp_input = sample_place, pp_before = None,
     pp_after = Some (sample_talk \<lparr> oc_id := sample_id CHR ''8'', oc_startAt := clock 4, oc_endAt := clock 6 \<rparr>),
     pp_versionBefore = 2, pp_versionAfter = 3,
     pp_roomQueryGuard = \<lparr> rq_id = room_query_guard_id (sample_id CHR ''2'') (sample_id CHR ''3''), rq_version = 2,
       rq_digest = sample_sha [] \<rparr> \<rparr>"

lemma sample_sha_const: "sample_sha t = sample_sha []"
  by (simp add: sample_sha_def)

lemma sample_vocabulary_tracks: "vs_tracks sample_vocabulary = []"
  by (simp add: sample_vocabulary_def)

lemma sample_placed:
  "plan_placement sample_sha sample_place sample_schedule sample_sessions sample_vocabulary = Inr sample_placed_plan"
  by (simp add: sample_placement_simps sample_place_def sample_placed_plan_def sample_vocabulary_tracks
      sample_sha_const [of "canonical x" for x])

theorem placement_applies_once_witness:
  "\<exists>s'. apply_placement_plan sample_sha sample_schedule sample_sessions sample_vocabulary sample_placed_plan
      = Inr (s', \<lparr> pr_action = Did_place, pr_scheduleVersion = 3, pr_occurrence = pp_after sample_placed_plan \<rparr>)
    \<and> occurrence_catalog s' (sample_id CHR ''8'') = pp_after sample_placed_plan"
  using placement_applies_once [OF sample_schedule_ok sample_placed]
  by (auto simp: sample_schedule_def sample_place_def sample_head_def)

definition sample_after :: schedule where
  "sample_after = sample_schedule \<lparr> sd_scheduleVersion := 3, sd_occurrences := [sample_talk,
     sample_talk \<lparr> oc_id := sample_id CHR ''8'', oc_startAt := clock 4, oc_endAt := clock 6 \<rparr>] \<rparr>"

lemma sample_applied:
  "apply_placement_plan sample_sha sample_schedule sample_sessions sample_vocabulary sample_placed_plan
    = Inr (sample_after, \<lparr> pr_action = Did_place, pr_scheduleVersion = 3, pr_occurrence = pp_after sample_placed_plan \<rparr>)"
proof -
  have "validate_placement_plan sample_sha sample_schedule sample_sessions sample_vocabulary sample_placed_plan = Inr None"
    using sample_placed by (simp add: validate_placement_plan_iff) (simp add: sample_placed_plan_def)
  then show ?thesis
    by (simp add: apply_placement_plan_def sample_placed_plan_def sample_after_def sample_place_def sample_placement_simps
        placement_result_schema_def positive_version_def safe_integer_def compare_occurrences_def)
qed

theorem no_room_double_booked_witness:
  "\<exists>x y. x \<in> set (sd_occurrences sample_after) \<and> y \<in> set (sd_occurrences sample_after) \<and> oc_id x \<noteq> oc_id y
    \<and> oc_roomId x = oc_roomId y \<and> (oc_endAt x \<le> oc_startAt y \<or> oc_endAt y \<le> oc_startAt x)"
proof -
  have r: "apply_plans (placement_exec sample_sha) sample_schedule [(sample_sessions, sample_vocabulary, sample_placed_plan)]
      = Inr sample_after"
    by (simp add: sample_applied)
  have "sample_talk \<in> set (sd_occurrences sample_after)"
    "sample_talk \<lparr> oc_id := sample_id CHR ''8'', oc_startAt := clock 4, oc_endAt := clock 6 \<rparr> \<in> set (sd_occurrences sample_after)"
    by (simp_all add: sample_after_def)
  then show ?thesis
    using no_room_double_booked [OF sample_schedule_ok r]
    by (intro exI conjI) (assumption, assumption, simp_all add: sample_talk_def)
qed

theorem planned_placement_grounded_witness:
  "\<exists>room. resolve_item sample_vocabulary Room (sample_id CHR ''3'') = Some room \<and> pi_status room = Active"
proof -
  have "pp_after sample_placed_plan
      = Some (sample_talk \<lparr> oc_id := sample_id CHR ''8'', oc_startAt := clock 4, oc_endAt := clock 6 \<rparr>)"
    by (simp add: sample_placed_plan_def)
  from planned_placement_grounded [OF sample_placed this] show ?thesis by (simp add: sample_talk_def)
qed

theorem overlap_refusal_exact_witness:
  "\<exists>listed. plan_placement sample_sha (Place (sample_head 2 CHR ''8'') (sample_time 3 6) (sample_id CHR ''7''))
      sample_schedule sample_sessions sample_vocabulary
      = Inl (Refused (P_room_overlap, Some (conflict_of (sample_time 3 6) listed)))
    \<and> set listed = {sample_talk}"
proof -
  let ?i = "Place (sample_head 2 CHR ''8'') (sample_time 3 6) (sample_id CHR ''7'')"
  have r: "plan_placement sample_sha ?i sample_schedule sample_sessions sample_vocabulary
      = Inl (Refused (P_room_overlap, Some (conflict_of (sample_time 3 6) [sample_talk])))"
    by (simp add: sample_placement_simps sample_vocabulary_tracks)
  have t: "input_time ?i = Some (sample_time 3 6)" by simp
  have c: "{sample_talk} = {x \<in> set (sd_occurrences sample_schedule). oc_roomId x = pt_roomId (sample_time 3 6)
      \<and> oc_id x \<noteq> ph_occurrenceId (input_head ?i) \<and> pt_startAt (sample_time 3 6) < oc_endAt x
      \<and> oc_startAt x < pt_endAt (sample_time 3 6)}"
    by (auto simp: sample_schedule_def sample_talk_def sample_time_def sample_head_def)
  from overlap_refusal_exact [OF t c] r obtain listed where
    "Some (conflict_of (sample_time 3 6) [sample_talk]) = Some (conflict_of (sample_time 3 6) listed)"
    "set listed = {sample_talk}"
    by blast
  with r show ?thesis by auto
qed

lemma sample_unplaced_planned:
  "\<exists>plan. plan_placement sample_sha (Unplace (sample_head 3 CHR ''8'') 1) sample_after sample_sessions sample_vocabulary = Inr plan"
  by (simp add: sample_placement_simps sample_after_def)

theorem unplaced_schedule_restored_witness:
  "\<exists>plan2 r2. apply_placement_plan sample_sha sample_after sample_sessions sample_vocabulary plan2
    = Inr (sample_schedule \<lparr> sd_scheduleVersion := 4 \<rparr>, r2)"
proof -
  obtain plan2 where p2: "plan_placement sample_sha (Unplace (sample_head 3 CHR ''8'') 1) sample_after sample_sessions
      sample_vocabulary = Inr plan2"
    using sample_unplaced_planned by blast
  have "placement_exec sample_sha sample_schedule (sample_sessions, sample_vocabulary, sample_placed_plan) = Inr sample_after"
    by (simp add: sample_applied)
  from placement_exec_Inr [OF sample_schedule_ok this] have ok: "schedule_ok sample_after" by blast
  have "pp_input plan2 = Unplace (sample_head 3 CHR ''8'') 1" by (rule plan_placement_parts(7) [OF p2])
  with apply_placement_plan_result [OF ok, of sample_sha plan2] p2 obtain s2 r2 where
    a: "apply_placement_plan sample_sha sample_after sample_sessions sample_vocabulary plan2 = Inr (s2, r2)" by fastforce
  have "s2 = sample_schedule \<lparr> sd_scheduleVersion := sd_scheduleVersion sample_schedule + 2 \<rparr>"
    by (rule unplaced_schedule_restored [OF sample_schedule_ok sample_placed [unfolded sample_place_def] sample_applied p2 _ a])
      (simp add: sample_head_def)
  with a show ?thesis by (auto simp: sample_schedule_def)
qed

end
