(* ===== verification/Session.thy ===== *)
theory Session
  imports Breaks VocabularyPlans
begin

text \<open>
  Sessions, \<open>packages/session/src/domain.ts\<close> and \<open>model.ts\<close> over the schemas of
  \<open>packages/contracts/src/sessions.ts\<close>: the catalog of an event holds its sessions, each with a target
  in the program vocabulary and a roster of participants; every roster, session and catalog carries the
  digest of its canonical JSON. A change is planned against a version of the catalog and applied when
  planning again gives the same plan. Data, schemas, JSON forms and operations; the properties are in
  \<open>SessionChanges\<close>.
\<close>

section \<open>Data\<close>

datatype session_lifecycle = L_draft | L_collecting | L_programmed

datatype participant_role = Speaker | Moderator | Host | Panelist

text \<open>Evidence of vocabulary items; their kind and status are constants of the source (an active format or track).\<close>

record format_evidence =
  fe_id :: string
  fe_name :: string
  fe_version :: int

record track_evidence =
  te_id :: string
  te_name :: string
  te_accent :: track_accent
  te_version :: int

record program_target =
  et_setVersion :: int
  et_setDigest :: string
  et_format :: format_evidence
  et_track :: "track_evidence option"

record roster_source =
  ro_kind :: string
  ro_id :: string
  ro_version :: int

text \<open>A participant as authored, and on a roster, where it has a position.\<close>

record roster_input =
  pa_personId :: string
  pa_role :: participant_role
  pa_publiclyVisible :: bool
  pa_source :: roster_source

record participant = roster_input +
  pa_position :: int

record roster =
  rt_version :: int
  rt_digest :: string
  rt_participants :: "participant list"

record session_head =
  sh_scope :: vocabulary_scope
  sh_id :: string
  sh_title :: string
  sh_plannedDurationMinutes :: int
  sh_lifecycle :: session_lifecycle
  sh_programTarget :: program_target
  sh_roster :: roster
  sh_version :: int
  sh_createdByUserId :: string
  sh_createdAt :: string
  sh_updatedByUserId :: string
  sh_updatedAt :: string
  sh_digest :: string

record session_catalog =
  sg_scope :: vocabulary_scope
  sg_version :: int
  sg_sessions :: "session_head list"
  sg_digest :: string

text \<open>What a change asks for; \<open>session_expectation\<close> is the version and digest it expects of the session.\<close>

record session_expectation =
  se_version :: int
  se_digest :: string

record new_session =
  ns_title :: string
  ns_plannedDurationMinutes :: int
  ns_lifecycle :: session_lifecycle
  ns_formatId :: string
  ns_trackId :: "string option"
  ns_participants :: "roster_input list option"

datatype session_action =
    S_create new_session
  | S_transition session_expectation session_lifecycle
  | S_retarget session_expectation string "string option"
  | S_roster_append session_expectation "roster_input list" "session_lifecycle option"
  | S_roster_visibility session_expectation string bool
  | S_roster_remove session_expectation int participant
  | S_roster_restore session_expectation int participant
  | S_roster_role session_expectation int participant participant_role
  | S_roster_reorder session_expectation int "string list"

record session_input =
  sb_scope :: vocabulary_scope
  sb_sessionId :: string
  sb_expectedCatalogVersion :: int
  sb_expectedCatalogDigest :: string
  sb_actorUserId :: string
  sb_occurredAt :: string
  sb_action :: session_action

record session_plan =
  sl_input :: session_input
  sl_before :: "session_head option"
  sl_after :: session_head
  sl_versionBefore :: int
  sl_versionAfter :: int
  sl_digestBefore :: string
  sl_digestAfter :: string

text \<open>The plan that restores the image before a change (or removes a created session), and the plan that
  removes a new session; the latter has no image to restore.\<close>

record session_removal_plan =
  rm_scope :: vocabulary_scope
  rm_expectedCatalogVersion :: int
  rm_expectedCatalogDigest :: string
  rm_expectedCurrent :: session_head
  rm_versionBefore :: int
  rm_versionAfter :: int
  rm_digestBefore :: string
  rm_digestAfter :: string
  rm_actorUserId :: string
  rm_occurredAt :: string

record session_restore_plan = session_removal_plan +
  rm_restore :: "session_head option"

datatype session_code =
    S_wrong_scope | S_stale_catalog | S_session_exists | S_session_missing | S_stale_session | S_session_placed
  | S_format_missing | S_format_retired | S_track_missing | S_track_retired | S_track_required
  | S_participant_missing | S_participant_changed | S_invalid_transition | S_invalid_plan

type_synonym 'a sessions = "(session_code, 'a) outcome"

section \<open>Schemas\<close>

text \<open>
  \<open>z.iso.datetime({ offset: true })\<close> that ends in \<open>Z\<close> and contains a point: a calendar date and a time of
  day with seconds and a fraction of at least one digit.
\<close>

definition two_digits_below :: "nat \<Rightarrow> string \<Rightarrow> bool" where
  "two_digits_below n s \<longleftrightarrow> length s = 2 \<and> list_all digit s \<and> decimal_value s < n"

definition session_instant :: "string \<Rightarrow> bool" where
  "session_instant s \<longleftrightarrow> 22 \<le> length s \<and> iso_date (slice 0 10 s)
     \<and> s ! 10 = CHR ''T'' \<and> two_digits_below 24 (slice 11 13 s)
     \<and> s ! 13 = CHR '':'' \<and> two_digits_below 60 (slice 14 16 s)
     \<and> s ! 16 = CHR '':'' \<and> two_digits_below 60 (slice 17 19 s)
     \<and> s ! 19 = CHR ''.'' \<and> list_all digit (butlast (drop 20 s)) \<and> last s = CHR ''Z''"

definition canonical_text :: "nat \<Rightarrow> string \<Rightarrow> bool" where
  "canonical_text maximum value \<longleftrightarrow> 1 \<le> length value \<and> length value \<le> maximum \<and> normalized_name value = value"

definition accepted_title :: "string \<Rightarrow> bool" where
  "accepted_title value \<longleftrightarrow> 0 < length (normalized_name value) \<and> length (normalized_name value) \<le> 300"

definition planned_duration :: "int \<Rightarrow> bool" where
  "planned_duration n \<longleftrightarrow> 5 \<le> n \<and> n \<le> 1440 \<and> n mod 5 = 0"

definition format_evidence_schema :: "format_evidence \<Rightarrow> bool" where
  "format_evidence_schema e \<longleftrightarrow> vocabulary_id (fe_id e) \<and> canonical_name (fe_name e) \<and> positive_safe (fe_version e)"

definition track_evidence_schema :: "track_evidence \<Rightarrow> bool" where
  "track_evidence_schema e \<longleftrightarrow> vocabulary_id (te_id e) \<and> canonical_name (te_name e) \<and> positive_safe (te_version e)"

definition program_target_schema :: "program_target \<Rightarrow> bool" where
  "program_target_schema t \<longleftrightarrow> positive_safe (et_setVersion t) \<and> sha256_hex (et_setDigest t)
     \<and> format_evidence_schema (et_format t) \<and> pred_option track_evidence_schema (et_track t)"

text \<open>The regular expression of a source's kind is that of a definition key.\<close>

definition roster_source_schema :: "roster_source \<Rightarrow> bool" where
  "roster_source_schema s \<longleftrightarrow> definition_key (ro_kind s) \<and> canonical_text 300 (ro_id s) \<and> positive_safe (ro_version s)"

definition roster_input_schema :: "('a) roster_input_scheme \<Rightarrow> bool" where
  "roster_input_schema p \<longleftrightarrow> vocabulary_id (pa_personId p) \<and> roster_source_schema (pa_source p)"

definition participant_schema :: "participant \<Rightarrow> bool" where
  "participant_schema p \<longleftrightarrow> roster_input_schema p \<and> 0 \<le> pa_position p \<and> safe_integer (pa_position p)"

fun role_text :: "participant_role \<Rightarrow> string" where
  "role_text Speaker = ''speaker''"
| "role_text Moderator = ''moderator''"
| "role_text Host = ''host''"
| "role_text Panelist = ''panelist''"

definition participant_key :: "participant \<Rightarrow> string" where
  "participant_key p = pa_personId p @ CHR '':'' # role_text (pa_role p)"

text \<open>Canonical order: by position, and at one position by key.\<close>

definition roster_schema :: "roster \<Rightarrow> bool" where
  "roster_schema r \<longleftrightarrow> positive_safe (rt_version r) \<and> sha256_hex (rt_digest r)
     \<and> list_all participant_schema (rt_participants r) \<and> length (rt_participants r) \<le> 500
     \<and> distinct (map participant_key (rt_participants r))
     \<and> strictly_ordered (map (\<lambda>p. (pa_position p, participant_key p)) (rt_participants r))"

definition session_head_schema :: "session_head \<Rightarrow> bool" where
  "session_head_schema h \<longleftrightarrow> scope_ok (sh_scope h) \<and> vocabulary_id (sh_id h) \<and> canonical_text 300 (sh_title h)
     \<and> planned_duration (sh_plannedDurationMinutes h) \<and> program_target_schema (sh_programTarget h)
     \<and> roster_schema (sh_roster h) \<and> positive_safe (sh_version h) \<and> sha256_hex (sh_digest h)
     \<and> vocabulary_id (sh_createdByUserId h) \<and> session_instant (sh_createdAt h)
     \<and> vocabulary_id (sh_updatedByUserId h) \<and> session_instant (sh_updatedAt h)"

definition session_catalog_schema :: "session_catalog \<Rightarrow> bool" where
  "session_catalog_schema c \<longleftrightarrow> scope_ok (sg_scope c) \<and> positive_safe (sg_version c) \<and> sha256_hex (sg_digest c)
     \<and> list_all session_head_schema (sg_sessions c) \<and> length (sg_sessions c) \<le> 5000
     \<and> list_all (\<lambda>h. same_scope (sh_scope h) (sg_scope c)) (sg_sessions c)
     \<and> strictly_ordered (map sh_id (sg_sessions c))"

definition optional_head_schema :: "session_head option \<Rightarrow> bool" where
  "optional_head_schema h \<longleftrightarrow> pred_option session_head_schema h"

text \<open>
  Planning inputs. Identifiers of items and people are accepted in either case and lowered, a title is
  normalized; \<open>parse_session_input\<close> is the schema, which refuses or returns the normalized input.
\<close>

definition accepted_id :: "string \<Rightarrow> bool" where
  "accepted_id s \<longleftrightarrow> matches application_uuid s"

definition expectation_schema :: "session_expectation \<Rightarrow> bool" where
  "expectation_schema e \<longleftrightarrow> positive_safe (se_version e) \<and> sha256_hex (se_digest e)"

fun session_action_accepts :: "session_action \<Rightarrow> bool" where
  "session_action_accepts (S_create n) \<longleftrightarrow> accepted_title (ns_title n) \<and> planned_duration (ns_plannedDurationMinutes n)
     \<and> accepted_id (ns_formatId n) \<and> pred_option accepted_id (ns_trackId n)
     \<and> pred_option (\<lambda>ps. list_all roster_input_schema ps \<and> length ps \<le> 500) (ns_participants n)"
| "session_action_accepts (S_transition e to) \<longleftrightarrow> expectation_schema e \<and> to \<in> {L_collecting, L_programmed}"
| "session_action_accepts (S_retarget e f t) \<longleftrightarrow> expectation_schema e \<and> accepted_id f \<and> pred_option accepted_id t"
| "session_action_accepts (S_roster_append e ps to) \<longleftrightarrow> expectation_schema e
     \<and> list_all roster_input_schema ps \<and> 1 \<le> length ps \<and> length ps \<le> 500 \<and> to \<in> {None, Some L_programmed}"
| "session_action_accepts (S_roster_visibility e i _) \<longleftrightarrow> expectation_schema e \<and> accepted_id i"
| "session_action_accepts (S_roster_remove e v p) \<longleftrightarrow> expectation_schema e \<and> positive_safe v \<and> participant_schema p"
| "session_action_accepts (S_roster_restore e v p) \<longleftrightarrow> expectation_schema e \<and> positive_safe v \<and> participant_schema p"
| "session_action_accepts (S_roster_role e v p _) \<longleftrightarrow> expectation_schema e \<and> positive_safe v \<and> participant_schema p"
| "session_action_accepts (S_roster_reorder e v is) \<longleftrightarrow> expectation_schema e \<and> positive_safe v
     \<and> list_all accepted_id is \<and> length is \<le> 500"

fun normalized_action :: "session_action \<Rightarrow> session_action" where
  "normalized_action (S_create n) = S_create (n \<lparr> ns_title := normalized_name (ns_title n),
     ns_formatId := to_lower (ns_formatId n), ns_trackId := map_option to_lower (ns_trackId n) \<rparr>)"
| "normalized_action (S_retarget e f t) = S_retarget e (to_lower f) (map_option to_lower t)"
| "normalized_action (S_roster_visibility e i b) = S_roster_visibility e (to_lower i) b"
| "normalized_action (S_roster_reorder e v is) = S_roster_reorder e v (map to_lower is)"
| "normalized_action a = a"

fun is_creation :: "session_action \<Rightarrow> bool" where
  "is_creation (S_create _) = True"
| "is_creation _ = False"

definition session_input_accepts :: "session_input \<Rightarrow> bool" where
  "session_input_accepts i \<longleftrightarrow> scope_ok (sb_scope i)
     \<and> (if is_creation (sb_action i) then vocabulary_id (sb_sessionId i) else accepted_id (sb_sessionId i))
     \<and> positive_safe (sb_expectedCatalogVersion i) \<and> sha256_hex (sb_expectedCatalogDigest i)
     \<and> vocabulary_id (sb_actorUserId i) \<and> session_instant (sb_occurredAt i) \<and> session_action_accepts (sb_action i)"

definition normalized_input :: "session_input \<Rightarrow> session_input" where
  "normalized_input i = i \<lparr> sb_sessionId := (if is_creation (sb_action i) then sb_sessionId i else to_lower (sb_sessionId i)),
     sb_action := normalized_action (sb_action i) \<rparr>"

definition parse_session_input :: "session_input \<Rightarrow> session_input sessions" where
  "parse_session_input i = (if session_input_accepts i then Inr (normalized_input i) else Inl SchemaErr)"

definition session_plan_coherent :: "session_plan \<Rightarrow> bool" where
  "session_plan_coherent p \<longleftrightarrow> is_creation (sb_action (sl_input p)) = (sl_before p = None)
     \<and> sh_id (sl_after p) = sb_sessionId (sl_input p)
     \<and> pred_option (\<lambda>h. sh_id h = sb_sessionId (sl_input p)) (sl_before p)"

definition parse_session_plan :: "session_plan \<Rightarrow> session_plan sessions" where
  "parse_session_plan p =
     rbind (parse_session_input (sl_input p)) (\<lambda>i.
       if optional_head_schema (sl_before p) \<and> session_head_schema (sl_after p)
         \<and> positive_safe (sl_versionBefore p) \<and> positive_safe (sl_versionAfter p)
         \<and> sha256_hex (sl_digestBefore p) \<and> sha256_hex (sl_digestAfter p) \<and> session_plan_coherent (p \<lparr> sl_input := i \<rparr>)
       then Inr (p \<lparr> sl_input := i \<rparr>) else Inl SchemaErr)"

definition session_removal_schema :: "('a) session_removal_plan_scheme \<Rightarrow> bool" where
  "session_removal_schema p \<longleftrightarrow> scope_ok (rm_scope p) \<and> positive_safe (rm_expectedCatalogVersion p)
     \<and> sha256_hex (rm_expectedCatalogDigest p) \<and> session_head_schema (rm_expectedCurrent p)
     \<and> positive_safe (rm_versionBefore p) \<and> positive_safe (rm_versionAfter p)
     \<and> sha256_hex (rm_digestBefore p) \<and> sha256_hex (rm_digestAfter p)
     \<and> vocabulary_id (rm_actorUserId p) \<and> session_instant (rm_occurredAt p)"

definition session_restore_schema :: "session_restore_plan \<Rightarrow> bool" where
  "session_restore_schema p \<longleftrightarrow> session_removal_schema p \<and> optional_head_schema (rm_restore p)"

section \<open>Canonical JSON and digests\<close>

definition roster_source_json :: "roster_source \<Rightarrow> json" where
  "roster_source_json s = JObj [(''kind'', JStr (ro_kind s)), (''id'', JStr (ro_id s)), (''version'', JNum (ro_version s))]"

definition roster_input_json :: "roster_input \<Rightarrow> json" where
  "roster_input_json p = JObj [(''personId'', JStr (pa_personId p)), (''role'', JStr (role_text (pa_role p))),
     (''publiclyVisible'', JBool (pa_publiclyVisible p)), (''source'', roster_source_json (pa_source p))]"

definition participant_json :: "participant \<Rightarrow> json" where
  "participant_json p = JObj [(''personId'', JStr (pa_personId p)), (''role'', JStr (role_text (pa_role p))),
     (''position'', JNum (pa_position p)), (''publiclyVisible'', JBool (pa_publiclyVisible p)),
     (''source'', roster_source_json (pa_source p))]"

fun lifecycle_text :: "session_lifecycle \<Rightarrow> string" where
  "lifecycle_text L_draft = ''draft''"
| "lifecycle_text L_collecting = ''collecting''"
| "lifecycle_text L_programmed = ''programmed''"

fun null_or :: "('a \<Rightarrow> json) \<Rightarrow> 'a option \<Rightarrow> json" where
  "null_or f None = JNull"
| "null_or f (Some x) = f x"

definition format_evidence_json :: "format_evidence \<Rightarrow> json" where
  "format_evidence_json e = JObj [(''kind'', JStr ''format''), (''id'', JStr (fe_id e)), (''name'', JStr (fe_name e)),
     (''status'', JStr ''active''), (''version'', JNum (fe_version e))]"

definition track_evidence_json :: "track_evidence \<Rightarrow> json" where
  "track_evidence_json e = JObj [(''kind'', JStr ''track''), (''id'', JStr (te_id e)), (''name'', JStr (te_name e)),
     (''accent'', JStr (accent_text (te_accent e))), (''status'', JStr ''active''), (''version'', JNum (te_version e))]"

definition program_target_json :: "program_target \<Rightarrow> json" where
  "program_target_json t = JObj [(''setVersion'', JNum (et_setVersion t)), (''setDigestSha256'', JStr (et_setDigest t)),
     (''format'', format_evidence_json (et_format t)), (''track'', null_or track_evidence_json (et_track t))]"

definition session_roster_digest :: "(string \<Rightarrow> string) \<Rightarrow> int \<Rightarrow> participant list \<Rightarrow> string" where
  "session_roster_digest sha version participants =
     sha (canonical (JObj [(''version'', JNum version), (''participants'', JArr (map participant_json participants))]))"

definition roster_json :: "roster \<Rightarrow> json" where
  "roster_json r = JObj [(''version'', JNum (rt_version r)), (''digestSha256'', JStr (rt_digest r)),
     (''participants'', JArr (map participant_json (rt_participants r)))]"

text \<open>The fields of a session without its digest, which the digest is taken of.\<close>

definition unsigned_head_entries :: "session_head \<Rightarrow> (string \<times> json) list" where
  "unsigned_head_entries h = [(''schemaVersion'', JNum 1), (''scope'', break_scope_json (sh_scope h)), (''id'', JStr (sh_id h)),
     (''title'', JStr (sh_title h)), (''plannedDurationMinutes'', JNum (sh_plannedDurationMinutes h)),
     (''lifecycle'', JStr (lifecycle_text (sh_lifecycle h))), (''programTarget'', program_target_json (sh_programTarget h)),
     (''roster'', roster_json (sh_roster h)), (''version'', JNum (sh_version h)),
     (''createdByUserId'', JStr (sh_createdByUserId h)), (''createdAt'', JStr (sh_createdAt h)),
     (''updatedByUserId'', JStr (sh_updatedByUserId h)), (''updatedAt'', JStr (sh_updatedAt h))]"

definition session_head_digest :: "(string \<Rightarrow> string) \<Rightarrow> session_head \<Rightarrow> string" where
  "session_head_digest sha h = sha (canonical (JObj (unsigned_head_entries h)))"

definition session_head_json :: "session_head \<Rightarrow> json" where
  "session_head_json h = JObj (unsigned_head_entries h @ [(''digestSha256'', JStr (sh_digest h))])"

definition session_catalog_digest :: "(string \<Rightarrow> string) \<Rightarrow> vocabulary_scope \<Rightarrow> int \<Rightarrow> session_head list \<Rightarrow> string" where
  "session_catalog_digest sha scope version sessions =
     sha (canonical (JObj [(''schemaVersion'', JNum 1), (''scope'', break_scope_json scope), (''version'', JNum version),
       (''sessions'', JArr (map session_head_json sessions))]))"

definition expectation_entries :: "session_expectation \<Rightarrow> (string \<times> json) list" where
  "expectation_entries e = [(''expectedSessionVersion'', JNum (se_version e)),
     (''expectedSessionDigestSha256'', JStr (se_digest e))]"

definition optional_entry :: "string \<Rightarrow> ('a \<Rightarrow> json) \<Rightarrow> 'a option \<Rightarrow> (string \<times> json) list" where
  "optional_entry k f m = (case m of None \<Rightarrow> [] | Some x \<Rightarrow> [(k, f x)])"

fun session_action_text :: "session_action \<Rightarrow> string" where
  "session_action_text (S_create _) = ''create''"
| "session_action_text (S_transition _ _) = ''transition''"
| "session_action_text (S_retarget _ _ _) = ''retarget''"
| "session_action_text (S_roster_append _ _ _) = ''roster_append''"
| "session_action_text (S_roster_visibility _ _ _) = ''roster_visibility''"
| "session_action_text (S_roster_remove _ _ _) = ''roster_remove''"
| "session_action_text (S_roster_restore _ _ _) = ''roster_restore''"
| "session_action_text (S_roster_role _ _ _ _) = ''roster_role''"
| "session_action_text (S_roster_reorder _ _ _) = ''roster_reorder''"

fun session_action_entries :: "session_action \<Rightarrow> (string \<times> json) list" where
  "session_action_entries (S_create n) = [(''title'', JStr (ns_title n)),
     (''plannedDurationMinutes'', JNum (ns_plannedDurationMinutes n)), (''lifecycle'', JStr (lifecycle_text (ns_lifecycle n))),
     (''formatId'', JStr (ns_formatId n)), (''trackId'', null_or JStr (ns_trackId n))]
     @ optional_entry ''participants'' (\<lambda>ps. JArr (map roster_input_json ps)) (ns_participants n)"
| "session_action_entries (S_transition e to) = expectation_entries e @ [(''to'', JStr (lifecycle_text to))]"
| "session_action_entries (S_retarget e f t) = expectation_entries e @ [(''formatId'', JStr f), (''trackId'', null_or JStr t)]"
| "session_action_entries (S_roster_append e ps to) = expectation_entries e
     @ [(''participants'', JArr (map roster_input_json ps))]
     @ optional_entry ''graduateTo'' (\<lambda>l. JStr (lifecycle_text l)) to"
| "session_action_entries (S_roster_visibility e i b) = expectation_entries e
     @ [(''personId'', JStr i), (''publiclyVisible'', JBool b)]"
| "session_action_entries (S_roster_remove e v p) = expectation_entries e
     @ [(''expectedRosterVersion'', JNum v), (''expectedParticipant'', participant_json p)]"
| "session_action_entries (S_roster_restore e v p) = expectation_entries e
     @ [(''expectedRosterVersion'', JNum v), (''participant'', participant_json p)]"
| "session_action_entries (S_roster_role e v p r) = expectation_entries e
     @ [(''expectedRosterVersion'', JNum v), (''expectedParticipant'', participant_json p), (''role'', JStr (role_text r))]"
| "session_action_entries (S_roster_reorder e v is) = expectation_entries e
     @ [(''expectedRosterVersion'', JNum v), (''personIds'', JArr (map JStr is))]"

definition session_input_json :: "session_input \<Rightarrow> json" where
  "session_input_json i = JObj ([(''action'', JStr (session_action_text (sb_action i))), (''scope'', break_scope_json (sb_scope i)),
     (''sessionId'', JStr (sb_sessionId i)), (''expectedCatalogVersion'', JNum (sb_expectedCatalogVersion i)),
     (''expectedCatalogDigestSha256'', JStr (sb_expectedCatalogDigest i)), (''actorUserId'', JStr (sb_actorUserId i)),
     (''occurredAt'', JStr (sb_occurredAt i))] @ session_action_entries (sb_action i))"

definition session_plan_json :: "session_plan \<Rightarrow> json" where
  "session_plan_json p = JObj [(''input'', session_input_json (sl_input p)),
     (''before'', null_or session_head_json (sl_before p)), (''after'', session_head_json (sl_after p)),
     (''catalogVersion'', JObj [(''before'', JNum (sl_versionBefore p)), (''after'', JNum (sl_versionAfter p))]),
     (''catalogDigestSha256'', JObj [(''before'', JStr (sl_digestBefore p)), (''after'', JStr (sl_digestAfter p))])]"

section \<open>Parsing images\<close>

definition parse_roster_evidence :: "(string \<Rightarrow> string) \<Rightarrow> roster \<Rightarrow> roster sessions" where
  "parse_roster_evidence sha r =
     (if \<not> roster_schema r then Inl SchemaErr
      else if session_roster_digest sha (rt_version r) (rt_participants r) \<noteq> rt_digest r then Inl TypeErr
      else Inr r)"

definition parse_session_head :: "(string \<Rightarrow> string) \<Rightarrow> session_head \<Rightarrow> session_head sessions" where
  "parse_session_head sha h =
     (if \<not> session_head_schema h then Inl SchemaErr
      else rbind (parse_roster_evidence sha (sh_roster h)) (\<lambda>_.
        if session_head_digest sha h \<noteq> sh_digest h then Inl TypeErr else Inr h))"

definition parse_session_catalog :: "(string \<Rightarrow> string) \<Rightarrow> session_catalog \<Rightarrow> session_catalog sessions" where
  "parse_session_catalog sha c =
     (if \<not> session_catalog_schema c then Inl SchemaErr
      else rbind (traverse (parse_session_head sha) (sg_sessions c)) (\<lambda>_.
        if session_catalog_digest sha (sg_scope c) (sg_version c) (sg_sessions c) \<noteq> sg_digest c then Inl TypeErr
        else Inr c))"

definition catalog_with ::
  "(string \<Rightarrow> string) \<Rightarrow> vocabulary_scope \<Rightarrow> int \<Rightarrow> session_head list \<Rightarrow> session_catalog sessions"
where
  "catalog_with sha scope version sessions = parse_session_catalog sha
     \<lparr> sg_scope = scope, sg_version = version, sg_sessions = sessions,
       sg_digest = session_catalog_digest sha scope version sessions \<rparr>"

definition create_empty_session_catalog :: "(string \<Rightarrow> string) \<Rightarrow> vocabulary_scope \<Rightarrow> session_catalog sessions" where
  "create_empty_session_catalog sha scope =
     (if \<not> scope_ok scope then Inl SchemaErr
      else parse_session_catalog sha \<lparr> sg_scope = scope, sg_version = 1, sg_sessions = [],
        sg_digest = session_catalog_digest sha scope 1 [] \<rparr>)"

definition find_session :: "session_catalog \<Rightarrow> string \<Rightarrow> session_head option" where
  "find_session c i = find (\<lambda>h. sh_id h = i) (sg_sessions c)"

section \<open>Rosters\<close>

definition refused :: "session_code \<Rightarrow> 'a sessions" where
  "refused code = Inl (Refused code)"

text \<open>\<open>{ ...participant, position }\<close>.\<close>

definition positioned :: "('a) roster_input_scheme \<Rightarrow> int \<Rightarrow> participant" where
  "positioned p n = \<lparr> pa_personId = pa_personId p, pa_role = pa_role p, pa_publiclyVisible = pa_publiclyVisible p,
     pa_source = pa_source p, pa_position = n \<rparr>"

text \<open>\<open>map((candidate, position) => ({ ...candidate, position }))\<close>, from a first position on.\<close>

fun positioned_from :: "int \<Rightarrow> ('a) roster_input_scheme list \<Rightarrow> participant list" where
  "positioned_from n [] = []"
| "positioned_from n (p # ps) = positioned p n # positioned_from (n + 1) ps"

text \<open>The loops over incoming participants: those of a person seen before are skipped.\<close>

fun append_new :: "string set \<Rightarrow> int \<Rightarrow> roster_input list \<Rightarrow> participant list" where
  "append_new seen n [] = []"
| "append_new seen n (p # ps) =
     (if pa_personId p \<in> seen then append_new seen n ps
      else positioned p n # append_new (insert (pa_personId p) seen) (n + 1) ps)"

definition seeded_roster_participants :: "roster_input list option \<Rightarrow> participant list" where
  "seeded_roster_participants ps = append_new {} 0 (case ps of None \<Rightarrow> [] | Some l \<Rightarrow> l)"

definition appended_roster_participants :: "participant list \<Rightarrow> roster_input list \<Rightarrow> participant list option" where
  "appended_roster_participants current incoming =
     (let appended = append_new (pa_personId ` set current)
            (foldl (\<lambda>m p. max m (pa_position p + 1)) 0 current) incoming in
      if appended = [] then None else Some (current @ appended))"

definition visibility_switched_participants ::
  "participant list \<Rightarrow> string \<Rightarrow> bool \<Rightarrow> participant list option sessions"
where
  "visibility_switched_participants current person visible =
     (case find (\<lambda>p. pa_personId p = person) current of
        None \<Rightarrow> refused S_participant_missing
      | Some p \<Rightarrow> Inr (if pa_publiclyVisible p = visible then None
          else Some (map (\<lambda>c. if pa_personId c = person then c \<lparr> pa_publiclyVisible := visible \<rparr> else c) current)))"

text \<open>The participant a change expects, compared by its canonical JSON.\<close>

definition expected_participant :: "participant list \<Rightarrow> participant \<Rightarrow> participant sessions" where
  "expected_participant current expected =
     (case find (\<lambda>p. pa_personId p = pa_personId expected) current of
        None \<Rightarrow> refused S_participant_missing
      | Some p \<Rightarrow> if canonical (participant_json p) \<noteq> canonical (participant_json expected)
          then refused S_participant_changed else Inr p)"

definition removed_roster_participant :: "participant list \<Rightarrow> participant \<Rightarrow> participant list sessions" where
  "removed_roster_participant current expected =
     rbind (expected_participant current expected) (\<lambda>_.
       Inr (positioned_from 0 (filter (\<lambda>p. pa_personId p \<noteq> pa_personId expected) current)))"

definition restored_roster_participant :: "participant list \<Rightarrow> participant \<Rightarrow> participant list sessions" where
  "restored_roster_participant current p =
     (if \<exists>c \<in> set current. pa_personId c = pa_personId p then refused S_participant_changed
      else if int (length current) < pa_position p then refused S_invalid_plan
      else Inr (positioned_from 0
        (take (nat (pa_position p)) current @ p # drop (nat (pa_position p)) current)))"

definition changed_roster_participant_role ::
  "participant list \<Rightarrow> participant \<Rightarrow> participant_role \<Rightarrow> participant list sessions"
where
  "changed_roster_participant_role current expected role =
     rbind (expected_participant current expected) (\<lambda>_.
       Inr (map (\<lambda>c. if pa_personId c = pa_personId expected then c \<lparr> pa_role := role \<rparr> else c) current))"

definition reordered_roster_participants :: "participant list \<Rightarrow> string list \<Rightarrow> participant list sessions" where
  "reordered_roster_participants current persons =
     (if length persons \<noteq> length current \<or> \<not> distinct persons then refused S_invalid_plan
      else let byPerson = map_entry (map (\<lambda>p. (pa_personId p, p)) current) in
      if \<exists>i \<in> set persons. byPerson i = None then refused S_participant_changed
      else Inr (positioned_from 0 (map (\<lambda>i. the (byPerson i)) persons)))"

section \<open>Planning\<close>

definition require_environment :: "vocabulary_scope \<Rightarrow> session_catalog \<Rightarrow> vocabulary \<Rightarrow> unit sessions" where
  "require_environment scope c vocab =
     ensure (same_scope scope (sg_scope c) \<and> same_scope scope (vs_scope vocab)) (Refused S_wrong_scope)"

definition require_catalog_guard :: "session_catalog \<Rightarrow> int \<Rightarrow> string \<Rightarrow> unit sessions" where
  "require_catalog_guard c version digest =
     ensure (sg_version c = version \<and> sg_digest c = digest) (Refused S_stale_catalog)"

fun transition_allowed :: "session_lifecycle \<Rightarrow> session_lifecycle \<Rightarrow> bool" where
  "transition_allowed L_draft to = (to = L_collecting \<or> to = L_programmed)"
| "transition_allowed L_collecting to = (to = L_programmed)"
| "transition_allowed L_programmed to = False"

definition require_transition :: "session_lifecycle \<Rightarrow> session_lifecycle \<Rightarrow> unit sessions" where
  "require_transition source to = ensure (transition_allowed source to) (Refused S_invalid_transition)"

definition resolved_track_id ::
  "vocabulary \<Rightarrow> session_lifecycle \<Rightarrow> string option \<Rightarrow> string option sessions"
where
  "resolved_track_id vocab lifecycle trackId =
     (if trackId \<noteq> None \<or> lifecycle = L_draft then Inr trackId
      else case active_items vocab Track of
        [] \<Rightarrow> Inr None
      | [track] \<Rightarrow> Inr (Some (pi_id track))
      | _ \<Rightarrow> refused S_track_required)"

definition format_evidence_of :: "vocabulary_item \<Rightarrow> format_evidence" where
  "format_evidence_of it = \<lparr> fe_id = pi_id it, fe_name = pi_name it, fe_version = pi_version it \<rparr>"

definition accent_of :: "item_detail \<Rightarrow> track_accent" where
  "accent_of d = (case d of TrackDetail a \<Rightarrow> a | _ \<Rightarrow> Neutral)"

definition track_evidence_of :: "vocabulary_item \<Rightarrow> track_evidence" where
  "track_evidence_of it = \<lparr> te_id = pi_id it, te_name = pi_name it, te_accent = accent_of (pi_detail it),
     te_version = pi_version it \<rparr>"

definition current_track :: "vocabulary \<Rightarrow> string option \<Rightarrow> vocabulary_item option sessions" where
  "current_track vocab trackId =
     (case trackId of None \<Rightarrow> Inr None
      | Some i \<Rightarrow> (case resolve_item vocab Track i of
          None \<Rightarrow> refused S_track_missing
        | Some it \<Rightarrow> if pi_status it \<noteq> Active then refused S_track_retired else Inr (Some it)))"

definition current_target_evidence ::
  "(string \<Rightarrow> string) \<Rightarrow> vocabulary \<Rightarrow> string \<Rightarrow> string option \<Rightarrow> program_target sessions"
where
  "current_target_evidence sha vocab formatId trackId =
     (case resolve_item vocab Format formatId of
        None \<Rightarrow> refused S_format_missing
      | Some format \<Rightarrow>
          if pi_status format \<noteq> Active then refused S_format_retired
          else rbind (current_track vocab trackId) (\<lambda>track.
            Inr \<lparr> et_setVersion = vs_setVersion vocab, et_setDigest = set_digest sha vocab,
              et_format = format_evidence_of format, et_track = map_option track_evidence_of track \<rparr>))"

text \<open>The target of a session that enters a lifecycle; the track is resolved first.\<close>

definition target_for ::
  "(string \<Rightarrow> string) \<Rightarrow> vocabulary \<Rightarrow> session_lifecycle \<Rightarrow> string \<Rightarrow> string option \<Rightarrow> program_target sessions"
where
  "target_for sha vocab lifecycle formatId trackId =
     rbind (resolved_track_id vocab lifecycle trackId) (\<lambda>track. current_target_evidence sha vocab formatId track)"

definition signed_roster :: "(string \<Rightarrow> string) \<Rightarrow> int \<Rightarrow> participant list \<Rightarrow> roster" where
  "signed_roster sha version participants = \<lparr> rt_version = version,
     rt_digest = session_roster_digest sha version participants, rt_participants = participants \<rparr>"

text \<open>A session with the digest of its other fields, parsed; the digest it comes with is not read.\<close>

definition parse_signed_head :: "(string \<Rightarrow> string) \<Rightarrow> session_head \<Rightarrow> session_head sessions" where
  "parse_signed_head sha unsigned = parse_session_head sha (unsigned \<lparr> sh_digest := session_head_digest sha unsigned \<rparr>)"

definition updated_head :: "session_input \<Rightarrow> session_head \<Rightarrow> session_head" where
  "updated_head i existing = existing \<lparr> sh_version := sh_version existing + 1,
     sh_updatedByUserId := sb_actorUserId i, sh_updatedAt := sb_occurredAt i \<rparr>"

definition changed_roster_head ::
  "(string \<Rightarrow> string) \<Rightarrow> session_input \<Rightarrow> session_head \<Rightarrow> participant list \<Rightarrow> session_head sessions"
where
  "changed_roster_head sha i existing participants =
     parse_signed_head sha (updated_head i existing
       \<lparr> sh_roster := signed_roster sha (rt_version (sh_roster existing) + 1) participants \<rparr>)"

text \<open>A roster after a change that may have left it as it was.\<close>

definition maybe_changed_roster :: "(string \<Rightarrow> string) \<Rightarrow> roster \<Rightarrow> participant list option \<Rightarrow> roster" where
  "maybe_changed_roster sha current changed =
     (case changed of None \<Rightarrow> signed_roster sha (rt_version current) (rt_participants current)
      | Some ps \<Rightarrow> signed_roster sha (rt_version current + 1) ps)"

definition require_exact_session :: "session_head \<Rightarrow> session_expectation \<Rightarrow> unit sessions" where
  "require_exact_session existing e =
     ensure (sh_version existing = se_version e \<and> sh_digest existing = se_digest e) (Refused S_stale_session)"

definition require_exact_session_and_roster ::
  "session_head \<Rightarrow> session_expectation \<Rightarrow> int \<Rightarrow> unit sessions"
where
  "require_exact_session_and_roster existing e rosterVersion =
     rbind (require_exact_session existing e) (\<lambda>_.
       ensure (rt_version (sh_roster existing) = rosterVersion) (Refused S_participant_changed))"

text \<open>A new session; its digest is taken when it is parsed.\<close>

definition created_session ::
  "(string \<Rightarrow> string) \<Rightarrow> vocabulary \<Rightarrow> session_input \<Rightarrow> new_session \<Rightarrow> session_head sessions"
where
  "created_session sha vocab i n =
     rbind (target_for sha vocab (ns_lifecycle n) (ns_formatId n) (ns_trackId n)) (\<lambda>target.
       parse_signed_head sha \<lparr> sh_scope = sb_scope i, sh_id = sb_sessionId i, sh_title = ns_title n,
         sh_plannedDurationMinutes = ns_plannedDurationMinutes n, sh_lifecycle = ns_lifecycle n,
         sh_programTarget = target,
         sh_roster = signed_roster sha 1 (seeded_roster_participants (ns_participants n)), sh_version = 1,
         sh_createdByUserId = sb_actorUserId i, sh_createdAt = sb_occurredAt i,
         sh_updatedByUserId = sb_actorUserId i, sh_updatedAt = sb_occurredAt i, sh_digest = [] \<rparr>)"

definition session_track_id :: "session_head \<Rightarrow> string option" where
  "session_track_id h = map_option te_id (et_track (sh_programTarget h))"

definition session_format_id :: "session_head \<Rightarrow> string" where
  "session_format_id h = fe_id (et_format (sh_programTarget h))"

definition retargeted_session ::
  "(string \<Rightarrow> string) \<Rightarrow> vocabulary \<Rightarrow> session_input \<Rightarrow> session_head \<Rightarrow> session_expectation \<Rightarrow> string \<Rightarrow> string option
   \<Rightarrow> session_head sessions"
where
  "retargeted_session sha vocab i existing e formatId trackId =
     rbind (require_exact_session existing e) (\<lambda>_.
     rbind (target_for sha vocab (sh_lifecycle existing) formatId trackId) (\<lambda>target.
       parse_signed_head sha (updated_head i existing \<lparr> sh_programTarget := target \<rparr>)))"

definition transitioned_session ::
  "(string \<Rightarrow> string) \<Rightarrow> vocabulary \<Rightarrow> session_input \<Rightarrow> session_head \<Rightarrow> session_expectation \<Rightarrow> session_lifecycle
   \<Rightarrow> session_head sessions"
where
  "transitioned_session sha vocab i existing e to =
     rbind (require_exact_session existing e) (\<lambda>_.
     rbind (require_transition (sh_lifecycle existing) to) (\<lambda>_.
     rbind (target_for sha vocab to (session_format_id existing) (session_track_id existing)) (\<lambda>target.
       parse_signed_head sha (updated_head i existing \<lparr> sh_lifecycle := to, sh_programTarget := target \<rparr>))))"

text \<open>The image of an existing session after a change other than creation.\<close>

fun changed_session ::
  "(string \<Rightarrow> string) \<Rightarrow> vocabulary \<Rightarrow> session_input \<Rightarrow> session_head \<Rightarrow> session_action \<Rightarrow> session_head sessions"
where
  "changed_session sha vocab i existing (S_roster_append e ps graduateTo) =
     rbind (require_exact_session existing e) (\<lambda>_.
     rbind (case graduateTo of None \<Rightarrow> Inr () | Some to \<Rightarrow> require_transition (sh_lifecycle existing) to) (\<lambda>_.
     let rs = maybe_changed_roster sha (sh_roster existing)
           (appended_roster_participants (rt_participants (sh_roster existing)) ps) in
     rbind (case graduateTo of None \<Rightarrow> Inr (sh_programTarget existing)
       | Some to \<Rightarrow> target_for sha vocab to (session_format_id existing) (session_track_id existing)) (\<lambda>target.
       parse_signed_head sha (updated_head i existing \<lparr>
         sh_lifecycle := (case graduateTo of None \<Rightarrow> sh_lifecycle existing | Some to \<Rightarrow> to),
         sh_programTarget := target, sh_roster := rs \<rparr>))))"
| "changed_session sha vocab i existing (S_roster_visibility e person visible) =
     rbind (require_exact_session existing e) (\<lambda>_.
     rbind (visibility_switched_participants (rt_participants (sh_roster existing)) person visible) (\<lambda>switched.
       parse_signed_head sha (updated_head i existing
         \<lparr> sh_roster := maybe_changed_roster sha (sh_roster existing) switched \<rparr>)))"
| "changed_session sha vocab i existing (S_roster_remove e rosterVersion expected) =
     rbind (require_exact_session_and_roster existing e rosterVersion) (\<lambda>_.
     rbind (removed_roster_participant (rt_participants (sh_roster existing)) expected) (\<lambda>participants.
       changed_roster_head sha i existing participants))"
| "changed_session sha vocab i existing (S_roster_restore e rosterVersion p) =
     rbind (require_exact_session_and_roster existing e rosterVersion) (\<lambda>_.
     rbind (restored_roster_participant (rt_participants (sh_roster existing)) p) (\<lambda>participants.
       changed_roster_head sha i existing participants))"
| "changed_session sha vocab i existing (S_roster_role e rosterVersion expected role) =
     rbind (require_exact_session_and_roster existing e rosterVersion) (\<lambda>_.
     rbind (changed_roster_participant_role (rt_participants (sh_roster existing)) expected role) (\<lambda>participants.
       changed_roster_head sha i existing participants))"
| "changed_session sha vocab i existing (S_roster_reorder e rosterVersion persons) =
     rbind (require_exact_session_and_roster existing e rosterVersion) (\<lambda>_.
     rbind (reordered_roster_participants (rt_participants (sh_roster existing)) persons) (\<lambda>participants.
       changed_roster_head sha i existing participants))"
| "changed_session sha vocab i existing (S_retarget e formatId trackId) = retargeted_session sha vocab i existing e formatId trackId"
| "changed_session sha vocab i existing (S_transition e to) = transitioned_session sha vocab i existing e to"
| "changed_session sha vocab i existing (S_create n) = refused S_session_exists"

text \<open>The images before and after a change.\<close>

definition session_images ::
  "(string \<Rightarrow> string) \<Rightarrow> vocabulary \<Rightarrow> session_catalog \<Rightarrow> session_input \<Rightarrow> (session_head option \<times> session_head) sessions"
where
  "session_images sha vocab c i =
     (let existing = find_session c (sb_sessionId i) in
      case sb_action i of
        S_create n \<Rightarrow>
          if existing \<noteq> None then refused S_session_exists
          else rbind (created_session sha vocab i n) (\<lambda>after. Inr (None, after))
      | action \<Rightarrow>
          rbind (need (Refused S_session_missing) existing) (\<lambda>h.
          rbind (changed_session sha vocab i h action) (\<lambda>after. Inr (Some h, after))))"

definition compare_sessions :: "session_head \<Rightarrow> session_head \<Rightarrow> int" where
  "compare_sessions l r = js_compare (sh_id l) (sh_id r)"

text \<open>The sessions with an image in place of those of its identifier, in canonical order.\<close>

definition sessions_without :: "string \<Rightarrow> session_head list \<Rightarrow> session_head list" where
  "sessions_without i sessions = filter (\<lambda>h. sh_id h \<noteq> i) sessions"

definition sessions_with :: "session_head list \<Rightarrow> session_head \<Rightarrow> session_head list" where
  "sessions_with sessions h = js_sort compare_sessions (sessions_without (sh_id h) sessions @ [h])"

definition build_mutation_plan ::
  "(string \<Rightarrow> string) \<Rightarrow> session_input \<Rightarrow> session_catalog \<Rightarrow> session_head option \<Rightarrow> session_head \<Rightarrow> session_plan sessions"
where
  "build_mutation_plan sha i c before after =
     rbind (catalog_with sha (sg_scope c) (sg_version c + 1) (sessions_with (sg_sessions c) after)) (\<lambda>nextCatalog.
       parse_session_plan \<lparr> sl_input = i, sl_before = before, sl_after = after,
         sl_versionBefore = sg_version c, sl_versionAfter = sg_version nextCatalog,
         sl_digestBefore = sg_digest c, sl_digestAfter = sg_digest nextCatalog \<rparr>)"

definition plan_session_mutation ::
  "(string \<Rightarrow> string) \<Rightarrow> session_input \<Rightarrow> session_catalog \<Rightarrow> vocabulary \<Rightarrow> session_plan sessions"
where
  "plan_session_mutation sha planningInput c vocab =
     rbind (parse_session_input planningInput) (\<lambda>i.
     rbind (require_environment (sb_scope i) c vocab) (\<lambda>_.
     rbind (require_catalog_guard c (sb_expectedCatalogVersion i) (sb_expectedCatalogDigest i)) (\<lambda>_.
     rbind (session_images sha vocab c i) (\<lambda>(before, after).
       build_mutation_plan sha i c before after))))"

section \<open>Checking and applying plans\<close>

definition validate_session_plan ::
  "(string \<Rightarrow> string) \<Rightarrow> session_plan \<Rightarrow> session_catalog \<Rightarrow> vocabulary \<Rightarrow> session_code option"
where
  "validate_session_plan sha plan c vocab =
     (case plan_session_mutation sha (sl_input plan) c vocab of
        Inl (Refused code) \<Rightarrow> Some code
      | Inl _ \<Rightarrow> Some S_invalid_plan
      | Inr rebuilt \<Rightarrow>
          if canonical (session_plan_json rebuilt) = canonical (session_plan_json plan) then None
          else Some S_invalid_plan)"

text \<open>Results name the action, with the two that only plans of their own have.\<close>

datatype session_deed = Deed_action session_action | Deed_restore | Deed_remove_new

fun session_deed_text :: "session_deed \<Rightarrow> string" where
  "session_deed_text (Deed_action a) = session_action_text a"
| "session_deed_text Deed_restore = ''restore''"
| "session_deed_text Deed_remove_new = ''remove_new_session''"

record session_result =
  sx_action :: string
  sx_catalogVersion :: int
  sx_session :: "session_head option"

definition parse_session_result :: "session_deed \<Rightarrow> int \<Rightarrow> session_head option \<Rightarrow> session_result sessions" where
  "parse_session_result deed version session =
     (if positive_safe version \<and> optional_head_schema session
      then Inr \<lparr> sx_action = session_deed_text deed, sx_catalogVersion = version, sx_session = session \<rparr>
      else Inl SchemaErr)"

definition apply_session_plan ::
  "(string \<Rightarrow> string) \<Rightarrow> session_plan \<Rightarrow> session_catalog \<Rightarrow> vocabulary \<Rightarrow> (session_catalog \<times> session_result) sessions"
where
  "apply_session_plan sha plan c vocab =
     (case validate_session_plan sha plan c vocab of
        Some refusal \<Rightarrow> refused refusal
      | None \<Rightarrow>
          rbind (catalog_with sha (sg_scope c) (sl_versionAfter plan) (sessions_with (sg_sessions c) (sl_after plan))) (\<lambda>c'.
            if sg_digest c' \<noteq> sl_digestAfter plan then refused S_invalid_plan
            else rbind (parse_session_result (Deed_action (sb_action (sl_input plan))) (sg_version c') (Some (sl_after plan)))
              (\<lambda>result. Inr (c', result))))"

section \<open>Compensation and removal of new sessions\<close>

text \<open>The sessions after the current image of an identifier is replaced by an image, or removed.\<close>

definition sessions_restored :: "session_head list \<Rightarrow> string \<Rightarrow> session_head option \<Rightarrow> session_head list" where
  "sessions_restored sessions i restore =
     js_sort compare_sessions (sessions_without i sessions @ (case restore of None \<Rightarrow> [] | Some h \<Rightarrow> [h]))"

definition restored_head ::
  "(string \<Rightarrow> string) \<Rightarrow> session_head option \<Rightarrow> session_head \<Rightarrow> string \<Rightarrow> string \<Rightarrow> session_head option sessions"
where
  "restored_head sha before current actor occurredAt =
     (case before of None \<Rightarrow> Inr None
      | Some prior \<Rightarrow> rbind (parse_signed_head sha (prior \<lparr> sh_version := sh_version current + 1,
          sh_updatedByUserId := actor, sh_updatedAt := occurredAt \<rparr>)) (\<lambda>h. Inr (Some h)))"

definition plan_session_compensation ::
  "(string \<Rightarrow> string) \<Rightarrow> session_plan \<Rightarrow> session_catalog \<Rightarrow> string \<Rightarrow> string \<Rightarrow> session_restore_plan sessions"
where
  "plan_session_compensation sha original c actor occurredAt =
     (case find_session c (sh_id (sl_after original)) of
        None \<Rightarrow> refused S_stale_session
      | Some current \<Rightarrow>
          if sh_digest current \<noteq> sh_digest (sl_after original) \<or> sg_version c \<noteq> sl_versionAfter original
            \<or> sg_digest c \<noteq> sl_digestAfter original
          then refused S_stale_session
          else rbind (restored_head sha (sl_before original) current actor occurredAt) (\<lambda>restore.
            rbind (catalog_with sha (sg_scope c) (sg_version c + 1)
                (sessions_restored (sg_sessions c) (sh_id current) restore)) (\<lambda>afterCatalog.
              let plan = \<lparr> rm_scope = sg_scope c, rm_expectedCatalogVersion = sg_version c,
                    rm_expectedCatalogDigest = sg_digest c, rm_expectedCurrent = current,
                    rm_versionBefore = sg_version c, rm_versionAfter = sg_version afterCatalog,
                    rm_digestBefore = sg_digest c, rm_digestAfter = sg_digest afterCatalog,
                    rm_actorUserId = actor, rm_occurredAt = occurredAt, rm_restore = restore \<rparr> in
              if session_restore_schema plan then Inr plan else Inl SchemaErr)))"

text \<open>
  The same for a change that another operation embedded (\<open>packages/session/src/graduation-collaboration.ts\<close>):
  only the session must still be the image of the change, the catalog may have moved on.
\<close>

definition plan_graduation_reversal_against ::
  "(string \<Rightarrow> string) \<Rightarrow> session_plan \<Rightarrow> session_catalog \<Rightarrow> string \<Rightarrow> string \<Rightarrow> session_restore_plan sessions"
where
  "plan_graduation_reversal_against sha original c actor occurredAt =
     (case find_session c (sh_id (sl_after original)) of
        None \<Rightarrow> refused S_stale_session
      | Some current \<Rightarrow>
          if sh_digest current \<noteq> sh_digest (sl_after original) then refused S_stale_session
          else rbind (restored_head sha (sl_before original) current actor occurredAt) (\<lambda>restore.
            rbind (catalog_with sha (sg_scope c) (sg_version c + 1)
                (sessions_restored (sg_sessions c) (sh_id current) restore)) (\<lambda>afterCatalog.
              let plan = \<lparr> rm_scope = sg_scope c, rm_expectedCatalogVersion = sg_version c,
                    rm_expectedCatalogDigest = sg_digest c, rm_expectedCurrent = current,
                    rm_versionBefore = sg_version c, rm_versionAfter = sg_version afterCatalog,
                    rm_digestBefore = sg_digest c, rm_digestAfter = sg_digest afterCatalog,
                    rm_actorUserId = actor, rm_occurredAt = occurredAt, rm_restore = restore \<rparr> in
              if session_restore_schema plan then Inr plan else Inl SchemaErr)))"

definition apply_session_restore_plan ::
  "(string \<Rightarrow> string) \<Rightarrow> session_restore_plan \<Rightarrow> session_catalog \<Rightarrow> (session_catalog \<times> session_result) sessions"
where
  "apply_session_restore_plan sha plan c =
     (if \<not> session_restore_schema plan then Inl SchemaErr
      else rbind (require_catalog_guard c (rm_expectedCatalogVersion plan) (rm_expectedCatalogDigest plan)) (\<lambda>_.
      rbind (ensure (same_scope (sg_scope c) (rm_scope plan)) (Refused S_wrong_scope)) (\<lambda>_.
      rbind (need (Refused S_stale_session) (find_session c (sh_id (rm_expectedCurrent plan)))) (\<lambda>current.
      rbind (ensure (sh_digest current = sh_digest (rm_expectedCurrent plan)
          \<and> sh_version current = sh_version (rm_expectedCurrent plan)) (Refused S_stale_session)) (\<lambda>_.
      rbind (case rm_restore plan of None \<Rightarrow> Inr None | Some h \<Rightarrow> rbind (parse_session_head sha h) (\<lambda>x. Inr (Some x)))
        (\<lambda>restore.
      rbind (catalog_with sha (sg_scope c) (rm_versionAfter plan)
          (sessions_restored (sg_sessions c) (sh_id current) restore)) (\<lambda>c'.
        if sg_digest c' \<noteq> rm_digestAfter plan then refused S_invalid_plan
        else rbind (parse_session_result Deed_restore (sg_version c') (rm_restore plan)) (\<lambda>result.
          Inr (c', result)))))))))"

definition plan_new_session_removal ::
  "(string \<Rightarrow> string) \<Rightarrow> session_head \<Rightarrow> session_catalog \<Rightarrow> string \<Rightarrow> string \<Rightarrow> session_removal_plan sessions"
where
  "plan_new_session_removal sha expected c actor occurredAt =
     (case find_session c (sh_id expected) of
        None \<Rightarrow> refused S_stale_session
      | Some current \<Rightarrow>
          if sh_version current \<noteq> 1 \<or> sh_digest current \<noteq> sh_digest expected then refused S_stale_session
          else rbind (catalog_with sha (sg_scope c) (sg_version c + 1) (sessions_without (sh_id current) (sg_sessions c)))
            (\<lambda>afterCatalog.
              let plan = \<lparr> rm_scope = sg_scope c, rm_expectedCatalogVersion = sg_version c,
                    rm_expectedCatalogDigest = sg_digest c, rm_expectedCurrent = current,
                    rm_versionBefore = sg_version c, rm_versionAfter = sg_version afterCatalog,
                    rm_digestBefore = sg_digest c, rm_digestAfter = sg_digest afterCatalog,
                    rm_actorUserId = actor, rm_occurredAt = occurredAt \<rparr> in
              if session_removal_schema plan then Inr plan else Inl SchemaErr))"

definition apply_new_session_removal_plan ::
  "(string \<Rightarrow> string) \<Rightarrow> session_removal_plan \<Rightarrow> session_catalog \<Rightarrow> (session_catalog \<times> session_result) sessions"
where
  "apply_new_session_removal_plan sha plan c =
     (if \<not> session_removal_schema plan then Inl SchemaErr
      else rbind (require_catalog_guard c (rm_expectedCatalogVersion plan) (rm_expectedCatalogDigest plan)) (\<lambda>_.
      rbind (ensure (same_scope (sg_scope c) (rm_scope plan)) (Refused S_wrong_scope)) (\<lambda>_.
      rbind (need (Refused S_stale_session) (find_session c (sh_id (rm_expectedCurrent plan)))) (\<lambda>current.
      rbind (ensure (sh_version current = 1 \<and> sh_version current = sh_version (rm_expectedCurrent plan)
          \<and> sh_digest current = sh_digest (rm_expectedCurrent plan)) (Refused S_stale_session)) (\<lambda>_.
      rbind (catalog_with sha (sg_scope c) (rm_versionAfter plan) (sessions_without (sh_id current) (sg_sessions c)))
        (\<lambda>c'. if sg_digest c' \<noteq> rm_digestAfter plan then refused S_invalid_plan
        else rbind (parse_session_result Deed_remove_new (sg_version c') None) (\<lambda>result. Inr (c', result))))))))"

section \<open>The JSON forms determine the values\<close>

lemma null_or_inject:
  assumes "\<And>a b. canon (f a) = canon (f b) \<longleftrightarrow> a = b" "\<And>a. canon (f a) \<noteq> JNull"
  shows "canon (null_or f a) = canon (null_or f b) \<longleftrightarrow> a = b"
  using assms by (cases a; cases b) (auto dest: sym)

lemma role_text_inject: "role_text a = role_text b \<longleftrightarrow> a = b"
  by (cases a; cases b) simp_all

lemma lifecycle_text_inject: "lifecycle_text a = lifecycle_text b \<longleftrightarrow> a = b"
  by (cases a; cases b) simp_all

lemma accent_text_inject: "accent_text a = accent_text b \<longleftrightarrow> a = b"
  by (cases a; cases b) simp_all

lemma roster_source_json_inject: "canon (roster_source_json a) = canon (roster_source_json b) \<longleftrightarrow> a = b"
  by (cases a; cases b) (simp add: roster_source_json_def canon_obj_iff conj_ac del: canon.simps(2))

lemma roster_input_json_inject: "canon (roster_input_json a) = canon (roster_input_json b) \<longleftrightarrow> a = b"
  by (cases a; cases b)
    (simp add: roster_input_json_def canon_obj_iff conj_ac roster_source_json_inject role_text_inject del: canon.simps(2))

lemma participant_json_inject: "canon (participant_json a) = canon (participant_json b) \<longleftrightarrow> a = b"
  by (cases a; cases b)
    (auto simp add: participant_json_def canon_obj_iff roster_source_json_inject role_text_inject simp del: canon.simps(2))

lemma format_evidence_json_inject: "canon (format_evidence_json a) = canon (format_evidence_json b) \<longleftrightarrow> a = b"
  by (cases a; cases b) (simp add: format_evidence_json_def canon_obj_iff conj_ac del: canon.simps(2))

lemma track_evidence_json_inject: "canon (track_evidence_json a) = canon (track_evidence_json b) \<longleftrightarrow> a = b"
  by (cases a; cases b)
    (auto simp add: track_evidence_json_def canon_obj_iff accent_text_inject simp del: canon.simps(2))

lemma program_target_json_inject: "canon (program_target_json a) = canon (program_target_json b) \<longleftrightarrow> a = b"
proof -
  have "canon (null_or track_evidence_json x) = canon (null_or track_evidence_json y) \<longleftrightarrow> x = y" for x y
    by (rule null_or_inject [OF track_evidence_json_inject]) (simp add: track_evidence_json_def)
  then show ?thesis
    by (cases a; cases b)
      (simp add: program_target_json_def canon_obj_iff format_evidence_json_inject del: canon.simps(2))
qed

lemma roster_json_inject: "canon (roster_json a) = canon (roster_json b) \<longleftrightarrow> a = b"
  by (cases a; cases b)
    (simp add: roster_json_def canon_obj_iff map_canon_inject [OF participant_json_inject] del: canon.simps(2))

lemma unsigned_head_inject:
  "map (canon \<circ> snd) (unsigned_head_entries a) = map (canon \<circ> snd) (unsigned_head_entries b)
   \<longleftrightarrow> a \<lparr> sh_digest := [] \<rparr> = b \<lparr> sh_digest := [] \<rparr>"
  by (cases a; cases b)
    (simp add: unsigned_head_entries_def break_scope_json_inject lifecycle_text_inject program_target_json_inject
      roster_json_inject del: canon.simps(2))

lemma session_head_json_inject: "canon (session_head_json a) = canon (session_head_json b) \<longleftrightarrow> a = b"
proof -
  have "canon (session_head_json a) = canon (session_head_json b)
      \<longleftrightarrow> map (canon \<circ> snd) (unsigned_head_entries a) = map (canon \<circ> snd) (unsigned_head_entries b)
        \<and> sh_digest a = sh_digest b"
    unfolding session_head_json_def by (subst canon_obj_iff) (simp_all add: unsigned_head_entries_def)
  then show ?thesis unfolding unsigned_head_inject by (cases a; cases b) auto
qed

text \<open>The keys of an input are distinct.\<close>

definition input_keys :: "session_action \<Rightarrow> string list" where
  "input_keys a = [''action'', ''scope'', ''sessionId'', ''expectedCatalogVersion'', ''expectedCatalogDigestSha256'',
     ''actorUserId'', ''occurredAt''] @ map fst (session_action_entries a)"

lemma input_keys_distinct: "distinct (input_keys a)"
  by (cases a) (simp_all add: input_keys_def expectation_entries_def optional_entry_def split: option.split)

lemma session_action_text_known:
  assumes "canon (session_input_json a) = canon (session_input_json b)"
  shows "session_action_text (sb_action a) = session_action_text (sb_action b)"
  using canon_obj_lookup [OF assms [unfolded session_input_json_def], of "''action''"]
    input_keys_distinct [of "sb_action a"] input_keys_distinct [of "sb_action b"]
  by (simp add: input_keys_def)

lemma action_entries_keys:
  assumes eq: "canon (session_input_json a) = canon (session_input_json b)"
  shows "map fst (session_action_entries (sb_action a)) = map fst (session_action_entries (sb_action b))"
proof -
  have "map_of (session_action_entries (sb_action a)) k = None \<longleftrightarrow> map_of (session_action_entries (sb_action b)) k = None"
    if "k \<in> {''participants'', ''graduateTo''}" for k
    using canon_obj_lookup [OF eq [unfolded session_input_json_def], of k] that
      input_keys_distinct [of "sb_action a"] input_keys_distinct [of "sb_action b"] by (auto simp: input_keys_def)
  from this [of "''participants''"] this [of "''graduateTo''"] session_action_text_known [OF eq] show ?thesis
    by (cases "sb_action a"; cases "sb_action b"; (use session_action_text_known [OF eq] in \<open>simp; fail\<close>)?;
      auto simp: optional_entry_def expectation_entries_def split: option.splits)
qed

lemma expectation_inject:
  "map (canon \<circ> snd) (expectation_entries a) = map (canon \<circ> snd) (expectation_entries b) \<longleftrightarrow> a = b"
  by (cases a; cases b) (auto simp: expectation_entries_def)

lemma null_or_text_inject: "canon (null_or JStr a) = canon (null_or JStr b) \<longleftrightarrow> a = b"
  by (rule null_or_inject) simp_all

lemma text_list_inject: "map JStr xs = map JStr ys \<longleftrightarrow> xs = ys"
  by (rule inj_map_eq_map) (simp add: inj_def)

lemma action_entries_inject:
  assumes "session_action_text a = session_action_text b"
    and "map fst (session_action_entries a) = map fst (session_action_entries b)"
    and "map (canon \<circ> snd) (session_action_entries a) = map (canon \<circ> snd) (session_action_entries b)"
  shows "a = b"
  by (cases a; cases b; (use assms(1) in \<open>simp; fail\<close>)?;
    use assms(2,3) in \<open>auto simp: optional_entry_def expectation_entries_def lifecycle_text_inject role_text_inject participant_json_inject
      null_or_text_inject map_canon_inject [OF roster_input_json_inject] text_list_inject comp_def
      map_canon_inject [unfolded comp_def, OF roster_input_json_inject]
      intro!: session_expectation.equality new_session.equality
      split: option.splits simp del: canon.simps(2)\<close>)

lemma session_input_json_inject: "canon (session_input_json a) = canon (session_input_json b) \<longleftrightarrow> a = b"
proof
  assume eq: "canon (session_input_json a) = canon (session_input_json b)"
  note known = session_action_text_known [OF eq] action_entries_keys [OF eq]
  from eq known input_keys_distinct [of "sb_action b"] have e: "map (canon \<circ> snd) (session_action_entries (sb_action a)) = map (canon \<circ> snd) (session_action_entries (sb_action b))"
    and b: "sb_scope a = sb_scope b" "sb_sessionId a = sb_sessionId b"
      "sb_expectedCatalogVersion a = sb_expectedCatalogVersion b" "sb_expectedCatalogDigest a = sb_expectedCatalogDigest b"
      "sb_actorUserId a = sb_actorUserId b" "sb_occurredAt a = sb_occurredAt b"
    unfolding session_input_json_def input_keys_def by (simp_all add: canon_obj_iff break_scope_json_inject del: canon.simps(2))
  from action_entries_inject [OF known e] b show "a = b" by simp
qed simp

lemma session_plan_json_inject: "canon (session_plan_json a) = canon (session_plan_json b) \<longleftrightarrow> a = b"
proof -
  have "canon (null_or session_head_json x) = canon (null_or session_head_json y) \<longleftrightarrow> x = y" for x y
    by (rule null_or_inject [OF session_head_json_inject]) (simp add: session_head_json_def)
  then show ?thesis
    by (cases a; cases b)
      (auto simp: session_plan_json_def canon_obj_iff session_input_json_inject session_head_json_inject
        simp del: canon.simps(2))
qed

end
