(* ===== verification/SessionChanges.thy ===== *)
theory SessionChanges
  imports Session
begin

text \<open>
  What holds of sessions: inputs normalize once, parsed images are what is stored, every change of a
  roster keeps one membership per person at positions 0, 1, 2 and so on, planned changes apply exactly
  once with the effect their plan shows, lifecycles only move forward, and changes are undone by their
  compensation.
\<close>

section \<open>Inputs normalize once\<close>

lemma accepted_id_lower [simp]: "accepted_id (to_lower s) = accepted_id s"
  by (simp add: accepted_id_def)

lemma normalized_action_idem: "normalized_action (normalized_action a) = normalized_action a"
  by (cases a) (simp_all add: normalized_name_idem option.map_comp comp_def)

lemma is_creation_normalized [simp]: "is_creation (normalized_action a) = is_creation a"
  by (cases a) simp_all

lemma normalized_action_accepts: "session_action_accepts (normalized_action a) = session_action_accepts a"
  by (cases a) (simp_all add: accepted_title_def normalized_name_idem option.pred_map list.pred_map comp_def)

lemma normalized_input_idem: "normalized_input (normalized_input i) = normalized_input i"
  by (simp add: normalized_input_def normalized_action_idem)

lemma normalized_input_accepts: "session_input_accepts (normalized_input i) = session_input_accepts i"
  by (simp add: session_input_accepts_def normalized_input_def normalized_action_accepts)

lemma parse_session_input_idem: "parse_session_input i = Inr j \<Longrightarrow> parse_session_input j = Inr j"
  by (auto simp: parse_session_input_def normalized_input_accepts normalized_input_idem split: if_splits)

section \<open>Images and catalogs that parse\<close>

definition roster_ok :: "(string \<Rightarrow> string) \<Rightarrow> roster \<Rightarrow> bool" where
  "roster_ok sha r \<longleftrightarrow> roster_schema r \<and> session_roster_digest sha (rt_version r) (rt_participants r) = rt_digest r"

definition head_ok :: "(string \<Rightarrow> string) \<Rightarrow> session_head \<Rightarrow> bool" where
  "head_ok sha h \<longleftrightarrow> session_head_schema h \<and> roster_ok sha (sh_roster h) \<and> session_head_digest sha h = sh_digest h"

definition catalog_ok :: "(string \<Rightarrow> string) \<Rightarrow> session_catalog \<Rightarrow> bool" where
  "catalog_ok sha c \<longleftrightarrow> session_catalog_schema c \<and> list_all (head_ok sha) (sg_sessions c)
     \<and> session_catalog_digest sha (sg_scope c) (sg_version c) (sg_sessions c) = sg_digest c"

lemma parse_roster_evidence_iff: "parse_roster_evidence sha r = Inr x \<longleftrightarrow> roster_ok sha r \<and> x = r"
  by (auto simp: parse_roster_evidence_def roster_ok_def)

lemma parse_session_head_iff: "parse_session_head sha h = Inr x \<longleftrightarrow> head_ok sha h \<and> x = h"
  by (auto simp: parse_session_head_def head_ok_def rbind_Inr_iff parse_roster_evidence_iff)

lemma parse_session_catalog_iff: "parse_session_catalog sha c = Inr x \<longleftrightarrow> catalog_ok sha c \<and> x = c"
proof -
  have "(\<exists>ys. traverse (parse_session_head sha) (sg_sessions c) = Inr ys) \<longleftrightarrow> list_all (head_ok sha) (sg_sessions c)"
  proof
    assume "\<exists>ys. traverse (parse_session_head sha) (sg_sessions c) = Inr ys"
    then obtain ys where t: "traverse (parse_session_head sha) (sg_sessions c) = Inr ys" ..
    have "head_ok sha h" if h: "h \<in> set (sg_sessions c)" for h
      using traverse_input [OF t h] by (auto simp: parse_session_head_iff)
    then show "list_all (head_ok sha) (sg_sessions c)" by (simp add: list_all_iff)
  next
    assume "list_all (head_ok sha) (sg_sessions c)"
    then have "traverse (parse_session_head sha) (sg_sessions c) = Inr (map (\<lambda>h. h) (sg_sessions c))"
      by (intro traverse_total) (simp add: parse_session_head_iff list_all_iff)
    then show "\<exists>ys. traverse (parse_session_head sha) (sg_sessions c) = Inr ys" by blast
  qed
  then show ?thesis
    by (cases "traverse (parse_session_head sha) (sg_sessions c)")
      (simp_all add: parse_session_catalog_def catalog_ok_def eq_commute [of x c] conj_ac)
qed

lemma catalog_with_iff:
  "catalog_with sha scope version sessions = Inr c \<longleftrightarrow> catalog_ok sha c \<and> sg_scope c = scope \<and> sg_version c = version
     \<and> sg_sessions c = sessions"
  by (cases c) (auto simp: catalog_with_def parse_session_catalog_iff catalog_ok_def)

lemma parse_signed_head_iff:
  "parse_signed_head sha u = Inr h \<longleftrightarrow> head_ok sha h \<and> h = u \<lparr> sh_digest := session_head_digest sha u \<rparr>"
  by (auto simp: parse_signed_head_def parse_session_head_iff)

lemma session_head_digest_unsigned [simp]: "session_head_digest sha (h \<lparr> sh_digest := d \<rparr>) = session_head_digest sha h"
  by (simp add: session_head_digest_def unsigned_head_entries_def)

section \<open>Rosters\<close>

text \<open>One membership per person, at positions from 0 on.\<close>

definition roster_dense :: "participant list \<Rightarrow> bool" where
  "roster_dense ps \<longleftrightarrow> distinct (map pa_personId ps) \<and> map pa_position ps = map int [0..<length ps]"

lemma positioned_fields [simp]:
  "pa_personId (positioned p n) = pa_personId p" "pa_role (positioned p n) = pa_role p"
  "pa_publiclyVisible (positioned p n) = pa_publiclyVisible p" "pa_source (positioned p n) = pa_source p"
  "pa_position (positioned p n) = n"
  by (simp_all add: positioned_def)

lemma positioned_own [simp]: "positioned p (pa_position p) = p"
  by (cases p) (simp add: positioned_def)

lemma positioned_from_length [simp]: "length (positioned_from n ps) = length ps"
  by (induction n ps rule: positioned_from.induct) simp_all

lemma positioned_from_persons [simp]: "map pa_personId (positioned_from n ps) = map pa_personId ps"
  by (induction n ps rule: positioned_from.induct) simp_all

lemma positioned_from_nth: "k < length ps \<Longrightarrow> positioned_from n ps ! k = positioned (ps ! k) (n + int k)"
  by (induction n ps arbitrary: k rule: positioned_from.induct)
    (auto simp: nth_Cons add_ac split: nat.split)

lemma positioned_from_positions: "map pa_position (positioned_from n ps) = map (\<lambda>k. n + int k) [0..<length ps]"
  by (rule nth_equalityI) (simp_all add: positioned_from_nth)

lemma positioned_from_dense: "distinct (map pa_personId ps) \<Longrightarrow> roster_dense (positioned_from 0 ps)"
  by (simp add: roster_dense_def positioned_from_positions)

lemma positioned_from_own:
  assumes "map pa_position ps = map (\<lambda>k. n + int k) [0..<length ps]"
  shows "positioned_from n ps = ps"
proof (rule nth_equalityI)
  fix k assume "k < length (positioned_from n ps)"
  moreover from this have "pa_position (ps ! k) = n + int k" using arg_cong [OF assms, of "\<lambda>xs. xs ! k"] by simp
  ultimately show "positioned_from n ps ! k = ps ! k"
    using positioned_own [of "ps ! k"] by (simp add: positioned_from_nth)
qed simp

lemma dense_positioned: "roster_dense ps \<Longrightarrow> positioned_from 0 ps = ps"
  by (intro positioned_from_own) (simp add: roster_dense_def)

lemma append_new_persons:
  "distinct (map pa_personId (append_new seen n ps)) \<and> pa_personId ` set (append_new seen n ps) = pa_personId ` set ps - seen"
  by (induction seen n ps rule: append_new.induct) auto

lemma append_new_positions:
  "map pa_position (append_new seen n ps) = map (\<lambda>k. n + int k) [0..<length (append_new seen n ps)]"
proof (induction seen n ps rule: append_new.induct)
  case (2 seen n p ps)
  show ?case
  proof (cases "pa_personId p \<in> seen")
    case False
    have "map (\<lambda>k. n + int k) [0..<Suc m] = n # map (\<lambda>k. n + 1 + int k) [0..<m]" for m
      by (simp add: upt_conv_Cons map_Suc_upt [symmetric] comp_def add_ac del: upt_Suc)
    with 2(2) [OF False] False show ?thesis by (simp del: upt_Suc)
  qed (use 2(1) in simp)
qed simp

lemma seeded_dense: "roster_dense (seeded_roster_participants ps)"
  using append_new_persons append_new_positions [of "{}" 0]
  by (simp add: roster_dense_def seeded_roster_participants_def)

lemma next_position_dense:
  assumes "map pa_position ps = map int [0..<length ps]"
  shows "foldl (\<lambda>m p. max m (pa_position p + 1)) 0 ps = int (length ps)"
  using assms
proof (induction ps rule: rev_induct)
  case (snoc p ps)
  then show ?case by simp
qed simp

text \<open>What appending gives: the old roster, then the new people, each once.\<close>

lemma appended_result:
  assumes "roster_dense current" "appended_roster_participants current incoming = Some ps"
  shows "\<exists>added. ps = current @ added \<and> added \<noteq> [] \<and> roster_dense ps
    \<and> pa_personId ` set added = pa_personId ` set incoming - pa_personId ` set current"
proof -
  let ?a = "append_new (pa_personId ` set current) (int (length current)) incoming"
  have pos: "map pa_position current = map int [0..<length current]" using assms(1) by (simp add: roster_dense_def)
  from assms(2) have a: "?a \<noteq> []" "ps = current @ ?a"
    by (auto simp: appended_roster_participants_def next_position_dense [OF pos] Let_def split: if_splits)
  have shift: "map (\<lambda>k. int m + int k) [0..<n] = map int [m..<m + n]" for m n
    by (rule nth_equalityI) simp_all
  have "map pa_position ps = map int [0..<length current] @ map int [length current..<length current + length ?a]"
    unfolding a(2) map_append pos append_new_positions shift ..
  then have "map pa_position ps = map int [0..<length ps]"
    unfolding map_append [symmetric] a(2) length_append by (simp only: upt_add_eq_append [OF le0])
  moreover note new = append_new_persons [of "pa_personId ` set current" "int (length current)" incoming]
  from assms(1) new have "distinct (map pa_personId ps)"
    unfolding a(2) roster_dense_def map_append distinct_append set_map by blast
  ultimately show ?thesis using a new by (simp add: roster_dense_def)
qed

lemma appended_none: "appended_roster_participants current incoming = None \<longleftrightarrow> pa_personId ` set incoming \<subseteq> pa_personId ` set current"
proof -
  have "append_new seen n ps = [] \<longleftrightarrow> pa_personId ` set ps \<subseteq> seen" for seen n and ps :: "roster_input list"
    by (induction seen n ps rule: append_new.induct) auto
  then show ?thesis by (simp add: appended_roster_participants_def Let_def)
qed

lemma expected_participant_iff:
  "expected_participant current e = Inr p \<longleftrightarrow> find (\<lambda>p. pa_personId p = pa_personId e) current = Some e \<and> p = e"
  by (auto simp: expected_participant_def refused_def canonical_inject participant_json_inject split: option.splits)

text \<open>An update of one person's entry that keeps persons and positions.\<close>

lemma update_dense:
  assumes "\<And>p. pa_personId (f p) = pa_personId p" "\<And>p. pa_position (f p) = pa_position p"
  shows "roster_dense (map f ps) = roster_dense ps"
  by (simp add: roster_dense_def comp_def assms)

lemma visibility_result:
  assumes "visibility_switched_participants current person visible = Inr switched"
  shows "switched = (if \<exists>p. find (\<lambda>p. pa_personId p = person) current = Some p \<and> pa_publiclyVisible p = visible then None
      else Some (map (\<lambda>c. if pa_personId c = person then c \<lparr> pa_publiclyVisible := visible \<rparr> else c) current))
    \<and> person \<in> pa_personId ` set current"
  using assms by (auto simp: visibility_switched_participants_def refused_def split: option.splits if_splits dest: find_result)

lemma visibility_dense:
  assumes "roster_dense current" "visibility_switched_participants current person visible = Inr (Some ps)"
  shows "roster_dense ps"
proof -
  from visibility_result [OF assms(2)]
  have "ps = map (\<lambda>c. if pa_personId c = person then c \<lparr> pa_publiclyVisible := visible \<rparr> else c) current"
    by (simp split: if_splits)
  with assms(1) show ?thesis by (simp add: update_dense)
qed

lemma removed_iff:
  "removed_roster_participant current e = Inr ps \<longleftrightarrow> find (\<lambda>p. pa_personId p = pa_personId e) current = Some e
     \<and> ps = positioned_from 0 (filter (\<lambda>p. pa_personId p \<noteq> pa_personId e) current)"
  by (auto simp: removed_roster_participant_def rbind_Inr_iff expected_participant_iff)

lemma distinct_filter_key: "distinct (map f ps) \<Longrightarrow> distinct (map f (filter P ps))"
  by (induction ps) auto

lemma removed_dense: "roster_dense current \<Longrightarrow> removed_roster_participant current e = Inr ps \<Longrightarrow> roster_dense ps"
  by (auto simp: removed_iff intro!: positioned_from_dense distinct_filter_key) (simp add: roster_dense_def)

lemma restored_iff:
  "restored_roster_participant current p = Inr ps \<longleftrightarrow> pa_personId p \<notin> pa_personId ` set current
     \<and> pa_position p \<le> int (length current)
     \<and> ps = positioned_from 0 (take (nat (pa_position p)) current @ p # drop (nat (pa_position p)) current)"
proof -
  have "(\<exists>c \<in> set current. pa_personId c = pa_personId p) \<longleftrightarrow> pa_personId p \<in> pa_personId ` set current"
    by (simp add: image_iff eq_commute)
  then show ?thesis by (auto simp: restored_roster_participant_def refused_def)
qed

lemma restored_dense:
  assumes "roster_dense current" "restored_roster_participant current p = Inr ps"
  shows "roster_dense ps"
proof -
  let ?n = "nat (pa_position p)"
  have "distinct (map pa_personId (take ?n current @ drop ?n current))" using assms(1) by (simp add: roster_dense_def)
  moreover have "set (take ?n current) \<union> set (drop ?n current) = set current"
    by (simp flip: set_append)
  ultimately have "distinct (map pa_personId (take ?n current @ p # drop ?n current))"
    using assms(2) by (auto simp: restored_iff simp del: append_take_drop_id)
  with assms(2) show ?thesis by (simp add: restored_iff positioned_from_dense)
qed

lemma role_iff:
  "changed_roster_participant_role current e role = Inr ps \<longleftrightarrow> find (\<lambda>p. pa_personId p = pa_personId e) current = Some e
     \<and> ps = map (\<lambda>c. if pa_personId c = pa_personId e then c \<lparr> pa_role := role \<rparr> else c) current"
  by (auto simp: changed_roster_participant_role_def rbind_Inr_iff expected_participant_iff)

lemma role_dense: "roster_dense current \<Longrightarrow> changed_roster_participant_role current e role = Inr ps \<Longrightarrow> roster_dense ps"
  by (auto simp: role_iff update_dense)

text \<open>Reordering: the people of the new order are those of the roster, each with their own entry.\<close>

lemma reordered_result:
  assumes "distinct (map pa_personId current)" "reordered_roster_participants current persons = Inr ps"
  shows "map pa_personId ps = persons \<and> roster_dense ps \<and> set persons = pa_personId ` set current
    \<and> (\<forall>p \<in> set ps. \<exists>q \<in> set current. p = positioned q (pa_position p))"
proof -
  let ?m = "map_entry (map (\<lambda>p. (pa_personId p, p)) current)"
  have own: "?m i = Some q \<longleftrightarrow> q \<in> set current \<and> pa_personId q = i" for i q
    unfolding map_entry_keyed [OF assms(1)] by (rule map_of_keyed [OF assms(1)])
  from assms(2) have p: "length persons = length current" "distinct persons" "\<forall>i \<in> set persons. ?m i \<noteq> None"
    and ps: "ps = positioned_from 0 (map (\<lambda>i. the (?m i)) persons)"
    by (auto simp: reordered_roster_participants_def refused_def Let_def split: if_splits)
  have q: "the (?m i) \<in> set current \<and> pa_personId (the (?m i)) = i" if "i \<in> set persons" for i
  proof -
    from p(3) that obtain q where "?m i = Some q" by blast
    with own [of i q] show ?thesis by simp
  qed
  then have ids: "map pa_personId (map (\<lambda>i. the (?m i)) persons) = persons"
    by (simp add: comp_def map_idI)
  have "set persons \<subseteq> pa_personId ` set current" using q by force
  moreover have "card (set persons) = card (pa_personId ` set current)"
    using p(1,2) assms(1) by (metis distinct_card length_map set_map)
  ultimately have "set persons = pa_personId ` set current" by (intro card_subset_eq) simp_all
  moreover have "roster_dense ps" unfolding ps using p(2) ids by (intro positioned_from_dense) simp
  moreover have "\<exists>q \<in> set current. p = positioned q (pa_position p)" if "p \<in> set ps" for p
  proof -
    from that obtain k where "k < length persons" "p = ps ! k" by (auto simp: in_set_conv_nth ps)
    then have "p = positioned (the (?m (persons ! k))) (int k)" "persons ! k \<in> set persons"
      by (simp_all add: ps positioned_from_nth)
    with q show ?thesis by auto
  qed
  ultimately show ?thesis using ids by (simp add: ps del: map_map)
qed

lemma positioned_again [simp]: "positioned (positioned p m) n = positioned p n"
  by (simp add: positioned_def)

lemma positioned_from_again [simp]: "positioned_from n (positioned_from m ps) = positioned_from n ps"
  by (rule nth_equalityI) (simp_all add: positioned_from_nth)

lemma positioned_from_append:
  "positioned_from n (ps @ qs) = positioned_from n ps @ positioned_from (n + int (length ps)) qs"
  by (induction n ps rule: positioned_from.induct) (simp_all add: add_ac)

text \<open>Restoring the participant that was removed gives the roster back.\<close>

lemma remove_restore:
  assumes "roster_dense current" "removed_roster_participant current p = Inr ps"
  shows "restored_roster_participant ps p = Inr current"
proof -
  from assms(2) have "p \<in> set current" by (auto simp: removed_iff dest: find_result)
  then obtain xs ys where c: "current = xs @ p # ys" by (meson split_list)
  have "map pa_position current ! length xs = map int [0..<length current] ! length xs"
    using assms(1) by (simp add: roster_dense_def)
  then have pos: "pa_position p = int (length xs)" by (simp add: c nth_append del: upt_Suc)
  have out: "pa_personId p \<notin> pa_personId ` set (xs @ ys)" using assms(1) by (auto simp: roster_dense_def c)
  then have "\<forall>q \<in> set (xs @ ys). pa_personId q \<noteq> pa_personId p" by (metis imageI)
  then have "filter (\<lambda>q. pa_personId q \<noteq> pa_personId p) (xs @ ys) = xs @ ys" by (rule filter_True)
  then have "filter (\<lambda>q. pa_personId q \<noteq> pa_personId p) current = xs @ ys" by (simp add: c)
  with assms(2) have ps: "ps = positioned_from 0 xs @ positioned_from (int (length xs)) ys"
    by (simp add: removed_iff positioned_from_append)
  have "pa_personId ` set ps = pa_personId ` set (xs @ ys)"
    unfolding ps set_map [symmetric] set_append image_Un by (simp flip: set_map)
  moreover have "positioned_from 0 (positioned_from 0 xs @ p # positioned_from (int (length xs)) ys) = current"
    using dense_positioned [OF assms(1)] by (simp add: c positioned_from_append)
  ultimately show ?thesis using out by (simp add: restored_iff pos ps)
qed

section \<open>Planned changes\<close>

interpretation session_order: keyed_comparator compare_sessions sh_id
  by unfold_locales (simp add: compare_sessions_def js_compare_le)

lemma find_session_map: "find_session c = map_of (map (\<lambda>h. (sh_id h, h)) (sg_sessions c))"
  by (rule ext) (simp add: find_session_def find_keyed)

lemma sessions_without_distinct: "distinct (map sh_id ss) \<Longrightarrow> distinct (map sh_id (sessions_without i ss))"
  by (simp add: sessions_without_def distinct_filter_key)

lemma sessions_restored_distinct:
  "distinct (map sh_id ss) \<Longrightarrow> pred_option (\<lambda>h. sh_id h = i) restore \<Longrightarrow> distinct (map sh_id (sessions_restored ss i restore))"
  by (cases restore) (auto simp: sessions_restored_def session_order.js_sort_distinct sessions_without_def distinct_filter_key)

text \<open>Replacing or removing the sessions of an identifier updates the catalog as a map.\<close>

lemma sessions_restored_map:
  assumes "distinct (map sh_id ss)" "pred_option (\<lambda>h. sh_id h = i) restore"
  shows "map_of (map (\<lambda>h. (sh_id h, h)) (sessions_restored ss i restore)) = (map_of (map (\<lambda>h. (sh_id h, h)) ss)) (i := restore)"
proof -
  let ?tail = "case restore of None \<Rightarrow> [] | Some h \<Rightarrow> [h]"
  have d: "distinct (map sh_id (sessions_without i ss @ ?tail))"
    using assms by (cases restore) (auto simp: sessions_without_def distinct_filter_key)
  have "map_of (map (\<lambda>h. (sh_id h, h)) (sessions_restored ss i restore))
      = map_of (map (\<lambda>h. (sh_id h, h)) (sessions_without i ss @ ?tail))"
    by (rule map_of_keyed_set) (simp_all only: sessions_restored_def session_order.js_sort_set session_order.js_sort_distinct d)
  also have "\<dots> = (map_of (map (\<lambda>h. (sh_id h, h)) ss)) (i := restore)"
    using assms(2)
    by (cases restore) (auto simp: map_add_def sessions_without_def map_of_keyed_filter fun_eq_iff split: option.split)
  finally show ?thesis .
qed

lemma sessions_with_restored: "sessions_with ss h = sessions_restored ss (sh_id h) (Some h)"
  by (simp add: sessions_with_def sessions_restored_def)

lemma catalog_ok_distinct: "catalog_ok sha c \<Longrightarrow> distinct (map sh_id (sg_sessions c))"
  by (simp add: catalog_ok_def session_catalog_schema_def strictly_ordered_iff)

lemma find_session_member: "find_session c i = Some h \<Longrightarrow> h \<in> set (sg_sessions c) \<and> sh_id h = i"
  using find_result by (fastforce simp: find_session_def)

lemma catalog_ok_head: "catalog_ok sha c \<Longrightarrow> find_session c i = Some h \<Longrightarrow> head_ok sha h \<and> same_scope (sh_scope h) (sg_scope c)"
  using find_session_member [of c i h] by (auto simp: catalog_ok_def session_catalog_schema_def list_all_iff)

lemma catalog_ok_unique:
  assumes "catalog_ok sha c" "catalog_ok sha c'" "sg_scope c = sg_scope c'" "sg_version c = sg_version c'"
    "sg_sessions c = sg_sessions c'"
  shows "c = c'"
  using assms by (cases c; cases c') (auto simp: catalog_ok_def)

lemma require_environment_iff:
  "require_environment scope c vocab = Inr u \<longleftrightarrow> same_scope scope (sg_scope c) \<and> same_scope scope (vs_scope vocab)"
  by (simp add: require_environment_def ensure_Inr_iff)

lemma require_catalog_guard_iff:
  "require_catalog_guard c v d = Inr u \<longleftrightarrow> sg_version c = v \<and> sg_digest c = d"
  by (simp add: require_catalog_guard_def ensure_Inr_iff)

lemma plan_session_parts:
  assumes "plan_session_mutation sha i0 c vocab = Inr p"
  shows "parse_session_input i0 = Inr (sl_input p)"
    and "same_scope (sb_scope (sl_input p)) (sg_scope c)" "same_scope (sb_scope (sl_input p)) (vs_scope vocab)"
    and "sb_expectedCatalogVersion (sl_input p) = sg_version c" "sb_expectedCatalogDigest (sl_input p) = sg_digest c"
    and "session_images sha vocab c (sl_input p) = Inr (sl_before p, sl_after p)"
    and "sl_versionBefore p = sg_version c" "sl_versionAfter p = sg_version c + 1" "sl_digestBefore p = sg_digest c"
    and "\<exists>c'. catalog_with sha (sg_scope c) (sg_version c + 1) (sessions_with (sg_sessions c) (sl_after p)) = Inr c'
      \<and> sg_digest c' = sl_digestAfter p"
    and "session_plan_coherent p" "session_head_schema (sl_after p)" "positive_safe (sl_versionAfter p)"
proof -
  from assms obtain i before after c' where i: "parse_session_input i0 = Inr i"
    and env: "same_scope (sb_scope i) (sg_scope c)" "same_scope (sb_scope i) (vs_scope vocab)"
      "sg_version c = sb_expectedCatalogVersion i" "sg_digest c = sb_expectedCatalogDigest i"
    and im: "session_images sha vocab c i = Inr (before, after)"
    and c': "catalog_with sha (sg_scope c) (sg_version c + 1) (sessions_with (sg_sessions c) after) = Inr c'"
    and p: "parse_session_plan \<lparr> sl_input = i, sl_before = before, sl_after = after, sl_versionBefore = sg_version c,
        sl_versionAfter = sg_version c', sl_digestBefore = sg_digest c, sl_digestAfter = sg_digest c' \<rparr> = Inr p"
    unfolding plan_session_mutation_def build_mutation_plan_def
    by (auto simp: rbind_Inr_iff require_environment_iff require_catalog_guard_iff)
  have v: "sg_version c' = sg_version c + 1" using c' by (simp add: catalog_with_iff)
  from p parse_session_input_idem [OF i] v
  have "p = \<lparr> sl_input = i, sl_before = before, sl_after = after, sl_versionBefore = sg_version c,
      sl_versionAfter = sg_version c + 1, sl_digestBefore = sg_digest c, sl_digestAfter = sg_digest c' \<rparr>"
    and "session_plan_coherent p" "session_head_schema (sl_after p)" "positive_safe (sl_versionAfter p)"
    by (auto simp: parse_session_plan_def split: if_splits)
  with i env im c' show "parse_session_input i0 = Inr (sl_input p)"
    "same_scope (sb_scope (sl_input p)) (sg_scope c)" "same_scope (sb_scope (sl_input p)) (vs_scope vocab)"
    "sb_expectedCatalogVersion (sl_input p) = sg_version c" "sb_expectedCatalogDigest (sl_input p) = sg_digest c"
    "session_images sha vocab c (sl_input p) = Inr (sl_before p, sl_after p)"
    "sl_versionBefore p = sg_version c" "sl_versionAfter p = sg_version c + 1" "sl_digestBefore p = sg_digest c"
    "\<exists>c'. catalog_with sha (sg_scope c) (sg_version c + 1) (sessions_with (sg_sessions c) (sl_after p)) = Inr c'
      \<and> sg_digest c' = sl_digestAfter p"
    "session_plan_coherent p" "session_head_schema (sl_after p)" "positive_safe (sl_versionAfter p)"
    by auto
qed

lemma plan_session_again: "plan_session_mutation sha i c vocab = Inr p \<Longrightarrow> plan_session_mutation sha (sl_input p) c vocab = Inr p"
  using plan_session_parts(1) [of sha i c vocab p] parse_session_input_idem [of i "sl_input p"]
  by (simp add: plan_session_mutation_def)

lemma validate_session_plan_iff:
  "validate_session_plan sha p c vocab = None \<longleftrightarrow> plan_session_mutation sha (sl_input p) c vocab = Inr p"
  unfolding validate_session_plan_def
  by (auto simp: canonical_inject session_plan_json_inject split: sum.splits failure.splits)

lemma apply_session_plan_iff:
  "apply_session_plan sha p c vocab = Inr (c', r) \<longleftrightarrow> plan_session_mutation sha (sl_input p) c vocab = Inr p
     \<and> catalog_ok sha c' \<and> sg_scope c' = sg_scope c \<and> sg_version c' = sg_version c + 1
     \<and> sg_sessions c' = sessions_with (sg_sessions c) (sl_after p)
     \<and> r = \<lparr> sx_action = session_action_text (sb_action (sl_input p)), sx_catalogVersion = sg_version c + 1,
         sx_session = Some (sl_after p) \<rparr>"
proof (cases "plan_session_mutation sha (sl_input p) c vocab = Inr p")
  case True
  note parts = plan_session_parts [OF True]
  from parts(10) obtain n where n: "catalog_with sha (sg_scope c) (sg_version c + 1) (sessions_with (sg_sessions c) (sl_after p)) = Inr n"
    and d: "sg_digest n = sl_digestAfter p" by blast
  then have nv: "sg_version n = sg_version c + 1" by (simp add: catalog_with_iff)
  have "apply_session_plan sha p c vocab = Inr (n, \<lparr> sx_action = session_action_text (sb_action (sl_input p)),
      sx_catalogVersion = sg_version c + 1, sx_session = Some (sl_after p) \<rparr>)"
    using True parts(8,12,13) n d nv
    by (simp add: apply_session_plan_def validate_session_plan_iff [THEN iffD2] parse_session_result_def optional_head_schema_def)
  moreover have "c' = n \<longleftrightarrow> catalog_ok sha c' \<and> sg_scope c' = sg_scope c \<and> sg_version c' = sg_version c + 1
      \<and> sg_sessions c' = sessions_with (sg_sessions c) (sl_after p)"
    using n catalog_ok_unique [of sha c' n] by (auto simp: catalog_with_iff)
  ultimately show ?thesis using True by auto
next
  case False
  then have "validate_session_plan sha p c vocab \<noteq> None" by (simp add: validate_session_plan_iff)
  with False show ?thesis by (auto simp: apply_session_plan_def refused_def)
qed

text \<open>The change a plan makes to the catalog.\<close>

lemma apply_session_plan_result:
  assumes "catalog_ok sha c" "plan_session_mutation sha (sl_input p) c vocab = Inr p"
  shows "\<exists>c' r. apply_session_plan sha p c vocab = Inr (c', r) \<and> catalog_ok sha c' \<and> sg_scope c' = sg_scope c
    \<and> sg_version c' = sg_version c + 1 \<and> sg_digest c' = sl_digestAfter p
    \<and> find_session c' = (find_session c) (sh_id (sl_after p) \<mapsto> sl_after p)
    \<and> r = \<lparr> sx_action = session_action_text (sb_action (sl_input p)), sx_catalogVersion = sg_version c + 1,
        sx_session = Some (sl_after p) \<rparr>"
proof -
  from plan_session_parts(10) [OF assms(2)] obtain n
    where n: "catalog_with sha (sg_scope c) (sg_version c + 1) (sessions_with (sg_sessions c) (sl_after p)) = Inr n"
    and d: "sg_digest n = sl_digestAfter p" by blast
  from n have n: "catalog_ok sha n" "sg_scope n = sg_scope c" "sg_version n = sg_version c + 1"
    "sg_sessions n = sessions_with (sg_sessions c) (sl_after p)" by (simp_all add: catalog_with_iff)
  have "find_session n = (find_session c) (sh_id (sl_after p) \<mapsto> sl_after p)"
    unfolding find_session_map n(4) sessions_with_restored
    by (rule sessions_restored_map) (simp_all add: catalog_ok_distinct [OF assms(1)])
  with n d assms(2) show ?thesis by (auto simp: apply_session_plan_iff)
qed

lemma apply_session_plan_effect:
  assumes "catalog_ok sha c" "apply_session_plan sha p c vocab = Inr (c', r)"
  shows "plan_session_mutation sha (sl_input p) c vocab = Inr p" "catalog_ok sha c'" "sg_scope c' = sg_scope c"
    "sg_version c' = sg_version c + 1" "sg_digest c' = sl_digestAfter p"
    "find_session c' = (find_session c) (sh_id (sl_after p) \<mapsto> sl_after p)"
proof -
  from assms(2) have p: "plan_session_mutation sha (sl_input p) c vocab = Inr p" by (simp add: apply_session_plan_iff)
  from apply_session_plan_result [OF assms(1) p] assms(2)
  show "plan_session_mutation sha (sl_input p) c vocab = Inr p" "catalog_ok sha c'" "sg_scope c' = sg_scope c"
    "sg_version c' = sg_version c + 1" "sg_digest c' = sl_digestAfter p"
    "find_session c' = (find_session c) (sh_id (sl_after p) \<mapsto> sl_after p)" using p by auto
qed

type_synonym session_command = "vocabulary \<times> session_plan"

fun session_exec :: "(string \<Rightarrow> string) \<Rightarrow> session_catalog \<Rightarrow> session_command \<Rightarrow> session_catalog sessions" where
  "session_exec sha c (vocab, plan) = rbind (apply_session_plan sha plan c vocab) (\<lambda>r. Inr (fst r))"

fun session_make :: "(string \<Rightarrow> string) \<Rightarrow> vocabulary \<times> session_input \<Rightarrow> session_catalog \<Rightarrow> session_command sessions" where
  "session_make sha (vocab, i) c = rbind (plan_session_mutation sha i c vocab) (\<lambda>p. Inr (vocab, p))"

lemma session_exec_Inr:
  "session_exec sha c k = Inr c' \<Longrightarrow> \<exists>r. apply_session_plan sha (snd k) c (fst k) = Inr (c', r)"
  by (cases k) (auto simp: rbind_Inr_iff)

lemma session_make_Inr:
  "session_make sha i c = Inr k \<longleftrightarrow> fst k = fst i \<and> plan_session_mutation sha (snd i) c (fst i) = Inr (snd k)"
  by (cases i; cases k) (auto simp: rbind_Inr_iff)

interpretation session_plans: replanned_plans "catalog_ok sha" sg_version "\<lambda>k. sl_versionBefore (snd k)"
  "session_exec sha" "session_make sha" "\<lambda>k. (fst k, sl_input (snd k))"
  "\<lambda>c k. validate_session_plan sha (snd k) c (fst k) = None"
proof unfold_locales
  fix c :: session_catalog and k :: session_command and c'
  assume ok: "catalog_ok sha c" and e: "session_exec sha c k = Inr c'"
  from session_exec_Inr [OF e] obtain r where a: "apply_session_plan sha (snd k) c (fst k) = Inr (c', r)" ..
  note effect = apply_session_plan_effect [OF ok a]
  show "catalog_ok sha c'" "sg_version c' = sg_version c + 1" by (rule effect)+
  show "sl_versionBefore (snd k) = sg_version c" by (rule plan_session_parts(7) [OF effect(1)])
next
  fix c :: session_catalog and k :: session_command
  show "(validate_session_plan sha (snd k) c (fst k) = None) = (session_make sha (fst k, sl_input (snd k)) c = Inr k)"
    unfolding validate_session_plan_iff session_make_Inr by simp
next
  fix c d :: session_catalog and i :: "vocabulary \<times> session_input" and k l
  assume k: "session_make sha i c = Inr k"
  then show "session_make sha (fst k, sl_input (snd k)) c = Inr k"
    unfolding session_make_Inr by (auto intro: plan_session_again)
  assume l: "session_make sha i d = Inr l"
  from k l plan_session_parts(1,4,7) [of sha "snd i" c "fst i" "snd k"] plan_session_parts(1,4,7) [of sha "snd i" d "fst i" "snd l"]
  show "sl_versionBefore (snd k) = sl_versionBefore (snd l)" by (simp add: session_make_Inr)
next
  fix c :: session_catalog and k :: session_command
  assume "catalog_ok sha c" "validate_session_plan sha (snd k) c (fst k) = None"
  then show "\<exists>c'. session_exec sha c k = Inr c'"
    using apply_session_plan_result by (cases k) (fastforce simp: validate_session_plan_iff)
next
  fix c :: session_catalog and k :: session_command and c'
  assume "session_exec sha c k = Inr c'"
  from session_exec_Inr [OF this] show "validate_session_plan sha (snd k) c (fst k) = None"
    by (auto simp: apply_session_plan_iff validate_session_plan_iff)
qed

section \<open>What a change keeps\<close>

text \<open>Lifecycles in the order a session goes through them.\<close>

instantiation session_lifecycle :: linorder
begin

fun lifecycle_rank :: "session_lifecycle \<Rightarrow> nat" where
  "lifecycle_rank L_draft = 0"
| "lifecycle_rank L_collecting = 1"
| "lifecycle_rank L_programmed = 2"

definition less_eq_session_lifecycle :: "session_lifecycle \<Rightarrow> session_lifecycle \<Rightarrow> bool" where
  "less_eq_session_lifecycle a b \<longleftrightarrow> lifecycle_rank a \<le> lifecycle_rank b"

definition less_session_lifecycle :: "session_lifecycle \<Rightarrow> session_lifecycle \<Rightarrow> bool" where
  "less_session_lifecycle a b \<longleftrightarrow> lifecycle_rank a < lifecycle_rank b"

instance
proof
  fix a b :: session_lifecycle
  assume "a \<le> b" "b \<le> a"
  then show "a = b" by (cases a; cases b) (simp_all add: less_eq_session_lifecycle_def)
qed (auto simp: less_eq_session_lifecycle_def less_session_lifecycle_def)

end

lemma transition_allowed_less: "transition_allowed a b \<longleftrightarrow> a < b"
  by (cases a; cases b) (simp_all add: less_session_lifecycle_def)

text \<open>The lifecycle a change leaves a session in.\<close>

fun lifecycle_after :: "session_action \<Rightarrow> session_lifecycle \<Rightarrow> session_lifecycle" where
  "lifecycle_after (S_transition _ to) l = to"
| "lifecycle_after (S_roster_append _ _ (Some to)) l = to"
| "lifecycle_after _ l = l"

text \<open>The changes that take the target from the current vocabulary.\<close>

fun sets_target :: "session_action \<Rightarrow> bool" where
  "sets_target (S_create _) = True"
| "sets_target (S_transition _ _) = True"
| "sets_target (S_retarget _ _ _) = True"
| "sets_target (S_roster_append _ _ (Some _)) = True"
| "sets_target _ = False"

text \<open>The line-up of a roster: its participants in order, without their positions; and what each change does to it.\<close>

definition lineup :: "participant list \<Rightarrow> roster_input list" where
  "lineup ps = map roster_input.truncate ps"

fun new_people :: "string set \<Rightarrow> roster_input list \<Rightarrow> roster_input list" where
  "new_people seen [] = []"
| "new_people seen (p # ps) =
     (if pa_personId p \<in> seen then new_people seen ps else p # new_people (insert (pa_personId p) seen) ps)"

fun lineup_after :: "session_action \<Rightarrow> roster_input list \<Rightarrow> roster_input list" where
  "lineup_after (S_roster_append _ ps _) l = l @ new_people (pa_personId ` set l) ps"
| "lineup_after (S_roster_visibility _ i b) l = map (\<lambda>p. if pa_personId p = i then p \<lparr> pa_publiclyVisible := b \<rparr> else p) l"
| "lineup_after (S_roster_remove _ _ e) l = filter (\<lambda>p. pa_personId p \<noteq> pa_personId e) l"
| "lineup_after (S_roster_restore _ _ p) l =
     take (nat (pa_position p)) l @ roster_input.truncate p # drop (nat (pa_position p)) l"
| "lineup_after (S_roster_role _ _ e r) l = map (\<lambda>p. if pa_personId p = pa_personId e then p \<lparr> pa_role := r \<rparr> else p) l"
| "lineup_after (S_roster_reorder _ _ persons) l = map (\<lambda>i. the (find (\<lambda>p. pa_personId p = i) l)) persons"
| "lineup_after _ l = l"

lemma truncate_fields [simp]:
  "pa_personId (roster_input.truncate p) = pa_personId p" "pa_role (roster_input.truncate p) = pa_role p"
  "pa_publiclyVisible (roster_input.truncate p) = pa_publiclyVisible p" "pa_source (roster_input.truncate p) = pa_source p"
  by (simp_all add: roster_input.truncate_def)

lemma truncate_positioned [simp]: "roster_input.truncate (positioned p n) = roster_input.truncate p"
  by (simp add: roster_input.truncate_def)

lemma truncate_base [simp]: "roster_input.truncate p = (p :: roster_input)"
  by (simp add: roster_input.truncate_def)

lemma lineup_positioned_from: "lineup (positioned_from n ps) = map roster_input.truncate ps"
  by (induction n ps rule: positioned_from.induct) (simp_all add: lineup_def)

lemma lineup_append_new: "lineup (append_new seen n ps) = new_people seen ps"
  by (induction seen n ps rule: append_new.induct) (simp_all add: lineup_def)

lemma lineup_persons: "pa_personId ` set (lineup ps) = pa_personId ` set ps"
  by (simp add: lineup_def image_image)

lemma lineup_appended:
  "lineup (case appended_roster_participants ps new of None \<Rightarrow> ps | Some ps' \<Rightarrow> ps')
   = lineup ps @ new_people (pa_personId ` set (lineup ps)) new"
proof -
  have "append_new s n new = [] \<Longrightarrow> new_people s new = []" for s n
    using lineup_append_new [of s n new] by (simp add: lineup_def)
  then show ?thesis unfolding lineup_persons
    by (simp add: appended_roster_participants_def Let_def lineup_append_new flip: lineup_def)
      (simp add: lineup_def lineup_append_new [unfolded lineup_def])
qed

lemma lineup_switched:
  assumes "roster_dense ps" "visibility_switched_participants ps i b = Inr switched"
  shows "lineup (case switched of None \<Rightarrow> ps | Some ps' \<Rightarrow> ps')
    = map (\<lambda>p. if pa_personId p = i then p \<lparr> pa_publiclyVisible := b \<rparr> else p) (lineup ps)"
proof -
  have upd: "lineup (map (\<lambda>p. if pa_personId p = i then p \<lparr> pa_publiclyVisible := b \<rparr> else p) ps)
      = map (\<lambda>p. if pa_personId p = i then p \<lparr> pa_publiclyVisible := b \<rparr> else p) (lineup ps)"
    by (simp add: lineup_def comp_def roster_input.truncate_def if_distrib cong: if_cong)
  show ?thesis
  proof (cases "\<exists>p. find (\<lambda>p. pa_personId p = i) ps = Some p \<and> pa_publiclyVisible p = b")
    case True
    then obtain p where p: "p \<in> set ps" "pa_personId p = i" "pa_publiclyVisible p = b" by (auto dest: find_result)
    have "map (\<lambda>p. if pa_personId p = i then p \<lparr> pa_publiclyVisible := b \<rparr> else p) ps = ps"
    proof (rule map_idI)
      fix q assume "q \<in> set ps"
      then show "(if pa_personId q = i then q \<lparr> pa_publiclyVisible := b \<rparr> else q) = q"
        using p assms(1) distinct_key_eq [of pa_personId ps q p] by (auto simp: roster_dense_def)
    qed
    with upd True visibility_result [OF assms(2)] show ?thesis by simp
  next
    case False
    with upd visibility_result [OF assms(2)] show ?thesis by simp
  qed
qed

lemma lineup_role:
  "lineup (map (\<lambda>p. if pa_personId p = i then p \<lparr> pa_role := r \<rparr> else p) ps)
   = map (\<lambda>p. if pa_personId p = i then p \<lparr> pa_role := r \<rparr> else p) (lineup ps)"
  by (simp add: lineup_def comp_def roster_input.truncate_def if_distrib cong: if_cong)

lemma lineup_filter: "map roster_input.truncate (filter (\<lambda>p. pa_personId p \<noteq> i) ps) = filter (\<lambda>p. pa_personId p \<noteq> i) (lineup ps)"
  by (simp add: lineup_def filter_map comp_def)

lemma find_lineup:
  "find (\<lambda>p. pa_personId p = i) (lineup ps) = map_option roster_input.truncate (find (\<lambda>p. pa_personId p = i) ps)"
  by (induction ps) (simp_all add: lineup_def)

lemma lineup_reordered:
  assumes "distinct (map pa_personId current)" "reordered_roster_participants current persons = Inr ps"
  shows "lineup ps = map (\<lambda>i. the (find (\<lambda>p. pa_personId p = i) (lineup current))) persons"
proof (rule nth_equalityI)
  note r = reordered_result [OF assms]
  from r show len: "length (lineup ps) = length (map (\<lambda>i. the (find (\<lambda>p. pa_personId p = i) (lineup current))) persons)"
    by (auto simp: lineup_def)
  fix k assume "k < length (lineup ps)"
  then have k: "k < length ps" "k < length persons" using len by (simp_all add: lineup_def)
  then obtain q where q: "q \<in> set current" "ps ! k = positioned q (pa_position (ps ! k))" using r by (meson nth_mem)
  then have "roster_input.truncate (ps ! k) = roster_input.truncate q" by (metis truncate_positioned)
  moreover have "pa_personId q = persons ! k" using r k q(2) by (metis nth_map positioned_fields(1))
  with q(1) have "find (\<lambda>p. pa_personId p = persons ! k) current = Some q"
    unfolding find_keyed map_of_keyed [OF assms(1)] by simp
  ultimately show "lineup ps ! k = map (\<lambda>i. the (find (\<lambda>p. pa_personId p = i) (lineup current))) persons ! k"
    using k unfolding find_lineup by (simp add: lineup_def)
qed

lemmas change_simps = parse_signed_head_iff changed_roster_head_def updated_head_def require_exact_session_def
  require_exact_session_and_roster_def require_transition_def ensure_Inr_iff retargeted_session_def transitioned_session_def

text \<open>One change of a session: the image parses, and only what the change is about differs.\<close>

lemma changed_session_kept:
  assumes "changed_session sha vocab i h a = Inr x"
  shows "head_ok sha x \<and> sh_scope x = sh_scope h \<and> sh_id x = sh_id h \<and> sh_title x = sh_title h
    \<and> sh_plannedDurationMinutes x = sh_plannedDurationMinutes h \<and> sh_createdByUserId x = sh_createdByUserId h
    \<and> sh_createdAt x = sh_createdAt h \<and> sh_version x = sh_version h + 1
    \<and> sh_updatedByUserId x = sb_actorUserId i \<and> sh_updatedAt x = sb_occurredAt i"
  using assms by (cases a) (auto simp: rbind_Inr_iff Let_def change_simps refused_def)

lemma changed_session_lifecycle:
  assumes "changed_session sha vocab i h a = Inr x"
  shows "sh_lifecycle x = lifecycle_after a (sh_lifecycle h) \<and> sh_lifecycle h \<le> sh_lifecycle x"
  using assms
  by (cases a) (auto simp: rbind_Inr_iff Let_def change_simps refused_def transition_allowed_less split: option.splits)

lemma changed_session_target:
  assumes "changed_session sha vocab i h a = Inr x" "\<not> sets_target a"
  shows "sh_programTarget x = sh_programTarget h"
  using assms
  by (cases a) (auto simp: rbind_Inr_iff Let_def change_simps refused_def split: option.splits)

lemma signed_roster_participants [simp]: "rt_participants (signed_roster sha v ps) = ps"
  by (simp add: signed_roster_def)

lemma maybe_changed_participants:
  "rt_participants (maybe_changed_roster sha r changed) = (case changed of None \<Rightarrow> rt_participants r | Some ps \<Rightarrow> ps)"
  by (simp add: maybe_changed_roster_def split: option.split)

lemma changed_session_roster:
  assumes "changed_session sha vocab i h a = Inr x" "roster_dense (rt_participants (sh_roster h))"
  shows "roster_dense (rt_participants (sh_roster x))
    \<and> lineup (rt_participants (sh_roster x)) = lineup_after a (lineup (rt_participants (sh_roster h)))"
proof (cases a)
  case (S_roster_append e ps to)
  with assms(1) have x: "rt_participants (sh_roster x) = (case appended_roster_participants (rt_participants (sh_roster h)) ps of
      None \<Rightarrow> rt_participants (sh_roster h) | Some ps' \<Rightarrow> ps')"
    by (auto simp: rbind_Inr_iff Let_def change_simps maybe_changed_participants)
  have "roster_dense (rt_participants (sh_roster x))"
    using assms(2) appended_result [OF assms(2), of ps] unfolding x by (auto split: option.split)
  then show ?thesis using S_roster_append by (simp add: x lineup_appended)
next
  case (S_roster_visibility e i' b)
  with assms(1) obtain sw where sw: "visibility_switched_participants (rt_participants (sh_roster h)) i' b = Inr sw"
    and x: "rt_participants (sh_roster x) = (case sw of None \<Rightarrow> rt_participants (sh_roster h) | Some ps' \<Rightarrow> ps')"
    by (auto simp: rbind_Inr_iff change_simps maybe_changed_participants)
  have "roster_dense (rt_participants (sh_roster x))"
    using assms(2) visibility_dense [OF assms(2)] sw unfolding x by (auto split: option.split)
  with lineup_switched [OF assms(2) sw] S_roster_visibility x show ?thesis by simp
next
  case (S_roster_remove e v p)
  with assms(1) have r: "removed_roster_participant (rt_participants (sh_roster h)) p = Inr (rt_participants (sh_roster x))"
    by (auto simp: rbind_Inr_iff change_simps)
  with removed_dense [OF assms(2) r] S_roster_remove show ?thesis
    by (simp add: removed_iff lineup_positioned_from lineup_filter)
next
  case (S_roster_restore e v p)
  with assms(1) have r: "restored_roster_participant (rt_participants (sh_roster h)) p = Inr (rt_participants (sh_roster x))"
    by (auto simp: rbind_Inr_iff change_simps)
  with restored_dense [OF assms(2) r] S_roster_restore show ?thesis
    by (simp add: restored_iff lineup_positioned_from) (simp add: lineup_def take_map drop_map)
next
  case (S_roster_role e v p r)
  with assms(1) have r: "changed_roster_participant_role (rt_participants (sh_roster h)) p r = Inr (rt_participants (sh_roster x))"
    by (auto simp: rbind_Inr_iff change_simps)
  with role_dense [OF assms(2) r] S_roster_role show ?thesis by (simp add: role_iff lineup_role)
next
  case (S_roster_reorder e v ids)
  with assms(1) have r: "reordered_roster_participants (rt_participants (sh_roster h)) ids = Inr (rt_participants (sh_roster x))"
    by (auto simp: rbind_Inr_iff change_simps)
  have d: "distinct (map pa_personId (rt_participants (sh_roster h)))" using assms(2) by (simp add: roster_dense_def)
  from reordered_result [OF d r] lineup_reordered [OF d r] S_roster_reorder show ?thesis by simp
qed (use assms in \<open>auto simp: rbind_Inr_iff change_simps refused_def\<close>)

section \<open>Targets\<close>

lemma resolve_item_found: "resolve_item s kind i = Some it \<Longrightarrow> it \<in> set (items_of_kind s kind) \<and> pi_id it = i"
  by (auto simp: resolve_item_def dest: find_result)

text \<open>A target is evidence of active items of the vocabulary, with a track where one is required.\<close>

definition target_current :: "(string \<Rightarrow> string) \<Rightarrow> vocabulary \<Rightarrow> session_lifecycle \<Rightarrow> program_target \<Rightarrow> bool" where
  "target_current sha vocab l t \<longleftrightarrow> et_setVersion t = vs_setVersion vocab \<and> et_setDigest t = set_digest sha vocab
     \<and> (\<exists>f \<in> set (vs_formats vocab). pi_status f = Active \<and> et_format t = format_evidence_of f)
     \<and> (case et_track t of None \<Rightarrow> l = L_draft \<or> active_items vocab Track = []
        | Some e \<Rightarrow> \<exists>k \<in> set (vs_tracks vocab). pi_status k = Active \<and> e = track_evidence_of k)"

lemma resolved_track_none: "resolved_track_id v l t = Inr None \<Longrightarrow> l = L_draft \<or> active_items v Track = []"
  by (simp add: resolved_track_id_def refused_def split: if_splits list.splits)

lemma current_track_result:
  assumes "current_track v t = Inr tr"
  shows "case tr of None \<Rightarrow> t = None | Some it \<Rightarrow> it \<in> set (vs_tracks v) \<and> pi_status it = Active"
proof (cases t)
  case (Some i)
  with assms obtain it where "resolve_item v Track i = Some it" "pi_status it = Active" "tr = Some it"
    by (auto simp: current_track_def refused_def split: option.splits if_splits)
  with resolve_item_found show ?thesis by fastforce
qed (use assms in \<open>simp add: current_track_def\<close>)

lemma target_for_current:
  assumes "target_for sha vocab l f t = Inr e"
  shows "target_current sha vocab l e"
proof -
  from assms obtain k where k: "resolved_track_id vocab l t = Inr k"
    and e: "current_target_evidence sha vocab f k = Inr e" by (auto simp: target_for_def rbind_Inr_iff)
  from e obtain fmt tr where f: "resolve_item vocab Format f = Some fmt" "pi_status fmt = Active"
    and tr: "current_track vocab k = Inr tr"
    and e': "e = \<lparr> et_setVersion = vs_setVersion vocab, et_setDigest = set_digest sha vocab,
        et_format = format_evidence_of fmt, et_track = map_option track_evidence_of tr \<rparr>"
    by (auto simp: current_target_evidence_def refused_def rbind_Inr_iff split: option.splits if_splits)
  from resolve_item_found [OF f(1)] f(2)
  have "\<exists>x \<in> set (vs_formats vocab). pi_status x = Active \<and> et_format e = format_evidence_of x" by (auto simp: e')
  moreover have "case tr of None \<Rightarrow> l = L_draft \<or> active_items vocab Track = []
      | Some it \<Rightarrow> it \<in> set (vs_tracks vocab) \<and> pi_status it = Active"
    using current_track_result [OF tr] k resolved_track_none [of vocab l t] by (cases tr) simp_all
  ultimately show ?thesis by (auto simp: target_current_def e' split: option.splits)
qed

lemma changed_session_target_current:
  assumes "changed_session sha vocab i h a = Inr x" "sets_target a"
  shows "target_current sha vocab (sh_lifecycle x) (sh_programTarget x)"
  using assms
  by (cases a) (auto simp: rbind_Inr_iff Let_def change_simps refused_def intro: target_for_current split: option.splits)

section \<open>The images of a planned change\<close>

lemma created_session_result:
  assumes "created_session sha vocab i n = Inr x"
  shows "head_ok sha x \<and> sh_scope x = sb_scope i \<and> sh_id x = sb_sessionId i \<and> sh_version x = 1
    \<and> sh_lifecycle x = ns_lifecycle n \<and> roster_dense (rt_participants (sh_roster x))
    \<and> target_current sha vocab (sh_lifecycle x) (sh_programTarget x)"
  using assms seeded_dense
  by (auto simp: created_session_def rbind_Inr_iff parse_signed_head_iff dest: target_for_current)

lemma session_images_created:
  "session_images sha vocab c i = Inr (before, after) \<Longrightarrow> sb_action i = S_create n \<Longrightarrow>
   before = None \<and> find_session c (sb_sessionId i) = None \<and> created_session sha vocab i n = Inr after"
  by (auto simp: session_images_def refused_def rbind_Inr_iff Let_def split: if_splits)

lemma session_images_changed:
  "session_images sha vocab c i = Inr (before, after) \<Longrightarrow> \<not> is_creation (sb_action i) \<Longrightarrow>
   \<exists>h. before = Some h \<and> find_session c (sb_sessionId i) = Some h \<and> changed_session sha vocab i h (sb_action i) = Inr after"
  by (cases "sb_action i") (auto simp: session_images_def rbind_Inr_iff need_Inr_iff Let_def)

text \<open>What planning needs of the catalog and gives for the new image.\<close>

lemma session_planned_image:
  assumes "catalog_ok sha c" "plan_session_mutation sha i c vocab = Inr p"
  shows "sh_id (sl_after p) = sb_sessionId (sl_input p)" "sl_before p = find_session c (sh_id (sl_after p))"
    and "head_ok sha (sl_after p)"
    and "\<And>h. sl_before p = Some h \<Longrightarrow> changed_session sha vocab (sl_input p) h (sb_action (sl_input p)) = Inr (sl_after p)"
    and "sl_before p = None \<Longrightarrow> \<exists>n. sb_action (sl_input p) = S_create n \<and> created_session sha vocab (sl_input p) n = Inr (sl_after p)"
proof -
  note im = plan_session_parts(6) [OF assms(2)]
  show id: "sh_id (sl_after p) = sb_sessionId (sl_input p)"
    using plan_session_parts(11) [OF assms(2)] by (simp add: session_plan_coherent_def)
  have "sl_before p = find_session c (sb_sessionId (sl_input p)) \<and> head_ok sha (sl_after p)
    \<and> (\<forall>h. sl_before p = Some h \<longrightarrow> changed_session sha vocab (sl_input p) h (sb_action (sl_input p)) = Inr (sl_after p))
    \<and> (sl_before p = None \<longrightarrow> (\<exists>n. sb_action (sl_input p) = S_create n \<and> created_session sha vocab (sl_input p) n = Inr (sl_after p)))"
  proof (cases "is_creation (sb_action (sl_input p))")
    case True
    then obtain n where n: "sb_action (sl_input p) = S_create n" by (cases "sb_action (sl_input p)") simp_all
    from session_images_created [OF im n] created_session_result show ?thesis using n by auto
  next
    case False
    from session_images_changed [OF im False] changed_session_kept show ?thesis by fastforce
  qed
  with id show "sl_before p = find_session c (sh_id (sl_after p))" "head_ok sha (sl_after p)"
    "\<And>h. sl_before p = Some h \<Longrightarrow> changed_session sha vocab (sl_input p) h (sb_action (sl_input p)) = Inr (sl_after p)"
    "sl_before p = None \<Longrightarrow> \<exists>n. sb_action (sl_input p) = S_create n \<and> created_session sha vocab (sl_input p) n = Inr (sl_after p)"
    by auto
qed

section \<open>Compensation and removal\<close>

lemma sessions_restored_member:
  "h \<in> set (sessions_restored ss i restore) \<longleftrightarrow> h \<in> set ss \<and> sh_id h \<noteq> i \<or> restore = Some h"
  by (cases restore) (auto simp: sessions_restored_def session_order.js_sort_set sessions_without_def)

lemma sessions_restored_ordered:
  assumes "distinct (map sh_id ss)" "pred_option (\<lambda>h. sh_id h = i) restore"
  shows "strictly_ordered (map sh_id (sessions_restored ss i restore))"
  using sessions_restored_distinct [OF assms]
  by (simp add: strictly_ordered_iff sessions_restored_def session_order.js_sort_sorted)

lemma sessions_restored_length:
  assumes "h \<in> set ss" "sh_id h = i"
  shows "length (sessions_restored ss i restore) \<le> length ss"
proof -
  from assms have "length (filter (\<lambda>h. sh_id h \<noteq> i) ss) < length ss" by (intro length_filter_less) auto
  then show ?thesis by (cases restore) (simp_all add: sessions_restored_def session_order.js_sort_length sessions_without_def)
qed

text \<open>Replacing or removing a session of a catalog gives a catalog again.\<close>

lemma catalog_replaced:
  assumes "catalog_ok sha c" "\<forall>t. sha256_hex (sha t)" "length (sessions_restored (sg_sessions c) i restore) \<le> 5000" "positive_safe v"
    and "\<And>h. restore = Some h \<Longrightarrow> head_ok sha h \<and> same_scope (sh_scope h) (sg_scope c) \<and> sh_id h = i"
  shows "\<exists>c'. catalog_with sha (sg_scope c) v (sessions_restored (sg_sessions c) i restore) = Inr c'
    \<and> find_session c' = (find_session c) (i := restore)"
proof -
  let ?ss = "sessions_restored (sg_sessions c) i restore"
  let ?c' = "\<lparr> sg_scope = sg_scope c, sg_version = v, sg_sessions = ?ss,
    sg_digest = session_catalog_digest sha (sg_scope c) v ?ss \<rparr>"
  have d: "distinct (map sh_id (sg_sessions c))" by (rule catalog_ok_distinct [OF assms(1)])
  have r: "pred_option (\<lambda>h. sh_id h = i) restore" using assms(5) by (cases restore) simp_all
  have sch: "session_catalog_schema c" and heads: "\<forall>h \<in> set (sg_sessions c). head_ok sha h"
    using assms(1) by (simp_all add: catalog_ok_def list_all_iff)
  have hex: "sha256_hex (session_catalog_digest sha (sg_scope c) v ?ss)"
    using assms(2) by (simp add: session_catalog_digest_def)
  have "\<forall>h \<in> set ?ss. head_ok sha h \<and> same_scope (sh_scope h) (sg_scope c)"
    using heads sch assms(5) by (auto simp: sessions_restored_member session_catalog_schema_def list_all_iff)
  with assms(3) have "catalog_ok sha ?c'"
    using sch assms(4) hex sessions_restored_ordered [OF d r]
    by (auto simp: catalog_ok_def session_catalog_schema_def list_all_iff head_ok_def)
  moreover have "find_session ?c' = (find_session c) (i := restore)"
    using sessions_restored_map [OF d r] by (simp add: find_session_map)
  ultimately show ?thesis by (intro exI [of _ ?c']) (simp add: catalog_with_iff)
qed

lemma catalog_restored:
  assumes "catalog_ok sha c" "\<forall>t. sha256_hex (sha t)" "find_session c i = Some cur" "positive_safe v"
    and "\<And>h. restore = Some h \<Longrightarrow> head_ok sha h \<and> same_scope (sh_scope h) (sg_scope c) \<and> sh_id h = i"
  shows "\<exists>c'. catalog_with sha (sg_scope c) v (sessions_restored (sg_sessions c) i restore) = Inr c'
    \<and> find_session c' = (find_session c) (i := restore)"
proof (rule catalog_replaced [OF assms(1,2) _ assms(4,5)])
  from find_session_member [OF assms(3)] sessions_restored_length [of cur "sg_sessions c" i restore] assms(1)
  show "length (sessions_restored (sg_sessions c) i restore) \<le> 5000" by (simp add: catalog_ok_def session_catalog_schema_def)
qed

text \<open>An image that can be computed can be planned: the catalog with it is a catalog again.\<close>

lemma sessions_with_length:
  "length (sessions_with ss h) \<le> (if \<exists>x \<in> set ss. sh_id x = sh_id h then length ss else length ss + 1)"
proof (cases "\<exists>x \<in> set ss. sh_id x = sh_id h")
  case True
  with sessions_restored_length show ?thesis by (fastforce simp: sessions_with_restored)
next
  case False
  then show ?thesis by (simp add: sessions_with_def session_order.js_sort_length sessions_without_def)
qed

lemma session_image_facts:
  assumes "catalog_ok sha c" "same_scope (sb_scope i) (sg_scope c)" "session_images sha vocab c i = Inr (before, after)"
  shows "before = find_session c (sb_sessionId i)" "is_creation (sb_action i) \<longleftrightarrow> before = None"
    "head_ok sha after" "sh_id after = sb_sessionId i" "same_scope (sh_scope after) (sg_scope c)"
proof -
  have "before = find_session c (sb_sessionId i) \<and> (is_creation (sb_action i) \<longleftrightarrow> before = None)
    \<and> head_ok sha after \<and> sh_id after = sb_sessionId i \<and> same_scope (sh_scope after) (sg_scope c)"
  proof (cases "is_creation (sb_action i)")
    case True
    then obtain n where n: "sb_action i = S_create n" by (cases "sb_action i") simp_all
    from session_images_created [OF assms(3) n] created_session_result assms(2) n show ?thesis by auto
  next
    case False
    from session_images_changed [OF assms(3) False] obtain h
      where h: "before = Some h" "find_session c (sb_sessionId i) = Some h"
        "changed_session sha vocab i h (sb_action i) = Inr after" by blast
    from changed_session_kept [OF h(3)] catalog_ok_head [OF assms(1) h(2)] find_session_member [OF h(2)] h(1,2) False
    show ?thesis by simp
  qed
  then show "before = find_session c (sb_sessionId i)" "is_creation (sb_action i) \<longleftrightarrow> before = None"
    "head_ok sha after" "sh_id after = sb_sessionId i" "same_scope (sh_scope after) (sg_scope c)" by auto
qed

lemma session_image_plans:
  assumes ok: "catalog_ok sha c" and hex: "\<forall>t. sha256_hex (sha t)" and i: "parse_session_input i0 = Inr i"
    and env: "same_scope (sb_scope i) (sg_scope c)" "same_scope (sb_scope i) (vs_scope vocab)"
    and cur: "sb_expectedCatalogVersion i = sg_version c" "sb_expectedCatalogDigest i = sg_digest c"
    and im: "session_images sha vocab c i = Inr (before, after)"
    and room: "positive_safe (sg_version c + 1)" "before = None \<longrightarrow> length (sg_sessions c) < 5000"
  shows "\<exists>p. plan_session_mutation sha i0 c vocab = Inr p \<and> sl_input p = i \<and> sl_before p = before \<and> sl_after p = after"
proof -
  note f = session_image_facts [OF ok env(1) im]
  have len: "length (sg_sessions c) \<le> 5000" using ok by (simp add: catalog_ok_def session_catalog_schema_def)
  have "length (sessions_with (sg_sessions c) after) \<le> 5000"
  proof (cases before)
    case None
    with room(2) sessions_with_length [of "sg_sessions c" after] show ?thesis by (auto split: if_splits)
  next
    case (Some h)
    with f(1) find_session_member [of c "sb_sessionId i" h]
    have "h \<in> set (sg_sessions c)" "sh_id h = sh_id after" by (simp_all add: f(4))
    then have "\<exists>x \<in> set (sg_sessions c). sh_id x = sh_id after" by blast
    with len sessions_with_length [of "sg_sessions c" after] show ?thesis by simp
  qed
  then obtain c' where c': "catalog_with sha (sg_scope c) (sg_version c + 1) (sessions_with (sg_sessions c) after) = Inr c'"
    using catalog_replaced [OF ok hex _ room(1), of "sh_id after" "Some after"] f(3,5) unfolding sessions_with_restored by blast
  let ?p = "\<lparr> sl_input = i, sl_before = before, sl_after = after, sl_versionBefore = sg_version c,
    sl_versionAfter = sg_version c', sl_digestBefore = sg_digest c, sl_digestAfter = sg_digest c' \<rparr>"
  have "optional_head_schema before \<and> pred_option (\<lambda>h. sh_id h = sb_sessionId i) before"
  proof (cases before)
    case (Some h)
    with f(1) have "find_session c (sb_sessionId i) = Some h" by simp
    with catalog_ok_head [OF ok this] find_session_member [OF this] Some
    show ?thesis by (simp add: optional_head_schema_def head_ok_def)
  qed (simp add: optional_head_schema_def)
  then have "parse_session_plan ?p = Inr ?p"
    using parse_session_input_idem [OF i] f(2-4) ok c' room(1)
    by (simp add: parse_session_plan_def session_plan_coherent_def head_ok_def catalog_with_iff catalog_ok_def session_catalog_schema_def)
  then have "plan_session_mutation sha i0 c vocab = Inr ?p"
    using i env cur im c'
    by (simp add: plan_session_mutation_def build_mutation_plan_def require_environment_def require_catalog_guard_def)
  then show ?thesis by (intro exI [of _ ?p]) simp
qed

lemma apply_restore_parts:
  assumes "apply_session_restore_plan sha q c = Inr (c', r)"
  shows "session_restore_schema q" "sg_version c = rm_expectedCatalogVersion q" "sg_digest c = rm_expectedCatalogDigest q"
    and "\<exists>cur. find_session c (sh_id (rm_expectedCurrent q)) = Some cur \<and> sh_id cur = sh_id (rm_expectedCurrent q)
      \<and> sh_digest cur = sh_digest (rm_expectedCurrent q) \<and> sh_version cur = sh_version (rm_expectedCurrent q)"
    and "\<And>h. rm_restore q = Some h \<Longrightarrow> head_ok sha h"
    and "catalog_with sha (sg_scope c) (rm_versionAfter q)
      (sessions_restored (sg_sessions c) (sh_id (rm_expectedCurrent q)) (rm_restore q)) = Inr c'"
    and "sg_digest c' = rm_digestAfter q"
    and "r = \<lparr> sx_action = ''restore'', sx_catalogVersion = sg_version c', sx_session = rm_restore q \<rparr>"
  using assms unfolding apply_session_restore_plan_def
  by (auto elim!: stepsE dest: find_session_member simp: require_catalog_guard_iff refused_def parse_session_head_iff
      parse_session_result_def rbind_Inr_iff ensure_Inr_iff need_Inr_iff split: option.splits if_splits)

lemma apply_restore_total:
  assumes "session_restore_schema q" "sg_version c = rm_expectedCatalogVersion q" "sg_digest c = rm_expectedCatalogDigest q"
    and "rm_scope q = sg_scope c" "find_session c (sh_id (rm_expectedCurrent q)) = Some (rm_expectedCurrent q)"
    and "\<And>h. rm_restore q = Some h \<Longrightarrow> head_ok sha h"
    and "catalog_with sha (sg_scope c) (rm_versionAfter q)
      (sessions_restored (sg_sessions c) (sh_id (rm_expectedCurrent q)) (rm_restore q)) = Inr c'"
    and "sg_digest c' = rm_digestAfter q"
  shows "\<exists>r. apply_session_restore_plan sha q c = Inr (c', r)"
proof -
  have parsed: "(case rm_restore q of None \<Rightarrow> Inr None | Some h \<Rightarrow> rbind (parse_session_head sha h) (\<lambda>x. Inr (Some x)))
      = (Inr (rm_restore q) :: session_head option sessions)"
  proof (cases "rm_restore q")
    case (Some h)
    with assms(6) have "parse_session_head sha h = Inr h" by (simp add: parse_session_head_iff)
    with Some show ?thesis by simp
  qed simp
  have "positive_safe (sg_version c')" "optional_head_schema (rm_restore q)"
    using assms(1,7) by (auto simp: catalog_with_iff catalog_ok_def session_catalog_schema_def session_restore_schema_def)
  then show ?thesis
    using assms(1-5,7,8) unfolding apply_session_restore_plan_def parsed
    by (simp add: require_catalog_guard_def same_scope_def parse_session_result_def)
qed

text \<open>A session without its version, its last author and its digest.\<close>

definition session_content :: "session_head \<Rightarrow> session_head" where
  "session_content h = h \<lparr> sh_version := 0, sh_updatedByUserId := [], sh_updatedAt := [], sh_digest := [] \<rparr>"

lemma restored_head_total:
  assumes "\<And>h. before = Some h \<Longrightarrow> head_ok sha h" "\<forall>t. sha256_hex (sha t)" "positive_safe (sh_version cur + 1)"
    "vocabulary_id actor" "session_instant at"
  shows "\<exists>restore. restored_head sha before cur actor at = Inr restore
    \<and> map_option session_content restore = map_option session_content before
    \<and> (\<forall>h. restore = Some h \<longrightarrow> head_ok sha h \<and> sh_version h = sh_version cur + 1)"
proof (cases before)
  case (Some prior)
  let ?u = "prior \<lparr> sh_version := sh_version cur + 1, sh_updatedByUserId := actor, sh_updatedAt := at \<rparr>"
  let ?h = "?u \<lparr> sh_digest := session_head_digest sha ?u \<rparr>"
  have "head_ok sha ?h"
    using assms(1) [OF Some] assms(2-5) by (simp add: head_ok_def session_head_schema_def) (simp add: session_head_digest_def)
  then have "restored_head sha before cur actor at = Inr (Some ?h)"
    by (simp add: restored_head_def Some rbind_Inr_iff parse_signed_head_iff)
  with \<open>head_ok sha ?h\<close> show ?thesis by (simp add: Some session_content_def)
qed (simp add: restored_head_def)

lemma session_content_identity: "session_content h = session_content h' \<Longrightarrow> sh_scope h = sh_scope h' \<and> sh_id h = sh_id h'"
  by (cases h; cases h') (simp add: session_content_def)

lemma session_reversed:
  assumes ok: "catalog_ok sha c" and hex: "\<forall>t. sha256_hex (sha t)" and f: "find_session c (sh_id (sl_after p)) = Some (sl_after p)"
    and prior: "\<And>h. sl_before p = Some h \<Longrightarrow> head_ok sha h \<and> same_scope (sh_scope h) (sg_scope c) \<and> sh_id h = sh_id (sl_after p)"
    and att: "vocabulary_id actor" "session_instant at"
    and v: "positive_safe (sg_version c + 1)" "positive_safe (sh_version (sl_after p) + 1)"
  shows "\<exists>q c' r restore. plan_graduation_reversal_against sha p c actor at = Inr q \<and> apply_session_restore_plan sha q c = Inr (c', r)
    \<and> catalog_ok sha c' \<and> sg_version c' = sg_version c + 1
    \<and> find_session c' = (find_session c) (sh_id (sl_after p) := restore)
    \<and> map_option session_content restore = map_option session_content (sl_before p)"
proof -
  obtain restore where rh: "restored_head sha (sl_before p) (sl_after p) actor at = Inr restore"
    and con: "map_option session_content restore = map_option session_content (sl_before p)"
    and rok: "\<And>h. restore = Some h \<Longrightarrow> head_ok sha h"
    using restored_head_total [of "sl_before p" sha "sl_after p" actor at] prior hex v(2) att by blast
  have "head_ok sha h \<and> same_scope (sh_scope h) (sg_scope c) \<and> sh_id h = sh_id (sl_after p)" if "restore = Some h" for h
  proof -
    from that con obtain h' where h': "sl_before p = Some h'" "session_content h = session_content h'"
      by (cases "sl_before p") auto
    with session_content_identity [OF h'(2)] prior [OF h'(1)] rok [OF that] show ?thesis by simp
  qed
  from catalog_restored [OF ok hex f v(1) this] obtain c'
    where c': "catalog_with sha (sg_scope c) (sg_version c + 1) (sessions_restored (sg_sessions c) (sh_id (sl_after p)) restore) = Inr c'"
    and f': "find_session c' = (find_session c) (sh_id (sl_after p) := restore)" by auto
  let ?q = "\<lparr> rm_scope = sg_scope c, rm_expectedCatalogVersion = sg_version c, rm_expectedCatalogDigest = sg_digest c,
    rm_expectedCurrent = sl_after p, rm_versionBefore = sg_version c, rm_versionAfter = sg_version c',
    rm_digestBefore = sg_digest c, rm_digestAfter = sg_digest c', rm_actorUserId = actor, rm_occurredAt = at,
    rm_restore = restore \<rparr>"
  have v': "sg_version c' = sg_version c + 1" and ok': "catalog_ok sha c'" using c' by (simp_all add: catalog_with_iff)
  have sch: "session_restore_schema ?q"
    using ok ok' catalog_ok_head [OF ok f] rok att
    by (cases restore) (auto simp: session_restore_schema_def session_removal_schema_def catalog_ok_def session_catalog_schema_def
        optional_head_schema_def head_ok_def)
  have "plan_graduation_reversal_against sha p c actor at = Inr ?q"
    using sch by (simp add: plan_graduation_reversal_against_def f rh c')
  moreover have "\<exists>r. apply_session_restore_plan sha ?q c = Inr (c', r)"
    using sch f rok c' v' by (intro apply_restore_total) simp_all
  ultimately show ?thesis using ok' v' f' con by blast
qed

text \<open>Compensation is a reversal under the guard of the catalog the change left.\<close>

lemma compensation_reversal:
  assumes "sg_version c = sl_versionAfter p" "sg_digest c = sl_digestAfter p"
  shows "plan_session_compensation sha p c actor at = plan_graduation_reversal_against sha p c actor at"
  unfolding plan_session_compensation_def plan_graduation_reversal_against_def assms by (simp cong: option.case_cong)

lemma applied_session_reversible:
  assumes ok: "catalog_ok sha c" and a: "apply_session_plan sha p c vocab = Inr (c1, r1)"
  shows "find_session c1 (sh_id (sl_after p)) = Some (sl_after p)"
    "\<And>h. sl_before p = Some h \<Longrightarrow> head_ok sha h \<and> same_scope (sh_scope h) (sg_scope c1) \<and> sh_id h = sh_id (sl_after p)"
proof -
  note e = apply_session_plan_effect [OF ok a]
  show "find_session c1 (sh_id (sl_after p)) = Some (sl_after p)" by (simp add: e(6))
  fix h assume "sl_before p = Some h"
  then have "find_session c (sh_id (sl_after p)) = Some h" using session_planned_image(2) [OF ok e(1)] by simp
  with catalog_ok_head [OF ok this] find_session_member [OF this]
  show "head_ok sha h \<and> same_scope (sh_scope h) (sg_scope c1) \<and> sh_id h = sh_id (sl_after p)" by (simp add: e(3))
qed

lemma session_compensated:
  assumes ok: "catalog_ok sha c" and hex: "\<forall>t. sha256_hex (sha t)" and a: "apply_session_plan sha p c vocab = Inr (c1, r1)"
    and att: "vocabulary_id actor" "session_instant at"
    and v: "positive_safe (sg_version c + 2)" "positive_safe (sh_version (sl_after p) + 1)"
  shows "\<exists>q c2 r2. plan_session_compensation sha p c1 actor at = Inr q \<and> apply_session_restore_plan sha q c1 = Inr (c2, r2)
    \<and> catalog_ok sha c2 \<and> sg_version c2 = sg_version c + 2
    \<and> (\<forall>i. map_option session_content (find_session c2 i) = map_option session_content (find_session c i))
    \<and> (\<forall>i. i \<noteq> sh_id (sl_after p) \<longrightarrow> find_session c2 i = find_session c i)"
proof -
  note e = apply_session_plan_effect [OF ok a]
  note im = session_planned_image [OF ok e(1)]
  have v1: "positive_safe (sg_version c1 + 1)" using v(1) by (simp add: e(4) add_ac)
  obtain q c2 r2 restore where q: "plan_graduation_reversal_against sha p c1 actor at = Inr q"
    "apply_session_restore_plan sha q c1 = Inr (c2, r2)" "catalog_ok sha c2" "sg_version c2 = sg_version c1 + 1"
    and f2: "find_session c2 = (find_session c1) (sh_id (sl_after p) := restore)"
    and con: "map_option session_content restore = map_option session_content (sl_before p)"
    using session_reversed [OF e(2) hex applied_session_reversible [OF ok a] att v1 v(2)] by blast
  have "plan_session_compensation sha p c1 actor at = Inr q"
    using q(1) plan_session_parts(8) [OF e(1)] e(4,5) by (simp add: compensation_reversal)
  moreover have "map_option session_content (find_session c2 i) = map_option session_content (find_session c i)" for i
    using con im(2) by (simp add: f2 e(6))
  moreover have "find_session c2 i = find_session c i" if "i \<noteq> sh_id (sl_after p)" for i using that by (simp add: f2 e(6))
  ultimately show ?thesis using q(2-4) by (simp add: e(4))
qed

lemma new_session_removed:
  assumes ok: "catalog_ok sha c" and hex: "\<forall>t. sha256_hex (sha t)" and f: "find_session c (sh_id h) = Some cur"
    and cur: "sh_version cur = 1" "sh_digest cur = sh_digest h"
    and att: "vocabulary_id actor" "session_instant at" and v: "positive_safe (sg_version c + 1)"
  shows "\<exists>q c' r. plan_new_session_removal sha h c actor at = Inr q \<and> apply_new_session_removal_plan sha q c = Inr (c', r)
    \<and> catalog_ok sha c' \<and> sg_version c' = sg_version c + 1 \<and> find_session c' = (find_session c) (sh_id h := None)"
proof -
  from find_session_member [OF f] have id: "sh_id cur = sh_id h" by simp
  have same: "sessions_restored (sg_sessions c) (sh_id h) None = sessions_without (sh_id h) (sg_sessions c)"
  proof -
    have "strictly_ordered (map sh_id (sg_sessions c))" using ok by (simp add: catalog_ok_def session_catalog_schema_def)
    then have "sorted (map sh_id (sessions_without (sh_id h) (sg_sessions c)))"
      by (simp add: strictly_ordered_iff sessions_without_def sorted_filter)
    then show ?thesis by (simp add: sessions_restored_def session_order.js_sort_idem)
  qed
  from catalog_restored [OF ok hex f v, of None] obtain c'
    where c': "catalog_with sha (sg_scope c) (sg_version c + 1) (sessions_without (sh_id h) (sg_sessions c)) = Inr c'"
    and f': "find_session c' = (find_session c) (sh_id h := None)" unfolding same by auto
  have v': "sg_version c' = sg_version c + 1" and ok': "catalog_ok sha c'" using c' by (simp_all add: catalog_with_iff)
  let ?q = "\<lparr> rm_scope = sg_scope c, rm_expectedCatalogVersion = sg_version c, rm_expectedCatalogDigest = sg_digest c,
    rm_expectedCurrent = cur, rm_versionBefore = sg_version c, rm_versionAfter = sg_version c',
    rm_digestBefore = sg_digest c, rm_digestAfter = sg_digest c', rm_actorUserId = actor, rm_occurredAt = at \<rparr>"
  have sch: "session_removal_schema ?q"
    using ok ok' catalog_ok_head [OF ok f] att
    by (simp add: session_removal_schema_def catalog_ok_def session_catalog_schema_def head_ok_def)
  then have "plan_new_session_removal sha h c actor at = Inr ?q"
    using c' cur by (simp add: plan_new_session_removal_def f id)
  moreover have "\<exists>r. apply_new_session_removal_plan sha ?q c = Inr (c', r)"
    using sch c' cur v' ok' by (simp add: apply_new_session_removal_plan_def f id require_catalog_guard_def same_scope_def
        parse_session_result_def optional_head_schema_def catalog_ok_def session_catalog_schema_def)
  ultimately show ?thesis using ok' v' f' by blast
qed

lemma apply_removal_parts:
  assumes "apply_new_session_removal_plan sha q c = Inr (c', r)"
  shows "catalog_with sha (sg_scope c) (rm_versionAfter q)
      (sessions_without (sh_id (rm_expectedCurrent q)) (sg_sessions c)) = Inr c'"
  using assms unfolding apply_new_session_removal_plan_def
  by (auto elim!: stepsE dest: find_session_member simp: refused_def rbind_Inr_iff need_Inr_iff split: if_splits)

section \<open>Histories\<close>

text \<open>
  The steps of a stored catalog: a planned change, a planned change followed by its compensation (which is
  accepted only at the version the change left), or the removal of a new session.
\<close>

inductive session_step :: "(string \<Rightarrow> string) \<Rightarrow> session_catalog \<Rightarrow> session_catalog \<Rightarrow> bool"
  for sha :: "string \<Rightarrow> string"
where
  changed: "apply_session_plan sha p c vocab = Inr (c', r) \<Longrightarrow> session_step sha c c'"
| compensated: "apply_session_plan sha p c vocab = Inr (c1, r1) \<Longrightarrow> plan_session_compensation sha p c1 actor at = Inr q \<Longrightarrow>
    apply_session_restore_plan sha q c1 = Inr (c2, r2) \<Longrightarrow> session_step sha c c2"
| removed_new: "apply_new_session_removal_plan sha q c = Inr (c', r) \<Longrightarrow> session_step sha c c'"

inductive_cases session_stepE: "session_step sha c c'"

text \<open>What holds of every stored catalog.\<close>

definition catalog_inv :: "(string \<Rightarrow> string) \<Rightarrow> session_catalog \<Rightarrow> bool" where
  "catalog_inv sha c \<longleftrightarrow> catalog_ok sha c \<and> (\<forall>h \<in> set (sg_sessions c). roster_dense (rt_participants (sh_roster h)))"

lemma catalog_inv_find: "catalog_inv sha c \<Longrightarrow> find_session c i = Some h \<Longrightarrow> roster_dense (rt_participants (sh_roster h))"
  using find_session_member [of c i h] by (simp add: catalog_inv_def)

lemma session_image_dense:
  assumes "catalog_inv sha c" "plan_session_mutation sha i c vocab = Inr p"
  shows "roster_dense (rt_participants (sh_roster (sl_after p)))"
proof -
  from assms(1) have ok: "catalog_ok sha c" by (simp add: catalog_inv_def)
  note im = session_planned_image [OF ok assms(2)]
  show ?thesis
  proof (cases "sl_before p")
    case None
    with im(5) created_session_result show ?thesis by blast
  next
    case (Some h)
    from changed_session_roster [OF im(4) [OF Some]] catalog_inv_find [OF assms(1)] im(2) Some show ?thesis by simp
  qed
qed

lemma sessions_with_member: "h \<in> set (sessions_with ss x) \<longleftrightarrow> h \<in> set ss \<and> sh_id h \<noteq> sh_id x \<or> h = x"
  by (auto simp: sessions_with_restored sessions_restored_member)

lemma catalog_inv_changed:
  assumes "catalog_inv sha c" "apply_session_plan sha p c vocab = Inr (c', r)"
  shows "catalog_inv sha c'"
  using assms session_image_dense [OF assms(1), of "sl_input p" vocab p]
  by (auto simp: apply_session_plan_iff catalog_inv_def sessions_with_member)

lemma restored_head_roster:
  "restored_head sha before cur actor at = Inr (Some h) \<Longrightarrow> \<exists>prior. before = Some prior \<and> sh_roster h = sh_roster prior"
  by (auto simp: restored_head_def rbind_Inr_iff parse_signed_head_iff split: option.splits)

lemma catalog_inv_compensated:
  assumes "catalog_inv sha c" "apply_session_plan sha p c vocab = Inr (c1, r1)"
    "plan_session_compensation sha p c1 actor at = Inr q" "apply_session_restore_plan sha q c1 = Inr (c2, r2)"
  shows "catalog_inv sha c2"
proof -
  have i1: "catalog_inv sha c1" by (rule catalog_inv_changed [OF assms(1,2)])
  from assms(2) have pl: "plan_session_mutation sha (sl_input p) c vocab = Inr p" by (simp add: apply_session_plan_iff)
  from assms(3) obtain cur where rh: "restored_head sha (sl_before p) cur actor at = Inr (rm_restore q)"
    unfolding plan_session_compensation_def
    by (auto simp: refused_def rbind_Inr_iff Let_def split: option.splits if_splits)
  have "roster_dense (rt_participants (sh_roster h))" if "rm_restore q = Some h" for h
  proof -
    from restored_head_roster [OF rh [unfolded that]] obtain prior
      where prior: "sl_before p = Some prior" "sh_roster h = sh_roster prior" by blast
    have "sl_before p = find_session c (sh_id (sl_after p))"
      using session_planned_image(2) [OF _ pl] assms(1) by (simp add: catalog_inv_def)
    with catalog_inv_find [OF assms(1)] prior show ?thesis by simp
  qed
  with i1 apply_restore_parts(6) [OF assms(4)] show ?thesis
    by (auto simp: catalog_inv_def catalog_with_iff sessions_restored_member)
qed

lemma catalog_inv_step: "session_step sha c c' \<Longrightarrow> catalog_inv sha c \<Longrightarrow> catalog_inv sha c'"
proof (induction rule: session_step.induct)
  case (removed_new q c c' r)
  from apply_removal_parts [OF removed_new(1)] removed_new(2) show ?case
    by (auto simp: catalog_inv_def catalog_with_iff sessions_without_def)
qed (blast intro: catalog_inv_changed catalog_inv_compensated)+

lemma catalog_inv_empty: "create_empty_session_catalog sha scope = Inr c \<Longrightarrow> catalog_inv sha c"
  by (auto simp: create_empty_session_catalog_def parse_session_catalog_iff catalog_inv_def split: if_splits)

lemma catalog_inv_history:
  assumes "create_empty_session_catalog sha scope = Inr c0" "(session_step sha)\<^sup>*\<^sup>* c0 c"
  shows "catalog_inv sha c"
  using assms(2) by (induction rule: rtranclp_induct) (use catalog_inv_empty [OF assms(1)] catalog_inv_step in blast)+

section \<open>Properties of sessions\<close>

text \<open>
  C8. A change whose image can be computed goes through. In every catalog that changes, compensations and
  removals lead to from an empty one: when the input is accepted, of the scope of the catalog and of the
  vocabulary and current, and the image of the change exists (the session expected, the target
  resolved, the roster edited), nothing after that can fail: the change is planned with the images before
  and after, the plan is accepted when it is applied at once, the result is the image, exactly the
  session it names is replaced or added, and the sessions are again those of before without it and with
  the image, in the order of their identifiers. The bounds are those of the schemas: versions are safe
  integers and a catalog has room for 5000 sessions.
\<close>

theorem session_change_goes_through:
  assumes "create_empty_session_catalog sha scope = Inr c0" "(session_step sha)\<^sup>*\<^sup>* c0 c" "\<forall>t. sha256_hex (sha t)"
    and "parse_session_input i0 = Inr i" "same_scope (sb_scope i) (sg_scope c)" "same_scope (sb_scope i) (vs_scope vocab)"
    and "sb_expectedCatalogVersion i = sg_version c" "sb_expectedCatalogDigest i = sg_digest c"
    and "session_images sha vocab c i = Inr (before, after)"
    and "positive_safe (sg_version c + 1)" "before = None \<longrightarrow> length (sg_sessions c) < 5000"
  shows "\<exists>p c' r. plan_session_mutation sha i0 c vocab = Inr p \<and> sl_before p = before \<and> sl_after p = after
    \<and> apply_session_plan sha p c vocab = Inr (c', r) \<and> sx_session r = Some after
    \<and> sg_version c' = sg_version c + 1 \<and> find_session c' = (find_session c) (sb_sessionId i \<mapsto> after)
    \<and> sorted (map sh_id (sg_sessions c'))
    \<and> mset (sg_sessions c') = {#h \<in># mset (sg_sessions c). sh_id h \<noteq> sb_sessionId i#} + {#after#}"
proof -
  have ok: "catalog_ok sha c" using catalog_inv_history [OF assms(1,2)] by (simp add: catalog_inv_def)
  obtain p where p: "plan_session_mutation sha i0 c vocab = Inr p" "sl_input p = i" "sl_before p = before" "sl_after p = after"
    using session_image_plans [OF ok assms(3-11)] by blast
  obtain c' r where a: "apply_session_plan sha p c vocab = Inr (c', r)" "catalog_ok sha c'"
    "find_session c' = (find_session c) (sh_id after \<mapsto> after)" "sg_version c' = sg_version c + 1" "sx_session r = Some after"
    using apply_session_plan_result [OF ok plan_session_again [OF p(1)]] unfolding p(4) by (auto simp: p(4))
  have "sg_sessions c' = sessions_with (sg_sessions c) after" using a(1) p(4) by (simp add: apply_session_plan_iff)
  then have m: "mset (sg_sessions c') = {#h \<in># mset (sg_sessions c). sh_id h \<noteq> sh_id after#} + {#after#}"
    by (simp add: sessions_with_def sessions_without_def session_order.js_sort_mset)
  have "sorted (map sh_id (sg_sessions c'))"
    using a(2) by (simp add: catalog_ok_def session_catalog_schema_def strictly_ordered_iff)
  with p a m show ?thesis
    unfolding session_image_facts(4) [OF ok assms(5,9), symmetric] by blast
qed

text \<open>
  C7. Every roster of every stored catalog has one membership per person, at positions 0, 1, 2 and so on.
  The schema of a roster would allow one person in several roles and gaps between positions; no
  sequence of changes, compensations and removals leads there.
\<close>

theorem session_rosters_dense:
  assumes "create_empty_session_catalog sha scope = Inr c0" "(session_step sha)\<^sup>*\<^sup>* c0 c" "h \<in> set (sg_sessions c)"
  shows "distinct (map pa_personId (rt_participants (sh_roster h)))
    \<and> map pa_position (rt_participants (sh_roster h)) = map int [0..<length (rt_participants (sh_roster h))]"
  using catalog_inv_history [OF assms(1,2)] assms(3) by (simp add: catalog_inv_def roster_dense_def)

text \<open>
  A planned change of a session can be applied at once: the image of the plan takes the place of the
  session it names and every other session stays, under the next version and the digest the plan
  announced; the result names the action and the image. After it, and after any further changes, the plan
  is not valid and its input cannot be planned.
\<close>

theorem session_change_applies_once:
  assumes "catalog_ok sha c" "plan_session_mutation sha i c vocab = Inr p"
  shows "\<exists>c1 r. apply_session_plan sha p c vocab = Inr (c1, r)
    \<and> find_session c1 = (find_session c) (sh_id (sl_after p) \<mapsto> sl_after p)
    \<and> sg_version c1 = sg_version c + 1 \<and> sg_digest c1 = sl_digestAfter p
    \<and> sx_action r = session_action_text (sb_action i) \<and> sx_session r = Some (sl_after p)
    \<and> (\<forall>commands c2. apply_plans (session_exec sha) c1 commands = Inr c2 \<longrightarrow>
        validate_session_plan sha p c2 vocab \<noteq> None \<and> (\<forall>q. plan_session_mutation sha i c2 vocab \<noteq> Inr q))"
proof -
  have again: "plan_session_mutation sha (sl_input p) c vocab = Inr p" by (rule plan_session_again [OF assms(2)])
  from apply_session_plan_result [OF assms(1) again] obtain c1 r where a: "apply_session_plan sha p c vocab = Inr (c1, r)"
    and e: "find_session c1 = (find_session c) (sh_id (sl_after p) \<mapsto> sl_after p)" "sg_version c1 = sg_version c + 1"
      "sg_digest c1 = sl_digestAfter p" "sx_action r = session_action_text (sb_action (sl_input p))" "sx_session r = Some (sl_after p)"
    by auto
  have act: "session_action_text (normalized_action x) = session_action_text x" for x by (cases x) simp_all
  have "sl_input p = normalized_input i"
    using plan_session_parts(1) [OF assms(2)] by (simp add: parse_session_input_def split: if_splits)
  with e(4) have "sx_action r = session_action_text (sb_action i)" by (simp add: normalized_input_def act)
  moreover have "validate_session_plan sha p c2 vocab \<noteq> None \<and> (\<forall>q. plan_session_mutation sha i c2 vocab \<noteq> Inr q)"
    if "apply_plans (session_exec sha) c1 commands = Inr c2" for commands c2
  proof -
    have m: "session_make sha (vocab, i) c = Inr (vocab, p)" "session_exec sha c (vocab, p) = Inr c1"
      using a assms(2) by simp_all
    from session_plans.made_once [OF assms(1) m that] show ?thesis by (fastforce simp: rbind_Inr_iff)
  qed
  ultimately show ?thesis using a e by blast
qed

text \<open>
  C30. Changes of rosters refine changes of a plain line-up. Read as the list of its participants in order,
  without positions, the roster after a change is what the change does to that list: appending adds each
  new person once and skips everyone already there, switching visibility and changing a role edit one
  entry, removing drops it, restoring inserts it at its place, reordering lists the entries in the
  asked order, and everything else leaves the list alone.
\<close>

theorem session_roster_refines_lineup:
  assumes "catalog_inv sha c" "plan_session_mutation sha i c vocab = Inr p" "sl_before p = Some h"
  shows "lineup (rt_participants (sh_roster (sl_after p)))
    = lineup_after (sb_action (sl_input p)) (lineup (rt_participants (sh_roster h)))"
proof -
  from assms(1) have ok: "catalog_ok sha c" by (simp add: catalog_inv_def)
  note im = session_planned_image [OF ok assms(2)]
  from changed_session_roster [OF im(4) [OF assms(3)]] catalog_inv_find [OF assms(1)] im(2) assms(3)
  show ?thesis by simp
qed

definition session_advanced :: "session_head \<Rightarrow> session_head \<Rightarrow> bool" where
  "session_advanced h h' \<longleftrightarrow> sh_scope h' = sh_scope h \<and> sh_createdByUserId h' = sh_createdByUserId h
     \<and> sh_createdAt h' = sh_createdAt h \<and> sh_title h' = sh_title h
     \<and> sh_plannedDurationMinutes h' = sh_plannedDurationMinutes h \<and> sh_lifecycle h \<le> sh_lifecycle h'
     \<and> sh_version h \<le> sh_version h' \<and> (sh_version h' = sh_version h \<longrightarrow> h' = h)"

lemma session_advanced_trans: "session_advanced a b \<Longrightarrow> session_advanced b d \<Longrightarrow> session_advanced a d"
  by (auto simp: session_advanced_def)

lemma session_exec_advances:
  assumes "catalog_ok sha c" "session_exec sha c k = Inr c'" "find_session c i = Some h"
  shows "\<exists>h'. find_session c' i = Some h' \<and> session_advanced h h'"
proof -
  from session_exec_Inr [OF assms(2)] obtain r where a: "apply_session_plan sha (snd k) c (fst k) = Inr (c', r)" ..
  note e = apply_session_plan_effect [OF assms(1) a]
  note im = session_planned_image [OF assms(1) e(1)]
  show ?thesis
  proof (cases "sh_id (sl_after (snd k)) = i")
    case True
    with im(2) assms(3) have "sl_before (snd k) = Some h" by simp
    from changed_session_kept [OF im(4) [OF this]] conjunct2 [OF changed_session_lifecycle [OF im(4) [OF this]]]
    show ?thesis using True by (simp add: e(6) session_advanced_def)
  next
    case False
    with assms(3) show ?thesis by (simp add: e(6) session_advanced_def)
  qed
qed

lemma session_plans_advance:
  "catalog_ok sha c \<Longrightarrow> apply_plans (session_exec sha) c commands = Inr c' \<Longrightarrow> find_session c i = Some h \<Longrightarrow>
   \<exists>h'. find_session c' i = Some h' \<and> session_advanced h h'"
proof (induction commands arbitrary: c h)
  case (Cons k commands)
  then obtain t where t: "session_exec sha c k = Inr t" and rest: "apply_plans (session_exec sha) t commands = Inr c'"
    by (auto simp: rbind_Inr_iff)
  from session_exec_advances [OF Cons.prems(1) t Cons.prems(3)] obtain h1
    where h1: "find_session t i = Some h1" "session_advanced h h1" by blast
  from Cons.IH [OF session_plans.apply_ok [OF Cons.prems(1) t] rest h1(1)] session_advanced_trans [OF h1(2)]
  show ?case by blast
qed (simp add: session_advanced_def)

text \<open>
  C31. Sessions only move forward: whatever planned changes are applied to a catalog, every session stays in
  it with its title, duration and authorship, its lifecycle never goes back (draft, collecting,
  programmed), its version never decreases, and a session whose version is the same is the same session,
  which is what the version guards of other parts rely on.
\<close>

theorem sessions_move_forward:
  assumes "catalog_ok sha c" "apply_plans (session_exec sha) c commands = Inr c'" "find_session c i = Some h"
  shows "\<exists>h'. find_session c' i = Some h' \<and> sh_lifecycle h \<le> sh_lifecycle h' \<and> sh_title h' = sh_title h
    \<and> sh_plannedDurationMinutes h' = sh_plannedDurationMinutes h \<and> sh_createdAt h' = sh_createdAt h
    \<and> sh_createdByUserId h' = sh_createdByUserId h \<and> sh_version h \<le> sh_version h'
    \<and> (sh_version h' = sh_version h \<longrightarrow> h' = h)"
  using session_plans_advance [OF assms] by (auto simp: session_advanced_def)

text \<open>
  C33. A session that is created, classified again, moved to another lifecycle or graduated by an append
  carries evidence of the vocabulary it was planned with: its format and its track are active items with
  their present names and versions, under the version and digest of the vocabulary, and a session that is
  not a draft has a track whenever the vocabulary has an active one. Other changes leave the target alone.
\<close>

theorem session_target_grounded:
  assumes "catalog_ok sha c" "plan_session_mutation sha i c vocab = Inr p"
  shows "if sets_target (sb_action (sl_input p))
    then target_current sha vocab (sh_lifecycle (sl_after p)) (sh_programTarget (sl_after p))
    else \<exists>h. sl_before p = Some h \<and> sh_programTarget (sl_after p) = sh_programTarget h"
proof -
  note im = session_planned_image [OF assms]
  show ?thesis
  proof (cases "sl_before p")
    case None
    from im(5) [OF None] created_session_result show ?thesis by fastforce
  next
    case (Some h)
    from changed_session_target_current [OF im(4) [OF Some]] changed_session_target [OF im(4) [OF Some]] Some
    show ?thesis by simp
  qed
qed

text \<open>
  C32. A change of sessions can be undone right after it: its compensation can be planned and applied, and
  then every session has the content it had before (a created session is gone), with a later version and
  the author of the compensation where the change had been; all other sessions are untouched.
\<close>

theorem session_change_compensated:
  assumes "catalog_ok sha c" "\<forall>t. sha256_hex (sha t)" "apply_session_plan sha p c vocab = Inr (c1, r1)"
    and "vocabulary_id actor" "session_instant at"
    and "positive_safe (sg_version c + 2)" "positive_safe (sh_version (sl_after p) + 1)"
  shows "\<exists>q c2 r2. plan_session_compensation sha p c1 actor at = Inr q \<and> apply_session_restore_plan sha q c1 = Inr (c2, r2)
    \<and> (\<forall>i. map_option session_content (find_session c2 i) = map_option session_content (find_session c i))
    \<and> (\<forall>i. i \<noteq> sh_id (sl_after p) \<longrightarrow> find_session c2 i = find_session c i)"
  using session_compensated [OF assms] by blast

text \<open>
  Removing a participant and restoring the removed entry gives the roster back: the same participants
  in the same order with the same roles, flags, sources and positions.
\<close>

theorem roster_removal_restored:
  assumes "catalog_inv sha c" "apply_session_plan sha p c vocab = Inr (c1, r1)" "apply_session_plan sha q c1 vocab' = Inr (c2, r2)"
    and "sb_action (sl_input p) = S_roster_remove e v member" "sb_action (sl_input q) = S_roster_restore e' v' member"
    and "sb_sessionId (sl_input q) = sb_sessionId (sl_input p)"
  shows "\<exists>h h2. find_session c (sb_sessionId (sl_input p)) = Some h \<and> find_session c2 (sb_sessionId (sl_input p)) = Some h2
    \<and> rt_participants (sh_roster h2) = rt_participants (sh_roster h)"
proof -
  from assms(1) have ok: "catalog_ok sha c" by (simp add: catalog_inv_def)
  note e = apply_session_plan_effect [OF ok assms(2)]
  note e' = apply_session_plan_effect [OF e(2) assms(3)]
  note im = session_planned_image [OF ok e(1)] note im' = session_planned_image [OF e(2) e'(1)]
  obtain h where h: "sl_before p = Some h" using im(5) assms(4) by (cases "sl_before p") auto
  have h1: "sl_before q = Some (sl_after p)" using im(1) im'(1,2) assms(6) by (simp add: e(6))
  from im(4) [OF h] assms(4)
  have rem: "removed_roster_participant (rt_participants (sh_roster h)) member = Inr (rt_participants (sh_roster (sl_after p)))"
    by (auto simp: rbind_Inr_iff change_simps)
  from im'(4) [OF h1] assms(5)
  have res: "restored_roster_participant (rt_participants (sh_roster (sl_after p))) member = Inr (rt_participants (sh_roster (sl_after q)))"
    by (auto simp: rbind_Inr_iff change_simps)
  have f: "find_session c (sb_sessionId (sl_input p)) = Some h" using im(1,2) h by simp
  from remove_restore [OF catalog_inv_find [OF assms(1) f] rem] res f show ?thesis
    using im'(1) assms(6) by (simp add: e'(6))
qed

text \<open>
  A new session can be taken back as long as nobody changed it: at version 1 its removal can be planned
  and applied, and the catalog is as before its creation except for the version; once it has been changed
  the removal is refused as stale.
\<close>

theorem new_session_removal:
  assumes "catalog_ok sha c" "\<forall>t. sha256_hex (sha t)" "find_session c (sh_id h) = Some cur"
    and "vocabulary_id actor" "session_instant at" "positive_safe (sg_version c + 1)"
  shows "if sh_version cur = 1 \<and> sh_digest cur = sh_digest h
    then \<exists>q c' r. plan_new_session_removal sha h c actor at = Inr q \<and> apply_new_session_removal_plan sha q c = Inr (c', r)
      \<and> find_session c' = (find_session c) (sh_id h := None)
    else plan_new_session_removal sha h c actor at = Inl (Refused S_stale_session)"
  using new_session_removed [OF assms(1-3) _ _ assms(4-6)] assms(3)
  by (fastforce simp: plan_new_session_removal_def refused_def)

section \<open>A sample event\<close>

text \<open>An event with one format and one track, and a session with a speaker and a host.\<close>

definition sample_format :: vocabulary_item where
  "sample_format = \<lparr> pi_id = sample_id CHR ''5'', pi_name = ''Talk'', pi_status = Active, pi_version = 1,
     pi_detail = FormatDetail, vi_scope = sample_scope \<rparr>"

definition sample_track :: vocabulary_item where
  "sample_track = \<lparr> pi_id = sample_id CHR ''6'', pi_name = ''Web'', pi_status = Active, pi_version = 1,
     pi_detail = TrackDetail Sea, vi_scope = sample_scope \<rparr>"

definition sample_program :: vocabulary where
  "sample_program = sample_vocabulary \<lparr> vs_tracks := [sample_track], vs_formats := [sample_format] \<rparr>"

definition sample_authored :: "char \<Rightarrow> participant_role \<Rightarrow> roster_input" where
  "sample_authored c r = \<lparr> pa_personId = sample_id c, pa_role = r, pa_publiclyVisible = True,
     pa_source = \<lparr> ro_kind = ''engagement'', ro_id = ''e'', ro_version = 1 \<rparr> \<rparr>"

definition sample_people :: "participant list" where
  "sample_people = [positioned (sample_authored CHR ''8'' Speaker) 0, positioned (sample_authored CHR ''9'' Host) 1]"

definition sample_rest :: "participant list" where
  "sample_rest = [positioned (sample_authored CHR ''9'' Host) 0]"

definition sample_speaker :: roster_input where
  "sample_speaker = \<lparr> pa_personId = sample_id CHR ''3'', pa_role = Speaker, pa_publiclyVisible = True,
     pa_source = \<lparr> ro_kind = ''submission'', ro_id = sample_id CHR ''0'', ro_version = 1 \<rparr> \<rparr>"

definition sample_joined :: "participant list" where
  "sample_joined = sample_people @ [positioned sample_speaker 2]"

definition sample_target :: program_target where
  "sample_target = \<lparr> et_setVersion = 1, et_setDigest = sample_sha [], et_format = format_evidence_of sample_format,
     et_track = Some (track_evidence_of sample_track) \<rparr>"

text \<open>The session after its first, second and third change, and the catalogs that hold it.\<close>

definition sample_session :: "int \<Rightarrow> participant list \<Rightarrow> session_head" where
  "sample_session v ps = \<lparr> sh_scope = sample_scope, sh_id = sample_id CHR ''7'', sh_title = ''Opening'',
     sh_plannedDurationMinutes = 30, sh_lifecycle = L_collecting, sh_programTarget = sample_target,
     sh_roster = \<lparr> rt_version = v, rt_digest = sample_sha [], rt_participants = ps \<rparr>, sh_version = v,
     sh_createdByUserId = sample_id CHR ''4'', sh_createdAt = clock 3,
     sh_updatedByUserId = sample_id CHR ''4'', sh_updatedAt = clock 3, sh_digest = sample_sha [] \<rparr>"

definition sample_catalog :: "int \<Rightarrow> session_head list \<Rightarrow> session_catalog" where
  "sample_catalog v ss = \<lparr> sg_scope = sample_scope, sg_version = v, sg_sessions = ss, sg_digest = sample_sha [] \<rparr>"

definition sample_session_change :: "int \<Rightarrow> session_action \<Rightarrow> session_input" where
  "sample_session_change v a = \<lparr> sb_scope = sample_scope, sb_sessionId = sample_id CHR ''7'', sb_expectedCatalogVersion = v,
     sb_expectedCatalogDigest = sample_sha [], sb_actorUserId = sample_id CHR ''4'', sb_occurredAt = clock 3, sb_action = a \<rparr>"

definition sample_plan :: "int \<Rightarrow> session_action \<Rightarrow> session_head option \<Rightarrow> session_head \<Rightarrow> session_plan" where
  "sample_plan v a before after = \<lparr> sl_input = sample_session_change v a, sl_before = before, sl_after = after,
     sl_versionBefore = v, sl_versionAfter = v + 1, sl_digestBefore = sample_sha [], sl_digestAfter = sample_sha [] \<rparr>"

definition sample_creation :: session_action where
  "sample_creation = S_create \<lparr> ns_title = ''Opening'', ns_plannedDurationMinutes = 30, ns_lifecycle = L_collecting,
     ns_formatId = sample_id CHR ''5'', ns_trackId = None,
     ns_participants = Some [sample_authored CHR ''8'' Speaker, sample_authored CHR ''9'' Host, sample_authored CHR ''8'' Host] \<rparr>"

definition sample_expected :: "int \<Rightarrow> session_expectation" where
  "sample_expected v = \<lparr> se_version = v, se_digest = sample_sha [] \<rparr>"

definition sample_leaving :: session_action where
  "sample_leaving = S_roster_remove (sample_expected 1) 1 (positioned (sample_authored CHR ''8'' Speaker) 0)"

definition sample_return :: session_action where
  "sample_return = S_roster_restore (sample_expected 2) 2 (positioned (sample_authored CHR ''8'' Speaker) 0)"

lemma sample_session_texts: "canonical_text 300 ''Opening''" "normalized_name ''Opening'' = ''Opening''"
  "canonical_name ''Talk''" "canonical_name ''Web''" "definition_key ''engagement''" "canonical_text 300 ''e''"
  by code_simp+

lemma sample_source_texts: "definition_key ''submission''" "canonical_text 300 (sample_id CHR ''0'')"
  by code_simp+

lemma sample_session_instant: "session_instant (clock 3)"
  by code_simp

lemma sample_accepted: "accepted_id (sample_id CHR ''5'')" "to_lower (sample_id CHR ''5'') = sample_id CHR ''5''"
  "accepted_id (sample_id CHR ''7'')" "to_lower (sample_id CHR ''7'') = sample_id CHR ''7''"
  by code_simp+

lemma sample_session_digests [simp]:
  "session_roster_digest sample_sha v ps = sample_sha []" "session_head_digest sample_sha h = sample_sha []"
  "session_catalog_digest sample_sha sc v ss = sample_sha []" "set_digest sample_sha vocab = sample_sha []"
  by (simp_all add: session_roster_digest_def session_head_digest_def session_catalog_digest_def set_digest_def
      sha_of_def sample_sha_def)

lemma sample_sha_any [simp]: "sha256_hex (sample_sha t)"
  using sample_sha_hex by simp

lemma sample_authored_fields [simp]: "pa_personId (sample_authored c r) = sample_id c" "pa_role (sample_authored c r) = r"
  by (simp_all add: sample_authored_def)

lemma sample_person_ok: "digit c \<Longrightarrow> roster_input_schema (sample_authored c r)"
  by (simp add: roster_input_schema_def sample_authored_def roster_source_schema_def sample_session_texts)

lemma sample_positioned_ok: "digit c \<Longrightarrow> 0 \<le> n \<Longrightarrow> n < 500 \<Longrightarrow> participant_schema (positioned (sample_authored c r) n)"
  by (simp add: participant_schema_def safe_integer_def max_safe_integer_def)
    (simp add: roster_input_schema_def sample_authored_def roster_source_schema_def sample_session_texts)

lemma sample_speaker_fields [simp]: "pa_personId sample_speaker = sample_id CHR ''3''" "pa_role sample_speaker = Speaker"
  by (simp_all add: sample_speaker_def)

lemma sample_speaker_ok: "roster_input_schema sample_speaker" "participant_schema (positioned sample_speaker 2)"
  by (simp_all add: participant_schema_def safe_integer_def max_safe_integer_def roster_input_schema_def sample_speaker_def
      roster_source_schema_def sample_source_texts)

lemma sample_people_dense: "roster_dense sample_people" "roster_dense sample_rest" "roster_dense sample_joined"
  by (simp_all add: roster_dense_def sample_people_def sample_rest_def sample_joined_def sample_speaker_def)

lemma sample_roster_ok:
  assumes "positive_safe v" "ps \<in> {sample_people, sample_rest, sample_joined}"
  shows "roster_schema \<lparr> rt_version = v, rt_digest = sample_sha [], rt_participants = ps \<rparr>"
  using assms by (auto simp: roster_schema_def sample_people_def sample_rest_def sample_joined_def sample_positioned_ok
      sample_speaker_ok participant_key_def)

lemma sample_target_ok: "program_target_schema sample_target"
  by (simp add: program_target_schema_def sample_target_def format_evidence_schema_def track_evidence_schema_def
    format_evidence_of_def track_evidence_of_def sample_format_def sample_track_def sample_session_texts)

lemma sample_session_ok:
  assumes "positive_safe v" "ps \<in> {sample_people, sample_rest, sample_joined}"
  shows "head_ok sample_sha (sample_session v ps)"
  using sample_roster_ok [OF assms] assms(1)
  by (simp add: head_ok_def roster_ok_def session_head_schema_def sample_session_def sample_scope_ok sample_session_texts
    sample_session_instant sample_target_ok planned_duration_def)

lemma sample_catalog_empty: "catalog_ok sample_sha (sample_catalog 1 [])"
  by (simp add: catalog_ok_def session_catalog_schema_def sample_catalog_def sample_scope_ok)

lemma sample_catalog_ok:
  assumes "positive_safe v" "positive_safe w" "ps \<in> {sample_people, sample_rest, sample_joined}"
  shows "catalog_ok sample_sha (sample_catalog v [sample_session w ps])"
proof -
  have "sh_scope (sample_session w ps) = sample_scope" by (simp add: sample_session_def)
  with assms(1) sample_session_ok [OF assms(2,3)] show ?thesis
    by (simp add: catalog_ok_def session_catalog_schema_def sample_catalog_def sample_scope_ok same_scope_def)
      (simp add: head_ok_def)
qed

lemma sample_catalog_inv:
  assumes "positive_safe v" "positive_safe w" "ps \<in> {sample_people, sample_rest, sample_joined}"
  shows "catalog_inv sample_sha (sample_catalog v [sample_session w ps])"
  using sample_catalog_ok [OF assms] assms(3) sample_people_dense
  by (auto simp: catalog_inv_def sample_catalog_def sample_session_def)

lemma sample_catalog_fields [simp]: "sg_scope (sample_catalog v ss) = sample_scope" "sg_version (sample_catalog v ss) = v"
  "sg_sessions (sample_catalog v ss) = ss" "sg_digest (sample_catalog v ss) = sample_sha []"
  by (simp_all add: sample_catalog_def)

lemma sample_session_fields [simp]: "sh_id (sample_session v ps) = sample_id CHR ''7''" "sh_version (sample_session v ps) = v"
  "sh_digest (sample_session v ps) = sample_sha []" "rt_version (sh_roster (sample_session v ps)) = v"
  "rt_participants (sh_roster (sample_session v ps)) = ps"
  by (simp_all add: sample_session_def)

lemma sample_catalog_with:
  "positive_safe v \<Longrightarrow> positive_safe w \<Longrightarrow> ps \<in> {sample_people, sample_rest, sample_joined} \<Longrightarrow>
   catalog_with sample_sha sample_scope v [sample_session w ps] = Inr (sample_catalog v [sample_session w ps])"
  using sample_catalog_ok [of v w ps] by (simp add: catalog_with_iff)

text \<open>Planning a change of the sample is planning its image.\<close>

lemma sample_session_change_planned:
  assumes "parse_session_input (sample_session_change v a) = Inr (sample_session_change v a)"
    and "positive_safe v" "positive_safe (v + 1)" "positive_safe w" "ps \<in> {sample_people, sample_rest, sample_joined}"
    and "ss = [] \<or> ss = [sample_session w' ps']" "optional_head_schema before" "pred_option (\<lambda>h. sh_id h = sample_id CHR ''7'') before"
    and "is_creation a = (before = None)"
    and "session_images sample_sha sample_program (sample_catalog v ss) (sample_session_change v a) = Inr (before, sample_session w ps)"
  shows "plan_session_mutation sample_sha (sample_session_change v a) (sample_catalog v ss) sample_program
    = Inr (sample_plan v a before (sample_session w ps))"
proof -
  have "sessions_with ss (sample_session w ps) = [sample_session w ps]"
    using assms(6) by (auto simp: sessions_with_def sessions_without_def js_sort_def)
  moreover have "require_environment (sb_scope (sample_session_change v a)) (sample_catalog v ss) sample_program = Inr ()"
    by (simp add: require_environment_iff sample_session_change_def sample_program_def sample_vocabulary_fields same_scope_def)
  moreover have "require_catalog_guard (sample_catalog v ss) (sb_expectedCatalogVersion (sample_session_change v a))
      (sb_expectedCatalogDigest (sample_session_change v a)) = Inr ()"
    by (simp add: require_catalog_guard_iff sample_session_change_def)
  moreover have "session_head_schema (sample_session w ps)"
    using sample_session_ok [OF assms(4,5)] by (simp add: head_ok_def)
  moreover have "sb_action (sample_session_change v a) = a" "sb_sessionId (sample_session_change v a) = sample_id CHR ''7''"
    by (simp_all add: sample_session_change_def)
  ultimately show ?thesis
    using assms sample_catalog_with [of "v + 1" w ps]
    by (simp add: plan_session_mutation_def build_mutation_plan_def parse_session_plan_def sample_plan_def
        session_plan_coherent_def)
qed

lemma sample_signed_head:
  "positive_safe w \<Longrightarrow> ps \<in> {sample_people, sample_rest, sample_joined} \<Longrightarrow> u \<lparr> sh_digest := sample_sha [] \<rparr> = sample_session w ps \<Longrightarrow>
   parse_signed_head sample_sha u = Inr (sample_session w ps)"
  using sample_session_ok [of w ps] by (simp add: parse_signed_head_iff)

lemma sample_tracks: "active_items sample_program Track = [sample_track]"
  "resolve_item sample_program Track (sample_id CHR ''6'') = Some sample_track"
  "resolve_item sample_program Format (sample_id CHR ''5'') = Some sample_format"
  "pi_status sample_track = Active" "pi_status sample_format = Active" "pi_id sample_track = sample_id CHR ''6''"
  "vs_setVersion sample_program = 1"
  by (simp_all add: active_items_def resolve_item_def sample_program_def sample_track_def sample_format_def
      sample_vocabulary_fields)

lemma sample_bounds [simp]: "2 \<le> max_safe_integer" "3 \<le> max_safe_integer" "4 \<le> max_safe_integer"
  by (simp_all add: max_safe_integer_def)

lemma sample_session_change_base: "session_input_accepts (sample_session_change v a) \<longleftrightarrow> positive_safe v \<and> session_action_accepts a"
  by (auto simp: session_input_accepts_def sample_session_change_def sample_scope_ok sample_session_instant sample_accepted)

lemma sample_session_change_parsed:
  "positive_safe v \<Longrightarrow> session_action_accepts a \<Longrightarrow> normalized_action a = a \<Longrightarrow>
   parse_session_input (sample_session_change v a) = Inr (sample_session_change v a)"
  using sample_session_change_base [of v a]
  by (simp add: parse_session_input_def normalized_input_def) (simp add: sample_session_change_def sample_accepted)

lemma sample_expected_ok: "positive_safe v \<Longrightarrow> expectation_schema (sample_expected v)"
  by (simp add: expectation_schema_def sample_expected_def)

lemma sample_creation_accepted: "session_action_accepts sample_creation" "normalized_action sample_creation = sample_creation"
  by (simp_all add: sample_creation_def accepted_title_def sample_session_texts planned_duration_def sample_accepted sample_person_ok)

lemma sample_leaving_accepted: "session_action_accepts sample_leaving" "session_action_accepts sample_return"
  "normalized_action sample_leaving = sample_leaving" "normalized_action sample_return = sample_return"
  by (simp_all add: sample_leaving_def sample_return_def sample_expected_ok sample_positioned_ok)

lemma sample_seeded:
  "seeded_roster_participants (Some [sample_authored CHR ''8'' Speaker, sample_authored CHR ''9'' Host, sample_authored CHR ''8'' Host])
   = sample_people"
  by (simp add: seeded_roster_participants_def sample_people_def)

lemma sample_create_planned:
  "plan_session_mutation sample_sha (sample_session_change 1 sample_creation) (sample_catalog 1 []) sample_program
   = Inr (sample_plan 1 sample_creation None (sample_session 1 sample_people))"
proof (rule sample_session_change_planned)
  show "parse_session_input (sample_session_change 1 sample_creation) = Inr (sample_session_change 1 sample_creation)"
    by (rule sample_session_change_parsed) (simp_all add: sample_creation_accepted)
  have "created_session sample_sha sample_program (sample_session_change 1 sample_creation)
      \<lparr> ns_title = ''Opening'', ns_plannedDurationMinutes = 30, ns_lifecycle = L_collecting,
        ns_formatId = sample_id CHR ''5'', ns_trackId = None,
        ns_participants = Some [sample_authored CHR ''8'' Speaker, sample_authored CHR ''9'' Host, sample_authored CHR ''8'' Host] \<rparr>
      = Inr (sample_session 1 sample_people)"
    by (simp add: created_session_def target_for_def resolved_track_id_def sample_tracks current_target_evidence_def current_track_def
        sample_seeded)
      (rule sample_signed_head, simp_all add: sample_session_def sample_target_def sample_session_change_def signed_roster_def)
  then show "session_images sample_sha sample_program (sample_catalog 1 []) (sample_session_change 1 sample_creation)
      = Inr (None, sample_session 1 sample_people)"
    by (simp add: session_images_def find_session_def) (simp add: sample_session_change_def sample_creation_def)
qed (simp_all add: optional_head_schema_def sample_creation_def)

lemma sample_find: "find_session (sample_catalog v [sample_session w ps]) (sample_id CHR ''7'') = Some (sample_session w ps)"
  by (simp add: find_session_def)

lemma sample_expected_exact: "require_exact_session_and_roster (sample_session w ps) (sample_expected w) w = Inr ()"
  by (simp add: require_exact_session_and_roster_def require_exact_session_def sample_expected_def)

lemma sample_roster_head:
  assumes "positive_safe (w + 1)" "ps' \<in> {sample_people, sample_rest, sample_joined}"
  shows "changed_roster_head sample_sha (sample_session_change v a) (sample_session w ps) ps' = Inr (sample_session (w + 1) ps')"
  unfolding changed_roster_head_def using assms
  by (intro sample_signed_head) (simp_all add: updated_head_def sample_session_def sample_session_change_def signed_roster_def)

lemma sample_session_change_fields [simp]: "sb_action (sample_session_change v a) = a" "sb_sessionId (sample_session_change v a) = sample_id CHR ''7''"
  by (simp_all add: sample_session_change_def)

lemma sample_person_removed:
  "removed_roster_participant sample_people (positioned (sample_authored CHR ''8'' Speaker) 0) = Inr sample_rest"
  by (simp add: removed_iff sample_people_def sample_rest_def)

lemma sample_leaving_planned:
  "plan_session_mutation sample_sha (sample_session_change 2 sample_leaving) (sample_catalog 2 [sample_session 1 sample_people]) sample_program
   = Inr (sample_plan 2 sample_leaving (Some (sample_session 1 sample_people)) (sample_session 2 sample_rest))"
proof (rule sample_session_change_planned)
  show "parse_session_input (sample_session_change 2 sample_leaving) = Inr (sample_session_change 2 sample_leaving)"
    by (rule sample_session_change_parsed) (simp_all add: sample_leaving_accepted)
  show "session_images sample_sha sample_program (sample_catalog 2 [sample_session 1 sample_people]) (sample_session_change 2 sample_leaving)
      = Inr (Some (sample_session 1 sample_people), sample_session 2 sample_rest)"
    using sample_roster_head [of 1 sample_rest 2 sample_leaving sample_people]
    by (simp add: session_images_def sample_find) (simp add: sample_leaving_def sample_expected_exact sample_person_removed)
qed (use sample_session_ok [of 1 sample_people] in \<open>simp_all add: optional_head_schema_def head_ok_def sample_leaving_def\<close>)

lemma sample_return_planned:
  "plan_session_mutation sample_sha (sample_session_change 3 sample_return) (sample_catalog 3 [sample_session 2 sample_rest]) sample_program
   = Inr (sample_plan 3 sample_return (Some (sample_session 2 sample_rest)) (sample_session 3 sample_people))"
proof (rule sample_session_change_planned)
  have res: "restored_roster_participant sample_rest (positioned (sample_authored CHR ''8'' Speaker) 0) = Inr sample_people"
    by (rule remove_restore [OF sample_people_dense(1) sample_person_removed])
  show "parse_session_input (sample_session_change 3 sample_return) = Inr (sample_session_change 3 sample_return)"
    by (rule sample_session_change_parsed) (simp_all add: sample_leaving_accepted)
  show "session_images sample_sha sample_program (sample_catalog 3 [sample_session 2 sample_rest]) (sample_session_change 3 sample_return)
      = Inr (Some (sample_session 2 sample_rest), sample_session 3 sample_people)"
    using sample_roster_head [of 2 sample_people 3 sample_return sample_rest]
    by (simp add: session_images_def sample_find) (simp add: sample_return_def sample_expected_exact res)
qed (use sample_session_ok [of 2 sample_rest] in \<open>simp_all add: optional_head_schema_def head_ok_def sample_return_def\<close>)

lemma sample_plan_fields [simp]: "sl_input (sample_plan v a b x) = sample_session_change v a" "sl_before (sample_plan v a b x) = b"
  "sl_after (sample_plan v a b x) = x"
  by (simp_all add: sample_plan_def)

lemma sample_session_applied:
  assumes "plan_session_mutation sample_sha (sample_session_change v a) (sample_catalog v ss) sample_program = Inr (sample_plan v a b (sample_session w ps))"
    and "positive_safe (v + 1)" "positive_safe w" "ps \<in> {sample_people, sample_rest, sample_joined}" "ss = [] \<or> ss = [sample_session w' ps']"
  shows "\<exists>r. apply_session_plan sample_sha (sample_plan v a b (sample_session w ps)) (sample_catalog v ss) sample_program
    = Inr (sample_catalog (v + 1) [sample_session w ps], r)"
proof -
  have "sessions_with ss (sample_session w ps) = [sample_session w ps]"
    using assms(5) by (auto simp: sessions_with_def sessions_without_def js_sort_def)
  then show ?thesis using assms(1) sample_catalog_ok [OF assms(2-4)] by (simp add: apply_session_plan_iff)
qed

lemma sample_applied_changes:
  "\<exists>r. apply_session_plan sample_sha (sample_plan 1 sample_creation None (sample_session 1 sample_people)) (sample_catalog 1 []) sample_program
    = Inr (sample_catalog 2 [sample_session 1 sample_people], r)"
  "\<exists>r. apply_session_plan sample_sha (sample_plan 2 sample_leaving (Some (sample_session 1 sample_people)) (sample_session 2 sample_rest))
      (sample_catalog 2 [sample_session 1 sample_people]) sample_program
    = Inr (sample_catalog 3 [sample_session 2 sample_rest], r)"
  "\<exists>r. apply_session_plan sample_sha (sample_plan 3 sample_return (Some (sample_session 2 sample_rest)) (sample_session 3 sample_people))
      (sample_catalog 3 [sample_session 2 sample_rest]) sample_program
    = Inr (sample_catalog 4 [sample_session 3 sample_people], r)"
  using sample_session_applied [OF sample_create_planned] sample_session_applied [OF sample_leaving_planned] sample_session_applied [OF sample_return_planned]
  by simp_all

lemma sample_history:
  "create_empty_session_catalog sample_sha sample_scope = Inr (sample_catalog 1 [])"
  "(session_step sample_sha)\<^sup>*\<^sup>* (sample_catalog 1 []) (sample_catalog 2 [sample_session 1 sample_people])"
proof -
  show "create_empty_session_catalog sample_sha sample_scope = Inr (sample_catalog 1 [])"
    using sample_catalog_empty
    by (simp add: create_empty_session_catalog_def sample_scope_ok parse_session_catalog_iff flip: sample_catalog_def)
  from sample_applied_changes(1) show "(session_step sample_sha)\<^sup>*\<^sup>* (sample_catalog 1 []) (sample_catalog 2 [sample_session 1 sample_people])"
    by (blast intro: session_step.changed)
qed

theorem session_change_goes_through_witness:
  "\<exists>p c' r. plan_session_mutation sample_sha (sample_session_change 2 sample_leaving) (sample_catalog 2 [sample_session 1 sample_people]) sample_program = Inr p
    \<and> apply_session_plan sample_sha p (sample_catalog 2 [sample_session 1 sample_people]) sample_program = Inr (c', r)
    \<and> find_session c' (sample_id CHR ''7'') = Some (sample_session 2 sample_rest)"
proof -
  note p = plan_session_parts [OF sample_leaving_planned, simplified sample_plan_fields]
  from session_change_goes_through [OF sample_history sample_sha_hex p(1-6)] show ?thesis
    by (simp add: sample_catalog_def) (metis fun_upd_same)
qed

theorem session_rosters_dense_witness:
  "map pa_position (rt_participants (sh_roster (sample_session 1 sample_people))) = map int [0..<2]"
  using session_rosters_dense [OF sample_history, of "sample_session 1 sample_people"]
  by (simp add: sample_people_def numeral_2_eq_2)

theorem session_change_applies_once_witness:
  "\<exists>c1 r. apply_session_plan sample_sha (sample_plan 1 sample_creation None (sample_session 1 sample_people)) (sample_catalog 1 []) sample_program
    = Inr (c1, r) \<and> find_session c1 (sample_id CHR ''7'') = Some (sample_session 1 sample_people)"
  using session_change_applies_once [OF sample_catalog_empty sample_create_planned] by auto

theorem session_roster_refines_lineup_witness:
  "lineup sample_rest = lineup_after sample_leaving (lineup sample_people)"
  using session_roster_refines_lineup [OF sample_catalog_inv sample_leaving_planned] by simp

theorem sessions_move_forward_witness:
  "\<exists>h'. find_session (sample_catalog 3 [sample_session 2 sample_rest]) (sample_id CHR ''7'') = Some h' \<and> L_collecting \<le> sh_lifecycle h'"
proof -
  let ?k = "(sample_program, sample_plan 2 sample_leaving (Some (sample_session 1 sample_people)) (sample_session 2 sample_rest))"
  have "apply_plans (session_exec sample_sha) (sample_catalog 2 [sample_session 1 sample_people]) [?k]
      = Inr (sample_catalog 3 [sample_session 2 sample_rest])"
    using sample_applied_changes(2) by auto
  from sessions_move_forward [OF sample_catalog_ok this sample_find] show ?thesis
    by (auto simp: sample_session_def)
qed

theorem session_target_grounded_witness:
  "target_current sample_sha sample_program L_collecting sample_target"
  using session_target_grounded [OF sample_catalog_empty sample_create_planned]
  by (simp add: sample_creation_def) (simp add: sample_session_def)

theorem session_change_compensated_witness:
  "\<exists>c1 q c2 r2. plan_session_compensation sample_sha (sample_plan 1 sample_creation None (sample_session 1 sample_people)) c1
      (sample_id CHR ''4'') (clock 3) = Inr q
    \<and> apply_session_restore_plan sample_sha q c1 = Inr (c2, r2) \<and> find_session c2 (sample_id CHR ''7'') = None"
proof -
  from sample_applied_changes(1) obtain r where a:
    "apply_session_plan sample_sha (sample_plan 1 sample_creation None (sample_session 1 sample_people)) (sample_catalog 1 []) sample_program
      = Inr (sample_catalog 2 [sample_session 1 sample_people], r)" by blast
  have none: "find_session (sample_catalog 1 []) (sample_id CHR ''7'') = None" by (simp add: find_session_def)
  from session_change_compensated [OF sample_catalog_empty sample_sha_hex a, of "sample_id CHR ''4''" "clock 3"] obtain q c2 r2
    where "plan_session_compensation sample_sha (sample_plan 1 sample_creation None (sample_session 1 sample_people))
        (sample_catalog 2 [sample_session 1 sample_people]) (sample_id CHR ''4'') (clock 3) = Inr q"
      "apply_session_restore_plan sample_sha q (sample_catalog 2 [sample_session 1 sample_people]) = Inr (c2, r2)"
      "\<forall>i. map_option session_content (find_session c2 i) = map_option session_content (find_session (sample_catalog 1 []) i)"
    by (auto simp: sample_session_instant)
  moreover from this(3) none have "find_session c2 (sample_id CHR ''7'') = None"
    by (metis map_option_is_None)
  ultimately show ?thesis by blast
qed

theorem roster_removal_restored_witness:
  "\<exists>h h2. find_session (sample_catalog 2 [sample_session 1 sample_people]) (sample_id CHR ''7'') = Some h
    \<and> find_session (sample_catalog 4 [sample_session 3 sample_people]) (sample_id CHR ''7'') = Some h2
    \<and> rt_participants (sh_roster h2) = rt_participants (sh_roster h)"
proof -
  obtain r where a: "apply_session_plan sample_sha
      (sample_plan 2 sample_leaving (Some (sample_session 1 sample_people)) (sample_session 2 sample_rest))
      (sample_catalog 2 [sample_session 1 sample_people]) sample_program = Inr (sample_catalog 3 [sample_session 2 sample_rest], r)"
    using sample_applied_changes(2) ..
  obtain r' where b: "apply_session_plan sample_sha
      (sample_plan 3 sample_return (Some (sample_session 2 sample_rest)) (sample_session 3 sample_people))
      (sample_catalog 3 [sample_session 2 sample_rest]) sample_program = Inr (sample_catalog 4 [sample_session 3 sample_people], r')"
    using sample_applied_changes(3) ..
  from roster_removal_restored [OF sample_catalog_inv a b] show ?thesis
    by (simp add: sample_leaving_def sample_return_def)
qed

theorem new_session_removal_witness:
  "\<exists>q c' r. plan_new_session_removal sample_sha (sample_session 1 sample_people) (sample_catalog 2 [sample_session 1 sample_people])
      (sample_id CHR ''4'') (clock 3) = Inr q
    \<and> apply_new_session_removal_plan sample_sha q (sample_catalog 2 [sample_session 1 sample_people]) = Inr (c', r)
    \<and> find_session c' (sample_id CHR ''7'') = None"
proof -
  have "find_session (sample_catalog 2 [sample_session 1 sample_people]) (sh_id (sample_session 1 sample_people))
      = Some (sample_session 1 sample_people)" by (simp add: sample_find)
  from new_session_removal [OF sample_catalog_ok sample_sha_hex this, of "sample_id CHR ''4''" "clock 3"] show ?thesis
    by (auto simp: sample_session_instant)
qed

end
