(* ===== verification/Graduation.thy ===== *)
theory Graduation
  imports SessionChanges PlacementChanges
begin

text \<open>
  What sessions offer to other components, \<open>packages/session/src/graduation-collaboration.ts\<close> and the ports of
  \<open>packages/session/src/projections.ts\<close>: a change that spawns a session or attaches people to one, embedded in
  the operation of another component; and the sessions a form may collect for or the schedule may place. Then the
  guard under which the host removes a new session, and the sessions and the schedule of an event as one
  state machine.
  Repositories are records of functions that read a catalog or a vocabulary of a scope.
\<close>

section \<open>Graduations\<close>

record session_reads =
  gr_readSessionCatalog :: "vocabulary_scope \<Rightarrow> session_catalog option"
  gr_readSessionVocabulary :: "vocabulary_scope \<Rightarrow> vocabulary option"

record graduation_base =
  gb_scope :: vocabulary_scope
  gb_userId :: string
  gb_at :: string
  gb_participants :: "roster_input list"

record spawned_session =
  gs_sessionId :: string
  gs_title :: string
  gs_plannedDurationMinutes :: int
  gs_lifecycle :: session_lifecycle
  gs_formatId :: string
  gs_trackId :: "string option"

datatype graduation_change =
    Spawn graduation_base spawned_session
  | Attach graduation_base string "session_lifecycle option"

fun graduation_base_of :: "graduation_change \<Rightarrow> graduation_base" where
  "graduation_base_of (Spawn b _) = b"
| "graduation_base_of (Attach b _ _) = b"

text \<open>The planning input that carries an action for a session, under the guards of the catalog read.\<close>

definition graduation_input :: "session_catalog \<Rightarrow> graduation_base \<Rightarrow> string \<Rightarrow> session_action \<Rightarrow> session_input" where
  "graduation_input c b sessionId action = \<lparr> sb_scope = gb_scope b, sb_sessionId = sessionId,
     sb_expectedCatalogVersion = sg_version c, sb_expectedCatalogDigest = sg_digest c,
     sb_actorUserId = gb_userId b, sb_occurredAt = gb_at b, sb_action = action \<rparr>"

fun graduation_planning_input :: "session_catalog \<Rightarrow> graduation_change \<Rightarrow> session_input sessions" where
  "graduation_planning_input c (Spawn b n) = Inr (graduation_input c b (gs_sessionId n) (S_create
     \<lparr> ns_title = gs_title n, ns_plannedDurationMinutes = gs_plannedDurationMinutes n, ns_lifecycle = gs_lifecycle n,
       ns_formatId = gs_formatId n, ns_trackId = gs_trackId n, ns_participants = Some (gb_participants b) \<rparr>))"
| "graduation_planning_input c (Attach b sessionId graduateTo) =
     (case find_session c sessionId of
        None \<Rightarrow> refused S_session_missing
      | Some current \<Rightarrow> Inr (graduation_input c b sessionId (S_roster_append
          \<lparr> se_version = sh_version current, se_digest = sh_digest current \<rparr> (gb_participants b) graduateTo)))"

definition plan_session_graduation_from ::
  "(string \<Rightarrow> string) \<Rightarrow> session_reads \<Rightarrow> graduation_change \<Rightarrow> session_plan sessions"
where
  "plan_session_graduation_from sha reads change =
     (let scope = gb_scope (graduation_base_of change) in
      if \<not> scope_ok scope then Inl SchemaErr
      else case (gr_readSessionCatalog reads scope, gr_readSessionVocabulary reads scope) of
        (Some c, Some vocab) \<Rightarrow>
          rbind (graduation_planning_input c change) (\<lambda>i.
          rbind (plan_session_mutation sha i c vocab) parse_session_plan)
      | _ \<Rightarrow> Inl TypeErr)"

text \<open>Validations answer a code, or \<open>None\<close> for ready; a malformed scope is an error of the parser.\<close>

definition validate_session_graduation_from ::
  "(string \<Rightarrow> string) \<Rightarrow> session_reads \<Rightarrow> session_plan \<Rightarrow> session_code option sessions"
where
  "validate_session_graduation_from sha reads g =
     (let scope = sb_scope (sl_input g) in
      if \<not> scope_ok scope then Inl SchemaErr
      else case (gr_readSessionCatalog reads scope, gr_readSessionVocabulary reads scope) of
        (Some c, Some vocab) \<Rightarrow> Inr (validate_session_plan sha g c vocab)
      | _ \<Rightarrow> Inr (Some S_wrong_scope))"

definition plan_session_graduation_reversal_from ::
  "(string \<Rightarrow> string) \<Rightarrow> session_reads \<Rightarrow> session_plan \<Rightarrow> string \<Rightarrow> string \<Rightarrow> session_restore_plan sessions"
where
  "plan_session_graduation_reversal_from sha reads original userId occurredAt =
     (let scope = sb_scope (sl_input original) in
      if \<not> scope_ok scope then Inl SchemaErr
      else case gr_readSessionCatalog reads scope of
        None \<Rightarrow> Inl TypeErr
      | Some c \<Rightarrow> plan_graduation_reversal_against sha original c userId occurredAt)"

definition validate_session_graduation_reversal_from ::
  "(string \<Rightarrow> string) \<Rightarrow> session_reads \<Rightarrow> session_restore_plan \<Rightarrow> session_code option sessions"
where
  "validate_session_graduation_reversal_from sha reads plan =
     (if \<not> scope_ok (rm_scope plan) then Inl SchemaErr
      else case gr_readSessionCatalog reads (rm_scope plan) of
        None \<Rightarrow> Inr (Some S_wrong_scope)
      | Some c \<Rightarrow> (case apply_session_restore_plan sha plan c of
          Inr _ \<Rightarrow> Inr None
        | Inl (Refused code) \<Rightarrow> Inr (Some code)
        | Inl _ \<Rightarrow> Inr (Some S_invalid_plan)))"

text \<open>What the hosting operation records of a graduation.\<close>

record graduation_pin =
  gp_sessionId :: string
  gp_version :: int
  gp_digest :: string
  gp_lifecycle :: session_lifecycle

definition session_graduation_pin :: "session_plan \<Rightarrow> graduation_pin" where
  "session_graduation_pin g = \<lparr> gp_sessionId = sh_id (sl_after g), gp_version = sh_version (sl_after g),
     gp_digest = sh_digest (sl_after g), gp_lifecycle = sh_lifecycle (sl_after g) \<rparr>"

definition session_graduation_fact_payload :: "session_plan \<Rightarrow> session_result sessions" where
  "session_graduation_fact_payload g =
     parse_session_result (Deed_action (sb_action (sl_input g))) (sl_versionAfter g) (Some (sl_after g))"

definition session_catalog_guard_id :: "string \<Rightarrow> string" where
  "session_catalog_guard_id eventId = ''session_catalog:'' @ eventId"

definition session_aggregate_id :: "string \<Rightarrow> string" where
  "session_aggregate_id sessionId = ''session:'' @ sessionId"

definition session_graduation_aggregate_refs :: "session_plan \<Rightarrow> (string \<times> int) list" where
  "session_graduation_aggregate_refs g =
     (case sl_before g of None \<Rightarrow> [] | Some h \<Rightarrow> [(session_aggregate_id (sh_id h), sh_version h)])"

definition session_graduation_guard_refs :: "session_plan \<Rightarrow> (string \<times> int \<times> string) list" where
  "session_graduation_guard_refs g =
     [(session_catalog_guard_id (sc_eventId (sb_scope (sl_input g))), sl_versionBefore g, sl_digestBefore g)]"

section \<open>Sessions that forms and the schedule may refer to\<close>

text \<open>The session a form collects for: the identifier, the title and the version of a collecting session.\<close>

definition resolve_collecting_session ::
  "session_reads \<Rightarrow> vocabulary_scope \<Rightarrow> string \<Rightarrow> (string \<times> string \<times> int) option"
where
  "resolve_collecting_session reads scope sessionId =
     (case gr_readSessionCatalog reads scope of
        None \<Rightarrow> None
      | Some c \<Rightarrow> (case find_session c sessionId of
          None \<Rightarrow> None
        | Some h \<Rightarrow> if sh_lifecycle h = L_collecting then Some (sh_id h, sh_title h, sh_version h) else None))"

definition read_placeable_session ::
  "session_reads \<Rightarrow> vocabulary_scope \<Rightarrow> string \<Rightarrow> session_identity option"
where
  "read_placeable_session reads scope sessionId =
     (case gr_readSessionCatalog reads scope of
        None \<Rightarrow> None
      | Some c \<Rightarrow> (case find_session c sessionId of
          None \<Rightarrow> None
        | Some h \<Rightarrow>
            if sh_lifecycle h \<noteq> L_collecting \<and> sh_lifecycle h \<noteq> L_programmed then None
            else Some \<lparr> si_scope = scope, si_id = sessionId, si_lifecycle = lifecycle_text (sh_lifecycle h),
              si_trackId = session_track_id h \<rparr>))"

text \<open>The port of the schedule that the catalog provides.\<close>

definition catalog_session_port :: "session_reads \<Rightarrow> session_port" where
  "catalog_session_port reads = \<lparr> sp_readPlaceable = Some (read_placeable_session reads), sp_readProgrammed = None \<rparr>"

section \<open>Planned graduations\<close>

lemma parse_planned_session:
  assumes "plan_session_mutation sha i c vocab = Inr p"
  shows "parse_session_plan p = Inr p"
proof -
  from assms obtain raw where "parse_session_plan raw = Inr p"
    unfolding plan_session_mutation_def build_mutation_plan_def by (auto simp: rbind_Inr_iff)
  then obtain j where j: "parse_session_input (sl_input raw) = Inr j"
    and p: "p = raw \<lparr> sl_input := j \<rparr>" and ok: "optional_head_schema (sl_before p) \<and> session_head_schema (sl_after p)
      \<and> positive_safe (sl_versionBefore p) \<and> positive_safe (sl_versionAfter p)
      \<and> sha256_hex (sl_digestBefore p) \<and> sha256_hex (sl_digestAfter p) \<and> session_plan_coherent p"
    by (auto simp: parse_session_plan_def rbind_Inr_iff split: if_splits)
  with parse_session_input_idem [OF j] show ?thesis by (simp add: parse_session_plan_def)
qed

lemma graduation_input_Inr:
  assumes "graduation_planning_input c change = Inr i"
  shows "sb_scope i = gb_scope (graduation_base_of change)"
  using assms by (cases change) (auto simp: graduation_input_def refused_def split: option.splits)

lemma plan_session_graduation_Inr:
  assumes "plan_session_graduation_from sha reads change = Inr g"
  shows "\<exists>c vocab i. gr_readSessionCatalog reads (gb_scope (graduation_base_of change)) = Some c
    \<and> gr_readSessionVocabulary reads (gb_scope (graduation_base_of change)) = Some vocab
    \<and> graduation_planning_input c change = Inr i \<and> plan_session_mutation sha i c vocab = Inr g"
proof -
  let ?s = "gb_scope (graduation_base_of change)"
  from assms obtain c vocab where r: "gr_readSessionCatalog reads ?s = Some c" "gr_readSessionVocabulary reads ?s = Some vocab"
    and "rbind (graduation_planning_input c change) (\<lambda>i. rbind (plan_session_mutation sha i c vocab) parse_session_plan) = Inr g"
    by (auto simp: plan_session_graduation_from_def Let_def split: if_splits option.splits)
  then obtain i p where i: "graduation_planning_input c change = Inr i" "plan_session_mutation sha i c vocab = Inr p"
    "parse_session_plan p = Inr g" by (auto simp: rbind_Inr_iff)
  with parse_planned_session [OF i(2)] r show ?thesis by auto
qed

section \<open>Properties of graduations\<close>

lemma session_plans_scope:
  "catalog_ok sha c \<Longrightarrow> apply_plans (session_exec sha) c commands = Inr c' \<Longrightarrow> catalog_ok sha c' \<and> sg_scope c' = sg_scope c"
proof (induction commands arbitrary: c)
  case (Cons k commands)
  then obtain t where t: "session_exec sha c k = Inr t" and rest: "apply_plans (session_exec sha) t commands = Inr c'"
    by (auto simp: rbind_Inr_iff)
  from session_exec_Inr [OF t] obtain r where "apply_session_plan sha (snd k) c (fst k) = Inr (t, r)" ..
  from apply_session_plan_effect(2,3) [OF Cons.prems(1) this] Cons.IH [OF _ rest] show ?case by simp
qed simp

text \<open>
  C28. A graduation can be taken back as long as its session is untouched, however far the catalog has moved
  on: after any later changes that left the session as the graduation made it, the reversal can be
  planned and applied; the session then has the content it had before (a spawned session is gone), and
  every other session is as the later changes left it.
\<close>

theorem graduation_reversal_restores:
  assumes "catalog_ok sha c" "\<forall>t. sha256_hex (sha t)" "apply_session_plan sha g c vocab = Inr (c1, r1)"
    and "apply_plans (session_exec sha) c1 commands = Inr c2" "find_session c2 (sh_id (sl_after g)) = Some (sl_after g)"
    and "vocabulary_id actor" "session_instant at"
    and "positive_safe (sg_version c2 + 1)" "positive_safe (sh_version (sl_after g) + 1)"
  shows "\<exists>q c3 r3. plan_graduation_reversal_against sha g c2 actor at = Inr q \<and> apply_session_restore_plan sha q c2 = Inr (c3, r3)
    \<and> map_option session_content (find_session c3 (sh_id (sl_after g))) = map_option session_content (find_session c (sh_id (sl_after g)))
    \<and> (\<forall>i. i \<noteq> sh_id (sl_after g) \<longrightarrow> find_session c3 i = find_session c2 i)"
proof -
  note e = apply_session_plan_effect [OF assms(1,3)]
  note rev = applied_session_reversible [OF assms(1,3)]
  from session_plans_scope [OF e(2) assms(4)] have c2: "catalog_ok sha c2" "sg_scope c2 = sg_scope c1" by simp_all
  have prior: "head_ok sha h \<and> same_scope (sh_scope h) (sg_scope c2) \<and> sh_id h = sh_id (sl_after g)" if "sl_before g = Some h" for h
    using rev(2) [OF that] by (simp add: c2(2))
  have before: "sl_before g = find_session c (sh_id (sl_after g))" by (rule session_planned_image(2) [OF assms(1) e(1)])
  obtain q c3 r3 restore where "plan_graduation_reversal_against sha g c2 actor at = Inr q"
    "apply_session_restore_plan sha q c2 = Inr (c3, r3)"
    "find_session c3 = (find_session c2) (sh_id (sl_after g) := restore)"
    "map_option session_content restore = map_option session_content (sl_before g)"
    using session_reversed [OF c2(1) assms(2,5) prior assms(6-9)] by blast
  then show ?thesis by (simp add: before)
qed

section \<open>Removing a session for good\<close>

text \<open>
  What the host does before a new session is removed (\<open>packages/persistence/src/sqlite/session-direct-effect-domain.ts\<close>):
  besides the version and the digest, the roster must be empty, nothing of the schedule may be of
  the session (the count of \<open>countSessionSchedulePlacements\<close> over the rows of the schedule), and no row of
  another table may refer to it; the count of these is a parameter.
\<close>

definition count_schedule_placements :: "schedule \<Rightarrow> string \<Rightarrow> nat" where
  "count_schedule_placements s sessionId = length (filter (\<lambda>oc. oc_sessionId oc = sessionId) (sd_occurrences s))"

definition plan_direct_session_removal ::
  "(string \<Rightarrow> string) \<Rightarrow> (string \<Rightarrow> nat) \<Rightarrow> session_catalog \<Rightarrow> schedule \<Rightarrow> string \<Rightarrow> session_expectation \<Rightarrow> string \<Rightarrow> string
   \<Rightarrow> session_removal_plan sessions"
where
  "plan_direct_session_removal sha references c s sessionId expected actor occurredAt =
     (case find_session c sessionId of
        None \<Rightarrow> refused S_stale_session
      | Some current \<Rightarrow>
          if sh_version current \<noteq> 1 \<or> sh_version current \<noteq> se_version expected \<or> sh_digest current \<noteq> se_digest expected
            \<or> length (rt_participants (sh_roster current)) \<noteq> 0
            \<or> count_schedule_placements s (sh_id current) \<noteq> 0 \<or> references (sh_id current) \<noteq> 0
          then refused S_stale_session
          else plan_new_session_removal sha current c actor occurredAt)"

section \<open>The sessions and the schedule of an event together\<close>

text \<open>
  The steps of an event: a planned change of its sessions (by the operator, or the graduation of a decision), the
  removal of a new session, the compensation of a change of a session that was open already, and a
  planned change of the schedule, with the sessions of the moment as its port.
\<close>

inductive event_step :: "(string \<Rightarrow> string) \<Rightarrow> session_catalog \<times> schedule \<Rightarrow> session_catalog \<times> schedule \<Rightarrow> bool"
  for sha :: "string \<Rightarrow> string"
where
  session_changed: "apply_session_plan sha p c vocab = Inr (c', r) \<Longrightarrow> event_step sha (c, s) (c', s)"
| session_removed: "plan_direct_session_removal sha references c s sessionId e actor at = Inr q \<Longrightarrow>
    apply_new_session_removal_plan sha q c = Inr (c', r) \<Longrightarrow> event_step sha (c, s) (c', s)"
| session_returned: "parse_session_plan p = Inr p \<Longrightarrow> sl_before p = Some prior \<Longrightarrow> sh_lifecycle prior \<noteq> L_draft \<Longrightarrow>
    plan_session_compensation sha p c actor at = Inr q \<Longrightarrow> apply_session_restore_plan sha q c = Inr (c', r) \<Longrightarrow>
    event_step sha (c, s) (c', s)"
| schedule_changed: "gr_readSessionCatalog reads (ph_scope (input_head (pp_input plan))) = Some c \<Longrightarrow>
    apply_placement_plan sha s (catalog_session_port reads) vocab plan = Inr (s', res) \<Longrightarrow> event_step sha (c, s) (c, s')"

definition placed_open :: "session_catalog \<Rightarrow> schedule \<Rightarrow> bool" where
  "placed_open c s \<longleftrightarrow> (\<forall>oc \<in> set (sd_occurrences s). \<exists>h. find_session c (oc_sessionId oc) = Some h \<and> sh_lifecycle h \<noteq> L_draft)"

lemma placed_openI:
  assumes "placed_open c s"
    and "\<And>i h oc. oc \<in> set (sd_occurrences s) \<Longrightarrow> oc_sessionId oc = i \<Longrightarrow> find_session c i = Some h \<Longrightarrow> sh_lifecycle h \<noteq> L_draft \<Longrightarrow>
      \<exists>h'. find_session c' i = Some h' \<and> sh_lifecycle h' \<noteq> L_draft"
  shows "placed_open c' s"
  using assms unfolding placed_open_def by blast

lemma advanced_open: "session_advanced h h' \<Longrightarrow> sh_lifecycle h \<noteq> L_draft \<Longrightarrow> sh_lifecycle h' \<noteq> L_draft"
  by (cases "sh_lifecycle h"; cases "sh_lifecycle h'") (simp_all add: session_advanced_def less_eq_session_lifecycle_def)

lemma changed_open:
  assumes "catalog_ok sha c" "placed_open c s" "apply_session_plan sha p c vocab = Inr (c', r)"
  shows "catalog_ok sha c' \<and> placed_open c' s"
proof -
  have "session_exec sha c (vocab, p) = Inr c'" using assms(3) by simp
  from session_exec_advances [OF assms(1) this] advanced_open placed_openI [OF assms(2), of c']
    apply_session_plan_effect(2) [OF assms(1,3)] show ?thesis by blast
qed

lemma direct_removal_parts:
  assumes "plan_direct_session_removal sha references c s sessionId e actor at = Inr q"
  shows "sh_id (rm_expectedCurrent q) = sessionId \<and> (\<forall>oc \<in> set (sd_occurrences s). oc_sessionId oc \<noteq> sessionId)"
proof -
  from assms obtain cur where cur: "find_session c sessionId = Some cur" "count_schedule_placements s (sh_id cur) = 0"
    and q: "plan_new_session_removal sha cur c actor at = Inr q"
    by (auto simp: plan_direct_session_removal_def refused_def split: option.splits if_splits)
  from find_session_member [OF cur(1)] have id: "sh_id cur = sessionId" by simp
  have "rm_expectedCurrent q = cur"
    using q cur(1) by (auto simp: plan_new_session_removal_def id refused_def rbind_Inr_iff Let_def split: if_splits)
  with cur(2) show ?thesis by (auto simp: id count_schedule_placements_def filter_empty_conv)
qed

lemma removed_open:
  assumes "placed_open c s" "plan_direct_session_removal sha references c s sessionId e actor at = Inr q"
    and "apply_new_session_removal_plan sha q c = Inr (c', r)"
  shows "catalog_ok sha c' \<and> placed_open c' s"
proof -
  note q = direct_removal_parts [OF assms(2)]
  from apply_removal_parts [OF assms(3)] q have c': "catalog_ok sha c'" "sg_sessions c' = sessions_without sessionId (sg_sessions c)"
    by (simp_all add: catalog_with_iff)
  have "find_session c' i = find_session c i" if "i \<noteq> sessionId" for i
    using that by (simp add: find_session_map c'(2) sessions_without_def map_of_keyed_filter)
  with q assms(1) c'(1) show ?thesis unfolding placed_open_def by metis
qed

lemma returned_open:
  assumes ok: "catalog_ok sha c" and po: "placed_open c s" and p: "parse_session_plan p = Inr p" "sl_before p = Some prior"
    "sh_lifecycle prior \<noteq> L_draft" and q: "plan_session_compensation sha p c actor at = Inr q"
    and a: "apply_session_restore_plan sha q c = Inr (c', r)"
  shows "catalog_ok sha c' \<and> placed_open c' s"
proof -
  from p(1,2) have id: "sh_id prior = sh_id (sl_after p)"
    by (auto simp: parse_session_plan_def session_plan_coherent_def rbind_Inr_iff split: if_splits)
  from q obtain cur where cur: "find_session c (sh_id (sl_after p)) = Some cur" "rm_expectedCurrent q = cur"
    and rh: "restored_head sha (Some prior) cur actor at = Inr (rm_restore q)"
    unfolding plan_session_compensation_def p(2)
    by (auto simp: refused_def rbind_Inr_iff Let_def split: option.splits if_splits)
  from rh obtain h where h: "rm_restore q = Some h" "sh_id h = sh_id prior" "sh_lifecycle h = sh_lifecycle prior"
    by (cases "rm_restore q") (auto simp: restored_head_def rbind_Inr_iff parse_signed_head_iff)
  from find_session_member [OF cur(1)] apply_restore_parts(6) [OF a] h(1)
  have c': "catalog_ok sha c'" "sg_sessions c' = sessions_restored (sg_sessions c) (sh_id prior) (Some h)"
    by (simp_all add: catalog_with_iff cur(2) id)
  have "find_session c' = (find_session c) (sh_id prior \<mapsto> h)"
    unfolding find_session_map c'(2) by (rule sessions_restored_map) (simp_all add: catalog_ok_distinct [OF ok] h(2))
  with h(3) p(3) c'(1) placed_openI [OF po, of c'] show ?thesis by auto
qed

lemma planned_open:
  assumes "gr_readSessionCatalog reads (ph_scope (input_head i)) = Some c"
    and "plan_placement sha i s (catalog_session_port reads) vocab = Inr plan" "pp_after plan = Some oc"
  shows "\<exists>h. find_session c (oc_sessionId oc) = Some h \<and> sh_lifecycle h \<noteq> L_draft
    \<and> ((\<exists>tr \<in> set (vs_tracks vocab). pi_status tr = Active) \<longrightarrow> session_track_id h \<noteq> None)"
proof -
  let ?scope = "ph_scope (input_head i)"
  from planned_placement_relies [OF assms(2,3)] obtain x
    where x: "resolve_placeable_session (catalog_session_port reads) ?scope (oc_sessionId oc) = Some x"
    and tr: "(\<exists>tr \<in> set (vs_tracks vocab). pi_status tr = Active) \<longrightarrow> si_trackId x \<noteq> None" by blast
  from x have "read_placeable_session reads ?scope (oc_sessionId oc) = Some x"
    by (auto simp: resolve_placeable_session_def catalog_session_port_def Let_def split: option.splits if_splits)
  with assms(1) tr show ?thesis by (auto simp: read_placeable_session_def split: option.splits if_splits)
qed

lemma placed_still_open:
  assumes "placed_open c s" "schedule_ok s" "gr_readSessionCatalog reads (ph_scope (input_head (pp_input plan))) = Some c"
    and "apply_placement_plan sha s (catalog_session_port reads) vocab plan = Inr (s', res)"
  shows "schedule_ok s' \<and> placed_open c s'"
proof -
  have p: "plan_placement sha (pp_input plan) s (catalog_session_port reads) vocab = Inr plan"
    using apply_placement_valid [OF assms(4)] by (simp add: validate_placement_plan_iff)
  from apply_placement_plan_result [OF assms(2) p] assms(4) have s': "schedule_ok s'"
    and oc: "occurrence_catalog s' = (occurrence_catalog s)(ph_occurrenceId (input_head (pp_input plan)) := pp_after plan)" by auto
  have "\<exists>h. find_session c (oc_sessionId x) = Some h \<and> sh_lifecycle h \<noteq> L_draft" if "x \<in> set (sd_occurrences s')" for x
  proof -
    have "occurrence_catalog s' (oc_id x) = Some x" using that s' by (simp add: occurrence_catalog_iff)
    then have "pp_after plan = Some x \<or> x \<in> set (sd_occurrences s)"
      using assms(2) by (auto simp: oc occurrence_catalog_iff split: if_splits)
    with planned_open [OF assms(3) p] assms(1) show ?thesis unfolding placed_open_def by blast
  qed
  with s' show ?thesis by (simp add: placed_open_def)
qed

lemma event_step_open:
  "event_step sha x y \<Longrightarrow> catalog_ok sha (fst x) \<and> schedule_ok (snd x) \<and> placed_open (fst x) (snd x) \<Longrightarrow>
   catalog_ok sha (fst y) \<and> schedule_ok (snd y) \<and> placed_open (fst y) (snd y)"
proof (induction rule: event_step.induct)
  case (session_changed p c vocab c' r s)
  with changed_open [of sha c s p vocab c' r] show ?case by simp
next
  case (session_removed references c s sessionId e actor at q c' r)
  with removed_open [of c s sha references sessionId e actor at q c' r] show ?case by simp
next
  case (session_returned p prior c actor at q c' r s)
  with returned_open [of sha c s p prior actor at q c' r] show ?case by simp
next
  case (schedule_changed reads plan c s vocab s' res)
  with placed_still_open [of c s reads plan sha vocab s' res] show ?case by simp
qed

lemma event_history_open:
  "(event_step sha)\<^sup>*\<^sup>* x y \<Longrightarrow> catalog_ok sha (fst x) \<and> schedule_ok (snd x) \<and> placed_open (fst x) (snd x) \<Longrightarrow>
   catalog_ok sha (fst y) \<and> schedule_ok (snd y) \<and> placed_open (fst y) (snd y)"
  by (induction rule: rtranclp_induct) (simp_all add: event_step_open)

text \<open>
  C29. Nothing on the schedule refers to a session that is missing or a draft: from an event with nothing placed,
  through whatever sequence of planned changes of sessions, graduations, removals of new sessions,
  compensations of changes of sessions that were open before, placements, moves and unplacements, every
  occurrence of the schedule is of a session of the catalog that collects or is programmed, and what is
  planned next is so too, with a track whenever the vocabulary has active tracks. Removals keep it
  because they count the occurrences of the session. Not among the steps are the compensations and
  reversals that take a session back to a draft or remove a spawned one (\<open>restore_route\<close> of
  \<open>submission-route.ts\<close>, \<open>planSessionGraduationReversalFrom\<close>): they do not look at the schedule,
  so a session placed in the meantime stays placed.
\<close>

theorem placed_session_stays_placeable:
  assumes "catalog_ok sha c0" "schedule_ok s0" "sd_occurrences s0 = []" "(event_step sha)\<^sup>*\<^sup>* (c0, s0) (c, s)"
  shows "(\<forall>oc \<in> set (sd_occurrences s). \<exists>h. find_session c (oc_sessionId oc) = Some h \<and> sh_lifecycle h \<in> {L_collecting, L_programmed})
    \<and> (\<forall>reads i vocab plan oc. gr_readSessionCatalog reads (ph_scope (input_head i)) = Some c
        \<and> plan_placement sha i s (catalog_session_port reads) vocab = Inr plan \<and> pp_after plan = Some oc \<longrightarrow>
        (\<exists>h. find_session c (oc_sessionId oc) = Some h \<and> sh_lifecycle h \<in> {L_collecting, L_programmed}
          \<and> ((\<exists>tr \<in> set (vs_tracks vocab). pi_status tr = Active) \<longrightarrow> session_track_id h \<noteq> None)))"
proof (intro conjI allI impI)
  have op: "l \<noteq> L_draft \<longleftrightarrow> l \<in> {L_collecting, L_programmed}" for l by (cases l) simp_all
  show "\<forall>oc \<in> set (sd_occurrences s). \<exists>h. find_session c (oc_sessionId oc) = Some h \<and> sh_lifecycle h \<in> {L_collecting, L_programmed}"
    using event_history_open [OF assms(4)] assms(1-3) by (simp add: placed_open_def op)
  fix reads i vocab plan oc
  assume "gr_readSessionCatalog reads (ph_scope (input_head i)) = Some c
    \<and> plan_placement sha i s (catalog_session_port reads) vocab = Inr plan \<and> pp_after plan = Some oc"
  then show "\<exists>h. find_session c (oc_sessionId oc) = Some h \<and> sh_lifecycle h \<in> {L_collecting, L_programmed}
      \<and> ((\<exists>tr \<in> set (vs_tracks vocab). pi_status tr = Active) \<longrightarrow> session_track_id h \<noteq> None)"
    using planned_open [of reads i c sha s vocab plan oc] by (simp add: op)
qed

section \<open>A sample graduation\<close>

text \<open>The sample catalog as what the repositories of a host read.\<close>

definition sample_reads :: session_reads where
  "sample_reads = \<lparr> gr_readSessionCatalog = (\<lambda>_. Some (sample_catalog 2 [sample_session 1 sample_people])),
     gr_readSessionVocabulary = (\<lambda>_. Some sample_program) \<rparr>"

lemma sample_catalog_places:
  "read_placeable_session sample_reads sample_scope (sample_id CHR ''7'')
   = Some \<lparr> si_scope = sample_scope, si_id = sample_id CHR ''7'', si_lifecycle = ''collecting'',
       si_trackId = Some (sample_id CHR ''6'') \<rparr>"
  by (simp add: read_placeable_session_def sample_reads_def sample_find)
    (simp add: sample_session_def session_track_id_def sample_target_def track_evidence_of_def sample_tracks)

lemma sample_catalog_placed:
  "plan_placement sample_sha sample_place sample_schedule (catalog_session_port sample_reads) sample_vocabulary = Inr sample_placed_plan"
  by (simp add: sample_placement_simps sample_place_def sample_placed_plan_def sample_vocabulary_tracks catalog_session_port_def
      sample_catalog_places sample_sha_const [of "canonical x" for x])

definition sample_empty_schedule :: schedule where
  "sample_empty_schedule = sample_schedule \<lparr> sd_occurrences := [] \<rparr>"

lemma sample_empty_placed:
  "plan_placement sample_sha sample_place sample_empty_schedule (catalog_session_port sample_reads) sample_vocabulary = Inr sample_placed_plan"
  by (simp add: sample_placement_simps sample_place_def sample_placed_plan_def sample_vocabulary_tracks catalog_session_port_def
      sample_catalog_places sample_sha_const [of "canonical x" for x] sample_empty_schedule_def)

text \<open>A session is placed, and a participant leaves it afterwards.\<close>

theorem placed_session_stays_placeable_witness:
  "\<exists>s. (event_step sample_sha)\<^sup>*\<^sup>* (sample_catalog 2 [sample_session 1 sample_people], sample_empty_schedule)
      (sample_catalog 3 [sample_session 2 sample_rest], s)
    \<and> (\<exists>oc \<in> set (sd_occurrences s). \<exists>h. find_session (sample_catalog 3 [sample_session 2 sample_rest]) (oc_sessionId oc) = Some h
      \<and> sh_lifecycle h \<in> {L_collecting, L_programmed})"
proof -
  let ?c = "sample_catalog 2 [sample_session 1 sample_people]" and ?d = "sample_catalog 3 [sample_session 2 sample_rest]"
  have ok: "schedule_ok sample_empty_schedule"
    using sample_schedule_ok by (simp add: schedule_ok_def sample_empty_schedule_def no_double_booking_def)
  have i: "pp_input sample_placed_plan = sample_place" by (simp add: sample_placed_plan_def)
  from apply_placement_plan_result [OF ok, of sample_sha sample_placed_plan "catalog_session_port sample_reads" sample_vocabulary]
  obtain s' res where s': "apply_placement_plan sample_sha sample_empty_schedule (catalog_session_port sample_reads) sample_vocabulary sample_placed_plan
      = Inr (s', res)" "schedule_ok s'" "occurrence_catalog s' (ph_occurrenceId (input_head sample_place)) = pp_after sample_placed_plan"
    using sample_empty_placed by (auto simp: i)
  have "event_step sample_sha (?c, sample_empty_schedule) (?c, s')"
    by (rule event_step.schedule_changed [OF _ s'(1)]) (simp add: sample_reads_def)
  moreover obtain r where "apply_session_plan sample_sha (sample_plan 2 sample_leaving (Some (sample_session 1 sample_people)) (sample_session 2 sample_rest))
      ?c sample_program = Inr (?d, r)" using sample_applied_changes(2) ..
  then have "event_step sample_sha (?c, s') (?d, s')" by (rule event_step.session_changed)
  ultimately have h: "(event_step sample_sha)\<^sup>*\<^sup>* (?c, sample_empty_schedule) (?d, s')" by simp
  have "sd_occurrences sample_empty_schedule = []" by (simp add: sample_empty_schedule_def)
  from conjunct1 [OF placed_session_stays_placeable [OF sample_catalog_ok ok this h]]
  have all: "\<forall>oc \<in> set (sd_occurrences s'). \<exists>h. find_session ?d (oc_sessionId oc) = Some h \<and> sh_lifecycle h \<in> {L_collecting, L_programmed}" by simp
  obtain oc where "occurrence_catalog s' (ph_occurrenceId (input_head sample_place)) = Some oc"
    using s'(3) by (simp add: sample_placed_plan_def)
  then have "oc \<in> set (sd_occurrences s')" using s'(2) by (simp add: occurrence_catalog_iff)
  with all h show ?thesis by blast
qed

theorem graduation_reversal_restores_witness:
  "\<exists>g q c3 r3 h. plan_graduation_reversal_against sample_sha g (sample_catalog 3 [sample_session 2 sample_rest])
      (sample_id CHR ''4'') (clock 3) = Inr q
    \<and> apply_session_restore_plan sample_sha q (sample_catalog 3 [sample_session 2 sample_rest]) = Inr (c3, r3)
    \<and> find_session c3 (sample_id CHR ''7'') = Some h \<and> session_content h = session_content (sample_session 1 sample_people)"
proof -
  let ?g = "sample_plan 2 sample_leaving (Some (sample_session 1 sample_people)) (sample_session 2 sample_rest)"
  obtain r where a: "apply_session_plan sample_sha ?g (sample_catalog 2 [sample_session 1 sample_people]) sample_program
      = Inr (sample_catalog 3 [sample_session 2 sample_rest], r)" using sample_applied_changes(2) ..
  have none: "apply_plans (session_exec sample_sha) (sample_catalog 3 [sample_session 2 sample_rest]) []
      = Inr (sample_catalog 3 [sample_session 2 sample_rest])" by simp
  have f: "find_session (sample_catalog 3 [sample_session 2 sample_rest]) (sh_id (sl_after ?g)) = Some (sl_after ?g)"
    by (simp add: sample_find)
  from graduation_reversal_restores [OF sample_catalog_ok sample_sha_hex a none f, of "sample_id CHR ''4''" "clock 3"]
  obtain q c3 r3 where "plan_graduation_reversal_against sample_sha ?g (sample_catalog 3 [sample_session 2 sample_rest])
      (sample_id CHR ''4'') (clock 3) = Inr q"
    "apply_session_restore_plan sample_sha q (sample_catalog 3 [sample_session 2 sample_rest]) = Inr (c3, r3)"
    "map_option session_content (find_session c3 (sample_id CHR ''7''))
      = map_option session_content (Some (sample_session 1 sample_people))"
    by (auto simp: sample_session_instant sample_find)
  then show ?thesis by (auto simp: map_option_eq_Some)
qed

end
