(* ===== verification/Decision.thy ===== *)
theory Decision
  imports Graduation
begin

text \<open>
  Decisions on submissions, \<open>packages/decision/src/domain.ts\<close> and \<open>model.ts\<close> over the schemas of
  \<open>packages/contracts/src/decisions.ts\<close>: one operation decides up to a hundred submissions, and every accepted
  one graduates into a session, spawned for it or attached to. A plan is made row by row over a view of the
  session catalog that each graduation advances. Data, schemas, JSON forms and operations; the properties
  are in \<open>DecisionChanges\<close>.

  Repositories are records of functions. The standing of a review is a number between 1 and 5, of which the
  model has the whole ones.
\<close>

section \<open>Data\<close>

datatype decision_state = Ds_accepted | Ds_waitlisted | Ds_declined | Ds_withdrawn

record decision_head =
  dh_scope :: vocabulary_scope
  dh_submissionId :: string
  dh_state :: decision_state
  dh_version :: int
  dh_decidedByUserId :: string
  dh_decidedAt :: string
  dh_digest :: string

record submission_pin =
  sm_submissionId :: string
  sm_formVersionId :: string
  sm_candidateVersion :: int

datatype standing_band = Band_top | Band_upper | Band_mid | Band_lower | Band_bottom | Band_few

record review_standing =
  rst_value :: int
  rst_n :: int
  rst_band :: standing_band

record review_pin =
  rvp_roundId :: string
  rvp_roundVersion :: int
  rvp_standing :: "review_standing option"

text \<open>The session an attachment was decided against; its kind and lifecycle are constants (a collecting session).\<close>

record target_pin =
  tp_id :: string
  tp_title :: string
  tp_version :: int

record decision_evidence =
  de_submission :: submission_pin
  de_review :: "review_pin option"
  de_target :: "target_pin option"

datatype origin_kind = Origin_spawned | Origin_attached

record session_origin =
  og_scope :: vocabulary_scope
  og_submissionId :: string
  og_sessionId :: string
  og_kind :: origin_kind
  og_linkedByUserId :: string
  og_linkedAt :: string

datatype decision_routing = Route_spawn string "string option" | Route_attach string "session_lifecycle option"

record decision_row =
  dw_submissionId :: string
  dw_state :: decision_state
  dw_expectedVersion :: "int option"
  dw_expectedDigest :: "string option"
  dw_graduation :: "decision_routing option"

record decision_input =
  di_scope :: vocabulary_scope
  di_actorUserId :: string
  di_occurredAt :: string
  di_decisions :: "decision_row list"

record decision_row_plan =
  rw_submissionId :: string
  rw_before :: "decision_head option"
  rw_after :: decision_head
  rw_evidence :: decision_evidence
  rw_graduation :: "session_plan option"
  rw_origin :: "session_origin option"

record decision_plan =
  dp_input :: decision_input
  dp_rows :: "decision_row_plan list"

text \<open>What the operator sends: a choice of routing may be left out, and a spawn brings no identifier.\<close>

datatype routing_choice = Choice_spawn "string option" | Choice_attach string "session_lifecycle option"

record decide_row =
  aw_submissionId :: string
  aw_state :: decision_state
  aw_expectedVersion :: "int option"
  aw_expectedDigest :: "string option"
  aw_graduation :: "routing_choice option"

record decision_candidate =
  cn_submissionId :: string
  cn_formVersionId :: string
  cn_candidateVersion :: int
  cn_title :: "string option"
  cn_formatId :: "string option"
  cn_trackId :: "string option"
  cn_targetSessionId :: "string option"
  cn_participantPersonIds :: "string list"

record decision_reads =
  dv_readDecisionCandidate :: "vocabulary_scope \<Rightarrow> string \<Rightarrow> decision_candidate option"
  dv_readDecisionReviewBasis :: "vocabulary_scope \<Rightarrow> string \<Rightarrow> review_pin option"
  dv_readDecisionHead :: "vocabulary_scope \<Rightarrow> string \<Rightarrow> decision_head option"
  dv_readSubmissionSessionOrigin :: "vocabulary_scope \<Rightarrow> string \<Rightarrow> session_origin option"

record decision_environment =
  en_decisions :: decision_reads
  en_sessions :: session_reads

datatype target_reason = Target_graduated | Target_closed | Target_missing

text \<open>The codes of decisions include those of sessions.\<close>

datatype decision_code =
    D_submission_missing | D_decision_exists | D_decision_missing | D_stale_decision | D_origin_exists
  | D_origin_changed | D_title_missing | D_title_unrepresentable | D_session session_code

text \<open>The three errors that carry a meaning: with the submission at fault, a target that cannot take an
  acceptance (submission and session), and an error of the session domain.\<close>

datatype decision_error =
    Decision_refused decision_code "string option"
  | Target_unavailable target_reason string string
  | Session_refused session_code

type_synonym 'a decisions = "(decision_error, 'a) outcome"

fun from_session :: "'a sessions \<Rightarrow> 'a decisions" where
  "from_session (Inr x) = Inr x"
| "from_session (Inl (Refused code)) = Inl (Refused (Session_refused code))"
| "from_session (Inl RangeErr) = Inl RangeErr"
| "from_session (Inl SchemaErr) = Inl SchemaErr"
| "from_session (Inl TypeErr) = Inl TypeErr"

definition refuse_decision :: "decision_code \<Rightarrow> string \<Rightarrow> 'a decisions" where
  "refuse_decision code submissionId = Inl (Refused (Decision_refused code (Some submissionId)))"

section \<open>Schemas\<close>

definition decision_head_schema :: "decision_head \<Rightarrow> bool" where
  "decision_head_schema h \<longleftrightarrow> scope_ok (dh_scope h) \<and> vocabulary_id (dh_submissionId h) \<and> positive_safe (dh_version h)
     \<and> sha256_hex (dh_digest h) \<and> vocabulary_id (dh_decidedByUserId h) \<and> session_instant (dh_decidedAt h)"

definition submission_pin_schema :: "submission_pin \<Rightarrow> bool" where
  "submission_pin_schema p \<longleftrightarrow> vocabulary_id (sm_submissionId p) \<and> vocabulary_id (sm_formVersionId p)
     \<and> positive_safe (sm_candidateVersion p)"

definition review_pin_schema :: "review_pin \<Rightarrow> bool" where
  "review_pin_schema p \<longleftrightarrow> vocabulary_id (rvp_roundId p) \<and> positive_safe (rvp_roundVersion p)
     \<and> pred_option (\<lambda>s. 1 \<le> rst_value s \<and> rst_value s \<le> 5 \<and> positive_safe (rst_n s)) (rvp_standing p)"

definition target_pin_schema :: "target_pin \<Rightarrow> bool" where
  "target_pin_schema p \<longleftrightarrow> vocabulary_id (tp_id p) \<and> canonical_text 300 (tp_title p) \<and> positive_safe (tp_version p)"

definition decision_evidence_schema :: "decision_evidence \<Rightarrow> bool" where
  "decision_evidence_schema e \<longleftrightarrow> submission_pin_schema (de_submission e) \<and> pred_option review_pin_schema (de_review e)
     \<and> pred_option target_pin_schema (de_target e)"

definition session_origin_schema :: "session_origin \<Rightarrow> bool" where
  "session_origin_schema g \<longleftrightarrow> scope_ok (og_scope g) \<and> vocabulary_id (og_submissionId g) \<and> vocabulary_id (og_sessionId g)
     \<and> vocabulary_id (og_linkedByUserId g) \<and> session_instant (og_linkedAt g)"

fun routing_schema :: "decision_routing \<Rightarrow> bool" where
  "routing_schema (Route_spawn i track) \<longleftrightarrow> vocabulary_id i \<and> pred_option vocabulary_id track"
| "routing_schema (Route_attach i to) \<longleftrightarrow> vocabulary_id i \<and> to \<in> {None, Some L_programmed}"

definition decision_row_schema :: "decision_row \<Rightarrow> bool" where
  "decision_row_schema r \<longleftrightarrow> vocabulary_id (dw_submissionId r) \<and> dw_state r \<noteq> Ds_withdrawn
     \<and> pred_option positive_safe (dw_expectedVersion r) \<and> pred_option sha256_hex (dw_expectedDigest r)
     \<and> pred_option routing_schema (dw_graduation r)
     \<and> (dw_expectedVersion r = None) = (dw_expectedDigest r = None)
     \<and> (dw_graduation r \<noteq> None) = (dw_state r = Ds_accepted)"

definition decision_input_schema :: "decision_input \<Rightarrow> bool" where
  "decision_input_schema i \<longleftrightarrow> scope_ok (di_scope i) \<and> vocabulary_id (di_actorUserId i) \<and> session_instant (di_occurredAt i)
     \<and> list_all decision_row_schema (di_decisions i) \<and> 1 \<le> length (di_decisions i) \<and> length (di_decisions i) \<le> 100
     \<and> distinct (map dw_submissionId (di_decisions i))"

text \<open>A planned row parses its embedded session plan, which may normalize it.\<close>

definition row_plan_coherent :: "decision_row_plan \<Rightarrow> bool" where
  "row_plan_coherent r \<longleftrightarrow> dh_submissionId (rw_after r) = rw_submissionId r
     \<and> pred_option (\<lambda>h. dh_submissionId h = rw_submissionId r) (rw_before r)
     \<and> (dh_state (rw_after r) = Ds_accepted) = (rw_graduation r \<noteq> None)
     \<and> (dh_state (rw_after r) = Ds_accepted) = (rw_origin r \<noteq> None)"

definition parse_row_plan :: "decision_row_plan \<Rightarrow> decision_row_plan decisions" where
  "parse_row_plan r =
     rbind (case rw_graduation r of None \<Rightarrow> Inr None
       | Some g \<Rightarrow> rbind (from_session (parse_session_plan g)) (\<lambda>g'. Inr (Some g'))) (\<lambda>graduation.
     if vocabulary_id (rw_submissionId r) \<and> pred_option decision_head_schema (rw_before r)
       \<and> decision_head_schema (rw_after r) \<and> decision_evidence_schema (rw_evidence r)
       \<and> pred_option session_origin_schema (rw_origin r) \<and> row_plan_coherent r
     then Inr (r \<lparr> rw_graduation := graduation \<rparr>) else Inl SchemaErr)"

definition decision_plan_aligned :: "decision_plan \<Rightarrow> bool" where
  "decision_plan_aligned p \<longleftrightarrow> list_all2 (\<lambda>r i. rw_submissionId r = dw_submissionId i \<and> dh_state (rw_after r) = dw_state i)
     (dp_rows p) (di_decisions (dp_input p))"

definition parse_decision_plan :: "decision_plan \<Rightarrow> decision_plan decisions" where
  "parse_decision_plan p =
     (if \<not> decision_input_schema (dp_input p) then Inl SchemaErr
      else rbind (traverse parse_row_plan (dp_rows p)) (\<lambda>rows.
        if 1 \<le> length rows \<and> length rows \<le> 100 \<and> decision_plan_aligned p
        then Inr (p \<lparr> dp_rows := rows \<rparr>) else Inl SchemaErr))"

section \<open>Canonical JSON\<close>

fun decision_state_text :: "decision_state \<Rightarrow> string" where
  "decision_state_text Ds_accepted = ''accepted''"
| "decision_state_text Ds_waitlisted = ''waitlisted''"
| "decision_state_text Ds_declined = ''declined''"
| "decision_state_text Ds_withdrawn = ''withdrawn''"

fun standing_band_text :: "standing_band \<Rightarrow> string" where
  "standing_band_text Band_top = ''top''"
| "standing_band_text Band_upper = ''upper''"
| "standing_band_text Band_mid = ''mid''"
| "standing_band_text Band_lower = ''lower''"
| "standing_band_text Band_bottom = ''bottom''"
| "standing_band_text Band_few = ''few''"

fun origin_kind_text :: "origin_kind \<Rightarrow> string" where
  "origin_kind_text Origin_spawned = ''spawned''"
| "origin_kind_text Origin_attached = ''attached''"

definition unsigned_decision_entries :: "decision_head \<Rightarrow> (string \<times> json) list" where
  "unsigned_decision_entries h = [(''schemaVersion'', JNum 1), (''scope'', break_scope_json (dh_scope h)),
     (''submissionId'', JStr (dh_submissionId h)), (''state'', JStr (decision_state_text (dh_state h))),
     (''version'', JNum (dh_version h)), (''decidedByUserId'', JStr (dh_decidedByUserId h)),
     (''decidedAt'', JStr (dh_decidedAt h))]"

definition decision_head_digest :: "(string \<Rightarrow> string) \<Rightarrow> decision_head \<Rightarrow> string" where
  "decision_head_digest sha h = sha (canonical (JObj (unsigned_decision_entries h)))"

definition decision_head_json :: "decision_head \<Rightarrow> json" where
  "decision_head_json h = JObj (unsigned_decision_entries h @ [(''digestSha256'', JStr (dh_digest h))])"

definition parse_decision_head :: "(string \<Rightarrow> string) \<Rightarrow> decision_head \<Rightarrow> decision_head decisions" where
  "parse_decision_head sha h =
     (if \<not> decision_head_schema h then Inl SchemaErr
      else if decision_head_digest sha h \<noteq> dh_digest h then Inl TypeErr else Inr h)"

definition submission_pin_json :: "submission_pin \<Rightarrow> json" where
  "submission_pin_json p = JObj [(''submissionId'', JStr (sm_submissionId p)), (''formVersionId'', JStr (sm_formVersionId p)),
     (''candidateVersion'', JNum (sm_candidateVersion p))]"

definition standing_json :: "review_standing \<Rightarrow> json" where
  "standing_json s = JObj [(''value'', JNum (rst_value s)), (''n'', JNum (rst_n s)),
     (''band'', JStr (standing_band_text (rst_band s)))]"

definition review_pin_json :: "review_pin \<Rightarrow> json" where
  "review_pin_json p = JObj [(''roundId'', JStr (rvp_roundId p)), (''roundVersion'', JNum (rvp_roundVersion p)),
     (''standing'', null_or standing_json (rvp_standing p))]"

definition target_pin_json :: "target_pin \<Rightarrow> json" where
  "target_pin_json p = JObj [(''kind'', JStr ''session''), (''id'', JStr (tp_id p)), (''title'', JStr (tp_title p)),
     (''version'', JNum (tp_version p)), (''lifecycle'', JStr ''collecting'')]"

definition decision_evidence_json :: "decision_evidence \<Rightarrow> json" where
  "decision_evidence_json e = JObj [(''submission'', submission_pin_json (de_submission e)),
     (''review'', null_or review_pin_json (de_review e)), (''target'', null_or target_pin_json (de_target e))]"

definition session_origin_json :: "session_origin \<Rightarrow> json" where
  "session_origin_json g = JObj [(''schemaVersion'', JNum 1), (''scope'', break_scope_json (og_scope g)),
     (''submissionId'', JStr (og_submissionId g)), (''sessionId'', JStr (og_sessionId g)),
     (''kind'', JStr (origin_kind_text (og_kind g))), (''linkedByUserId'', JStr (og_linkedByUserId g)),
     (''linkedAt'', JStr (og_linkedAt g))]"

fun routing_json :: "decision_routing \<Rightarrow> json" where
  "routing_json (Route_spawn i track) = JObj [(''kind'', JStr ''spawn''), (''sessionId'', JStr i), (''trackId'', null_or JStr track)]"
| "routing_json (Route_attach i to) = JObj ([(''kind'', JStr ''attach''), (''sessionId'', JStr i)]
     @ optional_entry ''graduateTo'' (\<lambda>l. JStr (lifecycle_text l)) to)"

definition decision_row_json :: "decision_row \<Rightarrow> json" where
  "decision_row_json r = JObj [(''submissionId'', JStr (dw_submissionId r)), (''state'', JStr (decision_state_text (dw_state r))),
     (''expectedDecisionVersion'', null_or JNum (dw_expectedVersion r)),
     (''expectedDecisionDigestSha256'', null_or JStr (dw_expectedDigest r)),
     (''graduation'', null_or routing_json (dw_graduation r))]"

definition decision_input_json :: "decision_input \<Rightarrow> json" where
  "decision_input_json i = JObj [(''action'', JStr ''decide''), (''scope'', break_scope_json (di_scope i)),
     (''actorUserId'', JStr (di_actorUserId i)), (''occurredAt'', JStr (di_occurredAt i)),
     (''decisions'', JArr (map decision_row_json (di_decisions i)))]"

definition row_plan_json :: "decision_row_plan \<Rightarrow> json" where
  "row_plan_json r = JObj [(''submissionId'', JStr (rw_submissionId r)), (''before'', null_or decision_head_json (rw_before r)),
     (''after'', decision_head_json (rw_after r)), (''evidence'', decision_evidence_json (rw_evidence r)),
     (''graduation'', null_or session_plan_json (rw_graduation r)), (''origin'', null_or session_origin_json (rw_origin r))]"

definition decision_plan_json :: "decision_plan \<Rightarrow> json" where
  "decision_plan_json p = JObj [(''input'', decision_input_json (dp_input p)), (''rows'', JArr (map row_plan_json (dp_rows p)))]"


section \<open>Planning\<close>

definition decision_aggregate_id :: "string \<Rightarrow> string" where
  "decision_aggregate_id submissionId = ''decision_head:'' @ submissionId"

definition decision_head_absence_guard_id :: "string \<Rightarrow> string" where
  "decision_head_absence_guard_id submissionId = ''decision_head_absence:'' @ submissionId"

definition absent_decision_head_digest :: "(string \<Rightarrow> string) \<Rightarrow> vocabulary_scope \<Rightarrow> string \<Rightarrow> string" where
  "absent_decision_head_digest sha scope submissionId = sha (canonical (JObj
     [(''scope'', break_scope_json scope), (''submissionId'', JStr submissionId), (''state'', JStr ''absent'')]))"

definition decision_spawn_planned_duration_minutes :: int where
  "decision_spawn_planned_duration_minutes = 30"

definition candidate_participants :: "decision_candidate \<Rightarrow> string \<Rightarrow> roster_input list" where
  "candidate_participants cand submissionId = map (\<lambda>personId. \<lparr> pa_personId = personId, pa_role = Speaker,
     pa_publiclyVisible = True, pa_source = \<lparr> ro_kind = ''submission'', ro_id = submissionId,
       ro_version = cn_candidateVersion cand \<rparr> \<rparr>) (cn_participantPersonIds cand)"

text \<open>
  The sequential view over the sessions: its state is the catalog, which every planned graduation advances,
  over the one vocabulary it was opened with.
\<close>

definition open_session_view :: "vocabulary_scope \<Rightarrow> session_reads \<Rightarrow> (session_catalog \<times> vocabulary) decisions" where
  "open_session_view scope reads =
     (case (gr_readSessionCatalog reads scope, gr_readSessionVocabulary reads scope) of
        (Some c, Some vocab) \<Rightarrow> Inr (c, vocab)
      | _ \<Rightarrow> Inl (Refused (Decision_refused (D_session S_wrong_scope) None)))"

definition view_reads :: "session_catalog \<Rightarrow> vocabulary \<Rightarrow> session_reads" where
  "view_reads c vocab = \<lparr> gr_readSessionCatalog = (\<lambda>_. Some c), gr_readSessionVocabulary = (\<lambda>_. Some vocab) \<rparr>"

definition view_plan ::
  "(string \<Rightarrow> string) \<Rightarrow> vocabulary \<Rightarrow> session_catalog \<Rightarrow> graduation_change \<Rightarrow> (session_plan \<times> session_catalog) decisions"
where
  "view_plan sha vocab c change =
     rbind (from_session (plan_session_graduation_from sha (view_reads c vocab) change)) (\<lambda>contribution.
     rbind (from_session (apply_session_plan sha contribution c vocab)) (\<lambda>(next, _). Inr (contribution, next)))"

text \<open>A candidate is found for the submission asked for, and the head must be as the row expects it.\<close>

definition decided_candidate :: "decision_reads \<Rightarrow> vocabulary_scope \<Rightarrow> string \<Rightarrow> decision_candidate decisions" where
  "decided_candidate reads scope submissionId =
     (case dv_readDecisionCandidate reads scope submissionId of
        None \<Rightarrow> refuse_decision D_submission_missing submissionId
      | Some cand \<Rightarrow> if cn_submissionId cand \<noteq> submissionId then refuse_decision D_submission_missing submissionId
          else Inr cand)"

definition require_decision_head :: "decision_row \<Rightarrow> decision_head option \<Rightarrow> unit decisions" where
  "require_decision_head row before =
     (case dw_expectedVersion row of
        None \<Rightarrow> if before \<noteq> None then refuse_decision D_decision_exists (dw_submissionId row) else Inr ()
      | Some v \<Rightarrow> (case before of
          None \<Rightarrow> refuse_decision D_decision_missing (dw_submissionId row)
        | Some h \<Rightarrow> if dh_version h \<noteq> v \<or> Some (dh_digest h) \<noteq> dw_expectedDigest row
            then refuse_decision D_stale_decision (dw_submissionId row) else Inr ()))"

text \<open>The session an acceptance attaches to: it must be collecting.\<close>

definition attachable_target :: "session_catalog \<Rightarrow> string \<Rightarrow> string \<Rightarrow> session_head decisions" where
  "attachable_target c submissionId sessionId =
     (case find_session c sessionId of
        None \<Rightarrow> Inl (Refused (Target_unavailable Target_missing submissionId sessionId))
      | Some h \<Rightarrow> (case sh_lifecycle h of
          L_draft \<Rightarrow> Inl (Refused (Target_unavailable Target_closed submissionId sessionId))
        | L_programmed \<Rightarrow> Inl (Refused (Target_unavailable Target_graduated submissionId sessionId))
        | L_collecting \<Rightarrow> Inr h))"

definition spawn_title :: "decision_candidate \<Rightarrow> string \<Rightarrow> string decisions" where
  "spawn_title cand submissionId =
     rbind (need (Refused (Decision_refused D_title_missing (Some submissionId))) (cn_title cand)) (\<lambda>title.
     rbind (need (Refused (Decision_refused (D_session S_format_missing) (Some submissionId))) (cn_formatId cand)) (\<lambda>_.
       let normalized = normalized_name title in
       if length normalized = 0 \<or> 300 < length normalized
       then refuse_decision D_title_unrepresentable submissionId else Inr normalized))"

text \<open>The change of the sessions an acceptance makes, with the pin of the session it attaches to.\<close>

fun routed_change ::
  "session_catalog \<Rightarrow> graduation_base \<Rightarrow> decision_candidate \<Rightarrow> string \<Rightarrow> decision_routing
   \<Rightarrow> (graduation_change \<times> target_pin option) decisions"
where
  "routed_change c base cand submissionId (Route_attach sessionId graduateTo) =
     rbind (attachable_target c submissionId sessionId) (\<lambda>resolved.
       Inr (Attach base sessionId graduateTo,
         Some \<lparr> tp_id = sh_id resolved, tp_title = sh_title resolved, tp_version = sh_version resolved \<rparr>))"
| "routed_change c base cand submissionId (Route_spawn sessionId trackId) =
     rbind (spawn_title cand submissionId) (\<lambda>title.
       Inr (Spawn base \<lparr> gs_sessionId = sessionId, gs_title = title,
           gs_plannedDurationMinutes = decision_spawn_planned_duration_minutes, gs_lifecycle = L_programmed,
           gs_formatId = the (cn_formatId cand), gs_trackId = trackId \<rparr>, None))"

fun routed_kind :: "decision_routing \<Rightarrow> origin_kind" where
  "routed_kind (Route_spawn _ _) = Origin_spawned"
| "routed_kind (Route_attach _ _) = Origin_attached"

text \<open>What an accepted row plans: the graduation, the pin, the origin and the next catalog of the view.\<close>

definition plan_acceptance ::
  "(string \<Rightarrow> string) \<Rightarrow> decision_reads \<Rightarrow> vocabulary \<Rightarrow> decision_input \<Rightarrow> session_catalog \<Rightarrow> decision_row \<Rightarrow> decision_candidate
   \<Rightarrow> (session_plan \<times> target_pin option \<times> session_origin \<times> session_catalog) decisions"
where
  "plan_acceptance sha reads vocab i c row cand =
     (case dw_graduation row of
        None \<Rightarrow> refuse_decision (D_session S_invalid_plan) (dw_submissionId row)
      | Some routing \<Rightarrow>
          if dv_readSubmissionSessionOrigin reads (di_scope i) (dw_submissionId row) \<noteq> None
          then refuse_decision D_origin_exists (dw_submissionId row)
          else rbind (routed_change c \<lparr> gb_scope = di_scope i, gb_userId = di_actorUserId i, gb_at = di_occurredAt i,
              gb_participants = candidate_participants cand (dw_submissionId row) \<rparr> cand (dw_submissionId row) routing)
            (\<lambda>(change, target).
          rbind (view_plan sha vocab c change) (\<lambda>(graduation, next).
            Inr (graduation, target, \<lparr> og_scope = di_scope i, og_submissionId = dw_submissionId row,
              og_sessionId = sh_id (sl_after graduation), og_kind = routed_kind routing,
              og_linkedByUserId = di_actorUserId i, og_linkedAt = di_occurredAt i \<rparr>, next))))"

definition next_decision_head :: "(string \<Rightarrow> string) \<Rightarrow> decision_input \<Rightarrow> decision_row \<Rightarrow> decision_head option \<Rightarrow> decision_head" where
  "next_decision_head sha i row before =
     (let unsigned = \<lparr> dh_scope = di_scope i, dh_submissionId = dw_submissionId row, dh_state = dw_state row,
        dh_version = (case before of None \<Rightarrow> 0 | Some h \<Rightarrow> dh_version h) + 1,
        dh_decidedByUserId = di_actorUserId i, dh_decidedAt = di_occurredAt i, dh_digest = [] \<rparr>
      in unsigned \<lparr> dh_digest := decision_head_digest sha unsigned \<rparr>)"

definition plan_row ::
  "(string \<Rightarrow> string) \<Rightarrow> decision_reads \<Rightarrow> vocabulary \<Rightarrow> decision_input \<Rightarrow> session_catalog \<Rightarrow> decision_row
   \<Rightarrow> (decision_row_plan \<times> session_catalog) decisions"
where
  "plan_row sha reads vocab i c row =
     (let scope = di_scope i; submissionId = dw_submissionId row in
      rbind (decided_candidate reads scope submissionId) (\<lambda>cand.
      let before = dv_readDecisionHead reads scope submissionId in
      rbind (require_decision_head row before) (\<lambda>_.
      let review = dv_readDecisionReviewBasis reads scope submissionId in
      rbind (if dw_state row = Ds_accepted
        then rbind (plan_acceptance sha reads vocab i c row cand) (\<lambda>(graduation, target, origin, next).
          Inr (Some graduation, target, Some origin, next))
        else Inr (None, None, None, c)) (\<lambda>(graduation, target, origin, next).
      Inr (\<lparr> rw_submissionId = submissionId, rw_before = before, rw_after = next_decision_head sha i row before,
        rw_evidence = \<lparr> de_submission = \<lparr> sm_submissionId = cn_submissionId cand, sm_formVersionId = cn_formVersionId cand,
          sm_candidateVersion = cn_candidateVersion cand \<rparr>, de_review = review, de_target = target \<rparr>,
        rw_graduation = graduation, rw_origin = origin \<rparr>, next)))))"

fun plan_rows ::
  "(string \<Rightarrow> string) \<Rightarrow> decision_reads \<Rightarrow> vocabulary \<Rightarrow> decision_input \<Rightarrow> session_catalog \<Rightarrow> decision_row list
   \<Rightarrow> decision_row_plan list decisions"
where
  "plan_rows sha reads vocab i c [] = Inr []"
| "plan_rows sha reads vocab i c (row # rows) =
     rbind (plan_row sha reads vocab i c row) (\<lambda>(planned, next).
     rbind (plan_rows sha reads vocab i next rows) (\<lambda>rest. Inr (planned # rest)))"

definition plan_decision_mutation ::
  "(string \<Rightarrow> string) \<Rightarrow> decision_input \<Rightarrow> decision_environment \<Rightarrow> decision_plan decisions"
where
  "plan_decision_mutation sha i env =
     (if \<not> decision_input_schema i then Inl SchemaErr
      else rbind (open_session_view (di_scope i) (en_sessions env)) (\<lambda>(c, vocab).
        rbind (plan_rows sha (en_decisions env) vocab i c (di_decisions i)) (\<lambda>rows.
          parse_decision_plan \<lparr> dp_input = i, dp_rows = rows \<rparr>)))"

section \<open>Checking plans and their results\<close>

datatype decision_refusal =
    Stale_decision_plan decision_code string
  | Unavailable_target string string target_reason

definition refusal_from_error :: "decision_error failure \<Rightarrow> string \<Rightarrow> decision_refusal" where
  "refusal_from_error e fallback =
     (case e of
        Refused (Target_unavailable reason submissionId sessionId) \<Rightarrow> Unavailable_target submissionId sessionId reason
      | Refused (Decision_refused code submissionId) \<Rightarrow>
          Stale_decision_plan code (case submissionId of None \<Rightarrow> fallback | Some s \<Rightarrow> s)
      | Refused (Session_refused code) \<Rightarrow> Stale_decision_plan (D_session code) fallback
      | _ \<Rightarrow> Stale_decision_plan (D_session S_invalid_plan) fallback)"

text \<open>A plan always has a row; the model answers the empty text for the impossible plan without any.\<close>

definition subject_submission_id :: "decision_plan \<Rightarrow> string" where
  "subject_submission_id p =
     (case dp_rows p of row # _ \<Rightarrow> rw_submissionId row
      | [] \<Rightarrow> (case di_decisions (dp_input p) of row # _ \<Rightarrow> dw_submissionId row | [] \<Rightarrow> []))"

definition validate_decision_plan ::
  "(string \<Rightarrow> string) \<Rightarrow> decision_plan \<Rightarrow> decision_environment \<Rightarrow> decision_refusal option"
where
  "validate_decision_plan sha p env =
     (case plan_decision_mutation sha (dp_input p) env of
        Inl e \<Rightarrow> Some (refusal_from_error e (subject_submission_id p))
      | Inr rebuilt \<Rightarrow>
          if canonical (decision_plan_json rebuilt) = canonical (decision_plan_json p) then None
          else Some (Stale_decision_plan (D_session S_invalid_plan) (subject_submission_id p)))"

record decision_result_row =
  dr_submissionId :: string
  dr_head :: "decision_head option"
  dr_origin :: "session_origin option"

record decision_result =
  dx_rows :: "decision_result_row list"
  dx_sessions :: "session_result list"

definition decision_result_row_schema :: "decision_result_row \<Rightarrow> bool" where
  "decision_result_row_schema r \<longleftrightarrow> vocabulary_id (dr_submissionId r) \<and> pred_option decision_head_schema (dr_head r)
     \<and> pred_option session_origin_schema (dr_origin r)"

definition decision_result_from_plan :: "decision_plan \<Rightarrow> decision_result decisions" where
  "decision_result_from_plan p =
     (let rows = map (\<lambda>row. \<lparr> dr_submissionId = rw_submissionId row, dr_head = Some (rw_after row),
        dr_origin = rw_origin row \<rparr>) (dp_rows p) in
      rbind (from_session (traverse session_graduation_fact_payload (List.map_filter rw_graduation (dp_rows p)))) (\<lambda>sessions.
        if list_all decision_result_row_schema rows \<and> 1 \<le> length rows \<and> length rows \<le> 100 \<and> length sessions \<le> 100
        then Inr \<lparr> dx_rows = rows, dx_sessions = sessions \<rparr> else Inl SchemaErr))"

section \<open>From the operator's input to a planning input\<close>

fun choice_accepts :: "routing_choice \<Rightarrow> bool" where
  "choice_accepts (Choice_spawn track) \<longleftrightarrow> pred_option accepted_id track"
| "choice_accepts (Choice_attach i to) \<longleftrightarrow> accepted_id i \<and> to \<in> {None, Some L_programmed}"

fun normalized_choice :: "routing_choice \<Rightarrow> routing_choice" where
  "normalized_choice (Choice_spawn track) = Choice_spawn (map_option to_lower track)"
| "normalized_choice (Choice_attach i to) = Choice_attach (to_lower i) to"

definition decide_row_accepts :: "decide_row \<Rightarrow> bool" where
  "decide_row_accepts r \<longleftrightarrow> accepted_id (aw_submissionId r) \<and> aw_state r \<noteq> Ds_withdrawn
     \<and> pred_option positive_safe (aw_expectedVersion r) \<and> pred_option sha256_hex (aw_expectedDigest r)
     \<and> pred_option choice_accepts (aw_graduation r)
     \<and> (aw_expectedVersion r = None) = (aw_expectedDigest r = None)
     \<and> (aw_graduation r \<noteq> None \<longrightarrow> aw_state r = Ds_accepted)"

definition normalized_decide_row :: "decide_row \<Rightarrow> decide_row" where
  "normalized_decide_row r = r \<lparr> aw_submissionId := to_lower (aw_submissionId r),
     aw_graduation := map_option normalized_choice (aw_graduation r) \<rparr>"

definition parse_decision_author_input :: "decide_row list \<Rightarrow> decide_row list decisions" where
  "parse_decision_author_input rows =
     (let wire = map normalized_decide_row rows in
      if list_all decide_row_accepts rows \<and> 1 \<le> length rows \<and> length rows \<le> 100 \<and> distinct (map aw_submissionId wire)
      then Inr wire else Inl SchemaErr)"

definition effective_target_choice ::
  "decision_reads \<Rightarrow> vocabulary_scope \<Rightarrow> string \<Rightarrow> session_catalog \<Rightarrow> routing_choice decisions"
where
  "effective_target_choice reads scope submissionId c =
     rbind (decided_candidate reads scope submissionId) (\<lambda>cand.
       case cn_targetSessionId cand of
         None \<Rightarrow> Inr (Choice_spawn None)
       | Some target \<Rightarrow> rbind (attachable_target c submissionId target) (\<lambda>h. Inr (Choice_attach (sh_id h) None)))"

definition resolved_spawn_track_id ::
  "decision_reads \<Rightarrow> vocabulary_scope \<Rightarrow> string \<Rightarrow> string option \<Rightarrow> string option decisions"
where
  "resolved_spawn_track_id reads scope submissionId explicit =
     (case explicit of
        Some track \<Rightarrow> if vocabulary_id track then Inr (Some track) else Inl SchemaErr
      | None \<Rightarrow> rbind (decided_candidate reads scope submissionId) (\<lambda>cand. Inr (cn_trackId cand)))"

text \<open>Identifiers of new sessions are minted by the host; \<open>minted n\<close> is the \<open>n\<close>-th of a call.\<close>

fun resolved_routing ::
  "decision_reads \<Rightarrow> vocabulary_scope \<Rightarrow> string \<Rightarrow> (nat \<Rightarrow> string) \<Rightarrow> nat \<Rightarrow> routing_choice \<Rightarrow> (decision_routing \<times> nat) decisions"
where
  "resolved_routing reads scope submissionId minted n (Choice_spawn track) =
     (if \<not> vocabulary_id (minted n) then Inl SchemaErr
      else rbind (resolved_spawn_track_id reads scope submissionId track) (\<lambda>trackId.
        Inr (Route_spawn (minted n) trackId, n + 1)))"
| "resolved_routing reads scope submissionId minted n (Choice_attach i to) = Inr (Route_attach i to, n)"

definition resolve_row ::
  "decision_reads \<Rightarrow> vocabulary_scope \<Rightarrow> session_catalog \<Rightarrow> (nat \<Rightarrow> string) \<Rightarrow> nat \<Rightarrow> decide_row \<Rightarrow> (decision_row \<times> nat) decisions"
where
  "resolve_row reads scope c minted n row =
     rbind (if aw_state row = Ds_accepted
       then rbind (case aw_graduation row of Some choice \<Rightarrow> Inr choice
           | None \<Rightarrow> effective_target_choice reads scope (aw_submissionId row) c) (\<lambda>choice.
         rbind (resolved_routing reads scope (aw_submissionId row) minted n choice) (\<lambda>(routing, n'). Inr (Some routing, n')))
       else Inr (None, n)) (\<lambda>(graduation, n').
     Inr (\<lparr> dw_submissionId = aw_submissionId row, dw_state = aw_state row, dw_expectedVersion = aw_expectedVersion row,
       dw_expectedDigest = aw_expectedDigest row, dw_graduation = graduation \<rparr>, n'))"

fun resolve_rows ::
  "decision_reads \<Rightarrow> vocabulary_scope \<Rightarrow> session_catalog \<Rightarrow> (nat \<Rightarrow> string) \<Rightarrow> nat \<Rightarrow> decide_row list \<Rightarrow> decision_row list decisions"
where
  "resolve_rows reads scope c minted n [] = Inr []"
| "resolve_rows reads scope c minted n (row # rows) =
     rbind (resolve_row reads scope c minted n row) (\<lambda>(resolved, n').
     rbind (resolve_rows reads scope c minted n' rows) (\<lambda>rest. Inr (resolved # rest)))"

definition resolve_decision_planning_input ::
  "decide_row list \<Rightarrow> vocabulary_scope \<Rightarrow> string \<Rightarrow> string \<Rightarrow> decision_environment \<Rightarrow> (nat \<Rightarrow> string) \<Rightarrow> decision_input decisions"
where
  "resolve_decision_planning_input authored scope actor occurredAt env minted =
     rbind (parse_decision_author_input authored) (\<lambda>wire.
     rbind (need (Refused (Decision_refused (D_session S_wrong_scope) None)) (gr_readSessionCatalog (en_sessions env) scope)) (\<lambda>c.
     rbind (resolve_rows (en_decisions env) scope c minted 0 wire) (\<lambda>rows.
       let i = \<lparr> di_scope = scope, di_actorUserId = actor, di_occurredAt = occurredAt, di_decisions = rows \<rparr> in
       if decision_input_schema i then Inr i else Inl SchemaErr)))"

end
