(* ===== verification/DecisionChanges.thy ===== *)
theory DecisionChanges
  imports Decision
begin

text \<open>
  What decisions guarantee: the canonical JSON of a plan determines the plan, so that a stored plan is valid
  exactly when planning again gives it; the rows of a plan follow the rows of the input; and the
  graduations of a plan apply one after the other to the catalog they were planned over.
\<close>

section \<open>The canonical JSON of a plan determines it\<close>

lemma decision_state_text_inject: "decision_state_text a = decision_state_text b \<longleftrightarrow> a = b"
  by (cases a; cases b) simp_all

lemma standing_band_text_inject: "standing_band_text a = standing_band_text b \<longleftrightarrow> a = b"
  by (cases a; cases b) simp_all

lemma origin_kind_text_inject: "origin_kind_text a = origin_kind_text b \<longleftrightarrow> a = b"
  by (cases a; cases b) simp_all

lemma decision_head_json_inject: "canon (decision_head_json a) = canon (decision_head_json b) \<longleftrightarrow> a = b"
  by (cases a; cases b) (auto simp: decision_head_json_def unsigned_decision_entries_def canon_obj_iff
      break_scope_json_inject decision_state_text_inject simp del: canon.simps(2))

lemma submission_pin_json_inject: "canon (submission_pin_json a) = canon (submission_pin_json b) \<longleftrightarrow> a = b"
  by (cases a; cases b) (auto simp: submission_pin_json_def canon_obj_iff simp del: canon.simps(2))

lemma standing_json_inject: "canon (standing_json a) = canon (standing_json b) \<longleftrightarrow> a = b"
  by (cases a; cases b) (auto simp: standing_json_def canon_obj_iff standing_band_text_inject simp del: canon.simps(2))

lemma review_pin_json_inject: "canon (review_pin_json a) = canon (review_pin_json b) \<longleftrightarrow> a = b"
proof -
  have "canon (null_or standing_json x) = canon (null_or standing_json y) \<longleftrightarrow> x = y" for x y
    by (rule null_or_inject [OF standing_json_inject]) (simp add: standing_json_def)
  then show ?thesis
    by (cases a; cases b) (auto simp: review_pin_json_def canon_obj_iff simp del: canon.simps(2))
qed

lemma target_pin_json_inject: "canon (target_pin_json a) = canon (target_pin_json b) \<longleftrightarrow> a = b"
  by (cases a; cases b) (auto simp: target_pin_json_def canon_obj_iff simp del: canon.simps(2))

lemma decision_evidence_json_inject: "canon (decision_evidence_json a) = canon (decision_evidence_json b) \<longleftrightarrow> a = b"
proof -
  have "canon (null_or review_pin_json x) = canon (null_or review_pin_json y) \<longleftrightarrow> x = y" for x y
    by (rule null_or_inject [OF review_pin_json_inject]) (simp add: review_pin_json_def)
  moreover have "canon (null_or target_pin_json x) = canon (null_or target_pin_json y) \<longleftrightarrow> x = y" for x y
    by (rule null_or_inject [OF target_pin_json_inject]) (simp add: target_pin_json_def)
  ultimately show ?thesis
    by (cases a; cases b)
      (auto simp: decision_evidence_json_def canon_obj_iff submission_pin_json_inject simp del: canon.simps(2))
qed

lemma session_origin_json_inject: "canon (session_origin_json a) = canon (session_origin_json b) \<longleftrightarrow> a = b"
  by (cases a; cases b) (auto simp: session_origin_json_def canon_obj_iff break_scope_json_inject
      origin_kind_text_inject simp del: canon.simps(2))

lemma attach_json_inject:
  assumes "canon (routing_json (Route_attach i to)) = canon (routing_json (Route_attach j t))"
  shows "i = j \<and> to = t"
  using canon_obj_lookup [OF assms [unfolded routing_json.simps], of "''sessionId''"]
    canon_obj_lookup [OF assms [unfolded routing_json.simps], of "''graduateTo''"]
  by (cases to; cases t) (simp_all add: optional_entry_def lifecycle_text_inject)

lemma routing_json_inject: "canon (routing_json a) = canon (routing_json b) \<longleftrightarrow> a = b"
proof (cases a; cases b)
  fix i t j s assume r: "a = Route_spawn i t" "b = Route_spawn j s"
  show ?thesis unfolding r by (auto simp: canon_obj_iff null_or_text_inject simp del: canon.simps(2))
next
  fix i t j s assume r: "a = Route_attach i t" "b = Route_attach j s"
  show ?thesis unfolding r using attach_json_inject by blast
next
  fix i t j s assume r: "a = Route_spawn i t" "b = Route_attach j s"
  show ?thesis unfolding r using canon_obj_lookup [of "[(''kind'', JStr ''spawn''), (''sessionId'', JStr i), (''trackId'', null_or JStr t)]"
      "[(''kind'', JStr ''attach''), (''sessionId'', JStr j)] @ optional_entry ''graduateTo'' (\<lambda>l. JStr (lifecycle_text l)) s" "''kind''"]
    by (auto simp: optional_entry_def simp del: canon.simps(2) split: option.splits)
next
  fix i t j s assume r: "a = Route_attach i t" "b = Route_spawn j s"
  show ?thesis unfolding r using canon_obj_lookup [of "[(''kind'', JStr ''attach''), (''sessionId'', JStr i)]
        @ optional_entry ''graduateTo'' (\<lambda>l. JStr (lifecycle_text l)) t"
      "[(''kind'', JStr ''spawn''), (''sessionId'', JStr j), (''trackId'', null_or JStr s)]" "''kind''"]
    by (auto simp: optional_entry_def simp del: canon.simps(2) split: option.splits)
qed

lemma routing_json_value: "canon (routing_json r) \<noteq> JNull"
  by (cases r) simp_all

lemma null_or_number_inject: "canon (null_or JNum a) = canon (null_or JNum b) \<longleftrightarrow> a = b"
  by (rule null_or_inject) simp_all

lemma decision_row_json_inject: "canon (decision_row_json a) = canon (decision_row_json b) \<longleftrightarrow> a = b"
proof -
  have "canon (null_or routing_json x) = canon (null_or routing_json y) \<longleftrightarrow> x = y" for x y
    by (rule null_or_inject [OF routing_json_inject]) (rule routing_json_value)
  then show ?thesis
    by (cases a; cases b) (auto simp: decision_row_json_def canon_obj_iff null_or_text_inject null_or_number_inject
        decision_state_text_inject simp del: canon.simps(2))
qed

lemma decision_input_json_inject: "canon (decision_input_json a) = canon (decision_input_json b) \<longleftrightarrow> a = b"
  by (cases a; cases b) (auto simp: decision_input_json_def canon_obj_iff break_scope_json_inject
      map_canon_inject [OF decision_row_json_inject] simp del: canon.simps(2))

lemma row_plan_json_inject: "canon (row_plan_json a) = canon (row_plan_json b) \<longleftrightarrow> a = b"
proof -
  have "canon (null_or decision_head_json x) = canon (null_or decision_head_json y) \<longleftrightarrow> x = y" for x y
    by (rule null_or_inject [OF decision_head_json_inject]) (simp add: decision_head_json_def)
  moreover have "canon (null_or session_plan_json x) = canon (null_or session_plan_json y) \<longleftrightarrow> x = y" for x y
    by (rule null_or_inject [OF session_plan_json_inject]) (simp add: session_plan_json_def)
  moreover have "canon (null_or session_origin_json x) = canon (null_or session_origin_json y) \<longleftrightarrow> x = y" for x y
    by (rule null_or_inject [OF session_origin_json_inject]) (simp add: session_origin_json_def)
  ultimately show ?thesis
    by (cases a; cases b) (auto simp: row_plan_json_def canon_obj_iff decision_head_json_inject
        decision_evidence_json_inject simp del: canon.simps(2))
qed

lemma decision_plan_json_inject: "canon (decision_plan_json a) = canon (decision_plan_json b) \<longleftrightarrow> a = b"
  by (cases a; cases b) (auto simp: decision_plan_json_def canon_obj_iff decision_input_json_inject
      map_canon_inject [OF row_plan_json_inject] simp del: canon.simps(2))

lemma validate_decision_plan_iff:
  "validate_decision_plan sha p env = None \<longleftrightarrow> plan_decision_mutation sha (dp_input p) env = Inr p"
  unfolding validate_decision_plan_def
  by (auto simp: canonical_inject decision_plan_json_inject split: sum.splits)


section \<open>What a graduation does to its session\<close>

definition session_people :: "session_head \<Rightarrow> string set" where
  "session_people h = pa_personId ` set (rt_participants (sh_roster h))"

lemma new_people_ids: "pa_personId ` set (new_people seen ps) = pa_personId ` set ps - seen"
  by (induction seen ps rule: new_people.induct) auto

lemma appended_people:
  "pa_personId ` set (case appended_roster_participants ps new of None \<Rightarrow> ps | Some ps' \<Rightarrow> ps')
   = pa_personId ` set ps \<union> pa_personId ` set new"
  unfolding lineup_persons [symmetric, of "case _ of None \<Rightarrow> _ | Some x \<Rightarrow> _ x"] lineup_appended
  by (auto simp: image_Un new_people_ids lineup_persons)

lemma appended_session_people:
  assumes "changed_session sha vocab i h (S_roster_append e ps to) = Inr x"
  shows "session_people x = session_people h \<union> pa_personId ` set ps"
  using assms unfolding session_people_def appended_people [symmetric]
  by (auto simp: rbind_Inr_iff Let_def change_simps maybe_changed_participants split: option.splits)

lemma created_session_people:
  assumes "created_session sha vocab i n = Inr x"
  shows "session_people x = pa_personId ` set (case ns_participants n of None \<Rightarrow> [] | Some ps \<Rightarrow> ps) \<and> sh_title x = ns_title n"
proof -
  from assms have "rt_participants (sh_roster x) = seeded_roster_participants (ns_participants n) \<and> sh_title x = ns_title n"
    by (auto simp: created_session_def rbind_Inr_iff parse_signed_head_iff)
  then show ?thesis
    by (simp add: session_people_def seeded_roster_participants_def conjunct2 [OF append_new_persons])
qed

text \<open>The session of a graduation after it: everyone it brings is on the roster, and nobody left it.\<close>

lemma graduated_input:
  assumes "graduation_planning_input c change = Inr i" "plan_session_mutation sha i c vocab = Inr g"
  shows "sl_input g = normalized_input i"
  using plan_session_parts(1) [OF assms(2)] by (simp add: parse_session_input_def split: if_splits)

lemma spawned_session:
  assumes "catalog_ok sha c" "graduation_planning_input c (Spawn b n) = Inr i" "plan_session_mutation sha i c vocab = Inr g"
  shows "sl_before g = None \<and> sh_id (sl_after g) = gs_sessionId n \<and> sh_lifecycle (sl_after g) = gs_lifecycle n
    \<and> sh_title (sl_after g) = normalized_name (gs_title n)
    \<and> session_people (sl_after g) = pa_personId ` set (gb_participants b)"
proof -
  let ?n = "\<lparr> ns_title = normalized_name (gs_title n), ns_plannedDurationMinutes = gs_plannedDurationMinutes n,
    ns_lifecycle = gs_lifecycle n, ns_formatId = to_lower (gs_formatId n), ns_trackId = map_option to_lower (gs_trackId n),
    ns_participants = Some (gb_participants b) \<rparr>"
  from assms(2) have a: "sb_action (sl_input g) = S_create ?n" and s: "sb_sessionId (sl_input g) = gs_sessionId n"
    unfolding graduated_input [OF assms(2,3)] by (auto simp: graduation_input_def normalized_input_def)
  have "sl_before g = None" and cr: "created_session sha vocab (sl_input g) ?n = Inr (sl_after g)"
    using session_images_created [OF plan_session_parts(6) [OF assms(3)] a] by simp_all
  with created_session_people [OF cr] created_session_result [OF cr] s show ?thesis by simp
qed

lemma attached_session:
  assumes "catalog_ok sha c" "graduation_planning_input c (Attach b s to) = Inr i" "plan_session_mutation sha i c vocab = Inr g"
  shows "sh_id (sl_after g) = to_lower s \<and> (\<exists>h. sl_before g = Some h
    \<and> sh_lifecycle (sl_after g) = (case to of None \<Rightarrow> sh_lifecycle h | Some l \<Rightarrow> l)
    \<and> session_people (sl_after g) = session_people h \<union> pa_personId ` set (gb_participants b))"
proof -
  note im = session_planned_image [OF assms(1,3)]
  from assms(2) obtain e where "i = graduation_input c b s (S_roster_append e (gb_participants b) to)"
    by (auto simp: refused_def split: option.splits)
  then have a: "sb_action (sl_input g) = S_roster_append e (gb_participants b) to" and s: "sb_sessionId (sl_input g) = to_lower s"
    unfolding graduated_input [OF assms(2,3)] by (simp_all add: graduation_input_def normalized_input_def)
  obtain h where h: "sl_before g = Some h"
    using session_images_changed [OF plan_session_parts(6) [OF assms(3)]] a by auto
  have ch: "changed_session sha vocab (sl_input g) h (S_roster_append e (gb_participants b) to) = Inr (sl_after g)"
    using im(4) [OF h] a by simp
  have "sh_lifecycle (sl_after g) = (case to of None \<Rightarrow> sh_lifecycle h | Some l \<Rightarrow> l)"
    using conjunct1 [OF changed_session_lifecycle [OF ch]] by (cases to) simp_all
  with appended_session_people [OF ch] h s im(1) show ?thesis by simp
qed

lemma graduated_session:
  assumes "catalog_ok sha c" "graduation_planning_input c change = Inr i" "plan_session_mutation sha i c vocab = Inr g"
  shows "pa_personId ` set (gb_participants (graduation_base_of change)) \<subseteq> session_people (sl_after g)
    \<and> (\<forall>h. sl_before g = Some h \<longrightarrow> session_people h \<subseteq> session_people (sl_after g))"
proof (cases change)
  case (Spawn b n)
  with spawned_session [of sha c b n i vocab g] assms show ?thesis by simp
next
  case (Attach b s to)
  with attached_session [of sha c b s to i vocab g] assms show ?thesis by auto
qed

section \<open>The parts of a plan\<close>

lemma from_session_Inr: "from_session x = Inr y \<longleftrightarrow> x = Inr y"
  by (cases x rule: from_session.cases) simp_all

lemma decided_candidate_iff:
  "decided_candidate reads scope s = Inr cand \<longleftrightarrow> dv_readDecisionCandidate reads scope s = Some cand \<and> cn_submissionId cand = s"
  by (auto simp: decided_candidate_def refuse_decision_def split: option.splits)

lemma require_decision_head_iff:
  "require_decision_head row before = Inr u \<longleftrightarrow> (case dw_expectedVersion row of None \<Rightarrow> before = None
     | Some v \<Rightarrow> \<exists>h. before = Some h \<and> dh_version h = v \<and> dw_expectedDigest row = Some (dh_digest h))"
  by (auto simp: require_decision_head_def refuse_decision_def split: option.splits)

lemma attachable_target_iff:
  "attachable_target c submission i = Inr h \<longleftrightarrow> find_session c i = Some h \<and> sh_lifecycle h = L_collecting"
  by (auto simp: attachable_target_def split: option.splits session_lifecycle.splits)

lemma view_plan_Inr:
  assumes "view_plan sha vocab c change = Inr (g, next)"
  shows "\<exists>i r. graduation_planning_input c change = Inr i \<and> plan_session_mutation sha i c vocab = Inr g
    \<and> apply_session_plan sha g c vocab = Inr (next, r)"
proof -
  from assms obtain r where g: "plan_session_graduation_from sha (view_reads c vocab) change = Inr g"
    and a: "apply_session_plan sha g c vocab = Inr (next, r)"
    by (auto simp: view_plan_def rbind_Inr_iff from_session_Inr)
  from plan_session_graduation_Inr [OF g] a show ?thesis by (auto simp: view_reads_def)
qed

lemma open_session_view_iff:
  "open_session_view scope reads = Inr (c, vocab) \<longleftrightarrow>
     gr_readSessionCatalog reads scope = Some c \<and> gr_readSessionVocabulary reads scope = Some vocab"
  by (auto simp: open_session_view_def split: option.splits)

text \<open>What an accepted row was planned from.\<close>

definition acceptance_of ::
  "(string \<Rightarrow> string) \<Rightarrow> decision_reads \<Rightarrow> vocabulary \<Rightarrow> decision_input \<Rightarrow> session_catalog \<Rightarrow> decision_row \<Rightarrow> decision_candidate
   \<Rightarrow> decision_row_plan \<Rightarrow> session_catalog \<Rightarrow> bool"
where
  "acceptance_of sha reads vocab i c row cand p next \<longleftrightarrow> (\<exists>routing change g.
     dw_graduation row = Some routing \<and> dv_readSubmissionSessionOrigin reads (di_scope i) (dw_submissionId row) = None
     \<and> routed_change c \<lparr> gb_scope = di_scope i, gb_userId = di_actorUserId i, gb_at = di_occurredAt i,
         gb_participants = candidate_participants cand (dw_submissionId row) \<rparr> cand (dw_submissionId row) routing
       = Inr (change, de_target (rw_evidence p))
     \<and> view_plan sha vocab c change = Inr (g, next) \<and> rw_graduation p = Some g
     \<and> rw_origin p = Some \<lparr> og_scope = di_scope i, og_submissionId = dw_submissionId row, og_sessionId = sh_id (sl_after g),
         og_kind = routed_kind routing, og_linkedByUserId = di_actorUserId i, og_linkedAt = di_occurredAt i \<rparr>)"

lemma plan_row_parts:
  assumes "plan_row sha reads vocab i c row = Inr (p, next)"
  shows "rw_submissionId p = dw_submissionId row" "rw_before p = dv_readDecisionHead reads (di_scope i) (dw_submissionId row)"
    and "require_decision_head row (rw_before p) = Inr ()" "rw_after p = next_decision_head sha i row (rw_before p)"
    and "de_review (rw_evidence p) = dv_readDecisionReviewBasis reads (di_scope i) (dw_submissionId row)"
    and "\<exists>cand. decided_candidate reads (di_scope i) (dw_submissionId row) = Inr cand
      \<and> de_submission (rw_evidence p) = \<lparr> sm_submissionId = cn_submissionId cand, sm_formVersionId = cn_formVersionId cand,
          sm_candidateVersion = cn_candidateVersion cand \<rparr>
      \<and> (if dw_state row = Ds_accepted then acceptance_of sha reads vocab i c row cand p next
         else rw_graduation p = None \<and> rw_origin p = None \<and> de_target (rw_evidence p) = None \<and> next = c)"
  using assms unfolding plan_row_def plan_acceptance_def acceptance_of_def
  by (auto simp: Let_def rbind_Inr_iff refuse_decision_def split: if_splits option.splits)

lemma planned_row_graduation:
  assumes "plan_row sha reads vocab i c row = Inr (p, next)" "rw_graduation p = Some g"
  shows "\<exists>change. view_plan sha vocab c change = Inr (g, next)"
  using plan_row_parts(6) [OF assms(1)] assms(2) by (auto simp: acceptance_of_def split: if_splits)

lemma next_decision_head_fields [simp]:
  "dh_scope (next_decision_head sha i row before) = di_scope i"
  "dh_submissionId (next_decision_head sha i row before) = dw_submissionId row"
  "dh_state (next_decision_head sha i row before) = dw_state row"
  "dh_version (next_decision_head sha i row before) = (case before of None \<Rightarrow> 0 | Some h \<Rightarrow> dh_version h) + 1"
  "dh_decidedByUserId (next_decision_head sha i row before) = di_actorUserId i"
  "dh_decidedAt (next_decision_head sha i row before) = di_occurredAt i"
  by (simp_all add: next_decision_head_def Let_def)

lemma next_decision_head_signed:
  "decision_head_digest sha (next_decision_head sha i row before) = dh_digest (next_decision_head sha i row before)"
  by (simp add: next_decision_head_def Let_def decision_head_digest_def unsigned_decision_entries_def)

text \<open>A planned row parses to itself, so a plan has the rows that were planned.\<close>

lemma plan_row_parsed:
  assumes "plan_row sha reads vocab i c row = Inr (p, next)" "parse_row_plan p = Inr q"
  shows "q = p"
proof (cases "rw_graduation p")
  case None
  with assms(2) show ?thesis by (auto simp: parse_row_plan_def split: if_splits)
next
  case (Some g)
  from planned_row_graduation [OF assms(1) Some] view_plan_Inr obtain j
    where "plan_session_mutation sha j c vocab = Inr g" by blast
  from parse_planned_session [OF this] have "from_session (parse_session_plan g) = Inr g" by simp
  with Some assms(2) show ?thesis by (auto simp: parse_row_plan_def split: if_splits)
qed

lemma plan_rows_parsed:
  assumes "plan_rows sha reads vocab i c rows = Inr ps" "traverse parse_row_plan ps = Inr qs"
  shows "qs = ps"
  using assms
proof (induction rows arbitrary: c ps qs)
  case (Cons row rows)
  from Cons.prems(1) obtain p t rest where p: "plan_row sha reads vocab i c row = Inr (p, t)"
    and rest: "plan_rows sha reads vocab i t rows = Inr rest" and ps: "ps = p # rest" by (auto simp: rbind_Inr_iff)
  from Cons.prems(2) [unfolded ps] obtain q qs' where q: "parse_row_plan p = Inr q" "traverse parse_row_plan rest = Inr qs'" "qs = q # qs'"
    by (auto simp: rbind_Inr_iff)
  from plan_row_parsed [OF p q(1)] Cons.IH [OF rest q(2)] q(3) ps show ?case by simp
qed simp

lemma plan_decision_parts:
  assumes "plan_decision_mutation sha i env = Inr p"
  shows "dp_input p = i" "decision_input_schema i" "decision_plan_aligned p"
    and "\<exists>c vocab. gr_readSessionCatalog (en_sessions env) (di_scope i) = Some c
      \<and> gr_readSessionVocabulary (en_sessions env) (di_scope i) = Some vocab
      \<and> plan_rows sha (en_decisions env) vocab i c (di_decisions i) = Inr (dp_rows p)"
    and "list_all row_plan_coherent (dp_rows p)"
proof -
  from assms obtain c vocab rows qs where i: "decision_input_schema i"
    and view: "open_session_view (di_scope i) (en_sessions env) = Inr (c, vocab)"
    and rows: "plan_rows sha (en_decisions env) vocab i c (di_decisions i) = Inr rows"
    and qs: "traverse parse_row_plan rows = Inr qs" and al: "decision_plan_aligned \<lparr> dp_input = i, dp_rows = rows \<rparr>"
    and p: "p = \<lparr> dp_input = i, dp_rows = qs \<rparr>"
    unfolding plan_decision_mutation_def parse_decision_plan_def by (auto simp: rbind_Inr_iff split: if_splits)
  have "qs = rows" by (rule plan_rows_parsed [OF rows qs])
  moreover have "list_all row_plan_coherent qs"
    using qs by (induction rows arbitrary: qs) (auto simp: rbind_Inr_iff parse_row_plan_def row_plan_coherent_def split: if_splits option.splits)
  ultimately show "dp_input p = i" "decision_input_schema i" "decision_plan_aligned p"
    "\<exists>c vocab. gr_readSessionCatalog (en_sessions env) (di_scope i) = Some c
      \<and> gr_readSessionVocabulary (en_sessions env) (di_scope i) = Some vocab
      \<and> plan_rows sha (en_decisions env) vocab i c (di_decisions i) = Inr (dp_rows p)"
    "list_all row_plan_coherent (dp_rows p)"
    using i view rows al p by (auto simp: open_session_view_iff)
qed


lemma plan_decision_heads:
  assumes "plan_decision_mutation sha i env = Inr p"
  shows "list_all (\<lambda>r. decision_head_schema (rw_after r)) (dp_rows p)"
proof -
  from assms obtain rows qs where qs: "traverse parse_row_plan rows = Inr qs" "dp_rows p = qs"
    unfolding plan_decision_mutation_def parse_decision_plan_def by (auto simp: rbind_Inr_iff split: if_splits)
  have "list_all (\<lambda>r. decision_head_schema (rw_after r)) qs"
    using qs(1) by (induction rows arbitrary: qs) (auto simp: rbind_Inr_iff parse_row_plan_def split: if_splits option.splits)
  with qs(2) show ?thesis by simp
qed

section \<open>The graduations of a plan\<close>

text \<open>What planned graduations do to sessions: they stay, move forward and keep their people.\<close>

definition session_grown :: "session_head \<Rightarrow> session_head \<Rightarrow> bool" where
  "session_grown h h' \<longleftrightarrow> sh_lifecycle h \<le> sh_lifecycle h' \<and> session_people h \<subseteq> session_people h'"

definition catalog_grown :: "session_catalog \<Rightarrow> session_catalog \<Rightarrow> bool" where
  "catalog_grown c c' \<longleftrightarrow> (\<forall>i h. find_session c i = Some h \<longrightarrow> (\<exists>h'. find_session c' i = Some h' \<and> session_grown h h'))"

lemma catalog_grown_refl: "catalog_grown c c"
  by (simp add: catalog_grown_def session_grown_def)

lemma session_grown_trans: "session_grown a b \<Longrightarrow> session_grown b d \<Longrightarrow> session_grown a d"
  by (auto simp: session_grown_def)

lemma catalog_grown_trans: "catalog_grown a b \<Longrightarrow> catalog_grown b d \<Longrightarrow> catalog_grown a d"
  unfolding catalog_grown_def using session_grown_trans by blast

lemma view_plan_effect:
  assumes "catalog_ok sha c" "view_plan sha vocab c change = Inr (g, next)"
  shows "session_exec sha c (vocab, g) = Inr next" "catalog_ok sha next" "sg_version next = sg_version c + 1"
    and "find_session next = (find_session c) (sh_id (sl_after g) \<mapsto> sl_after g)" "catalog_grown c next"
    and "pa_personId ` set (gb_participants (graduation_base_of change)) \<subseteq> session_people (sl_after g)"
proof -
  from view_plan_Inr [OF assms(2)] obtain j r where j: "graduation_planning_input c change = Inr j"
    and m: "plan_session_mutation sha j c vocab = Inr g" and a: "apply_session_plan sha g c vocab = Inr (next, r)" by blast
  note e = apply_session_plan_effect [OF assms(1) a] and im = session_planned_image [OF assms(1) m]
  note people = graduated_session [OF assms(1) j m]
  show x: "session_exec sha c (vocab, g) = Inr next" using a by simp
  show "catalog_ok sha next" "sg_version next = sg_version c + 1"
    "find_session next = (find_session c) (sh_id (sl_after g) \<mapsto> sl_after g)" by (rule e)+
  show "pa_personId ` set (gb_participants (graduation_base_of change)) \<subseteq> session_people (sl_after g)" using people by blast
  show "catalog_grown c next" unfolding catalog_grown_def
  proof (intro allI impI)
    fix i h assume h: "find_session c i = Some h"
    from session_exec_advances [OF assms(1) x h] obtain h' where h': "find_session next i = Some h'" "session_advanced h h'" by blast
    have "session_people h \<subseteq> session_people h'"
    proof (cases "i = sh_id (sl_after g)")
      case True
      with h im(2) people h'(1) show ?thesis by (simp add: e(6))
    next
      case False
      with h h'(1) show ?thesis by (simp add: e(6))
    qed
    with h' show "\<exists>h'. find_session next i = Some h' \<and> session_grown h h'"
      by (auto simp: session_grown_def session_advanced_def)
  qed
qed

text \<open>The people of a decided submission are in its session.\<close>

definition row_joined :: "decision_reads \<Rightarrow> vocabulary_scope \<Rightarrow> session_catalog \<Rightarrow> decision_row_plan \<Rightarrow> bool" where
  "row_joined reads scope c p \<longleftrightarrow> (\<forall>og. rw_origin p = Some og \<longrightarrow>
     (\<exists>h cand. find_session c (og_sessionId og) = Some h \<and> sh_lifecycle h \<noteq> L_draft
       \<and> dv_readDecisionCandidate reads scope (rw_submissionId p) = Some cand
       \<and> set (cn_participantPersonIds cand) \<subseteq> session_people h))"

lemma row_joined_grown:
  assumes "row_joined reads scope c p" "catalog_grown c c'"
  shows "row_joined reads scope c' p"
  unfolding row_joined_def
proof (intro allI impI)
  fix og assume "rw_origin p = Some og"
  with assms(1) obtain h cand where h: "find_session c (og_sessionId og) = Some h" "sh_lifecycle h \<noteq> L_draft"
    "dv_readDecisionCandidate reads scope (rw_submissionId p) = Some cand" "set (cn_participantPersonIds cand) \<subseteq> session_people h"
    unfolding row_joined_def by blast
  from assms(2) h(1) obtain h' where h': "find_session c' (og_sessionId og) = Some h'" "session_grown h h'"
    unfolding catalog_grown_def by blast
  from h(2) h'(2) have "sh_lifecycle h' \<noteq> L_draft"
    by (cases "sh_lifecycle h"; cases "sh_lifecycle h'") (auto simp: session_grown_def less_eq_session_lifecycle_def)
  with h h' show "\<exists>h cand. find_session c' (og_sessionId og) = Some h \<and> sh_lifecycle h \<noteq> L_draft
      \<and> dv_readDecisionCandidate reads scope (rw_submissionId p) = Some cand \<and> set (cn_participantPersonIds cand) \<subseteq> session_people h"
    by (auto simp: session_grown_def)
qed

text \<open>The change an acceptance makes, and the session it is made to.\<close>

lemma routed_change_base:
  "routed_change c base cand s routing = Inr (change, target) \<Longrightarrow> graduation_base_of change = base"
  by (cases routing) (auto simp: rbind_Inr_iff)

lemma candidate_participants_ids: "pa_personId ` set (candidate_participants cand s) = set (cn_participantPersonIds cand)"
  by (auto simp: candidate_participants_def image_image)

lemma routed_attach:
  assumes "catalog_ok sha c" "routed_change c base cand s (Route_attach i to) = Inr (change, target)"
    and "view_plan sha vocab c change = Inr (g, next)" "vocabulary_id i"
  shows "\<exists>h. find_session c i = Some h \<and> sh_lifecycle h = L_collecting \<and> sl_before g = Some h \<and> sh_id (sl_after g) = i
    \<and> target = Some \<lparr> tp_id = i, tp_title = sh_title h, tp_version = sh_version h \<rparr>
    \<and> sh_lifecycle (sl_after g) = (case to of None \<Rightarrow> L_collecting | Some l \<Rightarrow> l)"
proof -
  from assms(2) obtain h where h: "find_session c i = Some h" "sh_lifecycle h = L_collecting"
    and ch: "change = Attach base i to" "target = Some \<lparr> tp_id = sh_id h, tp_title = sh_title h, tp_version = sh_version h \<rparr>"
    by (auto simp: rbind_Inr_iff attachable_target_iff)
  from view_plan_Inr [OF assms(3)] obtain j r where j: "graduation_planning_input c change = Inr j"
    and m: "plan_session_mutation sha j c vocab = Inr g" and a: "apply_session_plan sha g c vocab = Inr (next, r)" by blast
  from attached_session [OF assms(1) j [unfolded ch(1)] m] obtain h0 where id: "sh_id (sl_after g) = to_lower i"
    and h0: "sl_before g = Some h0" "sh_lifecycle (sl_after g) = (case to of None \<Rightarrow> sh_lifecycle h0 | Some l \<Rightarrow> l)" by blast
  have low: "to_lower i = i" using assms(4) by (rule vocabulary_id_lower)
  with session_planned_image(2) [OF assms(1) m] id h0(1) h(1) have "h0 = h" by simp
  with h h0 id low ch find_session_member [OF h(1)] show ?thesis by (cases to) simp_all
qed

lemma routed_spawn:
  assumes "catalog_ok sha c" "routed_change c base cand s (Route_spawn i track) = Inr (change, target)"
    and "view_plan sha vocab c change = Inr (g, next)"
  shows "target = None \<and> find_session c i = None \<and> sl_before g = None \<and> sh_id (sl_after g) = i
    \<and> sh_lifecycle (sl_after g) = L_programmed \<and> (\<exists>t. cn_title cand = Some t \<and> sh_title (sl_after g) = normalized_name t)"
proof -
  from assms(2) obtain n where ch: "change = Spawn base n" "target = None" and n: "gs_sessionId n = i" "gs_lifecycle n = L_programmed"
    "\<exists>t. cn_title cand = Some t \<and> gs_title n = normalized_name t"
    by (fastforce simp: rbind_Inr_iff spawn_title_def need_Inr_iff refuse_decision_def Let_def split: if_splits)
  from view_plan_Inr [OF assms(3)] obtain j r where j: "graduation_planning_input c change = Inr j"
    and m: "plan_session_mutation sha j c vocab = Inr g" by blast
  from spawned_session [OF assms(1) j [unfolded ch(1)] m] session_planned_image(2) [OF assms(1) m] n ch(2) show ?thesis
    by (auto simp: normalized_name_idem)
qed

text \<open>The run of a plan's rows.\<close>

lemma acceptance_joined:
  assumes "catalog_ok sha c" "acceptance_of sha reads vocab i c row cand p next"
    and "decided_candidate reads (di_scope i) (dw_submissionId row) = Inr cand" "rw_submissionId p = dw_submissionId row"
    and "pred_option routing_schema (dw_graduation row)"
  shows "row_joined reads (di_scope i) next p"
proof -
  from assms(2) obtain routing change g where r: "dw_graduation row = Some routing"
    and ch: "routed_change c \<lparr> gb_scope = di_scope i, gb_userId = di_actorUserId i, gb_at = di_occurredAt i,
        gb_participants = candidate_participants cand (dw_submissionId row) \<rparr> cand (dw_submissionId row) routing
      = Inr (change, de_target (rw_evidence p))"
    and v: "view_plan sha vocab c change = Inr (g, next)"
    and og: "map_option og_sessionId (rw_origin p) = Some (sh_id (sl_after g))"
    unfolding acceptance_of_def by auto
  note e = view_plan_effect [OF assms(1) v]
  have people: "set (cn_participantPersonIds cand) \<subseteq> session_people (sl_after g)"
    using e(6) unfolding routed_change_base [OF ch] by (simp add: candidate_participants_ids)
  have "sh_lifecycle (sl_after g) \<noteq> L_draft"
  proof (cases routing)
    case (Route_spawn s t)
    from routed_spawn [OF assms(1) ch [unfolded Route_spawn] v] show ?thesis by simp
  next
    case (Route_attach s to)
    with assms(5) r have "vocabulary_id s" "to \<in> {None, Some L_programmed}" by simp_all
    with routed_attach [OF assms(1) ch [unfolded Route_attach] v] show ?thesis by auto
  qed
  with people og assms(3,4) show ?thesis by (auto simp: row_joined_def e(4) decided_candidate_iff)
qed

lemma plan_rows_run:
  assumes "catalog_ok sha c" "plan_rows sha reads vocab i c rows = Inr ps" "list_all decision_row_schema rows"
  shows "\<exists>c'. apply_plans (session_exec sha) c (map (Pair vocab) (List.map_filter rw_graduation ps)) = Inr c'
    \<and> catalog_ok sha c' \<and> catalog_grown c c' \<and> sg_version c' = sg_version c + int (length (filter (\<lambda>r. dw_state r = Ds_accepted) rows))
    \<and> list_all (row_joined reads (di_scope i) c') ps"
  using assms
proof (induction rows arbitrary: c ps)
  case Nil
  then show ?case by (simp add: List.map_filter_simps catalog_grown_refl)
next
  case (Cons row rows)
  from Cons.prems(2) obtain p t rest where p: "plan_row sha reads vocab i c row = Inr (p, t)"
    and rest: "plan_rows sha reads vocab i t rows = Inr rest" and ps: "ps = p # rest" by (auto simp: rbind_Inr_iff)
  note parts = plan_row_parts [OF p]
  from parts(6) obtain cand where cand: "decided_candidate reads (di_scope i) (dw_submissionId row) = Inr cand"
    and kind: "if dw_state row = Ds_accepted then acceptance_of sha reads vocab i c row cand p t
      else rw_graduation p = None \<and> rw_origin p = None \<and> de_target (rw_evidence p) = None \<and> t = c" by blast
  have schema: "list_all decision_row_schema rows" "pred_option routing_schema (dw_graduation row)"
    using Cons.prems(3) by (simp, simp add: decision_row_schema_def)
  show ?case
  proof (cases "dw_state row = Ds_accepted")
    case True
    with kind have acc: "acceptance_of sha reads vocab i c row cand p t" by simp
    then obtain change g where v: "view_plan sha vocab c change = Inr (g, t)" and g: "rw_graduation p = Some g"
      unfolding acceptance_of_def by blast
    note e = view_plan_effect [OF Cons.prems(1) v]
    from Cons.IH [OF e(2) rest schema(1)] obtain c' where c': "apply_plans (session_exec sha) t (map (Pair vocab) (List.map_filter rw_graduation rest)) = Inr c'"
      "catalog_ok sha c'" "catalog_grown t c'" "sg_version c' = sg_version t + int (length (filter (\<lambda>r. dw_state r = Ds_accepted) rows))"
      "list_all (row_joined reads (di_scope i) c') rest" by blast
    have "row_joined reads (di_scope i) c' p"
      by (rule row_joined_grown [OF acceptance_joined [OF Cons.prems(1) acc cand parts(1) schema(2)] c'(3)])
    moreover have "catalog_grown c c'" by (rule catalog_grown_trans [OF e(5) c'(3)])
    ultimately show ?thesis using c' e(1,3) g True unfolding ps by (simp add: List.map_filter_simps)
  next
    case False
    with kind have k: "rw_graduation p = None" "rw_origin p = None" "t = c" by simp_all
    from Cons.IH [OF Cons.prems(1) rest [unfolded k(3)] schema(1)] False k(1,2) show ?thesis
      unfolding ps by (simp add: List.map_filter_simps row_joined_def)
  qed
qed

section \<open>Properties of decisions\<close>

lemma plan_rows_each:
  "catalog_ok sha c \<Longrightarrow> plan_rows sha reads vocab i c rows = Inr ps \<Longrightarrow>
   list_all2 (\<lambda>row p. \<exists>c0 next. catalog_ok sha c0 \<and> plan_row sha reads vocab i c0 row = Inr (p, next)) rows ps"
proof (induction rows arbitrary: c ps)
  case (Cons row rows)
  from Cons.prems(2) obtain p t rest where p: "plan_row sha reads vocab i c row = Inr (p, t)"
    and rest: "plan_rows sha reads vocab i t rows = Inr rest" and ps: "ps = p # rest" by (auto simp: rbind_Inr_iff)
  have "catalog_ok sha t"
  proof (cases "dw_state row = Ds_accepted")
    case True
    with plan_row_parts(6) [OF p] obtain change g where "view_plan sha vocab c change = Inr (g, t)"
      by (auto simp: acceptance_of_def)
    from view_plan_effect(2) [OF Cons.prems(1) this] show ?thesis .
  next
    case False
    with plan_row_parts(6) [OF p] Cons.prems(1) show ?thesis by auto
  qed
  from Cons.IH [OF this rest] p Cons.prems(1) ps show ?case by auto
qed simp

text \<open>
  C2. Every graduation of a decision plan can be applied, in the order of the rows, starting from the catalog the
  plan was made over, and each advances the catalog by one version; so an operation that decides many
  submissions never stops half-way with a stale session. Afterwards every accepted submission's session
  is in the catalog, is not a draft and has all of the submission's people on its roster, and no session
  that was there before is gone, went back in its lifecycle or lost anyone.
\<close>

theorem decision_graduations_apply:
  assumes "plan_decision_mutation sha i env = Inr p" "gr_readSessionCatalog (en_sessions env) (di_scope i) = Some c"
    and "gr_readSessionVocabulary (en_sessions env) (di_scope i) = Some vocab" "catalog_ok sha c"
  shows "\<exists>c'. apply_plans (session_exec sha) c (map (Pair vocab) (List.map_filter rw_graduation (dp_rows p))) = Inr c'
    \<and> sg_version c' = sg_version c + int (length (filter (\<lambda>r. dw_state r = Ds_accepted) (di_decisions i)))
    \<and> list_all (row_joined (en_decisions env) (di_scope i) c') (dp_rows p) \<and> catalog_grown c c'"
proof -
  note parts = plan_decision_parts [OF assms(1)]
  from parts(4) assms(2,3) have "plan_rows sha (en_decisions env) vocab i c (di_decisions i) = Inr (dp_rows p)" by auto
  moreover have "list_all decision_row_schema (di_decisions i)" using parts(2) by (simp add: decision_input_schema_def)
  ultimately show ?thesis using plan_rows_run [OF assms(4)] by blast
qed

text \<open>
  C24. A decision is recorded over exactly what the operator saw. Each row of a plan stands for the row of the
  input at its place: the head it replaces is the stored one, with the version and digest the operator
  expected (none if none was expected); the new head has the decided state, the next version, the actor
  and a digest that parses; the evidence pins the candidate that was read; and exactly the accepted rows
  carry a graduation and an origin, which links the submission to the graduated session and is only made
  when the submission had no origin.
\<close>

theorem decision_rows_grounded:
  assumes "plan_decision_mutation sha i env = Inr p" "gr_readSessionCatalog (en_sessions env) (di_scope i) = Some c"
    and "catalog_ok sha c" "k < length (di_decisions i)" "row = di_decisions i ! k" "planned = dp_rows p ! k"
  shows "rw_submissionId planned = dw_submissionId row
    \<and> rw_before planned = dv_readDecisionHead (en_decisions env) (di_scope i) (dw_submissionId row)
    \<and> (case rw_before planned of None \<Rightarrow> dw_expectedVersion row = None \<and> dh_version (rw_after planned) = 1
       | Some h \<Rightarrow> dw_expectedVersion row = Some (dh_version h) \<and> dw_expectedDigest row = Some (dh_digest h)
           \<and> dh_version (rw_after planned) = dh_version h + 1)
    \<and> dh_state (rw_after planned) = dw_state row \<and> parse_decision_head sha (rw_after planned) = Inr (rw_after planned)
    \<and> map_option cn_candidateVersion (dv_readDecisionCandidate (en_decisions env) (di_scope i) (dw_submissionId row))
       = Some (sm_candidateVersion (de_submission (rw_evidence planned)))
    \<and> (if dw_state row = Ds_accepted then dv_readSubmissionSessionOrigin (en_decisions env) (di_scope i) (dw_submissionId row) = None
         \<and> (\<exists>g og. rw_graduation planned = Some g \<and> rw_origin planned = Some og \<and> og_submissionId og = dw_submissionId row
           \<and> og_sessionId og = sh_id (sl_after g) \<and> og_linkedByUserId og = di_actorUserId i)
       else rw_graduation planned = None \<and> rw_origin planned = None)"
proof -
  note parts = plan_decision_parts [OF assms(1)]
  from parts(4) assms(2) obtain vocab where rows: "plan_rows sha (en_decisions env) vocab i c (di_decisions i) = Inr (dp_rows p)" by auto
  from plan_rows_each [OF assms(3) rows] assms(4-6) obtain c0 c1
    where r: "plan_row sha (en_decisions env) vocab i c0 row = Inr (planned, c1)"
    by (auto simp: list_all2_conv_all_nth)
  note rp = plan_row_parts [OF r]
  have "planned \<in> set (dp_rows p)" using plan_rows_each [OF assms(3) rows] assms(4,6) by (auto simp: list_all2_conv_all_nth)
  then have schema: "decision_head_schema (rw_after planned)"
    using plan_decision_heads [OF assms(1)] by (auto simp: list_all_iff)
  then have parsed: "parse_decision_head sha (rw_after planned) = Inr (rw_after planned)"
    using next_decision_head_signed [of sha i row "rw_before planned"] rp(4) by (simp add: parse_decision_head_def)
  have guard: "case rw_before planned of None \<Rightarrow> dw_expectedVersion row = None \<and> dh_version (rw_after planned) = 1
       | Some h \<Rightarrow> dw_expectedVersion row = Some (dh_version h) \<and> dw_expectedDigest row = Some (dh_digest h)
           \<and> dh_version (rw_after planned) = dh_version h + 1"
    using rp(3,4) by (auto simp: require_decision_head_iff split: option.splits)
  from rp(6) obtain cand where cand: "decided_candidate (en_decisions env) (di_scope i) (dw_submissionId row) = Inr cand"
    and pin: "sm_candidateVersion (de_submission (rw_evidence planned)) = cn_candidateVersion cand"
    and kind: "if dw_state row = Ds_accepted then acceptance_of sha (en_decisions env) vocab i c0 row cand planned c1
      else rw_graduation planned = None \<and> rw_origin planned = None" by (auto split: if_splits)
  from kind have "if dw_state row = Ds_accepted then dv_readSubmissionSessionOrigin (en_decisions env) (di_scope i) (dw_submissionId row) = None
         \<and> (\<exists>g og. rw_graduation planned = Some g \<and> rw_origin planned = Some og \<and> og_submissionId og = dw_submissionId row
           \<and> og_sessionId og = sh_id (sl_after g) \<and> og_linkedByUserId og = di_actorUserId i)
       else rw_graduation planned = None \<and> rw_origin planned = None"
    by (auto simp: acceptance_of_def split: if_splits)
  with rp(1,2,4) guard parsed cand pin show ?thesis by (simp add: decided_candidate_iff)
qed

text \<open>
  C25. An acceptance goes where it was routed. Attached, its session was collecting at its turn (the evidence pins
  that session's title and version), and it is programmed afterwards if and only if the routing says so;
  spawned, its session is new, has the identifier minted for it and the title of the submission, and is
  programmed. No acceptance joins a draft or a programmed session.
\<close>

theorem acceptance_routed:
  assumes "plan_decision_mutation sha i env = Inr p" "gr_readSessionCatalog (en_sessions env) (di_scope i) = Some c"
    and "catalog_ok sha c" "k < length (di_decisions i)" "dw_graduation (di_decisions i ! k) = Some routing"
  shows "\<exists>g. rw_graduation (dp_rows p ! k) = Some g \<and> (case routing of
      Route_attach s to \<Rightarrow> sh_id (sl_after g) = s
        \<and> (\<exists>h. sl_before g = Some h \<and> sh_lifecycle h = L_collecting
          \<and> de_target (rw_evidence (dp_rows p ! k)) = Some \<lparr> tp_id = s, tp_title = sh_title h, tp_version = sh_version h \<rparr>)
        \<and> (sh_lifecycle (sl_after g) = L_programmed \<longleftrightarrow> to = Some L_programmed)
    | Route_spawn s track \<Rightarrow> sh_id (sl_after g) = s \<and> sl_before g = None \<and> sh_lifecycle (sl_after g) = L_programmed
        \<and> de_target (rw_evidence (dp_rows p ! k)) = None
        \<and> (\<exists>cand t. dv_readDecisionCandidate (en_decisions env) (di_scope i) (dw_submissionId (di_decisions i ! k)) = Some cand
          \<and> cn_title cand = Some t \<and> sh_title (sl_after g) = normalized_name t))"
proof -
  note parts = plan_decision_parts [OF assms(1)]
  from parts(4) assms(2) obtain vocab where rows: "plan_rows sha (en_decisions env) vocab i c (di_decisions i) = Inr (dp_rows p)" by auto
  from plan_rows_each [OF assms(3) rows] assms(4) obtain c0 c1 where ok: "catalog_ok sha c0"
    and r: "plan_row sha (en_decisions env) vocab i c0 (di_decisions i ! k) = Inr (dp_rows p ! k, c1)"
    by (auto simp: list_all2_conv_all_nth)
  have "decision_row_schema (di_decisions i ! k)" using parts(2) assms(4) by (simp add: decision_input_schema_def list_all_length)
  then have acc: "dw_state (di_decisions i ! k) = Ds_accepted" and rs: "routing_schema routing"
    using assms(5) by (auto simp: decision_row_schema_def)
  from plan_row_parts(6) [OF r] acc obtain cand where cand: "decided_candidate (en_decisions env) (di_scope i) (dw_submissionId (di_decisions i ! k)) = Inr cand"
    and a: "acceptance_of sha (en_decisions env) vocab i c0 (di_decisions i ! k) cand (dp_rows p ! k) c1" by auto
  from a assms(5) obtain change g base where
    ch: "routed_change c0 base cand (dw_submissionId (di_decisions i ! k)) routing = Inr (change, de_target (rw_evidence (dp_rows p ! k)))"
    and v: "view_plan sha vocab c0 change = Inr (g, c1)" and g: "rw_graduation (dp_rows p ! k) = Some g"
    unfolding acceptance_of_def by auto
  show ?thesis
  proof (cases routing)
    case (Route_spawn s track)
    from routed_spawn [OF ok ch [unfolded Route_spawn] v] cand g Route_spawn show ?thesis by (auto simp: decided_candidate_iff)
  next
    case (Route_attach s to)
    with rs have "vocabulary_id s" and to: "to = None \<or> to = Some L_programmed" by auto
    from routed_attach [OF ok ch [unfolded Route_attach] v this(1)] g Route_attach to show ?thesis by auto
  qed
qed

text \<open>
  A stored plan is accepted exactly when planning its input again gives it, so of the plans for one input at
  most one is valid, and the plan just made is.
\<close>

theorem decision_plan_valid_iff_replanned:
  "(validate_decision_plan sha p env = None \<longleftrightarrow> plan_decision_mutation sha (dp_input p) env = Inr p)
   \<and> (plan_decision_mutation sha i env = Inr q \<longrightarrow> validate_decision_plan sha q env = None
      \<and> (\<forall>r. dp_input r = i \<and> validate_decision_plan sha r env = None \<longrightarrow> r = q))"
  unfolding validate_decision_plan_iff using plan_decision_parts(1) [of sha i env q] by (metis Inr_inject)


text \<open>The identifiers of the sessions that rows spawn.\<close>

fun spawned_id :: "decision_routing option \<Rightarrow> string option" where
  "spawned_id (Some (Route_spawn i _)) = Some i"
| "spawned_id _ = None"

definition spawned_ids :: "decision_row list \<Rightarrow> string list" where
  "spawned_ids rows = List.map_filter (\<lambda>r. spawned_id (dw_graduation r)) rows"

text \<open>What a row of the operator's input resolves to.\<close>

definition routing_follows ::
  "decision_reads \<Rightarrow> vocabulary_scope \<Rightarrow> session_catalog \<Rightarrow> string \<Rightarrow> routing_choice option \<Rightarrow> decision_routing \<Rightarrow> bool"
where
  "routing_follows reads scope c submission choice routing \<longleftrightarrow> (case choice of
     Some (Choice_attach s to) \<Rightarrow> routing = Route_attach s to
   | Some (Choice_spawn (Some track)) \<Rightarrow> (\<exists>i. routing = Route_spawn i (Some track))
   | _ \<Rightarrow> (\<exists>cand. dv_readDecisionCandidate reads scope submission = Some cand \<and>
       (case (choice, cn_targetSessionId cand) of
          (None, Some t) \<Rightarrow> routing = Route_attach t None \<and> (\<exists>h. find_session c t = Some h \<and> sh_lifecycle h = L_collecting)
        | _ \<Rightarrow> (\<exists>i. routing = Route_spawn i (cn_trackId cand)))))"

lemma resolved_routing_follows:
  assumes "rbind (case choice of Some x \<Rightarrow> Inr x | None \<Rightarrow> effective_target_choice reads scope s c) (\<lambda>x.
      resolved_routing reads scope s minted n x) = Inr (routing, n')"
  shows "routing_follows reads scope c s choice routing
    \<and> (case spawned_id (Some routing) of None \<Rightarrow> n' = n | Some i \<Rightarrow> i = minted n \<and> n' = n + 1)"
proof (cases choice)
  case None
  with assms obtain x cand where cand: "decided_candidate reads scope s = Inr cand"
    and x: "(case cn_targetSessionId cand of None \<Rightarrow> Inr (Choice_spawn None)
       | Some target \<Rightarrow> rbind (attachable_target c s target) (\<lambda>h. Inr (Choice_attach (sh_id h) None))) = Inr x"
    and r: "resolved_routing reads scope s minted n x = Inr (routing, n')"
    by (auto simp: effective_target_choice_def rbind_Inr_iff)
  show ?thesis
  proof (cases "cn_targetSessionId cand")
    case None
    with x r cand \<open>choice = None\<close> show ?thesis
      by (auto simp: routing_follows_def resolved_spawn_track_id_def rbind_Inr_iff decided_candidate_iff split: if_splits)
  next
    case (Some t)
    with x obtain h where h: "find_session c t = Some h" "sh_lifecycle h = L_collecting" and xh: "x = Choice_attach (sh_id h) None"
      by (auto simp: rbind_Inr_iff attachable_target_iff)
    with r Some cand \<open>choice = None\<close> find_session_member [OF h(1)] show ?thesis
      by (auto simp: routing_follows_def decided_candidate_iff)
  qed
next
  case (Some x)
  show ?thesis
  proof (cases x)
    case (Choice_attach s to)
    with Some assms show ?thesis by (auto simp: routing_follows_def)
  next
    case (Choice_spawn track)
    with Some assms show ?thesis
      by (cases track) (auto simp: routing_follows_def resolved_spawn_track_id_def rbind_Inr_iff decided_candidate_iff split: if_splits)
  qed
qed

definition row_resolved :: "decision_reads \<Rightarrow> vocabulary_scope \<Rightarrow> session_catalog \<Rightarrow> decide_row \<Rightarrow> decision_row \<Rightarrow> bool" where
  "row_resolved reads scope c row r \<longleftrightarrow> dw_submissionId r = aw_submissionId row \<and> dw_state r = aw_state row
     \<and> dw_expectedVersion r = aw_expectedVersion row \<and> dw_expectedDigest r = aw_expectedDigest row
     \<and> (if aw_state row = Ds_accepted
        then \<exists>routing. dw_graduation r = Some routing \<and> routing_follows reads scope c (aw_submissionId row) (aw_graduation row) routing
        else dw_graduation r = None)"

lemma resolve_row_resolved:
  assumes "resolve_row reads scope c minted n row = Inr (r, n')"
  shows "row_resolved reads scope c row r
    \<and> (case spawned_id (dw_graduation r) of None \<Rightarrow> n' = n | Some i \<Rightarrow> i = minted n \<and> n' = n + 1)"
proof (cases "aw_state row = Ds_accepted")
  case True
  with assms obtain routing where rr: "rbind (case aw_graduation row of Some x \<Rightarrow> Inr x
        | None \<Rightarrow> effective_target_choice reads scope (aw_submissionId row) c) (\<lambda>x.
      resolved_routing reads scope (aw_submissionId row) minted n x) = Inr (routing, n')"
    and r: "r = \<lparr> dw_submissionId = aw_submissionId row, dw_state = aw_state row, dw_expectedVersion = aw_expectedVersion row,
       dw_expectedDigest = aw_expectedDigest row, dw_graduation = Some routing \<rparr>"
    by (auto simp: resolve_row_def rbind_Inr_iff)
  from resolved_routing_follows [OF rr] r True show ?thesis by (simp add: row_resolved_def)
next
  case False
  with assms show ?thesis by (auto simp: resolve_row_def rbind_Inr_iff row_resolved_def)
qed

lemma resolve_rows_resolved:
  "resolve_rows reads scope c minted n rows = Inr rs \<Longrightarrow>
   list_all2 (row_resolved reads scope c) rows rs \<and> (\<exists>m. spawned_ids rs = map minted [n..<m])"
proof (induction rows arbitrary: n rs)
  case Nil
  have "spawned_ids [] = map minted [n..<n]" by (simp add: spawned_ids_def List.map_filter_simps)
  then have "\<exists>m. spawned_ids [] = map minted [n..<m]" by (rule exI)
  with Nil show ?case by simp
next
  case (Cons row rows)
  then obtain r t rest where r: "resolve_row reads scope c minted n row = Inr (r, t)"
    and rest: "resolve_rows reads scope c minted t rows = Inr rest" and rs: "rs = r # rest" by (auto simp: rbind_Inr_iff)
  from Cons.IH [OF rest] obtain m where m: "list_all2 (row_resolved reads scope c) rows rest" "spawned_ids rest = map minted [t..<m]"
    by blast
  note rr = resolve_row_resolved [OF r]
  have "\<exists>m. spawned_ids rs = map minted [n..<m]"
  proof (cases "spawned_id (dw_graduation r)")
    case None
    with rr m(2) have "spawned_ids rs = map minted [n..<m]" by (simp add: spawned_ids_def rs List.map_filter_simps)
    then show ?thesis ..
  next
    case (Some i)
    with rr m(2) have ids: "spawned_ids rs = minted n # map minted [n + 1..<m]" by (simp add: spawned_ids_def rs List.map_filter_simps)
    have "minted n # map minted [n + 1..<m] = map minted [n..<max (n + 1) m]"
      by (cases "n + 1 \<le> m") (simp_all add: max_def upt_conv_Cons)
    with ids show ?thesis by auto
  qed
  with rr m(1) show ?case by (simp add: rs)
qed



section \<open>A sample decision\<close>

text \<open>A session collects; one submission is accepted into it and another one declined.\<close>

definition sample_candidate :: "string \<Rightarrow> decision_candidate" where
  "sample_candidate s = \<lparr> cn_submissionId = s, cn_formVersionId = sample_id CHR ''2'', cn_candidateVersion = 1, cn_title = None,
     cn_formatId = None, cn_trackId = None, cn_targetSessionId = Some (sample_id CHR ''7''),
     cn_participantPersonIds = [sample_id CHR ''3''] \<rparr>"

definition sample_decision_reads :: decision_reads where
  "sample_decision_reads = \<lparr> dv_readDecisionCandidate = (\<lambda>_ s. Some (sample_candidate s)), dv_readDecisionReviewBasis = (\<lambda>_ _. None),
     dv_readDecisionHead = (\<lambda>_ _. None), dv_readSubmissionSessionOrigin = (\<lambda>_ _. None) \<rparr>"

definition sample_decision_environment :: decision_environment where
  "sample_decision_environment = \<lparr> en_decisions = sample_decision_reads, en_sessions = sample_reads \<rparr>"

definition sample_authored_decisions :: "decide_row list" where
  "sample_authored_decisions = [\<lparr> aw_submissionId = sample_id CHR ''0'', aw_state = Ds_accepted, aw_expectedVersion = None,
     aw_expectedDigest = None, aw_graduation = None \<rparr>, \<lparr> aw_submissionId = sample_id CHR ''1'', aw_state = Ds_declined,
     aw_expectedVersion = None, aw_expectedDigest = None, aw_graduation = None \<rparr>]"

definition sample_decisions :: "decision_row list" where
  "sample_decisions = [\<lparr> dw_submissionId = sample_id CHR ''0'', dw_state = Ds_accepted, dw_expectedVersion = None,
     dw_expectedDigest = None, dw_graduation = Some (Route_attach (sample_id CHR ''7'') None) \<rparr>,
     \<lparr> dw_submissionId = sample_id CHR ''1'', dw_state = Ds_declined, dw_expectedVersion = None, dw_expectedDigest = None,
     dw_graduation = None \<rparr>]"

definition sample_decision_input :: decision_input where
  "sample_decision_input = \<lparr> di_scope = sample_scope, di_actorUserId = sample_id CHR ''4'', di_occurredAt = clock 3,
     di_decisions = sample_decisions \<rparr>"

definition sample_attachment :: session_action where
  "sample_attachment = S_roster_append (sample_expected 1) [sample_speaker] None"

lemma sample_attachment_planned:
  "plan_session_mutation sample_sha (sample_session_change 2 sample_attachment) (sample_catalog 2 [sample_session 1 sample_people]) sample_program
   = Inr (sample_plan 2 sample_attachment (Some (sample_session 1 sample_people)) (sample_session 2 sample_joined))"
proof (rule sample_session_change_planned)
  show "parse_session_input (sample_session_change 2 sample_attachment) = Inr (sample_session_change 2 sample_attachment)"
    by (rule sample_session_change_parsed) (simp_all add: sample_attachment_def sample_expected_ok sample_speaker_ok)
  have app: "appended_roster_participants sample_people [sample_speaker] = Some sample_joined"
    by (simp add: appended_roster_participants_def sample_people_def sample_joined_def)
  have "parse_signed_head sample_sha (updated_head (sample_session_change 2 sample_attachment) (sample_session 1 sample_people)
      \<lparr> sh_lifecycle := sh_lifecycle (sample_session 1 sample_people), sh_programTarget := sh_programTarget (sample_session 1 sample_people),
        sh_roster := signed_roster sample_sha 2 sample_joined \<rparr>) = Inr (sample_session 2 sample_joined)"
    by (rule sample_signed_head) (simp_all add: updated_head_def sample_session_def sample_session_change_def signed_roster_def)
  then have "changed_session sample_sha sample_program (sample_session_change 2 sample_attachment) (sample_session 1 sample_people)
      (S_roster_append (sample_expected 1) [sample_speaker] None) = Inr (sample_session 2 sample_joined)"
    by (simp add: app maybe_changed_roster_def) (simp add: require_exact_session_def sample_expected_def)
  then show "session_images sample_sha sample_program (sample_catalog 2 [sample_session 1 sample_people]) (sample_session_change 2 sample_attachment)
      = Inr (Some (sample_session 1 sample_people), sample_session 2 sample_joined)"
    by (simp add: session_images_def sample_find) (simp add: sample_attachment_def)
qed (use sample_session_ok [of 1 sample_people] in \<open>simp_all add: optional_head_schema_def head_ok_def sample_attachment_def\<close>)


definition sample_contribution :: session_plan where
  "sample_contribution = sample_plan 2 sample_attachment (Some (sample_session 1 sample_people)) (sample_session 2 sample_joined)"

definition sample_base :: graduation_base where
  "sample_base = \<lparr> gb_scope = sample_scope, gb_userId = sample_id CHR ''4'', gb_at = clock 3, gb_participants = [sample_speaker] \<rparr>"

lemma sample_view_planned:
  "view_plan sample_sha sample_program (sample_catalog 2 [sample_session 1 sample_people]) (Attach sample_base (sample_id CHR ''7'') None)
   = Inr (sample_contribution, sample_catalog 3 [sample_session 2 sample_joined])"
proof -
  have i: "graduation_planning_input (sample_catalog 2 [sample_session 1 sample_people]) (Attach sample_base (sample_id CHR ''7'') None)
      = Inr (sample_session_change 2 sample_attachment)"
    by (simp add: sample_find) (simp add: graduation_input_def sample_session_change_def sample_attachment_def sample_expected_def sample_base_def)
  have g: "plan_session_graduation_from sample_sha (view_reads (sample_catalog 2 [sample_session 1 sample_people]) sample_program)
      (Attach sample_base (sample_id CHR ''7'') None) = Inr sample_contribution"
    using i sample_attachment_planned parse_planned_session [OF sample_attachment_planned]
    by (simp add: plan_session_graduation_from_def view_reads_def sample_scope_ok sample_contribution_def sample_base_def del: graduation_planning_input.simps)
  obtain r where "apply_session_plan sample_sha sample_contribution (sample_catalog 2 [sample_session 1 sample_people]) sample_program
      = Inr (sample_catalog 3 [sample_session 2 sample_joined], r)"
    using sample_session_applied [OF sample_attachment_planned] unfolding sample_contribution_def by auto
  with g show ?thesis by (simp add: view_plan_def)
qed

definition sample_new_head :: "char \<Rightarrow> decision_state \<Rightarrow> decision_head" where
  "sample_new_head c state = \<lparr> dh_scope = sample_scope, dh_submissionId = sample_id c, dh_state = state, dh_version = 1,
     dh_decidedByUserId = sample_id CHR ''4'', dh_decidedAt = clock 3, dh_digest = sample_sha [] \<rparr>"

definition sample_row_plan :: "char \<Rightarrow> decision_state \<Rightarrow> target_pin option \<Rightarrow> session_plan option \<Rightarrow> session_origin option \<Rightarrow> decision_row_plan" where
  "sample_row_plan c state target graduation origin = \<lparr> rw_submissionId = sample_id c, rw_before = None,
     rw_after = sample_new_head c state, rw_evidence = \<lparr> de_submission = \<lparr> sm_submissionId = sample_id c,
       sm_formVersionId = sample_id CHR ''2'', sm_candidateVersion = 1 \<rparr>, de_review = None, de_target = target \<rparr>,
     rw_graduation = graduation, rw_origin = origin \<rparr>"

definition sample_origin :: session_origin where
  "sample_origin = \<lparr> og_scope = sample_scope, og_submissionId = sample_id CHR ''0'', og_sessionId = sample_id CHR ''7'',
     og_kind = Origin_attached, og_linkedByUserId = sample_id CHR ''4'', og_linkedAt = clock 3 \<rparr>"

definition sample_target_pin :: target_pin where
  "sample_target_pin = \<lparr> tp_id = sample_id CHR ''7'', tp_title = ''Opening'', tp_version = 1 \<rparr>"

definition sample_rows :: "decision_row_plan list" where
  "sample_rows = [sample_row_plan CHR ''0'' Ds_accepted (Some sample_target_pin) (Some sample_contribution) (Some sample_origin),
     sample_row_plan CHR ''1'' Ds_declined None None None]"

definition sample_decision_plan :: decision_plan where
  "sample_decision_plan = \<lparr> dp_input = sample_decision_input, dp_rows = sample_rows \<rparr>"

lemma sample_decision_input_ok: "decision_input_schema sample_decision_input"
  by (simp add: decision_input_schema_def sample_decision_input_def sample_decisions_def decision_row_schema_def sample_scope_ok
      sample_session_instant)

lemma sample_decision_fields [simp]: "di_scope sample_decision_input = sample_scope" "di_actorUserId sample_decision_input = sample_id CHR ''4''"
  "di_occurredAt sample_decision_input = clock 3" "di_decisions sample_decision_input = sample_decisions"
  "en_decisions sample_decision_environment = sample_decision_reads" "en_sessions sample_decision_environment = sample_reads"
  "gr_readSessionCatalog sample_reads = (\<lambda>_. Some (sample_catalog 2 [sample_session 1 sample_people]))"
  "gr_readSessionVocabulary sample_reads = (\<lambda>_. Some sample_program)"
  by (simp_all add: sample_decision_input_def sample_decision_environment_def sample_reads_def)

lemma sample_next_head:
  "dw_submissionId row = sample_id c \<Longrightarrow> next_decision_head sample_sha sample_decision_input row None = sample_new_head c (dw_state row)"
  by (simp add: next_decision_head_def sample_new_head_def decision_head_digest_def sample_sha_const [of "canonical x" for x])

lemma sample_routed:
  "routed_change (sample_catalog 2 [sample_session 1 sample_people]) \<lparr> gb_scope = sample_scope, gb_userId = sample_id CHR ''4'', gb_at = clock 3,
      gb_participants = candidate_participants (sample_candidate (sample_id CHR ''0'')) (sample_id CHR ''0'') \<rparr>
    (sample_candidate (sample_id CHR ''0'')) (sample_id CHR ''0'') (Route_attach (sample_id CHR ''7'') None)
   = Inr (Attach sample_base (sample_id CHR ''7'') None, Some sample_target_pin)"
  by (simp add: attachable_target_def sample_find)
    (simp add: sample_session_def sample_base_def sample_target_pin_def candidate_participants_def sample_candidate_def sample_speaker_def)

lemma sample_rows_planned:
  "plan_rows sample_sha sample_decision_reads sample_program sample_decision_input (sample_catalog 2 [sample_session 1 sample_people])
    sample_decisions = Inr sample_rows"
proof -
  have cand: "decided_candidate sample_decision_reads sample_scope s = Inr (sample_candidate s)" for s
    by (simp add: decided_candidate_def sample_decision_reads_def sample_candidate_def)
  show ?thesis
    by (simp add: sample_decisions_def plan_row_def Let_def cand plan_acceptance_def require_decision_head_def sample_routed
        sample_view_planned sample_next_head del: routed_change.simps)
      (simp add: sample_decision_reads_def sample_rows_def sample_row_plan_def sample_candidate_def sample_origin_def sample_contribution_def
        sample_next_head)
qed

lemma sample_decision_planned:
  "plan_decision_mutation sample_sha sample_decision_input sample_decision_environment = Inr sample_decision_plan"
proof -
  have head: "decision_head_schema (sample_new_head c s)" if "vocabulary_id (sample_id c)" for c s
    using that by (simp add: decision_head_schema_def sample_new_head_def sample_scope_ok sample_session_instant)
  have g: "parse_session_plan sample_contribution = Inr sample_contribution"
    unfolding sample_contribution_def by (rule parse_planned_session [OF sample_attachment_planned])
  have "traverse parse_row_plan sample_rows = Inr sample_rows"
    by (simp add: sample_rows_def parse_row_plan_def sample_row_plan_def g row_plan_coherent_def head decision_evidence_schema_def
        submission_pin_schema_def target_pin_schema_def sample_target_pin_def sample_session_texts session_origin_schema_def sample_origin_def
        sample_scope_ok sample_session_instant)
      (simp add: sample_new_head_def)
  moreover have "decision_plan_aligned sample_decision_plan"
    by (simp add: decision_plan_aligned_def sample_decision_plan_def sample_rows_def sample_row_plan_def sample_new_head_def sample_decisions_def)
  ultimately have "parse_decision_plan sample_decision_plan = Inr sample_decision_plan"
    using sample_decision_input_ok
    by (simp add: parse_decision_plan_def sample_decision_plan_def) (simp add: sample_rows_def)
  then show ?thesis
    using sample_decision_input_ok
    by (simp add: plan_decision_mutation_def open_session_view_def sample_rows_planned sample_decision_plan_def)
qed

lemma sample_decisions_catalog: "catalog_ok sample_sha (sample_catalog 2 [sample_session 1 sample_people])"
  by (rule sample_catalog_ok) simp_all

theorem decision_graduations_apply_witness:
  "\<exists>c'. apply_plans (session_exec sample_sha) (sample_catalog 2 [sample_session 1 sample_people]) [(sample_program, sample_contribution)] = Inr c'
    \<and> sg_version c' = 3 \<and> (\<exists>h. find_session c' (sample_id CHR ''7'') = Some h \<and> sample_id CHR ''3'' \<in> session_people h)"
proof -
  have f: "List.map_filter rw_graduation sample_rows = [sample_contribution]"
    by (simp add: sample_rows_def List.map_filter_simps sample_row_plan_def)
  from decision_graduations_apply [OF sample_decision_planned _ _ sample_decisions_catalog, of sample_program]
  obtain c' where c': "apply_plans (session_exec sample_sha) (sample_catalog 2 [sample_session 1 sample_people])
        (map (Pair sample_program) (List.map_filter rw_graduation sample_rows)) = Inr c'"
    "sg_version c' = 2 + int (length (filter (\<lambda>r. dw_state r = Ds_accepted) sample_decisions))"
    "list_all (row_joined sample_decision_reads sample_scope c') sample_rows"
    by (auto simp: sample_decision_plan_def)
  have "\<exists>h. find_session c' (sample_id CHR ''7'') = Some h \<and> sample_id CHR ''3'' \<in> session_people h"
    using c'(3) by (auto simp: sample_rows_def row_joined_def sample_row_plan_def sample_origin_def sample_decision_reads_def sample_candidate_def)
  with c'(1,2) show ?thesis by (auto simp: f sample_decisions_def)
qed

theorem decision_rows_grounded_witness:
  "dh_state (rw_after (sample_rows ! 1)) = Ds_declined \<and> rw_graduation (sample_rows ! 1) = None \<and> rw_origin (sample_rows ! 0) \<noteq> None"
  using decision_rows_grounded [OF sample_decision_planned _ sample_decisions_catalog, of 0 "sample_decisions ! 0" "sample_rows ! 0"]
    decision_rows_grounded [OF sample_decision_planned _ sample_decisions_catalog, of 1 "sample_decisions ! 1" "sample_rows ! 1"]
  by (auto simp: sample_decision_plan_def sample_decisions_def)

theorem acceptance_routed_witness:
  "\<exists>g. rw_graduation (sample_rows ! 0) = Some g \<and> sh_id (sl_after g) = sample_id CHR ''7'' \<and> sh_lifecycle (sl_after g) \<noteq> L_programmed"
  using acceptance_routed [OF sample_decision_planned _ sample_decisions_catalog, of 0 "Route_attach (sample_id CHR ''7'') None"]
  by (auto simp: sample_decision_plan_def sample_decisions_def)

theorem decision_plan_valid_iff_replanned_witness:
  "validate_decision_plan sample_sha sample_decision_plan sample_decision_environment = None"
  using decision_plan_valid_iff_replanned [of sample_sha sample_decision_plan sample_decision_environment sample_decision_input sample_decision_plan]
    sample_decision_planned by blast


lemma sample_lowered: "to_lower (sample_id CHR ''0'') = sample_id CHR ''0''" "to_lower (sample_id CHR ''1'') = sample_id CHR ''1''"
  "accepted_id (sample_id CHR ''0'')" "accepted_id (sample_id CHR ''1'')"
  by code_simp+

lemma sample_decisions_resolved:
  "resolve_decision_planning_input sample_authored_decisions sample_scope (sample_id CHR ''4'') (clock 3) sample_decision_environment
    (\<lambda>_. sample_id CHR ''9'') = Inr sample_decision_input"
proof -
  have cand: "decided_candidate sample_decision_reads sample_scope s = Inr (sample_candidate s)" for s
    by (simp add: decided_candidate_def sample_decision_reads_def sample_candidate_def)
  have p: "parse_decision_author_input sample_authored_decisions = Inr sample_authored_decisions"
    by (simp add: parse_decision_author_input_def sample_authored_decisions_def normalized_decide_row_def decide_row_accepts_def
        sample_lowered)
  have t: "attachable_target (sample_catalog 2 [sample_session 1 sample_people]) s (sample_id CHR ''7'') = Inr (sample_session 1 sample_people)" for s
    unfolding attachable_target_iff by (simp add: sample_find) (simp add: sample_session_def)
  have "effective_target_choice sample_decision_reads sample_scope s (sample_catalog 2 [sample_session 1 sample_people])
      = Inr (Choice_attach (sample_id CHR ''7'') None)" for s
    by (simp add: effective_target_choice_def cand) (simp add: sample_candidate_def t)
  then have r: "resolve_rows sample_decision_reads sample_scope (sample_catalog 2 [sample_session 1 sample_people])
      (\<lambda>_. sample_id CHR ''9'') 0 sample_authored_decisions = Inr sample_decisions"
    by (simp add: sample_authored_decisions_def resolve_row_def sample_decisions_def)
  show ?thesis
    using p r sample_decision_input_ok [unfolded sample_decision_input_def]
    by (simp add: resolve_decision_planning_input_def Let_def)
qed



end
