(* ===== verification/Engagement.thy ===== *)
theory Engagement
  imports Session
begin

text \<open>
  Engagements, \<open>packages/engagement/src\<close> over the schemas of \<open>packages/contracts/src/engagements.ts\<close>: one record
  per session and person, from the invitation to a confirmation, a refusal or a cancellation. \<open>domain.ts\<close>
  plans the responses, \<open>seed-collaboration.ts\<close> the invitations that an acceptance or an organizer makes and
  their reversal, \<open>participant-response.ts\<close> the answer of one person for the group of a submission. The
  repository of \<open>packages/persistence/src/sqlite/engagement.ts\<close> is a table: a list of rows with its keys and
  the guards of its statements. Data, schemas, JSON forms and operations; the lemmas are in
  \<open>EngagementChanges\<close>, the properties in \<open>EngagementHistory\<close>.
\<close>

section \<open>Data\<close>

datatype engagement_state = Es_invited | Es_confirmed | Es_declined | Es_cancelled

datatype attribution = By_self | By_co_speaker | By_organizer

datatype requester = From_speaker | From_organizer

record cancellation_request =
  cq_requestedBy :: requester
  cq_requestedAt :: string
  cq_note :: "string option"

record confirmation =
  cf_attribution :: attribution
  cf_personId :: string
  cf_recordedByUserId :: "string option"
  cf_confirmedAt :: string

record seed_provenance =
  sv_version :: int
  sv_digest :: string

record engagement_head =
  eh_id :: string
  eh_scope :: vocabulary_scope
  eh_sessionId :: string
  eh_personId :: string
  eh_submissionId :: "string option"
  eh_seededByDecision :: "seed_provenance option"
  eh_state :: engagement_state
  eh_invitedAt :: string
  eh_respondBy :: "string option"
  eh_confirmation :: "confirmation option"
  eh_cancellationRequest :: "cancellation_request option"
  eh_cancelledAt :: "string option"
  eh_source :: roster_source
  eh_version :: int

text \<open>A confirmation names the confirming person of a co-speaker.\<close>

datatype response_action =
    Record_confirmation attribution "string option"
  | Decline
  | Request_cancellation requester "string option"
  | Withdraw_cancellation
  | Accept_cancellation

record response_input =
  ri_scope :: vocabulary_scope
  ri_actorUserId :: "string option"
  ri_occurredAt :: string
  ri_engagementId :: string
  ri_expectedVersion :: int
  ri_action :: response_action

record response_plan =
  rl_input :: response_input
  rl_before :: engagement_head
  rl_after :: engagement_head

record author_response =
  ar_engagementId :: string
  ar_expectedVersion :: int
  ar_action :: response_action

record seed_input =
  si_seedScope :: vocabulary_scope
  si_sessionId :: string
  si_submissionId :: string
  si_seededByDecision :: seed_provenance
  si_source :: roster_source
  si_personIds :: "string list"
  si_invitedAt :: string
  si_respondBy :: "string option"

record seed_plan =
  sp_input :: seed_input
  sp_rows :: "(string \<times> engagement_head) list"
  sp_skipped :: "string list"

record seed_reversal_plan =
  sr_scope :: vocabulary_scope
  sr_sessionId :: string
  sr_submissionId :: string
  sr_seededByDecision :: seed_provenance
  sr_rows :: "(string \<times> engagement_head) list"

record invite_input =
  ii_scope :: vocabulary_scope
  ii_sessionId :: string
  ii_personId :: string
  ii_source :: roster_source
  ii_invitedAt :: string
  ii_respondBy :: "string option"

record invite_plan =
  ip_input :: invite_input
  ip_existing :: "engagement_head option"
  ip_create :: "engagement_head option"

datatype engagement_code =
    E_wrong_scope | E_missing | E_stale | E_invalid_transition | E_already_requested | E_not_requested | E_invalid_plan

text \<open>A refusal of the domain names the engagement.\<close>

datatype engagement_error = Engagement_refused engagement_code string

type_synonym 'a engagements = "(engagement_error, 'a) outcome"

datatype seed_code = Seed_wrong_scope | Seed_stale | Seed_row_missing | Engagement_advanced | Seed_invalid_plan

datatype seed_error = Seed_refused seed_code "string option"

type_synonym 'a seeds = "(seed_error, 'a) outcome"

record engagement_reads =
  rd_engagementHead :: "vocabulary_scope \<Rightarrow> string \<Rightarrow> engagement_head option"
  rd_sessionPerson :: "vocabulary_scope \<Rightarrow> string \<Rightarrow> string \<Rightarrow> engagement_head option"
  rd_listSeeded :: "vocabulary_scope \<Rightarrow> string \<Rightarrow> string \<Rightarrow> engagement_head list"

section \<open>Schemas\<close>

definition provenance_schema :: "seed_provenance \<Rightarrow> bool" where
  "provenance_schema p \<longleftrightarrow> positive_safe (sv_version p) \<and> sha256_hex (sv_digest p)"

definition cancellation_request_schema :: "cancellation_request \<Rightarrow> bool" where
  "cancellation_request_schema r \<longleftrightarrow> session_instant (cq_requestedAt r) \<and> pred_option (canonical_text 500) (cq_note r)"

definition confirmation_schema :: "confirmation \<Rightarrow> bool" where
  "confirmation_schema c \<longleftrightarrow> vocabulary_id (cf_personId c) \<and> pred_option vocabulary_id (cf_recordedByUserId c)
     \<and> session_instant (cf_confirmedAt c) \<and> (cf_attribution c = By_organizer) = (cf_recordedByUserId c \<noteq> None)"

text \<open>The refinements of a head: its state against its other fields, the attribution of its confirmation, and its origin.\<close>

definition engagement_state_coherent :: "engagement_head \<Rightarrow> bool" where
  "engagement_state_coherent h \<longleftrightarrow> (eh_state h = Es_cancelled) = (eh_cancelledAt h \<noteq> None)
     \<and> (eh_state h = Es_confirmed \<longrightarrow> eh_confirmation h \<noteq> None)
     \<and> (eh_state h = Es_invited \<or> eh_state h = Es_declined \<longrightarrow> eh_confirmation h = None)
     \<and> (eh_state h = Es_declined \<longrightarrow> eh_cancellationRequest h = None)"

definition confirmation_attributed :: "engagement_head \<Rightarrow> bool" where
  "confirmation_attributed h \<longleftrightarrow> pred_option (\<lambda>c. (cf_attribution c = By_self \<longrightarrow> cf_personId c = eh_personId h)
     \<and> (cf_attribution c = By_co_speaker \<longrightarrow> cf_personId c \<noteq> eh_personId h)) (eh_confirmation h)"

definition engagement_origin_coherent :: "engagement_head \<Rightarrow> bool" where
  "engagement_origin_coherent h \<longleftrightarrow>
     (ro_kind (eh_source h) = ''submission'' \<longrightarrow> eh_submissionId h = Some (ro_id (eh_source h)))
     \<and> (eh_submissionId h \<noteq> None \<longrightarrow> ro_kind (eh_source h) = ''submission'')
     \<and> (eh_submissionId h \<noteq> None) = (eh_seededByDecision h \<noteq> None)"

definition engagement_head_schema :: "engagement_head \<Rightarrow> bool" where
  "engagement_head_schema h \<longleftrightarrow> vocabulary_id (eh_id h) \<and> scope_ok (eh_scope h) \<and> vocabulary_id (eh_sessionId h)
     \<and> vocabulary_id (eh_personId h) \<and> pred_option vocabulary_id (eh_submissionId h)
     \<and> pred_option provenance_schema (eh_seededByDecision h) \<and> session_instant (eh_invitedAt h)
     \<and> pred_option session_instant (eh_respondBy h) \<and> pred_option confirmation_schema (eh_confirmation h)
     \<and> pred_option cancellation_request_schema (eh_cancellationRequest h) \<and> pred_option session_instant (eh_cancelledAt h)
     \<and> roster_source_schema (eh_source h) \<and> positive_safe (eh_version h)
     \<and> engagement_state_coherent h \<and> confirmation_attributed h \<and> engagement_origin_coherent h"

definition parse_engagement_head :: "engagement_head \<Rightarrow> ('c, engagement_head) outcome" where
  "parse_engagement_head h = (if engagement_head_schema h then Inr h else Inl SchemaErr)"

fun response_action_schema :: "string option \<Rightarrow> response_action \<Rightarrow> bool" where
  "response_action_schema actor (Record_confirmation who person) \<longleftrightarrow> pred_option vocabulary_id actor
     \<and> pred_option vocabulary_id person \<and> (who = By_co_speaker) = (person \<noteq> None) \<and> (who = By_organizer) = (actor \<noteq> None)"
| "response_action_schema actor Decline \<longleftrightarrow> pred_option vocabulary_id actor"
| "response_action_schema actor (Request_cancellation _ note) \<longleftrightarrow> actor \<noteq> None \<and> pred_option vocabulary_id actor
     \<and> pred_option (canonical_text 500) note"
| "response_action_schema actor Withdraw_cancellation \<longleftrightarrow> actor \<noteq> None \<and> pred_option vocabulary_id actor"
| "response_action_schema actor Accept_cancellation \<longleftrightarrow> actor \<noteq> None \<and> pred_option vocabulary_id actor"

definition response_input_schema :: "response_input \<Rightarrow> bool" where
  "response_input_schema i \<longleftrightarrow> scope_ok (ri_scope i) \<and> session_instant (ri_occurredAt i) \<and> vocabulary_id (ri_engagementId i)
     \<and> positive_safe (ri_expectedVersion i) \<and> response_action_schema (ri_actorUserId i) (ri_action i)"

definition response_plan_schema :: "response_plan \<Rightarrow> bool" where
  "response_plan_schema p \<longleftrightarrow> response_input_schema (rl_input p) \<and> engagement_head_schema (rl_before p)
     \<and> engagement_head_schema (rl_after p)
     \<and> eh_id (rl_before p) = ri_engagementId (rl_input p) \<and> eh_id (rl_after p) = ri_engagementId (rl_input p)
     \<and> eh_version (rl_before p) = ri_expectedVersion (rl_input p) \<and> eh_version (rl_after p) = eh_version (rl_before p) + 1
     \<and> eh_sessionId (rl_before p) = eh_sessionId (rl_after p) \<and> eh_personId (rl_before p) = eh_personId (rl_after p)
     \<and> eh_submissionId (rl_before p) = eh_submissionId (rl_after p)
     \<and> eh_seededByDecision (rl_before p) = eh_seededByDecision (rl_after p)"

text \<open>The wire of the operator: the only attribution is the organizer's own record.\<close>

fun author_action_accepts :: "response_action \<Rightarrow> bool" where
  "author_action_accepts (Record_confirmation who person) \<longleftrightarrow> who = By_organizer \<and> person = None"
| "author_action_accepts (Request_cancellation _ note) \<longleftrightarrow> pred_option (canonical_text 500) note"
| "author_action_accepts _ \<longleftrightarrow> True"

definition author_response_accepts :: "author_response \<Rightarrow> bool" where
  "author_response_accepts a \<longleftrightarrow> accepted_id (ar_engagementId a) \<and> positive_safe (ar_expectedVersion a)
     \<and> author_action_accepts (ar_action a)"

definition seed_input_schema :: "seed_input \<Rightarrow> bool" where
  "seed_input_schema i \<longleftrightarrow> scope_ok (si_seedScope i) \<and> vocabulary_id (si_sessionId i) \<and> vocabulary_id (si_submissionId i)
     \<and> provenance_schema (si_seededByDecision i) \<and> roster_source_schema (si_source i)
     \<and> list_all vocabulary_id (si_personIds i) \<and> 1 \<le> length (si_personIds i) \<and> length (si_personIds i) \<le> 500
     \<and> session_instant (si_invitedAt i) \<and> pred_option session_instant (si_respondBy i)
     \<and> strictly_ordered (si_personIds i)
     \<and> (ro_kind (si_source i) = ''submission'' \<longrightarrow> ro_id (si_source i) = si_submissionId i)"

definition seeded_image :: "seed_input \<Rightarrow> string \<times> engagement_head \<Rightarrow> bool" where
  "seeded_image i row \<longleftrightarrow> (let h = snd row in eh_personId h = fst row \<and> eh_state h = Es_invited \<and> eh_version h = 1
     \<and> eh_confirmation h = None \<and> eh_cancellationRequest h = None \<and> eh_cancelledAt h = None
     \<and> eh_sessionId h = si_sessionId i \<and> eh_submissionId h = Some (si_submissionId i)
     \<and> eh_seededByDecision h = Some (si_seededByDecision i) \<and> eh_invitedAt h = si_invitedAt i
     \<and> eh_respondBy h = si_respondBy i \<and> same_scope (eh_scope h) (si_seedScope i))"

definition seed_rows_schema :: "(string \<times> engagement_head) list \<Rightarrow> bool" where
  "seed_rows_schema rows \<longleftrightarrow> list_all (\<lambda>(personId, h). vocabulary_id personId \<and> engagement_head_schema h) rows \<and> length rows \<le> 500"

definition seed_plan_schema :: "seed_plan \<Rightarrow> bool" where
  "seed_plan_schema p \<longleftrightarrow> seed_input_schema (sp_input p) \<and> seed_rows_schema (sp_rows p)
     \<and> list_all vocabulary_id (sp_skipped p) \<and> length (sp_skipped p) \<le> 500
     \<and> js_sort js_compare (map fst (sp_rows p) @ sp_skipped p) = si_personIds (sp_input p)
     \<and> list_all (seeded_image (sp_input p)) (sp_rows p)"

definition seed_reversal_schema :: "seed_reversal_plan \<Rightarrow> bool" where
  "seed_reversal_schema p \<longleftrightarrow> scope_ok (sr_scope p) \<and> vocabulary_id (sr_sessionId p) \<and> vocabulary_id (sr_submissionId p)
     \<and> provenance_schema (sr_seededByDecision p) \<and> seed_rows_schema (sr_rows p)
     \<and> list_all (\<lambda>(personId, h). eh_personId h = personId \<and> eh_sessionId h = sr_sessionId p
         \<and> eh_submissionId h = Some (sr_submissionId p) \<and> eh_seededByDecision h = Some (sr_seededByDecision p)
         \<and> eh_state h = Es_invited \<and> eh_version h = 1) (sr_rows p)
     \<and> strictly_ordered (map fst (sr_rows p))"

definition invite_input_schema :: "invite_input \<Rightarrow> bool" where
  "invite_input_schema i \<longleftrightarrow> scope_ok (ii_scope i) \<and> vocabulary_id (ii_sessionId i) \<and> vocabulary_id (ii_personId i)
     \<and> roster_source_schema (ii_source i) \<and> session_instant (ii_invitedAt i) \<and> pred_option session_instant (ii_respondBy i)"

definition invited_image :: "invite_input \<Rightarrow> engagement_head \<Rightarrow> bool" where
  "invited_image i h \<longleftrightarrow> eh_submissionId h = None \<and> eh_seededByDecision h = None \<and> eh_state h = Es_invited
     \<and> eh_invitedAt h = ii_invitedAt i \<and> eh_respondBy h = ii_respondBy i \<and> eh_confirmation h = None
     \<and> eh_cancellationRequest h = None \<and> eh_cancelledAt h = None \<and> eh_version h = 1"

definition invite_plan_schema :: "invite_plan \<Rightarrow> bool" where
  "invite_plan_schema p \<longleftrightarrow> invite_input_schema (ip_input p) \<and> pred_option engagement_head_schema (ip_existing p)
     \<and> pred_option engagement_head_schema (ip_create p) \<and> (ip_existing p = None) \<noteq> (ip_create p = None)
     \<and> (let h = (case ip_existing p of Some x \<Rightarrow> x | None \<Rightarrow> the (ip_create p)) in
        same_scope (eh_scope h) (ii_scope (ip_input p)) \<and> eh_sessionId h = ii_sessionId (ip_input p)
        \<and> eh_personId h = ii_personId (ip_input p) \<and> eh_source h = ii_source (ip_input p))
     \<and> pred_option (invited_image (ip_input p)) (ip_create p)"

section \<open>Canonical JSON\<close>

fun engagement_state_text :: "engagement_state \<Rightarrow> string" where
  "engagement_state_text Es_invited = ''invited''"
| "engagement_state_text Es_confirmed = ''confirmed''"
| "engagement_state_text Es_declined = ''declined''"
| "engagement_state_text Es_cancelled = ''cancelled''"

fun attribution_text :: "attribution \<Rightarrow> string" where
  "attribution_text By_self = ''self''"
| "attribution_text By_co_speaker = ''co_speaker''"
| "attribution_text By_organizer = ''organizer_recorded''"

fun requester_text :: "requester \<Rightarrow> string" where
  "requester_text From_speaker = ''speaker''"
| "requester_text From_organizer = ''organizer''"

definition provenance_json :: "seed_provenance \<Rightarrow> json" where
  "provenance_json p = JObj [(''version'', JNum (sv_version p)), (''digestSha256'', JStr (sv_digest p))]"

definition cancellation_request_json :: "cancellation_request \<Rightarrow> json" where
  "cancellation_request_json r = JObj [(''requestedBy'', JStr (requester_text (cq_requestedBy r))),
     (''requestedAt'', JStr (cq_requestedAt r)), (''note'', null_or JStr (cq_note r))]"

definition confirmation_json :: "confirmation \<Rightarrow> json" where
  "confirmation_json c = JObj [(''attribution'', JStr (attribution_text (cf_attribution c))), (''personId'', JStr (cf_personId c)),
     (''recordedByUserId'', null_or JStr (cf_recordedByUserId c)), (''confirmedAt'', JStr (cf_confirmedAt c))]"

definition engagement_head_json :: "engagement_head \<Rightarrow> json" where
  "engagement_head_json h = JObj [(''schemaVersion'', JNum 1), (''id'', JStr (eh_id h)), (''scope'', break_scope_json (eh_scope h)),
     (''sessionId'', JStr (eh_sessionId h)), (''personId'', JStr (eh_personId h)), (''submissionId'', null_or JStr (eh_submissionId h)),
     (''seededByDecision'', null_or provenance_json (eh_seededByDecision h)), (''state'', JStr (engagement_state_text (eh_state h))),
     (''invitedAt'', JStr (eh_invitedAt h)), (''respondBy'', null_or JStr (eh_respondBy h)),
     (''confirmation'', null_or confirmation_json (eh_confirmation h)),
     (''cancellationRequest'', null_or cancellation_request_json (eh_cancellationRequest h)),
     (''cancelledAt'', null_or JStr (eh_cancelledAt h)), (''source'', roster_source_json (eh_source h)), (''version'', JNum (eh_version h))]"

fun response_action_text :: "response_action \<Rightarrow> string" where
  "response_action_text (Record_confirmation _ _) = ''record_confirmation''"
| "response_action_text Decline = ''decline''"
| "response_action_text (Request_cancellation _ _) = ''request_cancellation''"
| "response_action_text Withdraw_cancellation = ''withdraw_cancellation''"
| "response_action_text Accept_cancellation = ''accept_cancellation''"

fun response_action_entries :: "response_action \<Rightarrow> (string \<times> json) list" where
  "response_action_entries (Record_confirmation who person) = (''attribution'', JStr (attribution_text who))
     # optional_entry ''confirmingPersonId'' JStr person"
| "response_action_entries (Request_cancellation who note) = (''requestedBy'', JStr (requester_text who)) # optional_entry ''note'' JStr note"
| "response_action_entries _ = []"

definition response_input_json :: "response_input \<Rightarrow> json" where
  "response_input_json i = JObj ([(''action'', JStr (response_action_text (ri_action i))), (''scope'', break_scope_json (ri_scope i)),
     (''occurredAt'', JStr (ri_occurredAt i)), (''engagementId'', JStr (ri_engagementId i)),
     (''expectedEngagementVersion'', JNum (ri_expectedVersion i))] @ optional_entry ''actorUserId'' JStr (ri_actorUserId i)
     @ response_action_entries (ri_action i))"

definition response_plan_json :: "response_plan \<Rightarrow> json" where
  "response_plan_json p = JObj [(''input'', response_input_json (rl_input p)), (''before'', engagement_head_json (rl_before p)),
     (''after'', engagement_head_json (rl_after p))]"

definition seed_input_json :: "seed_input \<Rightarrow> json" where
  "seed_input_json i = JObj [(''scope'', break_scope_json (si_seedScope i)), (''sessionId'', JStr (si_sessionId i)),
     (''submissionId'', JStr (si_submissionId i)), (''seededByDecision'', provenance_json (si_seededByDecision i)),
     (''source'', roster_source_json (si_source i)), (''personIds'', JArr (map JStr (si_personIds i))),
     (''invitedAt'', JStr (si_invitedAt i)), (''respondBy'', null_or JStr (si_respondBy i))]"

definition seed_row_json :: "string \<Rightarrow> string \<times> engagement_head \<Rightarrow> json" where
  "seed_row_json key row = JObj [(''personId'', JStr (fst row)), (key, engagement_head_json (snd row))]"

definition seed_plan_json :: "seed_plan \<Rightarrow> json" where
  "seed_plan_json p = JObj [(''input'', seed_input_json (sp_input p)), (''rows'', JArr (map (seed_row_json ''head'') (sp_rows p))),
     (''skippedPersonIds'', JArr (map JStr (sp_skipped p)))]"

definition seed_reversal_json :: "seed_reversal_plan \<Rightarrow> json" where
  "seed_reversal_json p = JObj [(''action'', JStr ''seed_reversal''), (''scope'', break_scope_json (sr_scope p)),
     (''sessionId'', JStr (sr_sessionId p)), (''submissionId'', JStr (sr_submissionId p)),
     (''seededByDecision'', provenance_json (sr_seededByDecision p)),
     (''rows'', JArr (map (seed_row_json ''expectedCurrent'') (sr_rows p)))]"

definition invite_input_json :: "invite_input \<Rightarrow> json" where
  "invite_input_json i = JObj [(''scope'', break_scope_json (ii_scope i)), (''sessionId'', JStr (ii_sessionId i)),
     (''personId'', JStr (ii_personId i)), (''source'', roster_source_json (ii_source i)), (''invitedAt'', JStr (ii_invitedAt i)),
     (''respondBy'', null_or JStr (ii_respondBy i))]"

definition invite_plan_json :: "invite_plan \<Rightarrow> json" where
  "invite_plan_json p = JObj [(''input'', invite_input_json (ip_input p)), (''existing'', null_or engagement_head_json (ip_existing p)),
     (''create'', null_or engagement_head_json (ip_create p))]"


section \<open>Responses\<close>

definition refuse_engagement :: "engagement_code \<Rightarrow> string \<Rightarrow> 'a engagements" where
  "refuse_engagement code engagementId = Inl (Refused (Engagement_refused code engagementId))"

definition open_state :: "engagement_state \<Rightarrow> bool" where
  "open_state s \<longleftrightarrow> s = Es_invited \<or> s = Es_confirmed"

text \<open>The image of a response; the confirming person of a co-speaker is present by the schema of the input.\<close>

definition recorded_confirmation :: "engagement_head \<Rightarrow> response_input \<Rightarrow> attribution \<Rightarrow> string option \<Rightarrow> confirmation" where
  "recorded_confirmation before i who person = \<lparr> cf_attribution = who,
     cf_personId = (if who = By_co_speaker then the person else eh_personId before),
     cf_recordedByUserId = (if who = By_organizer then ri_actorUserId i else None), cf_confirmedAt = ri_occurredAt i \<rparr>"

fun respond :: "engagement_head \<Rightarrow> response_input \<Rightarrow> response_action \<Rightarrow> engagement_head engagements" where
  "respond before i (Record_confirmation who person) =
     (if eh_state before \<noteq> Es_invited then refuse_engagement E_invalid_transition (ri_engagementId i)
      else if who = By_co_speaker \<and> person = Some (eh_personId before) then refuse_engagement E_invalid_plan (ri_engagementId i)
      else parse_engagement_head (before \<lparr> eh_state := Es_confirmed,
        eh_confirmation := Some (recorded_confirmation before i who person), eh_version := eh_version before + 1 \<rparr>))"
| "respond before i Decline =
     (if eh_state before \<noteq> Es_invited then refuse_engagement E_invalid_transition (ri_engagementId i)
      else parse_engagement_head (before \<lparr> eh_state := Es_declined, eh_cancellationRequest := None,
        eh_version := eh_version before + 1 \<rparr>))"
| "respond before i (Request_cancellation who note) =
     (if \<not> open_state (eh_state before) then refuse_engagement E_invalid_transition (ri_engagementId i)
      else if eh_cancellationRequest before \<noteq> None then refuse_engagement E_already_requested (ri_engagementId i)
      else parse_engagement_head (before \<lparr> eh_cancellationRequest := Some \<lparr> cq_requestedBy = who,
        cq_requestedAt = ri_occurredAt i, cq_note = note \<rparr>, eh_version := eh_version before + 1 \<rparr>))"
| "respond before i Withdraw_cancellation =
     (if \<not> open_state (eh_state before) then refuse_engagement E_invalid_transition (ri_engagementId i)
      else if eh_cancellationRequest before = None then refuse_engagement E_not_requested (ri_engagementId i)
      else parse_engagement_head (before \<lparr> eh_cancellationRequest := None, eh_version := eh_version before + 1 \<rparr>))"
| "respond before i Accept_cancellation =
     (if \<not> open_state (eh_state before) then refuse_engagement E_invalid_transition (ri_engagementId i)
      else if eh_cancellationRequest before = None then refuse_engagement E_not_requested (ri_engagementId i)
      else parse_engagement_head (before \<lparr> eh_state := Es_cancelled, eh_cancelledAt := Some (ri_occurredAt i),
        eh_version := eh_version before + 1 \<rparr>))"

definition plan_engagement_mutation :: "response_input \<Rightarrow> engagement_reads \<Rightarrow> response_plan engagements" where
  "plan_engagement_mutation i reads =
     (if \<not> response_input_schema i then Inl SchemaErr
      else case rd_engagementHead reads (ri_scope i) (ri_engagementId i) of
        None \<Rightarrow> refuse_engagement E_missing (ri_engagementId i)
      | Some before \<Rightarrow>
          if \<not> same_scope (eh_scope before) (ri_scope i) then refuse_engagement E_wrong_scope (ri_engagementId i)
          else if eh_version before \<noteq> ri_expectedVersion i then refuse_engagement E_stale (ri_engagementId i)
          else rbind (respond before i (ri_action i)) (\<lambda>after.
            let plan = \<lparr> rl_input = i, rl_before = before, rl_after = after \<rparr> in
            if response_plan_schema plan then Inr plan else Inl SchemaErr))"

definition engagement_refusal_from_error :: "engagement_error failure \<Rightarrow> string \<Rightarrow> engagement_code \<times> string" where
  "engagement_refusal_from_error e fallback =
     (case e of Refused (Engagement_refused code engagementId) \<Rightarrow> (code, engagementId) | _ \<Rightarrow> (E_invalid_plan, fallback))"

definition validate_engagement_plan :: "response_plan \<Rightarrow> engagement_reads \<Rightarrow> (engagement_code \<times> string) option" where
  "validate_engagement_plan p reads =
     (case plan_engagement_mutation (rl_input p) reads of
        Inl e \<Rightarrow> Some (engagement_refusal_from_error e (ri_engagementId (rl_input p)))
      | Inr rebuilt \<Rightarrow>
          if canonical (response_plan_json rebuilt) = canonical (response_plan_json p) then None
          else Some (E_invalid_plan, ri_engagementId (rl_input p)))"

text \<open>The result of a response; the collaborations that hosts add to it are theirs.\<close>

definition engagement_result_from_plan :: "response_plan \<Rightarrow> ('c, string \<times> engagement_head) outcome" where
  "engagement_result_from_plan p =
     (if engagement_head_schema (rl_after p) then Inr (response_action_text (ri_action (rl_input p)), rl_after p)
      else Inl SchemaErr)"

definition resolve_engagement_planning_input ::
  "author_response \<Rightarrow> vocabulary_scope \<Rightarrow> string \<Rightarrow> string \<Rightarrow> response_input engagements"
where
  "resolve_engagement_planning_input authored scope actor occurredAt =
     (if \<not> author_response_accepts authored then Inl SchemaErr
      else let i = \<lparr> ri_scope = scope, ri_actorUserId = Some actor, ri_occurredAt = occurredAt,
          ri_engagementId = to_lower (ar_engagementId authored), ri_expectedVersion = ar_expectedVersion authored,
          ri_action = ar_action authored \<rparr> in
        if response_input_schema i then Inr i else Inl SchemaErr)"

definition is_cancellation_requested :: "engagement_head \<Rightarrow> bool" where
  "is_cancellation_requested h \<longleftrightarrow> eh_state h \<noteq> Es_cancelled \<and> eh_cancellationRequest h \<noteq> None"

definition engagement_aggregate_id :: "string \<Rightarrow> string" where
  "engagement_aggregate_id engagementId = ''engagement_head:'' @ engagementId"

section \<open>Invitations by an acceptance\<close>

text \<open>The identifier of the one engagement of a session and a person, cut from the digest of the pair.\<close>

definition deterministic_engagement_id :: "(string \<Rightarrow> string) \<Rightarrow> vocabulary_scope \<Rightarrow> string \<Rightarrow> string \<Rightarrow> string" where
  "deterministic_engagement_id sha scope sessionId personId =
     (let hex = sha (canonical (JObj [(''domain'', JStr ''engagement_head''), (''workspaceId'', JStr (sc_workspaceId scope)),
        (''eventId'', JStr (sc_eventId scope)), (''sessionId'', JStr sessionId), (''personId'', JStr personId)]))
      in slice 0 8 hex @ ''-'' @ slice 8 12 hex @ ''-4'' @ slice 13 16 hex @ ''-8'' @ slice 17 20 hex @ ''-'' @ slice 20 32 hex)"

definition seeded_head :: "(string \<Rightarrow> string) \<Rightarrow> seed_input \<Rightarrow> string \<Rightarrow> engagement_head" where
  "seeded_head sha i personId = \<lparr> eh_id = deterministic_engagement_id sha (si_seedScope i) (si_sessionId i) personId,
     eh_scope = si_seedScope i, eh_sessionId = si_sessionId i, eh_personId = personId,
     eh_submissionId = Some (si_submissionId i), eh_seededByDecision = Some (si_seededByDecision i), eh_state = Es_invited,
     eh_invitedAt = si_invitedAt i, eh_respondBy = si_respondBy i, eh_confirmation = None, eh_cancellationRequest = None,
     eh_cancelledAt = None, eh_source = si_source i, eh_version = 1 \<rparr>"

text \<open>The loop over the people: those with an engagement are skipped.\<close>

fun seed_people ::
  "(string \<Rightarrow> string) \<Rightarrow> engagement_reads \<Rightarrow> seed_input \<Rightarrow> string list \<Rightarrow> ((string \<times> engagement_head) list \<times> string list) seeds"
where
  "seed_people sha reads i [] = Inr ([], [])"
| "seed_people sha reads i (personId # persons) =
     (if rd_sessionPerson reads (si_seedScope i) (si_sessionId i) personId \<noteq> None
      then rbind (seed_people sha reads i persons) (\<lambda>(rows, skipped). Inr (rows, personId # skipped))
      else rbind (parse_engagement_head (seeded_head sha i personId)) (\<lambda>h.
        rbind (seed_people sha reads i persons) (\<lambda>(rows, skipped). Inr ((personId, h) # rows, skipped))))"

definition canonical_persons :: "string list \<Rightarrow> string list" where
  "canonical_persons persons = js_sort js_compare (remdups persons)"

definition plan_engagement_seed_from :: "(string \<Rightarrow> string) \<Rightarrow> engagement_reads \<Rightarrow> seed_input \<Rightarrow> seed_plan seeds" where
  "plan_engagement_seed_from sha reads input =
     (let i = input \<lparr> si_personIds := canonical_persons (si_personIds input) \<rparr> in
      if \<not> seed_input_schema i then Inl SchemaErr
      else rbind (seed_people sha reads i (si_personIds i)) (\<lambda>(rows, skipped).
        let plan = \<lparr> sp_input = i, sp_rows = rows, sp_skipped = skipped \<rparr> in
        if seed_plan_schema plan then Inr plan else Inl SchemaErr))"

definition seed_code_of :: "seed_error failure \<Rightarrow> seed_code" where
  "seed_code_of e = (case e of Refused (Seed_refused code _) \<Rightarrow> code | _ \<Rightarrow> Seed_invalid_plan)"

text \<open>Validations answer a code, or \<open>None\<close> for ready.\<close>

definition validate_engagement_seed_from :: "(string \<Rightarrow> string) \<Rightarrow> engagement_reads \<Rightarrow> seed_plan \<Rightarrow> seed_code option" where
  "validate_engagement_seed_from sha reads p =
     (case plan_engagement_seed_from sha reads (sp_input p) of
        Inl e \<Rightarrow> Some (seed_code_of e)
      | Inr rebuilt \<Rightarrow> if canonical (seed_plan_json rebuilt) = canonical (seed_plan_json p) then None else Some Seed_stale)"

text \<open>The rows one acceptance seeded, which must still be as it seeded them.\<close>

definition untouched_invitation :: "engagement_head \<Rightarrow> bool" where
  "untouched_invitation h \<longleftrightarrow> eh_state h = Es_invited \<and> eh_version h = 1 \<and> eh_confirmation h = None \<and> eh_cancellationRequest h = None"

definition reversal_row :: "engagement_head \<Rightarrow> (string \<times> engagement_head) seeds" where
  "reversal_row h = (if untouched_invitation h then Inr (eh_personId h, h)
     else Inl (Refused (Seed_refused Engagement_advanced (Some (eh_personId h)))))"

definition plan_engagement_seed_reversal_from ::
  "engagement_reads \<Rightarrow> vocabulary_scope \<Rightarrow> string \<Rightarrow> string \<Rightarrow> seed_provenance \<Rightarrow> seed_reversal_plan seeds"
where
  "plan_engagement_seed_reversal_from reads scope sessionId submissionId pin =
     (if \<not> (scope_ok scope \<and> provenance_schema pin) then Inl SchemaErr
      else rbind (traverse reversal_row (filter (\<lambda>h. eh_seededByDecision h = Some pin)
          (rd_listSeeded reads scope sessionId submissionId))) (\<lambda>rows.
        let plan = \<lparr> sr_scope = scope, sr_sessionId = sessionId, sr_submissionId = submissionId,
          sr_seededByDecision = pin, sr_rows = rows \<rparr> in
        if seed_reversal_schema plan then Inr plan else Inl SchemaErr))"

definition validate_engagement_seed_reversal_from :: "engagement_reads \<Rightarrow> seed_reversal_plan \<Rightarrow> seed_code option" where
  "validate_engagement_seed_reversal_from reads p =
     (case plan_engagement_seed_reversal_from reads (sr_scope p) (sr_sessionId p) (sr_submissionId p) (sr_seededByDecision p) of
        Inl e \<Rightarrow> Some (seed_code_of e)
      | Inr rebuilt \<Rightarrow> if canonical (seed_reversal_json rebuilt) = canonical (seed_reversal_json p) then None else Some Seed_stale)"

record seed_result =
  se_action :: string
  se_sessionId :: string
  se_submissionId :: string
  se_seeded :: "engagement_head list"
  se_skipped :: "string list"
  se_removed :: "string list"

definition parse_seed_result :: "seed_result \<Rightarrow> ('c, seed_result) outcome" where
  "parse_seed_result r =
     (if vocabulary_id (se_sessionId r) \<and> vocabulary_id (se_submissionId r)
        \<and> list_all engagement_head_schema (se_seeded r) \<and> length (se_seeded r) \<le> 500
        \<and> list_all vocabulary_id (se_skipped r) \<and> length (se_skipped r) \<le> 500
        \<and> list_all vocabulary_id (se_removed r) \<and> length (se_removed r) \<le> 500
      then Inr r else Inl SchemaErr)"

definition engagement_seed_result_from_plan :: "seed_plan \<Rightarrow> ('c, seed_result) outcome" where
  "engagement_seed_result_from_plan p = parse_seed_result \<lparr> se_action = ''seed'', se_sessionId = si_sessionId (sp_input p),
     se_submissionId = si_submissionId (sp_input p), se_seeded = map snd (sp_rows p), se_skipped = sp_skipped p, se_removed = [] \<rparr>"

definition engagement_seed_result_from_reversal :: "seed_reversal_plan \<Rightarrow> ('c, seed_result) outcome" where
  "engagement_seed_result_from_reversal p = parse_seed_result \<lparr> se_action = ''seed_reversal'', se_sessionId = sr_sessionId p,
     se_submissionId = sr_submissionId p, se_seeded = [], se_skipped = [], se_removed = map fst (sr_rows p) \<rparr>"

section \<open>Invitations by an organizer\<close>

definition invited_head :: "(string \<Rightarrow> string) \<Rightarrow> invite_input \<Rightarrow> engagement_head" where
  "invited_head sha i = \<lparr> eh_id = deterministic_engagement_id sha (ii_scope i) (ii_sessionId i) (ii_personId i),
     eh_scope = ii_scope i, eh_sessionId = ii_sessionId i, eh_personId = ii_personId i, eh_submissionId = None,
     eh_seededByDecision = None, eh_state = Es_invited, eh_invitedAt = ii_invitedAt i, eh_respondBy = ii_respondBy i,
     eh_confirmation = None, eh_cancellationRequest = None, eh_cancelledAt = None, eh_source = ii_source i, eh_version = 1 \<rparr>"

definition plan_engagement_roster_invite_from :: "(string \<Rightarrow> string) \<Rightarrow> engagement_reads \<Rightarrow> invite_input \<Rightarrow> invite_plan seeds" where
  "plan_engagement_roster_invite_from sha reads i =
     (if \<not> invite_input_schema i then Inl SchemaErr
      else case rd_sessionPerson reads (ii_scope i) (ii_sessionId i) (ii_personId i) of
        Some existing \<Rightarrow> (let plan = \<lparr> ip_input = i, ip_existing = Some existing, ip_create = None \<rparr> in
          if invite_plan_schema plan then Inr plan else Inl SchemaErr)
      | None \<Rightarrow> rbind (parse_engagement_head (invited_head sha i)) (\<lambda>created.
          let plan = \<lparr> ip_input = i, ip_existing = None, ip_create = Some created \<rparr> in
          if invite_plan_schema plan then Inr plan else Inl SchemaErr))"

definition validate_engagement_roster_invite_from :: "(string \<Rightarrow> string) \<Rightarrow> engagement_reads \<Rightarrow> invite_plan \<Rightarrow> seed_code option" where
  "validate_engagement_roster_invite_from sha reads p =
     (if \<not> invite_plan_schema p then Some Seed_invalid_plan
      else case plan_engagement_roster_invite_from sha reads (ip_input p) of
        Inl _ \<Rightarrow> Some Seed_invalid_plan
      | Inr rebuilt \<Rightarrow> if canonical (invite_plan_json rebuilt) = canonical (invite_plan_json p) then None else Some Seed_stale)"

section \<open>The answer of a participant for a group\<close>

datatype group_response = Respond_confirm | Respond_decline

datatype group_refusal = Unknown_record | Engagement_not_open

record group_input =
  gq_scope :: vocabulary_scope
  gq_actingPersonId :: string
  gq_engagementId :: string
  gq_response :: group_response
  gq_occurredAt :: string

record group_act =
  ga_response :: group_response
  ga_actorPlan :: response_plan
  ga_siblingPlans :: "response_plan list"
  ga_sessionId :: string
  ga_submissionId :: "string option"
  ga_groupPersonIds :: "string list"
  ga_informedPersonIds :: "string list"

definition plan_for :: "engagement_reads \<Rightarrow> group_input \<Rightarrow> engagement_head \<Rightarrow> response_plan engagements" where
  "plan_for reads act head = plan_engagement_mutation \<lparr> ri_scope = gq_scope act, ri_actorUserId = None,
     ri_occurredAt = gq_occurredAt act, ri_engagementId = eh_id head, ri_expectedVersion = eh_version head,
     ri_action = (if gq_response act = Respond_decline then Decline
       else if eh_personId head = gq_actingPersonId act then Record_confirmation By_self None
       else Record_confirmation By_co_speaker (Some (gq_actingPersonId act))) \<rparr> reads"

fun is_state_refusal :: "engagement_error failure \<Rightarrow> bool" where
  "is_state_refusal (Refused (Engagement_refused code _)) = (code \<in> {E_invalid_transition, E_already_requested, E_not_requested})"
| "is_state_refusal _ = False"

text \<open>The loop over the group: the plan of the actor, if it was made, and those of the others.\<close>

fun plan_members ::
  "engagement_reads \<Rightarrow> group_input \<Rightarrow> engagement_head \<Rightarrow> engagement_head list
   \<Rightarrow> (group_refusal + (response_plan option \<times> response_plan list)) engagements"
where
  "plan_members reads act head [] = Inr (Inr (None, []))"
| "plan_members reads act head (member # members) =
     (if eh_state member \<noteq> Es_invited then plan_members reads act head members
      else case plan_for reads act member of
        Inl e \<Rightarrow>
          if is_state_refusal e
          then (if eh_id member \<noteq> eh_id head then plan_members reads act head members else Inr (Inl Engagement_not_open))
          else Inl e
      | Inr plan \<Rightarrow> rbind (plan_members reads act head members) (\<lambda>rest. Inr (case rest of
            Inl refusal \<Rightarrow> Inl refusal
          | Inr (actor, siblings) \<Rightarrow>
              if eh_id member = eh_id head then Inr (case actor of None \<Rightarrow> Some plan | Some later \<Rightarrow> Some later, siblings)
              else Inr (actor, plan # siblings))))"

definition group_valid :: "engagement_head \<Rightarrow> engagement_head list \<Rightarrow> bool" where
  "group_valid head people \<longleftrightarrow> (\<exists>m \<in> set people. eh_id m = eh_id head)
     \<and> list_all (\<lambda>m. eh_sessionId m = eh_sessionId head \<and> eh_submissionId m = eh_submissionId head) people
     \<and> strictly_ordered (map eh_personId people)"

definition plan_participant_group_act ::
  "engagement_reads \<Rightarrow> group_input \<Rightarrow> (group_refusal + group_act) engagements"
where
  "plan_participant_group_act reads act =
     (case rd_engagementHead reads (gq_scope act) (gq_engagementId act) of
        None \<Rightarrow> Inr (Inl Unknown_record)
      | Some head \<Rightarrow>
          if \<not> same_scope (eh_scope head) (gq_scope act) then Inr (Inl Unknown_record)
          else if eh_personId head \<noteq> gq_actingPersonId act then Inr (Inl Unknown_record)
          else if eh_state head \<noteq> Es_invited then Inr (Inl Engagement_not_open)
          else let people = (case eh_submissionId head of None \<Rightarrow> [head]
              | Some submission \<Rightarrow> rd_listSeeded reads (gq_scope act) (eh_sessionId head) submission) in
          if \<not> group_valid head people then Inl TypeErr
          else rbind (plan_members reads act head people) (\<lambda>planned. Inr (case planned of
              Inl refusal \<Rightarrow> Inl refusal
            | Inr (None, _) \<Rightarrow> Inl Engagement_not_open
            | Inr (Some actor, siblings) \<Rightarrow> Inr \<lparr> ga_response = gq_response act, ga_actorPlan = actor,
                ga_siblingPlans = siblings, ga_sessionId = eh_sessionId head, ga_submissionId = eh_submissionId head,
                ga_groupPersonIds = map eh_personId people,
                ga_informedPersonIds = filter (\<lambda>p. p \<noteq> gq_actingPersonId act) (map eh_personId people) \<rparr>)))"

section \<open>The table of engagements\<close>

text \<open>
  The rows of \<open>engagement_heads\<close> and the scopes of the events that exist. A row is its head, whose fields the
  other columns repeat; statements name the scope that they look in. The primary key of a row is its scope
  and identifier, its unique key scope, session and person. \<open>known\<close> stands for the table of sessions that a
  foreign key refers to. Stored texts are parsed when they are read; a row that does not parse is not
  written by these statements. The ranges that \<open>CHECK\<close> clauses set for instants are left out.
\<close>

record engagement_table =
  tb_events :: "vocabulary_scope list"
  tb_rows :: "engagement_head list"

datatype table_error = Seed_conflict | Stale_engagement | Key_violated

type_synonym 'a tables = "(table_error, 'a) outcome"

definition table_reads :: "engagement_table \<Rightarrow> engagement_reads" where
  "table_reads t = \<lparr>
     rd_engagementHead = (\<lambda>scope i. if scope \<in> set (tb_events t)
       then find (\<lambda>h. eh_scope h = scope \<and> eh_id h = i) (tb_rows t) else None),
     rd_sessionPerson = (\<lambda>scope sessionId personId. if scope \<in> set (tb_events t)
       then find (\<lambda>h. eh_scope h = scope \<and> eh_sessionId h = sessionId \<and> eh_personId h = personId) (tb_rows t) else None),
     rd_listSeeded = (\<lambda>scope sessionId submissionId. if scope \<in> set (tb_events t)
       then js_sort (\<lambda>l r. js_compare (eh_personId l) (eh_personId r))
         (filter (\<lambda>h. eh_scope h = scope \<and> eh_submissionId h = Some submissionId \<and> eh_sessionId h = sessionId) (tb_rows t))
       else []) \<rparr>"

definition insert_engagement ::
  "(vocabulary_scope \<Rightarrow> string \<Rightarrow> bool) \<Rightarrow> engagement_head \<Rightarrow> engagement_table \<Rightarrow> engagement_table tables"
where
  "insert_engagement known h t =
     (if eh_scope h \<notin> set (tb_events t)
        \<or> (\<exists>r \<in> set (tb_rows t). eh_scope r = eh_scope h \<and> eh_sessionId r = eh_sessionId h \<and> eh_personId r = eh_personId h)
      then Inl (Refused Seed_conflict)
      else if (\<exists>r \<in> set (tb_rows t). eh_scope r = eh_scope h \<and> eh_id r = eh_id h) \<or> \<not> known (eh_scope h) (eh_sessionId h)
      then Inl (Refused Key_violated)
      else Inr (t \<lparr> tb_rows := tb_rows t @ [h] \<rparr>))"

definition row_is :: "vocabulary_scope \<Rightarrow> engagement_head \<Rightarrow> engagement_head \<Rightarrow> bool" where
  "row_is scope expected r \<longleftrightarrow> eh_scope r = scope \<and> eh_id r = eh_id expected \<and> eh_version r = eh_version expected
     \<and> canonical (engagement_head_json r) = canonical (engagement_head_json expected)"

text \<open>A statement that must change exactly one row; identity and provenance are protected by triggers.\<close>

definition update_engagement ::
  "vocabulary_scope \<Rightarrow> engagement_head \<Rightarrow> engagement_head \<Rightarrow> engagement_table \<Rightarrow> engagement_table tables"
where
  "update_engagement scope expected after t =
     (if length (filter (row_is scope expected) (tb_rows t)) \<noteq> 1 then Inl (Refused Stale_engagement)
      else if eh_seededByDecision after \<noteq> eh_seededByDecision expected then Inl (Refused Key_violated)
      else Inr (t \<lparr> tb_rows := map (\<lambda>r. if row_is scope expected r then after else r) (tb_rows t) \<rparr>))"

definition delete_seeded_engagement :: "vocabulary_scope \<Rightarrow> engagement_head \<Rightarrow> engagement_table \<Rightarrow> engagement_table tables" where
  "delete_seeded_engagement scope expected t =
     (let hit = (\<lambda>r. eh_scope r = scope \<and> eh_id r = eh_id expected \<and> eh_version r = 1 \<and> eh_state r = Es_invited
        \<and> canonical (engagement_head_json r) = canonical (engagement_head_json expected)) in
      if length (filter hit (tb_rows t)) \<noteq> 1 then Inl (Refused Stale_engagement)
      else Inr (t \<lparr> tb_rows := filter (\<lambda>r. \<not> hit r) (tb_rows t) \<rparr>))"

text \<open>\<open>for (const row of rows) statement(row)\<close>.\<close>

fun each_row :: "('r \<Rightarrow> 't \<Rightarrow> ('c, 't) outcome) \<Rightarrow> 'r list \<Rightarrow> 't \<Rightarrow> ('c, 't) outcome" where
  "each_row statement [] t = Inr t"
| "each_row statement (r # rows) t = rbind (statement r t) (each_row statement rows)"

definition apply_engagement_plan :: "response_plan \<Rightarrow> engagement_table \<Rightarrow> (engagement_table \<times> string \<times> engagement_head) tables" where
  "apply_engagement_plan p t =
     (if \<not> response_plan_schema p then Inl SchemaErr
      else rbind (update_engagement (ri_scope (rl_input p)) (rl_before p) (rl_after p) t) (\<lambda>t'.
        rbind (engagement_result_from_plan p) (\<lambda>r. Inr (t', r))))"

definition apply_engagement_seed ::
  "(vocabulary_scope \<Rightarrow> string \<Rightarrow> bool) \<Rightarrow> seed_plan \<Rightarrow> engagement_table \<Rightarrow> (engagement_table \<times> seed_result) tables"
where
  "apply_engagement_seed known p t =
     (if \<not> seed_plan_schema p then Inl SchemaErr
      else rbind (each_row (insert_engagement known) (map snd (sp_rows p)) t) (\<lambda>t'.
        rbind (engagement_seed_result_from_plan p) (\<lambda>r. Inr (t', r))))"

definition apply_engagement_seed_reversal :: "seed_reversal_plan \<Rightarrow> engagement_table \<Rightarrow> (engagement_table \<times> seed_result) tables" where
  "apply_engagement_seed_reversal p t =
     (if \<not> seed_reversal_schema p then Inl SchemaErr
      else rbind (each_row (delete_seeded_engagement (sr_scope p)) (map snd (sr_rows p)) t) (\<lambda>t'.
        rbind (engagement_seed_result_from_reversal p) (\<lambda>r. Inr (t', r))))"

definition apply_engagement_roster_invite ::
  "(vocabulary_scope \<Rightarrow> string \<Rightarrow> bool) \<Rightarrow> invite_plan \<Rightarrow> engagement_table \<Rightarrow> (engagement_table \<times> engagement_head) tables"
where
  "apply_engagement_roster_invite known p t =
     (if \<not> invite_plan_schema p then Inl SchemaErr
      else let current = rd_sessionPerson (table_reads t) (ii_scope (ip_input p)) (ii_sessionId (ip_input p)) (ii_personId (ip_input p)) in
      case ip_existing p of
        Some existing \<Rightarrow> (case current of
            Some c \<Rightarrow> if canonical (engagement_head_json c) = canonical (engagement_head_json existing) then Inr (t, c)
              else Inl (Refused Seed_conflict)
          | None \<Rightarrow> Inl (Refused Seed_conflict))
      | None \<Rightarrow> (case (current, ip_create p) of
            (None, Some created) \<Rightarrow> rbind (insert_engagement known created t) (\<lambda>t'. Inr (t', created))
          | _ \<Rightarrow> Inl (Refused Seed_conflict)))"

end
