(* ===== verification/EngagementChanges.thy ===== *)
theory EngagementChanges
  imports Engagement
begin

text \<open>
  The library of engagements: their canonical JSON, the state machine that the responses follow, the table
  and its invariant \<open>engagement_table_ok\<close>, the effect of every statement on it, and the step relation over the
  table with what its histories keep. The properties are in \<open>EngagementHistory\<close>.
\<close>

section \<open>The canonical JSON determines the values\<close>

lemma engagement_state_text_inject: "engagement_state_text a = engagement_state_text b \<longleftrightarrow> a = b"
  by (cases a; cases b) simp_all

lemma attribution_text_inject: "attribution_text a = attribution_text b \<longleftrightarrow> a = b"
  by (cases a; cases b) simp_all

lemma requester_text_inject: "requester_text a = requester_text b \<longleftrightarrow> a = b"
  by (cases a; cases b) simp_all

lemma provenance_json_inject: "canon (provenance_json a) = canon (provenance_json b) \<longleftrightarrow> a = b"
  by (cases a; cases b) (auto simp: provenance_json_def canon_obj_iff simp del: canon.simps(2))

lemma cancellation_request_json_inject: "canon (cancellation_request_json a) = canon (cancellation_request_json b) \<longleftrightarrow> a = b"
  by (cases a; cases b) (auto simp: cancellation_request_json_def canon_obj_iff requester_text_inject null_or_text_inject
      simp del: canon.simps(2))

lemma confirmation_json_inject: "canon (confirmation_json a) = canon (confirmation_json b) \<longleftrightarrow> a = b"
  by (cases a; cases b) (auto simp: confirmation_json_def canon_obj_iff attribution_text_inject null_or_text_inject
      simp del: canon.simps(2))

lemma engagement_head_json_inject: "canon (engagement_head_json a) = canon (engagement_head_json b) \<longleftrightarrow> a = b"
proof -
  have "canon (null_or provenance_json x) = canon (null_or provenance_json y) \<longleftrightarrow> x = y" for x y
    by (rule null_or_inject [OF provenance_json_inject]) (simp add: provenance_json_def)
  moreover have "canon (null_or confirmation_json x) = canon (null_or confirmation_json y) \<longleftrightarrow> x = y" for x y
    by (rule null_or_inject [OF confirmation_json_inject]) (simp add: confirmation_json_def)
  moreover have "canon (null_or cancellation_request_json x) = canon (null_or cancellation_request_json y) \<longleftrightarrow> x = y" for x y
    by (rule null_or_inject [OF cancellation_request_json_inject]) (simp add: cancellation_request_json_def)
  ultimately show ?thesis
    by (cases a; cases b) (auto simp: engagement_head_json_def canon_obj_iff break_scope_json_inject null_or_text_inject
        engagement_state_text_inject roster_source_json_inject simp del: canon.simps(2))
qed

text \<open>The entries of a response that may be absent are found by their keys.\<close>

definition response_keys :: "response_input \<Rightarrow> string list" where
  "response_keys i = map fst ([(''action'', JStr (response_action_text (ri_action i))), (''scope'', break_scope_json (ri_scope i)),
     (''occurredAt'', JStr (ri_occurredAt i)), (''engagementId'', JStr (ri_engagementId i)),
     (''expectedEngagementVersion'', JNum (ri_expectedVersion i))] @ optional_entry ''actorUserId'' JStr (ri_actorUserId i)
     @ response_action_entries (ri_action i))"

lemma response_keys_distinct: "distinct (response_keys i)"
  by (cases "ri_action i") (simp_all add: response_keys_def optional_entry_def split: option.split)

lemma response_input_lookup:
  assumes "canon (response_input_json a) = canon (response_input_json b)"
  shows "response_action_text (ri_action a) = response_action_text (ri_action b)" "ri_scope a = ri_scope b"
    "ri_occurredAt a = ri_occurredAt b" "ri_engagementId a = ri_engagementId b" "ri_expectedVersion a = ri_expectedVersion b"
    "map_option canon (map_of (optional_entry ''actorUserId'' JStr (ri_actorUserId a) @ response_action_entries (ri_action a)) k)
     = map_option canon (map_of (optional_entry ''actorUserId'' JStr (ri_actorUserId b) @ response_action_entries (ri_action b)) k)
     \<or> k \<in> {''action'', ''scope'', ''occurredAt'', ''engagementId'', ''expectedEngagementVersion''}"
proof -
  note look = canon_obj_lookup [OF assms [unfolded response_input_json_def]
      response_keys_distinct [of a, unfolded response_keys_def] response_keys_distinct [of b, unfolded response_keys_def]]
  show "response_action_text (ri_action a) = response_action_text (ri_action b)" using look [of "''action''"] by simp
  show "ri_scope a = ri_scope b" using look [of "''scope''"] by (simp add: break_scope_json_inject)
  show "ri_occurredAt a = ri_occurredAt b" using look [of "''occurredAt''"] by simp
  show "ri_engagementId a = ri_engagementId b" using look [of "''engagementId''"] by simp
  show "ri_expectedVersion a = ri_expectedVersion b" using look [of "''expectedEngagementVersion''"] by simp
  show "map_option canon (map_of (optional_entry ''actorUserId'' JStr (ri_actorUserId a) @ response_action_entries (ri_action a)) k)
     = map_option canon (map_of (optional_entry ''actorUserId'' JStr (ri_actorUserId b) @ response_action_entries (ri_action b)) k)
     \<or> k \<in> {''action'', ''scope'', ''occurredAt'', ''engagementId'', ''expectedEngagementVersion''}"
    using look [of k] by (auto split: if_splits)
qed

lemma response_lookups:
  fixes u x
  defines "entries \<equiv> optional_entry ''actorUserId'' JStr u @ response_action_entries x"
  shows "map_of entries ''actorUserId'' = map_option JStr u"
    and "map_of entries ''attribution'' = (case x of Record_confirmation who _ \<Rightarrow> Some (JStr (attribution_text who)) | _ \<Rightarrow> None)"
    and "map_of entries ''confirmingPersonId'' = (case x of Record_confirmation _ person \<Rightarrow> map_option JStr person | _ \<Rightarrow> None)"
    and "map_of entries ''requestedBy'' = (case x of Request_cancellation who _ \<Rightarrow> Some (JStr (requester_text who)) | _ \<Rightarrow> None)"
    and "map_of entries ''note'' = (case x of Request_cancellation _ remark \<Rightarrow> map_option JStr remark | _ \<Rightarrow> None)"
  unfolding entries_def by (cases u; cases x; simp add: optional_entry_def split: option.split)+

lemma some_text_inject: "map_option canon (map_option JStr x) = map_option canon (map_option JStr y) \<longleftrightarrow> x = y"
  by (cases x; cases y) simp_all

lemma response_input_json_inject: "canon (response_input_json a) = canon (response_input_json b) \<longleftrightarrow> a = b"
proof
  assume eq: "canon (response_input_json a) = canon (response_input_json b)"
  note l = response_input_lookup [OF eq]
  note k = l(6) [of "''actorUserId''"] l(6) [of "''attribution''"] l(6) [of "''confirmingPersonId''"]
    l(6) [of "''requestedBy''"] l(6) [of "''note''"]
  note k' = k [unfolded response_lookups, simplified some_text_inject, simplified]
  from k'(1) have "ri_actorUserId a = ri_actorUserId b" .
  moreover have "ri_action a = ri_action b"
    using l(1) k'(2-5) by (cases "ri_action a"; cases "ri_action b"; simp add: attribution_text_inject requester_text_inject some_text_inject)
  ultimately show "a = b" using l(2-5) by simp
qed simp

lemma response_plan_json_inject: "canon (response_plan_json a) = canon (response_plan_json b) \<longleftrightarrow> a = b"
  by (cases a; cases b) (auto simp: response_plan_json_def canon_obj_iff response_input_json_inject engagement_head_json_inject
      simp del: canon.simps(2))

lemma seed_input_json_inject: "canon (seed_input_json a) = canon (seed_input_json b) \<longleftrightarrow> a = b"
  by (cases a; cases b) (auto simp: seed_input_json_def canon_obj_iff break_scope_json_inject provenance_json_inject
      roster_source_json_inject text_list_inject null_or_text_inject comp_def simp del: canon.simps(2))

lemma seed_row_json_inject: "k \<noteq> ''personId'' \<Longrightarrow> canon (seed_row_json k a) = canon (seed_row_json k b) \<longleftrightarrow> a = b"
  by (cases a; cases b) (auto simp: seed_row_json_def canon_obj_iff engagement_head_json_inject simp del: canon.simps(2))

lemma seed_plan_json_inject: "canon (seed_plan_json a) = canon (seed_plan_json b) \<longleftrightarrow> a = b"
proof -
  have rows: "map (canon \<circ> seed_row_json ''head'') xs = map (canon \<circ> seed_row_json ''head'') ys \<longleftrightarrow> xs = ys" for xs ys
    by (rule inj_map_eq_map) (simp add: inj_def seed_row_json_inject)
  show ?thesis
    by (cases a; cases b) (auto simp: seed_plan_json_def canon_obj_iff seed_input_json_inject rows text_list_inject comp_def
        rows [unfolded comp_def] simp del: canon.simps(2))
qed

lemma seed_reversal_json_inject: "canon (seed_reversal_json a) = canon (seed_reversal_json b) \<longleftrightarrow> a = b"
proof -
  have rows: "map (canon \<circ> seed_row_json ''expectedCurrent'') xs = map (canon \<circ> seed_row_json ''expectedCurrent'') ys \<longleftrightarrow> xs = ys" for xs ys
    by (rule inj_map_eq_map) (simp add: inj_def seed_row_json_inject)
  show ?thesis
    by (cases a; cases b) (auto simp: seed_reversal_json_def canon_obj_iff break_scope_json_inject provenance_json_inject
        rows comp_def rows [unfolded comp_def] simp del: canon.simps(2))
qed

lemma validate_engagement_plan_iff:
  "validate_engagement_plan p reads = None \<longleftrightarrow> plan_engagement_mutation (rl_input p) reads = Inr p"
  unfolding validate_engagement_plan_def by (auto simp: canonical_inject response_plan_json_inject split: sum.splits)

lemma validate_engagement_seed_iff:
  "validate_engagement_seed_from sha reads p = None \<longleftrightarrow> plan_engagement_seed_from sha reads (sp_input p) = Inr p"
  unfolding validate_engagement_seed_from_def by (auto simp: canonical_inject seed_plan_json_inject split: sum.splits)

lemma validate_seed_reversal_iff:
  "validate_engagement_seed_reversal_from reads p = None \<longleftrightarrow>
   plan_engagement_seed_reversal_from reads (sr_scope p) (sr_sessionId p) (sr_submissionId p) (sr_seededByDecision p) = Inr p"
  unfolding validate_engagement_seed_reversal_from_def
  by (auto simp: canonical_inject seed_reversal_json_inject split: sum.splits)


section \<open>The state machine of responses\<close>

text \<open>An engagement as a state and whether a cancellation is asked for, and what each response does to it.\<close>

definition engagement_view :: "engagement_head \<Rightarrow> engagement_state \<times> bool" where
  "engagement_view h = (eh_state h, eh_cancellationRequest h \<noteq> None)"

fun response_spec :: "response_action \<Rightarrow> engagement_state \<times> bool \<Rightarrow> (engagement_state \<times> bool) option" where
  "response_spec (Record_confirmation _ _) (s, asked) = (if s = Es_invited then Some (Es_confirmed, asked) else None)"
| "response_spec Decline (s, asked) = (if s = Es_invited then Some (Es_declined, False) else None)"
| "response_spec (Request_cancellation _ _) (s, asked) = (if open_state s \<and> \<not> asked then Some (s, True) else None)"
| "response_spec Withdraw_cancellation (s, asked) = (if open_state s \<and> asked then Some (s, False) else None)"
| "response_spec Accept_cancellation (s, asked) = (if open_state s \<and> asked then Some (Es_cancelled, True) else None)"

text \<open>How an engagement may have changed: identity and origin never do, settled ones are over, a confirmation stays.\<close>

definition engagement_evolved :: "engagement_head \<Rightarrow> engagement_head \<Rightarrow> bool" where
  "engagement_evolved h h' \<longleftrightarrow> eh_id h' = eh_id h \<and> eh_scope h' = eh_scope h \<and> eh_sessionId h' = eh_sessionId h
     \<and> eh_personId h' = eh_personId h \<and> eh_submissionId h' = eh_submissionId h
     \<and> eh_seededByDecision h' = eh_seededByDecision h \<and> eh_source h' = eh_source h
     \<and> eh_version h \<le> eh_version h' \<and> (eh_version h' = eh_version h \<longrightarrow> h' = h)
     \<and> (eh_state h \<in> {Es_declined, Es_cancelled} \<longrightarrow> h' = h)
     \<and> (eh_state h = Es_confirmed \<longrightarrow> eh_state h' \<in> {Es_confirmed, Es_cancelled})
     \<and> (eh_confirmation h \<noteq> None \<longrightarrow> eh_confirmation h' = eh_confirmation h)"

lemma engagement_evolved_refl: "engagement_evolved h h"
  by (simp add: engagement_evolved_def)

lemma engagement_evolved_trans: "engagement_evolved a b \<Longrightarrow> engagement_evolved b d \<Longrightarrow> engagement_evolved a d"
  by (auto simp: engagement_evolved_def)

lemma parse_engagement_head_iff: "parse_engagement_head h = Inr x \<longleftrightarrow> engagement_head_schema h \<and> x = h"
  by (auto simp: parse_engagement_head_def)

lemma respond_image:
  assumes "respond before i a = Inr after" "engagement_head_schema before"
  shows "engagement_head_schema after \<and> response_spec a (engagement_view before) = Some (engagement_view after)
    \<and> engagement_evolved before after \<and> eh_version after = eh_version before + 1"
proof -
  have conf: "eh_state before = Es_invited \<Longrightarrow> eh_confirmation before = None"
    using assms(2) by (simp add: engagement_head_schema_def engagement_state_coherent_def)
  note defs = refuse_engagement_def parse_engagement_head_iff engagement_view_def engagement_evolved_def open_state_def
  show ?thesis
  proof (cases a)
    case (Record_confirmation who person)
    then have inv: "eh_state before = Es_invited" and after: "engagement_head_schema after"
      "after = before \<lparr> eh_state := Es_confirmed, eh_confirmation := Some (recorded_confirmation before i who person),
        eh_version := eh_version before + 1 \<rparr>"
      using assms(1) by (simp_all add: refuse_engagement_def parse_engagement_head_iff split: if_split_asm)
    from after(1) show ?thesis unfolding after(2) by (simp add: Record_confirmation inv conf defs)
  next
    case Decline
    with assms(1) have inv: "eh_state before = Es_invited" and after: "engagement_head_schema after"
      "after = before \<lparr> eh_state := Es_declined, eh_cancellationRequest := None, eh_version := eh_version before + 1 \<rparr>"
      by (simp_all add: refuse_engagement_def parse_engagement_head_iff split: if_split_asm)
    from after(1) show ?thesis unfolding after(2) by (simp add: Decline inv conf defs)
  next
    case (Request_cancellation who remark)
    with assms(1) have was: "open_state (eh_state before)" "eh_cancellationRequest before = None" and after: "engagement_head_schema after"
      "after = before \<lparr> eh_cancellationRequest := Some \<lparr> cq_requestedBy = who, cq_requestedAt = ri_occurredAt i, cq_note = remark \<rparr>,
        eh_version := eh_version before + 1 \<rparr>"
      by (simp_all add: refuse_engagement_def parse_engagement_head_iff split: if_split_asm)
    from was(1) after(1) show ?thesis unfolding after(2) by (auto simp: Request_cancellation was(2) defs)
  next
    case Withdraw_cancellation
    with assms(1) have was: "open_state (eh_state before)" "eh_cancellationRequest before \<noteq> None" and after: "engagement_head_schema after"
      "after = before \<lparr> eh_cancellationRequest := None, eh_version := eh_version before + 1 \<rparr>"
      by (simp_all add: refuse_engagement_def parse_engagement_head_iff split: if_split_asm)
    from was after(1) show ?thesis unfolding after(2) by (auto simp: Withdraw_cancellation defs)
  next
    case Accept_cancellation
    with assms(1) have was: "open_state (eh_state before)" "eh_cancellationRequest before \<noteq> None" and after: "engagement_head_schema after"
      "after = before \<lparr> eh_state := Es_cancelled, eh_cancelledAt := Some (ri_occurredAt i), eh_version := eh_version before + 1 \<rparr>"
      by (simp_all add: refuse_engagement_def parse_engagement_head_iff split: if_split_asm)
    from was after(1) show ?thesis unfolding after(2) by (auto simp: Accept_cancellation defs)
  qed
qed

text \<open>The only refusal beside the state machine: one's own name as that of a co-speaker.\<close>

definition own_co_speaker :: "engagement_head \<Rightarrow> response_action \<Rightarrow> bool" where
  "own_co_speaker h a \<longleftrightarrow> a = Record_confirmation By_co_speaker (Some (eh_personId h))"

lemma respond_total:
  assumes "engagement_head_schema before" "response_input_schema i" "positive_safe (eh_version before + 1)"
    and "response_spec (ri_action i) (engagement_view before) \<noteq> None" "\<not> own_co_speaker before (ri_action i)"
  shows "\<exists>after. respond before i (ri_action i) = Inr after"
proof (cases "ri_action i")
  case (Record_confirmation who person)
  let ?after = "before \<lparr> eh_state := Es_confirmed, eh_confirmation := Some (recorded_confirmation before i who person),
    eh_version := eh_version before + 1 \<rparr>"
  have inv: "eh_state before = Es_invited" using assms(4) Record_confirmation by (simp add: engagement_view_def split: if_splits)
  have own: "who = By_co_speaker \<longrightarrow> person \<noteq> Some (eh_personId before)"
    using assms(5) Record_confirmation by (auto simp: own_co_speaker_def)
  have a: "response_action_schema (ri_actorUserId i) (Record_confirmation who person)" "session_instant (ri_occurredAt i)"
    using assms(2) Record_confirmation by (simp_all add: response_input_schema_def)
  then have c: "confirmation_schema (recorded_confirmation before i who person)"
    using assms(1) by (cases who; cases person) (auto simp: confirmation_schema_def recorded_confirmation_def engagement_head_schema_def)
  have "confirmation_attributed ?after"
    using own a by (cases who; cases person) (auto simp: confirmation_attributed_def recorded_confirmation_def)
  with c assms(1,3) inv have "engagement_head_schema ?after"
    by (simp add: engagement_head_schema_def engagement_state_coherent_def engagement_origin_coherent_def)
  then have "respond before i (ri_action i) = Inr ?after"
    using inv own Record_confirmation by (auto simp: parse_engagement_head_iff)
  then show ?thesis ..
next
  case Decline
  with assms(1,3,4) show ?thesis
    by (auto simp: engagement_view_def parse_engagement_head_iff engagement_head_schema_def engagement_state_coherent_def
        engagement_origin_coherent_def confirmation_attributed_def split: if_splits)
next
  case (Request_cancellation who remark)
  with assms(1-4) show ?thesis
    by (auto simp: engagement_view_def parse_engagement_head_iff engagement_head_schema_def engagement_state_coherent_def
        engagement_origin_coherent_def confirmation_attributed_def open_state_def cancellation_request_schema_def
        response_input_schema_def split: if_splits)
next
  case Withdraw_cancellation
  with assms(1,3,4) show ?thesis
    by (auto simp: engagement_view_def parse_engagement_head_iff engagement_head_schema_def engagement_state_coherent_def
        engagement_origin_coherent_def confirmation_attributed_def open_state_def split: if_splits)
next
  case Accept_cancellation
  with assms(1-4) show ?thesis
    by (auto simp: engagement_view_def parse_engagement_head_iff engagement_head_schema_def engagement_state_coherent_def
        engagement_origin_coherent_def confirmation_attributed_def open_state_def response_input_schema_def split: if_splits)
qed

lemma plan_engagement_parts:
  assumes "plan_engagement_mutation i reads = Inr p"
  shows "rl_input p = i" "response_input_schema i" "response_plan_schema p"
    "rd_engagementHead reads (ri_scope i) (ri_engagementId i) = Some (rl_before p)" "eh_scope (rl_before p) = ri_scope i"
    "eh_version (rl_before p) = ri_expectedVersion i" "respond (rl_before p) i (ri_action i) = Inr (rl_after p)"
  using assms unfolding plan_engagement_mutation_def
  by (auto simp: rbind_Inr_iff refuse_engagement_def Let_def same_scope_def intro: vocabulary_scope.equality
      split: if_splits option.splits)

lemma plan_engagement_total:
  assumes "response_input_schema i" "rd_engagementHead reads (ri_scope i) (ri_engagementId i) = Some before"
    and "eh_id before = ri_engagementId i" "eh_scope before = ri_scope i" "eh_version before = ri_expectedVersion i"
    and "engagement_head_schema before" "respond before i (ri_action i) = Inr after"
  shows "plan_engagement_mutation i reads = Inr \<lparr> rl_input = i, rl_before = before, rl_after = after \<rparr>"
proof -
  from respond_image [OF assms(7,6)] have "engagement_head_schema after" "engagement_evolved before after"
    "eh_version after = eh_version before + 1" by simp_all
  with assms show ?thesis
    by (simp add: plan_engagement_mutation_def same_scope_def response_plan_schema_def engagement_evolved_def)
qed

section \<open>The table\<close>

definition pair_of :: "engagement_head \<Rightarrow> vocabulary_scope \<times> string \<times> string" where
  "pair_of h = (eh_scope h, eh_sessionId h, eh_personId h)"

definition key_of :: "engagement_head \<Rightarrow> vocabulary_scope \<times> string" where
  "key_of h = (eh_scope h, eh_id h)"

definition row_ok :: "(string \<Rightarrow> string) \<Rightarrow> engagement_table \<Rightarrow> engagement_head \<Rightarrow> bool" where
  "row_ok sha t h \<longleftrightarrow> engagement_head_schema h \<and> eh_scope h \<in> set (tb_events t)
     \<and> eh_id h = deterministic_engagement_id sha (eh_scope h) (eh_sessionId h) (eh_personId h)"

definition engagement_table_ok :: "(string \<Rightarrow> string) \<Rightarrow> engagement_table \<Rightarrow> bool" where
  "engagement_table_ok sha t \<longleftrightarrow> list_all (row_ok sha t) (tb_rows t) \<and> distinct (map key_of (tb_rows t))
     \<and> distinct (map pair_of (tb_rows t))"

lemma find_distinct_key: "distinct (map f xs) \<Longrightarrow> find (\<lambda>x. f x = k) xs = Some h \<longleftrightarrow> h \<in> set xs \<and> f h = k"
  by (auto simp: find_keyed comp_def)

lemma row_is_iff: "row_is scope expected r \<longleftrightarrow> r = expected \<and> eh_scope expected = scope"
  by (auto simp: row_is_def canonical_inject engagement_head_json_inject)

lemma table_row_ok: "engagement_table_ok sha t \<Longrightarrow> h \<in> set (tb_rows t) \<Longrightarrow> row_ok sha t h"
  by (simp add: engagement_table_ok_def list_all_iff)

lemma table_rows_distinct: "engagement_table_ok sha t \<Longrightarrow> distinct (tb_rows t)"
  by (auto simp: engagement_table_ok_def distinct_map)

lemma table_head_iff:
  assumes "engagement_table_ok sha t"
  shows "rd_engagementHead (table_reads t) scope i = Some h \<longleftrightarrow> h \<in> set (tb_rows t) \<and> eh_scope h = scope \<and> eh_id h = i"
proof -
  have "find (\<lambda>r. eh_scope r = scope \<and> eh_id r = i) (tb_rows t) = find (\<lambda>r. key_of r = (scope, i)) (tb_rows t)"
    by (rule arg_cong [of _ _ "\<lambda>P. find P (tb_rows t)"]) (auto simp: key_of_def)
  moreover have "find (\<lambda>r. key_of r = (scope, i)) (tb_rows t) = Some h \<longleftrightarrow> h \<in> set (tb_rows t) \<and> key_of h = (scope, i)"
    using assms by (intro find_distinct_key) (simp add: engagement_table_ok_def)
  ultimately show ?thesis using table_row_ok [OF assms, of h]
    by (auto simp: table_reads_def key_of_def row_ok_def)
qed

lemma table_pair_iff:
  assumes "engagement_table_ok sha t"
  shows "rd_sessionPerson (table_reads t) scope s p = Some h \<longleftrightarrow> h \<in> set (tb_rows t) \<and> pair_of h = (scope, s, p)"
proof -
  have "find (\<lambda>r. eh_scope r = scope \<and> eh_sessionId r = s \<and> eh_personId r = p) (tb_rows t) = find (\<lambda>r. pair_of r = (scope, s, p)) (tb_rows t)"
    by (rule arg_cong [of _ _ "\<lambda>P. find P (tb_rows t)"]) (auto simp: pair_of_def)
  moreover have "find (\<lambda>r. pair_of r = (scope, s, p)) (tb_rows t) = Some h \<longleftrightarrow> h \<in> set (tb_rows t) \<and> pair_of h = (scope, s, p)"
    using assms by (intro find_distinct_key) (simp add: engagement_table_ok_def)
  ultimately show ?thesis using table_row_ok [OF assms, of h]
    by (auto simp: table_reads_def pair_of_def row_ok_def)
qed

lemma table_pair_none:
  assumes "scope \<in> set (tb_events t)"
  shows "rd_sessionPerson (table_reads t) scope s p = None \<longleftrightarrow> (scope, s, p) \<notin> pair_of ` set (tb_rows t)"
  using assms by (auto simp: table_reads_def pair_of_def find_None_iff)


text \<open>The statements on a well-formed table.\<close>

lemma insert_engagement_iff:
  "insert_engagement known h t = Inr t' \<longleftrightarrow> eh_scope h \<in> set (tb_events t) \<and> pair_of h \<notin> pair_of ` set (tb_rows t)
     \<and> key_of h \<notin> key_of ` set (tb_rows t) \<and> known (eh_scope h) (eh_sessionId h) \<and> t' = t \<lparr> tb_rows := tb_rows t @ [h] \<rparr>"
proof -
  have "(\<exists>r \<in> set (tb_rows t). eh_scope r = eh_scope h \<and> eh_sessionId r = eh_sessionId h \<and> eh_personId r = eh_personId h)
      \<longleftrightarrow> pair_of h \<in> pair_of ` set (tb_rows t)"
    unfolding image_iff pair_of_def by (metis Pair_inject)
  moreover have "(\<exists>r \<in> set (tb_rows t). eh_scope r = eh_scope h \<and> eh_id r = eh_id h) \<longleftrightarrow> key_of h \<in> key_of ` set (tb_rows t)"
    unfolding image_iff key_of_def by (metis Pair_inject)
  ultimately show ?thesis unfolding insert_engagement_def by auto
qed

lemma row_ok_rows [simp]: "row_ok sha (t \<lparr> tb_rows := rows \<rparr>) = row_ok sha t"
  by (auto simp: row_ok_def)

lemma inserted_ok:
  "engagement_table_ok sha t \<Longrightarrow> row_ok sha t h \<Longrightarrow> insert_engagement known h t = Inr t' \<Longrightarrow> engagement_table_ok sha t'"
  by (auto simp: engagement_table_ok_def insert_engagement_iff)

lemma inserts_effect:
  "engagement_table_ok sha t \<Longrightarrow> list_all (row_ok sha t) hs \<Longrightarrow> each_row (insert_engagement known) hs t = Inr t' \<Longrightarrow>
   t' = t \<lparr> tb_rows := tb_rows t @ hs \<rparr> \<and> engagement_table_ok sha t' \<and> pair_of ` set hs \<inter> pair_of ` set (tb_rows t) = {}"
proof (induction hs arbitrary: t)
  case (Cons h hs)
  then obtain u where u: "insert_engagement known h t = Inr u" and rest: "each_row (insert_engagement known) hs u = Inr t'"
    by (auto simp: rbind_Inr_iff)
  from u have ut: "u = t \<lparr> tb_rows := tb_rows t @ [h] \<rparr>" "pair_of h \<notin> pair_of ` set (tb_rows t)"
    by (simp_all add: insert_engagement_iff)
  have "engagement_table_ok sha u" using inserted_ok [OF Cons.prems(1) _ u] Cons.prems(2) by simp
  from Cons.IH [OF this _ rest] Cons.prems(2) ut show ?case by auto
qed simp

lemma inserts_total:
  "list_all (\<lambda>h. eh_scope h \<in> set (tb_events t) \<and> known (eh_scope h) (eh_sessionId h)) hs \<Longrightarrow>
   distinct (map pair_of (tb_rows t @ hs)) \<Longrightarrow> distinct (map key_of (tb_rows t @ hs)) \<Longrightarrow>
   each_row (insert_engagement known) hs t = Inr (t \<lparr> tb_rows := tb_rows t @ hs \<rparr>)"
proof (induction hs arbitrary: t)
  case (Cons h hs)
  have "insert_engagement known h t = Inr (t \<lparr> tb_rows := tb_rows t @ [h] \<rparr>)"
    using Cons.prems by (auto simp: insert_engagement_iff)
  with Cons.IH [of "t \<lparr> tb_rows := tb_rows t @ [h] \<rparr>"] Cons.prems show ?case by simp
qed simp

lemma length_filter_self: "distinct xs \<Longrightarrow> length (filter (\<lambda>r. r = x) xs) = (if x \<in> set xs then 1 else 0)"
  by (induction xs) auto

lemma update_engagement_iff:
  assumes "engagement_table_ok sha t"
  shows "update_engagement scope expected after t = Inr t' \<longleftrightarrow> expected \<in> set (tb_rows t) \<and> eh_scope expected = scope
    \<and> eh_seededByDecision after = eh_seededByDecision expected
    \<and> t' = t \<lparr> tb_rows := map (\<lambda>r. if r = expected then after else r) (tb_rows t) \<rparr>"
proof -
  have "row_is scope expected = (\<lambda>r. r = expected \<and> eh_scope expected = scope)" by (simp add: fun_eq_iff row_is_iff)
  with length_filter_self [OF table_rows_distinct [OF assms], of expected] show ?thesis
    by (cases "eh_scope expected = scope") (auto simp: update_engagement_def)
qed

lemma updated_ok:
  assumes "engagement_table_ok sha t" "expected \<in> set (tb_rows t)" "engagement_head_schema after" "engagement_evolved expected after"
  shows "engagement_table_ok sha (t \<lparr> tb_rows := map (\<lambda>r. if r = expected then after else r) (tb_rows t) \<rparr>)"
proof -
  have "key_of (if r = expected then after else r) = key_of r" "pair_of (if r = expected then after else r) = pair_of r" for r
    using assms(4) by (auto simp: key_of_def pair_of_def engagement_evolved_def)
  then have k: "key_of \<circ> (\<lambda>r. if r = expected then after else r) = key_of" "pair_of \<circ> (\<lambda>r. if r = expected then after else r) = pair_of"
    by (simp_all add: fun_eq_iff)
  have "row_ok sha t after"
    using table_row_ok [OF assms(1,2)] assms(3,4) by (simp add: row_ok_def engagement_evolved_def)
  with assms(1) show ?thesis unfolding engagement_table_ok_def by (auto simp: list_all_iff k)
qed

lemma delete_seeded_iff:
  assumes "engagement_table_ok sha t"
  shows "delete_seeded_engagement scope expected t = Inr t' \<longleftrightarrow> expected \<in> set (tb_rows t) \<and> eh_scope expected = scope
    \<and> eh_version expected = 1 \<and> eh_state expected = Es_invited \<and> t' = t \<lparr> tb_rows := filter (\<lambda>r. r \<noteq> expected) (tb_rows t) \<rparr>"
proof -
  have hit: "(eh_scope r = scope \<and> eh_id r = eh_id expected \<and> eh_version r = 1 \<and> eh_state r = Es_invited
        \<and> canonical (engagement_head_json r) = canonical (engagement_head_json expected))
      \<longleftrightarrow> r = expected \<and> eh_scope expected = scope \<and> eh_version expected = 1 \<and> eh_state expected = Es_invited" for r
    by (auto simp: canonical_inject engagement_head_json_inject)
  show ?thesis
    using length_filter_self [OF table_rows_distinct [OF assms], of expected]
    unfolding delete_seeded_engagement_def Let_def hit
    by (cases "eh_scope expected = scope \<and> eh_version expected = 1 \<and> eh_state expected = Es_invited") auto
qed

lemma deleted_ok: "engagement_table_ok sha t \<Longrightarrow> engagement_table_ok sha (t \<lparr> tb_rows := filter P (tb_rows t) \<rparr>)"
  by (auto simp: engagement_table_ok_def list_all_iff distinct_map_filter)

lemma deletes_iff:
  "engagement_table_ok sha t \<Longrightarrow> distinct hs \<Longrightarrow> each_row (delete_seeded_engagement scope) hs t = Inr t' \<longleftrightarrow>
   (\<forall>h \<in> set hs. h \<in> set (tb_rows t) \<and> eh_scope h = scope \<and> eh_version h = 1 \<and> eh_state h = Es_invited)
   \<and> t' = t \<lparr> tb_rows := filter (\<lambda>r. r \<notin> set hs) (tb_rows t) \<rparr>"
proof (induction hs arbitrary: t)
  case (Cons h hs)
  let ?u = "t \<lparr> tb_rows := filter (\<lambda>r. r \<noteq> h) (tb_rows t) \<rparr>"
  have rows: "filter (\<lambda>r. r \<notin> set (h # hs)) (tb_rows t) = filter (\<lambda>r. r \<notin> set hs) (filter (\<lambda>r. r \<noteq> h) (tb_rows t))"
    by (simp add: conj_commute)
  have "each_row (delete_seeded_engagement scope) (h # hs) t = Inr t' \<longleftrightarrow>
      (h \<in> set (tb_rows t) \<and> eh_scope h = scope \<and> eh_version h = 1 \<and> eh_state h = Es_invited) \<and> each_row (delete_seeded_engagement scope) hs ?u = Inr t'"
    by (auto simp: rbind_Inr_iff delete_seeded_iff [OF Cons.prems(1)])
  also have "each_row (delete_seeded_engagement scope) hs ?u = Inr t' \<longleftrightarrow>
      (\<forall>x \<in> set hs. x \<in> set (tb_rows ?u) \<and> eh_scope x = scope \<and> eh_version x = 1 \<and> eh_state x = Es_invited)
      \<and> t' = ?u \<lparr> tb_rows := filter (\<lambda>r. r \<notin> set hs) (tb_rows ?u) \<rparr>"
    using Cons.prems by (intro Cons.IH deleted_ok) simp_all
  finally show ?case unfolding rows using Cons.prems(2) by auto
qed auto

section \<open>Seeds\<close>

lemma matches_lower_hex: "matches (replicate n lower_hex) s \<longleftrightarrow> length s = n \<and> list_all lower_hex s"
  by (auto simp: matches_def list_all2_conv_all_nth list_all_length)

lemma deterministic_id_canonical:
  assumes "\<forall>x. sha256_hex (sha x)"
  shows "vocabulary_id (deterministic_engagement_id sha scope s p)"
proof -
  let ?hex = "sha (canonical (JObj [(''domain'', JStr ''engagement_head''), (''workspaceId'', JStr (sc_workspaceId scope)),
    (''eventId'', JStr (sc_eventId scope)), (''sessionId'', JStr s), (''personId'', JStr p)]))"
  have hex: "length ?hex = 64" "list_all lower_hex ?hex" using assms by (simp_all add: sha256_hex_def)
  have m: "matches (replicate (j - i) lower_hex) (slice i j ?hex)" if "i \<le> j" "j \<le> 64" for i j
    using hex that by (auto simp: matches_lower_hex slice_def list_all_iff dest: in_set_takeD in_set_dropD)
  have id: "deterministic_engagement_id sha scope s p = slice 0 8 ?hex @ [CHR ''-''] @ slice 8 12 ?hex @ [CHR ''-''] @ [CHR ''4'']
      @ slice 13 16 ?hex @ [CHR ''-''] @ [CHR ''8''] @ slice 17 20 ?hex @ [CHR ''-''] @ slice 20 32 ?hex"
    by (simp add: deterministic_engagement_id_def Let_def)
  show ?thesis
    unfolding vocabulary_id_def canonical_uuid_def id matches_def
    using m [of 0 8] m [of 8 12] m [of 13 16] m [of 17 20] m [of 20 32]
    by (intro list_all2_appendI) (simp_all add: matches_def)
qed

lemma seed_people_iff:
  "seed_people sha reads i persons = Inr (rows, skipped) \<longleftrightarrow>
   (let new = filter (\<lambda>p. rd_sessionPerson reads (si_seedScope i) (si_sessionId i) p = None) persons in
    list_all (\<lambda>p. engagement_head_schema (seeded_head sha i p)) new \<and> rows = map (\<lambda>p. (p, seeded_head sha i p)) new)
   \<and> skipped = filter (\<lambda>p. rd_sessionPerson reads (si_seedScope i) (si_sessionId i) p \<noteq> None) persons"
proof (induction persons arbitrary: rows skipped)
  case (Cons p persons)
  show ?case
    by (cases "rd_sessionPerson reads (si_seedScope i) (si_sessionId i) p")
      (auto simp: rbind_Inr_iff parse_engagement_head_iff Cons.IH Let_def)
qed auto

lemma canonical_persons_ordered: "strictly_ordered (canonical_persons persons)"
  unfolding strictly_ordered_iff canonical_persons_def
  using text_order.js_sort_sorted [of "remdups persons"] text_order.js_sort_distinct [of "\<lambda>x. x" "remdups persons"] by simp

lemma canonical_persons_set: "set (canonical_persons persons) = set persons"
  by (simp add: canonical_persons_def text_order.js_sort_set)

lemma canonical_persons_idem: "canonical_persons (canonical_persons persons) = canonical_persons persons"
  using canonical_persons_ordered [of persons] text_order.js_sort_idem [of "canonical_persons persons"]
  unfolding canonical_persons_def [of "canonical_persons persons"] strictly_ordered_iff by (simp add: distinct_remdups_id)

lemma plan_seed_parts:
  assumes "plan_engagement_seed_from sha reads input = Inr p"
  shows "sp_input p = input \<lparr> si_personIds := canonical_persons (si_personIds input) \<rparr>" "seed_plan_schema p"
    and "sp_rows p = map (\<lambda>x. (x, seeded_head sha (sp_input p) x))
      (filter (\<lambda>x. rd_sessionPerson reads (si_seedScope input) (si_sessionId input) x = None) (si_personIds (sp_input p)))"
    and "sp_skipped p = filter (\<lambda>x. rd_sessionPerson reads (si_seedScope input) (si_sessionId input) x \<noteq> None) (si_personIds (sp_input p))"
  using assms unfolding plan_engagement_seed_from_def
  by (auto simp: Let_def rbind_Inr_iff seed_people_iff split: if_splits)

lemma plan_seed_again: "plan_engagement_seed_from sha reads i = Inr p \<Longrightarrow> plan_engagement_seed_from sha reads (sp_input p) = Inr p"
  using plan_seed_parts(1) [of sha reads i p] by (simp add: plan_engagement_seed_from_def canonical_persons_idem)

section \<open>Histories of the table\<close>

definition planned_row :: "(string \<Rightarrow> string) \<Rightarrow> engagement_head \<Rightarrow> bool" where
  "planned_row sha h \<longleftrightarrow> engagement_head_schema h
     \<and> eh_id h = deterministic_engagement_id sha (eh_scope h) (eh_sessionId h) (eh_personId h)"

lemma row_ok_iff: "row_ok sha t h \<longleftrightarrow> planned_row sha h \<and> eh_scope h \<in> set (tb_events t)"
  by (auto simp: row_ok_def planned_row_def)

lemma planned_inserts:
  "engagement_table_ok sha t \<Longrightarrow> list_all (planned_row sha) hs \<Longrightarrow> each_row (insert_engagement known) hs t = Inr t' \<Longrightarrow>
   t' = t \<lparr> tb_rows := tb_rows t @ hs \<rparr> \<and> engagement_table_ok sha t'"
proof (induction hs arbitrary: t)
  case (Cons h hs)
  then obtain u where u: "insert_engagement known h t = Inr u" and rest: "each_row (insert_engagement known) hs u = Inr t'"
    by (auto simp: rbind_Inr_iff)
  have "row_ok sha t h" using Cons.prems(2) u by (simp add: row_ok_iff insert_engagement_iff)
  from Cons.IH [OF inserted_ok [OF Cons.prems(1) this u] _ rest] Cons.prems(2) u show ?case
    by (auto simp: insert_engagement_iff)
qed simp

lemma plan_seed_rows:
  assumes "plan_engagement_seed_from sha reads i = Inr p"
  shows "list_all (planned_row sha) (map snd (sp_rows p))"
proof -
  have "list_all (\<lambda>(x, h). engagement_head_schema h) (sp_rows p)"
    using plan_seed_parts(2) [OF assms] by (auto simp: seed_plan_schema_def seed_rows_schema_def list_all_iff)
  then show ?thesis unfolding plan_seed_parts(3) [OF assms]
    by (auto simp: list_all_iff planned_row_def seeded_head_def)
qed

lemma plan_invite_parts:
  assumes "plan_engagement_roster_invite_from sha reads i = Inr p"
  shows "ip_input p = i" "invite_plan_schema p" "ip_create p = None \<or> ip_create p = Some (invited_head sha i)"
    and "ip_existing p = rd_sessionPerson reads (ii_scope i) (ii_sessionId i) (ii_personId i)"
  using assms unfolding plan_engagement_roster_invite_from_def
  by (auto simp: rbind_Inr_iff parse_engagement_head_iff Let_def split: if_splits option.splits)

lemma plan_invite_row:
  assumes "plan_engagement_roster_invite_from sha reads i = Inr p" "ip_create p = Some h"
  shows "planned_row sha h"
  using plan_invite_parts(2,3) [OF assms(1)] assms(2)
  by (auto simp: planned_row_def invite_plan_schema_def invited_head_def)

lemma plan_reversal_parts:
  assumes "plan_engagement_seed_reversal_from reads scope sessionId submissionId pin = Inr p"
  shows "seed_reversal_schema p" "sr_scope p = scope" "sr_sessionId p = sessionId" "sr_submissionId p = submissionId"
    "sr_seededByDecision p = pin"
    and "map snd (sr_rows p) = filter (\<lambda>h. eh_seededByDecision h = Some pin) (rd_listSeeded reads scope sessionId submissionId)"
    and "list_all untouched_invitation (map snd (sr_rows p))"
proof -
  obtain rows where rows: "traverse reversal_row (filter (\<lambda>h. eh_seededByDecision h = Some pin) (rd_listSeeded reads scope sessionId submissionId)) = Inr rows"
    and p: "p = \<lparr> sr_scope = scope, sr_sessionId = sessionId, sr_submissionId = submissionId, sr_seededByDecision = pin, sr_rows = rows \<rparr>"
    and sch: "seed_reversal_schema p"
    using assms unfolding plan_engagement_seed_reversal_from_def
    by (auto simp: rbind_Inr_iff Let_def split: if_splits)
  have "map snd ys = xs \<and> list_all untouched_invitation (map snd ys)" if "traverse reversal_row xs = Inr ys" for xs ys
    using that by (induction xs arbitrary: ys) (auto simp: rbind_Inr_iff reversal_row_def split: if_splits)
  note shape = this [OF rows]
  from sch show "seed_reversal_schema p" "sr_scope p = scope" "sr_sessionId p = sessionId"
    "sr_submissionId p = submissionId" "sr_seededByDecision p = pin"
    "map snd (sr_rows p) = filter (\<lambda>h. eh_seededByDecision h = Some pin) (rd_listSeeded reads scope sessionId submissionId)"
    "list_all untouched_invitation (map snd (sr_rows p))"

    using shape by (simp_all only: p seed_reversal_plan.simps) auto
qed

lemma reversal_rows_distinct: "seed_reversal_schema p \<Longrightarrow> distinct (map snd (sr_rows p))"
proof -
  assume "seed_reversal_schema p"
  then have d: "distinct (map fst (sr_rows p))" and e: "\<forall>row \<in> set (sr_rows p). eh_personId (snd row) = fst row"
    by (auto simp: seed_reversal_schema_def strictly_ordered_iff list_all_iff)
  have "map fst (sr_rows p) = map eh_personId (map snd (sr_rows p))" using e by simp
  with d show "distinct (map snd (sr_rows p))" by (metis distinct_map)
qed

text \<open>
  What may happen to the table: any response, invitation or reversal that was planned, whatever the planner
  read, and that the table took.
\<close>

inductive engagement_step ::
  "(string \<Rightarrow> string) \<Rightarrow> (vocabulary_scope \<Rightarrow> string \<Rightarrow> bool) \<Rightarrow> engagement_table \<Rightarrow> engagement_table \<Rightarrow> bool"
  for sha known
where
  responded: "plan_engagement_mutation i reads = Inr p \<Longrightarrow> apply_engagement_plan p t = Inr (t', r)
    \<Longrightarrow> engagement_step sha known t t'"
| seeded: "plan_engagement_seed_from sha reads si = Inr sp \<Longrightarrow> apply_engagement_seed known sp t = Inr (t', sr)
    \<Longrightarrow> engagement_step sha known t t'"
| seed_reversed: "plan_engagement_seed_reversal_from reads scope s sub pin = Inr rp \<Longrightarrow> apply_engagement_seed_reversal rp t = Inr (t', sr)
    \<Longrightarrow> engagement_step sha known t t'"
| roster_invited: "plan_engagement_roster_invite_from sha reads ii = Inr vp \<Longrightarrow> apply_engagement_roster_invite known vp t = Inr (t', h)
    \<Longrightarrow> engagement_step sha known t t'"

text \<open>The effect of each operation on a well-formed table.\<close>

lemma responded_effect:
  assumes "engagement_table_ok sha t" "plan_engagement_mutation i reads = Inr p" "apply_engagement_plan p t = Inr (t', r)"
  shows "rl_before p \<in> set (tb_rows t)" "engagement_head_schema (rl_before p)" "engagement_head_schema (rl_after p)"
    "engagement_evolved (rl_before p) (rl_after p)" "eh_version (rl_after p) = eh_version (rl_before p) + 1"
    "t' = t \<lparr> tb_rows := map (\<lambda>r. if r = rl_before p then rl_after p else r) (tb_rows t) \<rparr>"
    "r = (response_action_text (ri_action (rl_input p)), rl_after p)"
proof -
  obtain u where u: "update_engagement (ri_scope (rl_input p)) (rl_before p) (rl_after p) t = Inr u"
    and r: "engagement_result_from_plan p = (Inr r :: (table_error, _) outcome)" and "t' = u"
    using assms(3) unfolding apply_engagement_plan_def by (auto simp: rbind_Inr_iff split: if_splits)
  with update_engagement_iff [OF assms(1)] show before: "rl_before p \<in> set (tb_rows t)"
    and "t' = t \<lparr> tb_rows := map (\<lambda>r. if r = rl_before p then rl_after p else r) (tb_rows t) \<rparr>" by auto
  from table_row_ok [OF assms(1) before] show sch: "engagement_head_schema (rl_before p)" by (simp add: row_ok_def)
  from respond_image [OF plan_engagement_parts(7) [OF assms(2)] sch]
  show "engagement_head_schema (rl_after p)" "engagement_evolved (rl_before p) (rl_after p)"
    "eh_version (rl_after p) = eh_version (rl_before p) + 1" by simp_all
  from r show "r = (response_action_text (ri_action (rl_input p)), rl_after p)"
    by (auto simp: engagement_result_from_plan_def split: if_splits)
qed

lemma seed_effect:
  assumes "engagement_table_ok sha t" "plan_engagement_seed_from sha reads i = Inr p" "apply_engagement_seed known p t = Inr (t', r)"
  shows "t' = t \<lparr> tb_rows := tb_rows t @ map snd (sp_rows p) \<rparr>" "engagement_table_ok sha t'"
  using planned_inserts [OF assms(1) plan_seed_rows [OF assms(2)]] assms(3)
  by (auto simp: apply_engagement_seed_def rbind_Inr_iff split: if_splits)

lemma invite_effect:
  assumes "engagement_table_ok sha t" "plan_engagement_roster_invite_from sha reads i = Inr p"
    "apply_engagement_roster_invite known p t = Inr (t', h)"
  shows "engagement_table_ok sha t' \<and> (t' = t \<or> t' = t \<lparr> tb_rows := tb_rows t @ [h] \<rparr>)"
proof (cases "ip_existing p")
  case None
  with assms(3) have c: "ip_create p = Some h" "insert_engagement known h t = Inr t'"
    by (auto simp: apply_engagement_roster_invite_def Let_def rbind_Inr_iff split: if_splits option.splits)
  from planned_inserts [OF assms(1), of "[h]" known t'] plan_invite_row [OF assms(2) c(1)] c(2) show ?thesis
    by (auto simp: rbind_def)
next
  case (Some x)
  with assms(1,3) show ?thesis
    by (auto simp: apply_engagement_roster_invite_def Let_def split: if_splits option.splits)
qed

lemma reversal_effect:
  assumes "engagement_table_ok sha t" "apply_engagement_seed_reversal p t = Inr (t', r)"
  shows "t' = t \<lparr> tb_rows := filter (\<lambda>h. h \<notin> set (map snd (sr_rows p))) (tb_rows t) \<rparr>" "engagement_table_ok sha t'"
    "\<forall>h \<in> set (map snd (sr_rows p)). h \<in> set (tb_rows t) \<and> eh_scope h = sr_scope p \<and> eh_version h = 1 \<and> eh_state h = Es_invited"
proof -
  have sch: "seed_reversal_schema p" and run: "each_row (delete_seeded_engagement (sr_scope p)) (map snd (sr_rows p)) t = Inr t'"
    using assms(2) by (auto simp: apply_engagement_seed_reversal_def rbind_Inr_iff split: if_splits)
  from run show t': "t' = t \<lparr> tb_rows := filter (\<lambda>h. h \<notin> set (map snd (sr_rows p))) (tb_rows t) \<rparr>"
    "\<forall>h \<in> set (map snd (sr_rows p)). h \<in> set (tb_rows t) \<and> eh_scope h = sr_scope p \<and> eh_version h = 1 \<and> eh_state h = Es_invited"
    unfolding deletes_iff [OF assms(1) reversal_rows_distinct [OF sch]] by blast+
  show "engagement_table_ok sha t'" unfolding t'(1) by (rule deleted_ok [OF assms(1)])
qed

lemma step_keeps_table:
  assumes "engagement_step sha known t t'" "engagement_table_ok sha t"
  shows "engagement_table_ok sha t' \<and> tb_events t' = tb_events t"
  using assms(1)
proof cases
  case responded
  from responded_effect [OF assms(2) responded] updated_ok [OF assms(2)] show ?thesis by simp
next
  case seeded
  from seed_effect [OF assms(2) seeded] show ?thesis by simp
next
  case seed_reversed
  from reversal_effect [OF assms(2) seed_reversed(2)] show ?thesis by simp
next
  case roster_invited
  from invite_effect [OF assms(2) roster_invited] show ?thesis by auto
qed

lemma history_keeps_table:
  "(engagement_step sha known)\<^sup>*\<^sup>* t t' \<Longrightarrow> engagement_table_ok sha t \<Longrightarrow> engagement_table_ok sha t' \<and> tb_events t' = tb_events t"
  by (induction rule: rtranclp_induct) (auto dest: step_keeps_table)

text \<open>A row is still there, perhaps further on, unless nobody touched it and it was taken back.\<close>

lemma step_keeps_row:
  assumes "engagement_step sha known t t'" "engagement_table_ok sha t" "h \<in> set (tb_rows t)" "2 \<le> eh_version h"
  shows "\<exists>h' \<in> set (tb_rows t'). engagement_evolved h h'"
  using assms(1)
proof cases
  case (responded i reads p r)
  note e = responded_effect [OF assms(2) responded]
  from assms(3) have "(if h = rl_before p then rl_after p else h) \<in> set (tb_rows t')"
    unfolding e(6) by (auto simp: image_iff)
  with e(4) engagement_evolved_refl show ?thesis by metis
next
  case seeded
  from seed_effect [OF assms(2) seeded] assms(3) engagement_evolved_refl show ?thesis by auto
next
  case (seed_reversed reads scope s sub pin rp sr)
  note e = reversal_effect [OF assms(2) seed_reversed(2)]
  from e(3) assms(4) have "h \<notin> set (map snd (sr_rows rp))" by auto
  with assms(3) engagement_evolved_refl [of h] show ?thesis unfolding e(1) by auto
next
  case roster_invited
  from invite_effect [OF assms(2) roster_invited] assms(3) engagement_evolved_refl [of h] show ?thesis by auto
qed

lemma history_keeps_row:
  assumes "(engagement_step sha known)\<^sup>*\<^sup>* t t'" "engagement_table_ok sha t" "h \<in> set (tb_rows t)" "2 \<le> eh_version h"
  shows "\<exists>h' \<in> set (tb_rows t'). engagement_evolved h h'"
  using assms(1)
proof (induction rule: rtranclp_induct)
  case base
  with assms(3) engagement_evolved_refl show ?case by auto
next
  case (step y z)
  then obtain h' where h': "h' \<in> set (tb_rows y)" "engagement_evolved h h'" by blast
  then have "2 \<le> eh_version h'" using assms(4) by (simp add: engagement_evolved_def)
  from step_keeps_row [OF step.hyps(2) _ h'(1) this] history_keeps_table [OF step.hyps(1) assms(2)] h'(2) engagement_evolved_trans
  show ?case by blast
qed

end
