(* ===== verification/EngagementHistory.thy ===== *)
theory EngagementHistory
  imports EngagementChanges SessionChanges
begin

text \<open>
  What engagements guarantee. The responses refine a small state machine; the table keeps one engagement per
  session and person, and what somebody answered is kept; an acceptance invites everyone once and its
  reversal takes back exactly what it wrote; the answer for a group reaches every open invitation of it.
\<close>

section \<open>Responses and histories\<close>

text \<open>Which refusal answers a response that the state machine does not allow.\<close>

fun response_refusal :: "response_action \<Rightarrow> engagement_state \<Rightarrow> engagement_code" where
  "response_refusal (Request_cancellation _ _) s = (if open_state s then E_already_requested else E_invalid_transition)"
| "response_refusal Withdraw_cancellation s = (if open_state s then E_not_requested else E_invalid_transition)"
| "response_refusal Accept_cancellation s = (if open_state s then E_not_requested else E_invalid_transition)"
| "response_refusal _ _ = E_invalid_transition"

lemma respond_refused:
  "response_spec a (engagement_view h) = None \<Longrightarrow>
   respond h i a = refuse_engagement (response_refusal a (eh_state h)) (ri_engagementId i)"
  by (cases a) (auto simp: engagement_view_def split: if_splits)

lemma respond_own:
  "own_co_speaker h a \<Longrightarrow> response_spec a (engagement_view h) \<noteq> None \<Longrightarrow> respond h i a = refuse_engagement E_invalid_plan (ri_engagementId i)"
  by (simp add: own_co_speaker_def engagement_view_def split: if_splits)

lemma plan_engagement_known:
  assumes "response_input_schema i" "rd_engagementHead reads (ri_scope i) (ri_engagementId i) = Some h"
    and "eh_scope h = ri_scope i" "eh_version h = ri_expectedVersion i" "respond h i (ri_action i) = refuse_engagement code x"
  shows "plan_engagement_mutation i reads = refuse_engagement code x"
  using assms by (simp add: plan_engagement_mutation_def same_scope_def refuse_engagement_def)

lemma applied_response:
  assumes ok: "engagement_table_ok sha t" and i: "response_input_schema i" and h: "h \<in> set (tb_rows t)"
    and key: "key_of h = (ri_scope i, ri_engagementId i)" "eh_version h = ri_expectedVersion i" "eh_version h < max_safe_integer"
    and spec: "response_spec (ri_action i) (engagement_view h) = Some v" "\<not> own_co_speaker h (ri_action i)"
  obtains p where "plan_engagement_mutation i (table_reads t) = Inr p" "rl_before p = h" "engagement_view (rl_after p) = v"
    "respond h i (ri_action i) = Inr (rl_after p)"
    "apply_engagement_plan p t = Inr (t \<lparr> tb_rows := map (\<lambda>r. if r = h then rl_after p else r) (tb_rows t) \<rparr>,
      response_action_text (ri_action i), rl_after p)"
proof -
  have sch: "engagement_head_schema h" using table_row_ok [OF ok h] by (simp add: row_ok_def)
  then have "positive_safe (eh_version h + 1)" using key(3)
    by (simp add: engagement_head_schema_def positive_safe_def safe_integer_def)
  from respond_total [OF sch i this _ spec(2)] spec(1) obtain after where r: "respond h i (ri_action i) = Inr after" by auto
  let ?p = "\<lparr> rl_input = i, rl_before = h, rl_after = after \<rparr>"
  have read: "rd_engagementHead (table_reads t) (ri_scope i) (ri_engagementId i) = Some h"
    using h key(1) by (simp add: table_head_iff [OF ok] key_of_def)
  have plan: "plan_engagement_mutation i (table_reads t) = Inr ?p"
    using plan_engagement_total [OF i read _ _ key(2) sch r] key(1) by (simp add: key_of_def)
  from respond_image [OF r sch] spec(1) have image: "engagement_head_schema after" "engagement_view after = v" "engagement_evolved h after"
    by simp_all
  have "update_engagement (ri_scope i) h after t = Inr (t \<lparr> tb_rows := map (\<lambda>r. if r = h then after else r) (tb_rows t) \<rparr>)"
    using h key(1) image(3) by (simp add: update_engagement_iff [OF ok] key_of_def engagement_evolved_def)
  then have "apply_engagement_plan ?p t = Inr (t \<lparr> tb_rows := map (\<lambda>r. if r = h then after else r) (tb_rows t) \<rparr>,
      response_action_text (ri_action i), after)"
    using plan_engagement_parts(3) [OF plan] image(1) by (simp add: apply_engagement_plan_def engagement_result_from_plan_def)
  with plan r image(2) show thesis by (intro that [of ?p]) simp_all
qed

lemma responded_once:
  assumes ok: "engagement_table_ok sha t" and p: "plan_engagement_mutation i (table_reads t) = Inr p"
    and done': "apply_engagement_plan p t = Inr (t', r)"
  shows "plan_engagement_mutation i (table_reads t') = refuse_engagement E_stale (ri_engagementId i)"
proof -
  note e = responded_effect [OF ok p done'] and parts = plan_engagement_parts [OF p]
  have ok': "engagement_table_ok sha t'" unfolding e(6) by (rule updated_ok [OF ok e(1,3,4)])
  have "rl_after p \<in> set (tb_rows t')" using e(1) unfolding e(6) by (auto simp: image_iff)
  moreover have "eh_scope (rl_after p) = ri_scope i" "eh_id (rl_after p) = ri_engagementId i"
    using parts(1,3,5) e(4) by (auto simp: response_plan_schema_def engagement_evolved_def)
  ultimately have read: "rd_engagementHead (table_reads t') (ri_scope i) (ri_engagementId i) = Some (rl_after p)"
    by (simp add: table_head_iff [OF ok'])
  with parts(2,6) e(5) \<open>eh_scope (rl_after p) = ri_scope i\<close> show ?thesis
    by (simp add: plan_engagement_mutation_def same_scope_def)
qed

text \<open>
  C4. The responses refine the state machine of engagements: for the current version of an engagement,
  planning refuses exactly what the machine forbids, with its code, and one's own name as that of a
  co-speaker; anything else is planned, the table takes it, the engagement is in the next state of the
  machine, and planning the same response again is stale.
\<close>

theorem engagement_response_machine:
  assumes "engagement_table_ok sha t" "response_input_schema i" "h \<in> set (tb_rows t)"
    and "key_of h = (ri_scope i, ri_engagementId i)" "eh_version h = ri_expectedVersion i" "eh_version h < max_safe_integer"
  shows "case response_spec (ri_action i) (engagement_view h) of
      None \<Rightarrow> plan_engagement_mutation i (table_reads t)
        = refuse_engagement (response_refusal (ri_action i) (eh_state h)) (ri_engagementId i)
    | Some v \<Rightarrow>
        if own_co_speaker h (ri_action i)
        then plan_engagement_mutation i (table_reads t) = refuse_engagement E_invalid_plan (ri_engagementId i)
        else \<exists>p t' r. plan_engagement_mutation i (table_reads t) = Inr p \<and> apply_engagement_plan p t = Inr (t', r)
          \<and> engagement_view (rl_after p) = v \<and> engagement_evolved h (rl_after p)
          \<and> tb_rows t' = map (\<lambda>x. if x = h then rl_after p else x) (tb_rows t)
          \<and> plan_engagement_mutation i (table_reads t') = refuse_engagement E_stale (ri_engagementId i)"
proof -
  note read = table_head_iff [OF assms(1), of "ri_scope i" "ri_engagementId i" h, THEN iffD2]
  have known: "rd_engagementHead (table_reads t) (ri_scope i) (ri_engagementId i) = Some h" "eh_scope h = ri_scope i"
    using read assms(3,4) by (simp_all add: key_of_def)
  note refused = plan_engagement_known [OF assms(2) known assms(5)]
  show ?thesis
  proof (cases "response_spec (ri_action i) (engagement_view h)")
    case None
    from refused [OF respond_refused [OF None]] None show ?thesis by simp
  next
    case (Some v)
    show ?thesis
    proof (cases "own_co_speaker h (ri_action i)")
      case True
      from refused [OF respond_own [OF True]] Some True show ?thesis by simp
    next
      case False
      from applied_response [OF assms Some False] obtain p where p: "plan_engagement_mutation i (table_reads t) = Inr p"
        "rl_before p = h" "engagement_view (rl_after p) = v" "apply_engagement_plan p t
          = Inr (t \<lparr> tb_rows := map (\<lambda>r. if r = h then rl_after p else r) (tb_rows t) \<rparr>, response_action_text (ri_action i), rl_after p)" .
      from responded_effect(4) [OF assms(1) p(1,4)] p(2) have "engagement_evolved h (rl_after p)" by simp
      with p responded_once [OF assms(1) p(1,4)] Some False show ?thesis by auto
    qed
  qed
qed

text \<open>
  C19. From an empty table every history keeps the table well-formed: each row parses, is of an existing
  event and under the identifier of its session and person, and each session and person have at most one
  engagement, which reading finds.
\<close>

theorem engagement_rows_unique:
  assumes "(engagement_step sha known)\<^sup>*\<^sup>* \<lparr> tb_events = es, tb_rows = [] \<rparr> t" "h \<in> set (tb_rows t)"
  shows "engagement_head_schema h \<and> eh_scope h \<in> set es
    \<and> eh_id h = deterministic_engagement_id sha (eh_scope h) (eh_sessionId h) (eh_personId h)
    \<and> rd_engagementHead (table_reads t) (eh_scope h) (eh_id h) = Some h
    \<and> rd_sessionPerson (table_reads t) (eh_scope h) (eh_sessionId h) (eh_personId h) = Some h
    \<and> (\<forall>x \<in> set (tb_rows t). pair_of x = pair_of h \<longrightarrow> x = h)"
proof -
  have ok: "engagement_table_ok sha t" and es: "tb_events t = es"
    using history_keeps_table [OF assms(1)] by (simp_all add: engagement_table_ok_def)
  have "\<forall>x \<in> set (tb_rows t). pair_of x = pair_of h \<longrightarrow> x = h"
    using ok assms(2) by (simp add: engagement_table_ok_def distinct_map inj_on_def)
  with table_row_ok [OF ok assms(2)] assms(2) show ?thesis
    by (simp add: row_ok_def es table_head_iff [OF ok] table_pair_iff [OF ok] pair_of_def)
qed

text \<open>
  C3. Once somebody answered, an engagement stays: after any later history there is an engagement of
  the same session and person, and it evolved from it; a declined or cancelled one is unchanged and a
  recorded confirmation is still there.
\<close>

theorem answered_engagement_kept:
  assumes "(engagement_step sha known)\<^sup>*\<^sup>* \<lparr> tb_events = es, tb_rows = [] \<rparr> t" "h \<in> set (tb_rows t)" "2 \<le> eh_version h"
    and "(engagement_step sha known)\<^sup>*\<^sup>* t t'"
  shows "\<exists>h'. rd_sessionPerson (table_reads t') (eh_scope h) (eh_sessionId h) (eh_personId h) = Some h'
    \<and> engagement_evolved h h' \<and> (eh_state h \<in> {Es_declined, Es_cancelled} \<longrightarrow> h' = h)
    \<and> (eh_confirmation h \<noteq> None \<longrightarrow> eh_confirmation h' = eh_confirmation h)"
proof -
  have ok: "engagement_table_ok sha t" using history_keeps_table [OF assms(1)] by (simp add: engagement_table_ok_def)
  from history_keeps_row [OF assms(4) ok assms(2,3)] obtain h' where h': "h' \<in> set (tb_rows t')" "engagement_evolved h h'" by blast
  have "engagement_table_ok sha t'" using history_keeps_table [OF assms(4) ok] by blast
  from table_pair_iff [OF this] h' show ?thesis by (intro exI [of _ h']) (simp add: pair_of_def engagement_evolved_def)
qed

section \<open>Invitations and their reversal\<close>

interpretation person_order: keyed_comparator "\<lambda>l r. js_compare (eh_personId l) (eh_personId r)" eh_personId
  by unfold_locales (rule js_compare_le)

lemma seeded_head_ok:
  assumes "seed_input_schema i" "ro_kind (si_source i) = ''submission''" "\<forall>x. sha256_hex (sha x)" "x \<in> set (si_personIds i)"
  shows "engagement_head_schema (seeded_head sha i x)"
  using assms deterministic_id_canonical [OF assms(3)]
  by (simp add: engagement_head_schema_def seeded_head_def seed_input_schema_def list_all_iff engagement_state_coherent_def
      confirmation_attributed_def engagement_origin_coherent_def)

lemma text_sort_eq: "mset xs = mset ys \<Longrightarrow> sorted ys \<Longrightarrow> js_sort js_compare xs = ys"
  using text_order.js_sort_sort_key [of xs] properties_for_sort [of ys xs] by simp

lemma mset_filter_split: "mset (filter P xs @ filter (\<lambda>x. \<not> P x) xs) = mset xs"
  by (induction xs) simp_all

lemma plan_seed_total:
  fixes input reads
  defines "i \<equiv> input \<lparr> si_personIds := canonical_persons (si_personIds input) \<rparr>"
    and "free \<equiv> \<lambda>x. rd_sessionPerson reads (si_seedScope input) (si_sessionId input) x = None"
  assumes "seed_input_schema i" "ro_kind (si_source i) = ''submission''" "\<forall>x. sha256_hex (sha x)"
  shows "plan_engagement_seed_from sha reads input = Inr \<lparr> sp_input = i,
    sp_rows = map (\<lambda>x. (x, seeded_head sha i x)) (filter free (si_personIds i)), sp_skipped = filter (\<lambda>x. \<not> free x) (si_personIds i) \<rparr>"
proof -
  let ?new = "filter free (si_personIds i)" and ?old = "filter (\<lambda>x. \<not> free x) (si_personIds i)"
  let ?p = "\<lparr> sp_input = i, sp_rows = map (\<lambda>x. (x, seeded_head sha i x)) ?new, sp_skipped = ?old \<rparr>"
  have heads: "engagement_head_schema (seeded_head sha i x)" if "x \<in> set (si_personIds i)" for x
    by (rule seeded_head_ok [OF assms(3-5) that])
  have reads: "si_seedScope i = si_seedScope input" "si_sessionId i = si_sessionId input" by (simp_all add: i_def)
  have "seed_people sha reads i (si_personIds i) = Inr (sp_rows ?p, sp_skipped ?p)"
    using heads by (auto simp: seed_people_iff reads list_all_iff free_def)
  moreover have "seed_plan_schema ?p"
  proof -
    have ids: "list_all vocabulary_id (si_personIds i)" "length (si_personIds i) \<le> 500" "sorted (si_personIds i)"
      using assms(3) by (simp_all add: seed_input_schema_def strictly_ordered_iff)
    then have len: "length (filter P (si_personIds i)) \<le> 500" for P
      using length_filter_le [of P "si_personIds i"] by linarith
    have "js_sort js_compare (?new @ ?old) = si_personIds i"
      by (rule text_sort_eq [OF mset_filter_split ids(3)])
    then show ?thesis
      using assms(3) ids(1) len heads
      by (auto simp: seed_plan_schema_def seed_rows_schema_def list_all_iff comp_def seeded_image_def Let_def seeded_head_def same_scope_def)
  qed
  ultimately show ?thesis using assms(3) by (simp add: plan_engagement_seed_from_def i_def [symmetric] Let_def)
qed

lemma seed_result_total: "seed_plan_schema p \<Longrightarrow> 
  \<exists>r. engagement_seed_result_from_plan p = (Inr r :: (table_error, seed_result) outcome) \<and> se_seeded r = map snd (sp_rows p)"
  by (auto simp: seed_plan_schema_def seed_rows_schema_def seed_input_schema_def engagement_seed_result_from_plan_def
      parse_seed_result_def list_all_iff)

lemma applied_seed:
  assumes ok: "engagement_table_ok sha t" and p: "plan_engagement_seed_from sha (table_reads t) input = Inr p"
    and known: "si_seedScope input \<in> set (tb_events t)" "known (si_seedScope input) (si_sessionId input)"
    and keys: "distinct (map key_of (tb_rows t @ map snd (sp_rows p)))"
  shows "\<exists>r. apply_engagement_seed known p t = Inr (t \<lparr> tb_rows := tb_rows t @ map snd (sp_rows p) \<rparr>, r) \<and> se_seeded r = map snd (sp_rows p)"
proof -
  note parts = plan_seed_parts [OF p]
  let ?new = "filter (\<lambda>x. rd_sessionPerson (table_reads t) (si_seedScope input) (si_sessionId input) x = None) (si_personIds (sp_input p))"
  have rows: "map snd (sp_rows p) = map (seeded_head sha (sp_input p)) ?new" unfolding parts(3) by (simp add: comp_def)
  have pairs: "pair_of (seeded_head sha (sp_input p) x) = (si_seedScope input, si_sessionId input, x)" for x
    by (simp add: pair_of_def seeded_head_def parts(1))
  have "distinct (si_personIds (sp_input p))"
    using canonical_persons_ordered [of "si_personIds input"] by (simp add: parts(1) strictly_ordered_iff)
  then have "distinct (map pair_of (map snd (sp_rows p)))" unfolding rows
    by (simp add: comp_def pairs distinct_map inj_on_def)
  moreover have "pair_of ` set (map snd (sp_rows p)) \<inter> pair_of ` set (tb_rows t) = {}" unfolding rows
    by (auto simp: pairs table_pair_none [OF known(1)]) (metis image_eqI)
  ultimately have "distinct (map pair_of (tb_rows t @ map snd (sp_rows p)))"
    using ok by (auto simp: engagement_table_ok_def)
  moreover have "list_all (\<lambda>h. eh_scope h \<in> set (tb_events t) \<and> known (eh_scope h) (eh_sessionId h)) (map snd (sp_rows p))"
    unfolding rows using known by (simp add: list_all_iff seeded_head_def parts(1))
  ultimately have "each_row (insert_engagement known) (map snd (sp_rows p)) t = Inr (t \<lparr> tb_rows := tb_rows t @ map snd (sp_rows p) \<rparr>)"
    using keys by (intro inserts_total)
  with seed_result_total [OF parts(2)] parts(2) show ?thesis by (auto simp: apply_engagement_seed_def)
qed

text \<open>
  C20. An acceptance invites everyone once. Planning succeeds and, where the identifiers do not collide, the
  table takes the plan: whoever had an engagement of the session keeps it unchanged, everyone else has a
  fresh invitation, and planning the same again is a plan without rows that the table takes unchanged.
\<close>

theorem seed_invites_everyone:
  fixes input
  defines "i \<equiv> input \<lparr> si_personIds := canonical_persons (si_personIds input) \<rparr>"
  assumes "engagement_table_ok sha t" "\<forall>x. sha256_hex (sha x)" "seed_input_schema i" "ro_kind (si_source i) = ''submission''"
    and "si_seedScope input \<in> set (tb_events t)" "known (si_seedScope input) (si_sessionId input)"
    and "inj_on (deterministic_engagement_id sha (si_seedScope input) (si_sessionId input)) (set (si_personIds input))"
    and "\<forall>x \<in> set (si_personIds input). \<forall>r \<in> set (tb_rows t). pair_of r \<noteq> (si_seedScope input, si_sessionId input, x)
      \<longrightarrow> key_of r \<noteq> (si_seedScope input, deterministic_engagement_id sha (si_seedScope input) (si_sessionId input) x)"
  shows "\<exists>p t' r q r'. plan_engagement_seed_from sha (table_reads t) input = Inr p \<and> apply_engagement_seed known p t = Inr (t', r)
    \<and> (\<forall>x \<in> set (si_personIds input). rd_sessionPerson (table_reads t') (si_seedScope input) (si_sessionId input) x
        = Some (case rd_sessionPerson (table_reads t) (si_seedScope input) (si_sessionId input) x of
            Some existing \<Rightarrow> existing | None \<Rightarrow> seeded_head sha i x))
    \<and> set (tb_rows t) \<subseteq> set (tb_rows t')
    \<and> plan_engagement_seed_from sha (table_reads t') input = Inr q \<and> sp_rows q = []
    \<and> apply_engagement_seed known q t' = Inr (t', r')"
proof -
  let ?scope = "si_seedScope input" and ?s = "si_sessionId input"
  note total = plan_seed_total [of input sha, folded i_def, OF assms(4,5,3)]
  obtain p where p: "plan_engagement_seed_from sha (table_reads t) input = Inr p" using total by blast
  have persons: "set (si_personIds i) = set (si_personIds input)" "distinct (si_personIds i)" "si_seedScope i = ?scope" "si_sessionId i = ?s"
    using canonical_persons_ordered [of "si_personIds input"] by (simp_all add: i_def canonical_persons_set strictly_ordered_iff)
  let ?new = "filter (\<lambda>x. rd_sessionPerson (table_reads t) ?scope ?s x = None) (si_personIds i)"
  have rows: "map snd (sp_rows p) = map (seeded_head sha i) ?new"
    using total [of "table_reads t"] p by (simp add: comp_def)
  have heads: "key_of (seeded_head sha i x) = (?scope, deterministic_engagement_id sha ?scope ?s x)"
    "pair_of (seeded_head sha i x) = (?scope, ?s, x)" for x
    by (simp_all add: key_of_def pair_of_def seeded_head_def persons)
  have "distinct (map key_of (map snd (sp_rows p)))" unfolding rows
    using assms(8) persons(1,2) by (auto simp: distinct_map heads inj_on_def comp_def)
  moreover have "key_of ` set (map snd (sp_rows p)) \<inter> key_of ` set (tb_rows t) = {}"
  proof -
    have "pair_of r \<noteq> (?scope, ?s, x)" if "x \<in> set ?new" "r \<in> set (tb_rows t)" for x r
      using that table_pair_none [OF assms(6), of ?s x] by (auto simp: image_iff)
    then show ?thesis unfolding rows using assms(9) persons(1) by (force simp: heads)
  qed
  ultimately have "distinct (map key_of (tb_rows t @ map snd (sp_rows p)))"
    using assms(2) by (auto simp: engagement_table_ok_def)
  from applied_seed [where known = known, OF assms(2) p assms(6,7) this] obtain r where
    r: "apply_engagement_seed known p t = Inr (t \<lparr> tb_rows := tb_rows t @ map snd (sp_rows p) \<rparr>, r)" by blast
  define t' where "t' = t \<lparr> tb_rows := tb_rows t @ map snd (sp_rows p) \<rparr>"
  have ok': "engagement_table_ok sha t'" using seed_effect(2) [OF assms(2) p r] by (simp add: t'_def)
  have each: "rd_sessionPerson (table_reads t') ?scope ?s x
        = Some (case rd_sessionPerson (table_reads t) ?scope ?s x of Some existing \<Rightarrow> existing | None \<Rightarrow> seeded_head sha i x)"
    if x: "x \<in> set (si_personIds input)" for x
  proof (cases "rd_sessionPerson (table_reads t) ?scope ?s x")
    case None
    with x persons(1) have "seeded_head sha i x \<in> set (tb_rows t')" by (auto simp: t'_def rows)
    with None show ?thesis by (simp add: table_pair_iff [OF ok'] heads)
  next
    case (Some h)
    then have "h \<in> set (tb_rows t) \<and> pair_of h = (?scope, ?s, x)" by (simp only: table_pair_iff [OF assms(2)])
    then have "rd_sessionPerson (table_reads t') ?scope ?s x = Some h" unfolding table_pair_iff [OF ok'] by (simp add: t'_def)
    with Some show ?thesis by simp
  qed
  then have none: "filter (\<lambda>x. rd_sessionPerson (table_reads t') ?scope ?s x = None) (si_personIds i) = []"
    using persons(1) by (auto simp: filter_empty_conv)
  obtain q where q: "plan_engagement_seed_from sha (table_reads t') input = Inr q" "sp_rows q = []"
    using total [of "table_reads t'"] none by simp
  have "distinct (map key_of (tb_rows t' @ map snd (sp_rows q)))" "?scope \<in> set (tb_events t')"
    using ok' q(2) assms(6) by (simp_all add: engagement_table_ok_def t'_def)
  from applied_seed [where known = known, OF ok' q(1) this(2) assms(7) this(1)] q(2) obtain r' where "apply_engagement_seed known q t' = Inr (t', r')" by auto
  with p r q each show ?thesis unfolding t'_def [symmetric] by (intro exI [of _ p] exI [of _ t'] exI [of _ r] exI [of _ q] exI [of _ r']) (simp add: t'_def)
qed

text \<open>The rows that one acceptance seeded onto a session.\<close>

definition seeded_rows :: "engagement_table \<Rightarrow> vocabulary_scope \<Rightarrow> string \<Rightarrow> string \<Rightarrow> seed_provenance \<Rightarrow> engagement_head list" where
  "seeded_rows t scope sessionId submissionId pin = filter (\<lambda>h. eh_scope h = scope \<and> eh_submissionId h = Some submissionId
     \<and> eh_sessionId h = sessionId \<and> eh_seededByDecision h = Some pin) (tb_rows t)"

lemma session_people_distinct:
  assumes "engagement_table_ok sha t" "\<And>h. P h \<Longrightarrow> eh_scope h = scope \<and> eh_sessionId h = s"
  shows "distinct (map eh_personId (filter P (tb_rows t)))"
proof -
  have "distinct (map pair_of (filter P (tb_rows t)))"
    using assms(1) by (simp add: engagement_table_ok_def distinct_map_filter)
  moreover have "map pair_of (filter P (tb_rows t)) = map (\<lambda>p. (scope, s, p)) (map eh_personId (filter P (tb_rows t)))"
    using assms(2) by (simp add: pair_of_def)
  ultimately show ?thesis by (metis distinct_map)
qed

lemma listed_people:
  assumes "engagement_table_ok sha t"
  shows "set (rd_listSeeded (table_reads t) scope s sub)
      = {h \<in> set (tb_rows t). eh_scope h = scope \<and> eh_submissionId h = Some sub \<and> eh_sessionId h = s}"
    and "strictly_ordered (map eh_personId (filter P (rd_listSeeded (table_reads t) scope s sub)))"
proof -
  let ?F = "\<lambda>h. eh_scope h = scope \<and> eh_submissionId h = Some sub \<and> eh_sessionId h = s"
  let ?L = "js_sort (\<lambda>l r. js_compare (eh_personId l) (eh_personId r)) (filter ?F (tb_rows t))"
  have list: "rd_listSeeded (table_reads t) scope s sub = (if scope \<in> set (tb_events t) then ?L else [])"
    by (simp add: table_reads_def)
  show "set (rd_listSeeded (table_reads t) scope s sub) = {h \<in> set (tb_rows t). ?F h}"
    unfolding list using table_row_ok [OF assms] by (auto simp: person_order.js_sort_set row_ok_def)
  have "distinct (map eh_personId ?L)"
    unfolding person_order.js_sort_distinct by (rule session_people_distinct [OF assms]) simp
  with person_order.js_sort_sorted [of "filter ?F (tb_rows t)"]
  show "strictly_ordered (map eh_personId (filter P (rd_listSeeded (table_reads t) scope s sub)))"
    unfolding list strictly_ordered_iff by (simp add: sorted_filter distinct_map_filter)
qed

lemma seeded_listed:
  assumes "engagement_table_ok sha t"
  shows "set (filter (\<lambda>h. eh_seededByDecision h = Some pin) (rd_listSeeded (table_reads t) scope s sub)) = set (seeded_rows t scope s sub pin)"
    and "length (filter (\<lambda>h. eh_seededByDecision h = Some pin) (rd_listSeeded (table_reads t) scope s sub)) = length (seeded_rows t scope s sub pin)"
proof -
  let ?L = "filter (\<lambda>h. eh_seededByDecision h = Some pin) (rd_listSeeded (table_reads t) scope s sub)"
  show sets: "set ?L = set (seeded_rows t scope s sub pin)"
    by (auto simp: listed_people [OF assms] seeded_rows_def)
  have "distinct (map eh_personId ?L)" using listed_people(2) [OF assms] by (simp add: strictly_ordered_iff)
  then have "distinct ?L" by (metis distinct_map)
  moreover have "distinct (seeded_rows t scope s sub pin)"
    using table_rows_distinct [OF assms] by (simp add: seeded_rows_def)
  ultimately show "length ?L = length (seeded_rows t scope s sub pin)" using sets by (metis distinct_card)
qed

lemma reversal_traverse_refused:
  "\<not> list_all untouched_invitation hs \<Longrightarrow>
   \<exists>h \<in> set hs. \<not> untouched_invitation h \<and> traverse reversal_row hs = Inl (Refused (Seed_refused Engagement_advanced (Some (eh_personId h))))"
proof (induction hs)
  case (Cons h hs)
  then show ?case by (cases "untouched_invitation h") (simp_all add: reversal_row_def rbind_def, fastforce)
qed simp

lemma reversal_planned:
  fixes t scope s sub pin
  defines "L \<equiv> filter (\<lambda>h. eh_seededByDecision h = Some pin) (rd_listSeeded (table_reads t) scope s sub)"
  assumes ok: "engagement_table_ok sha t" and ids: "scope_ok scope" "vocabulary_id s" "vocabulary_id sub" "provenance_schema pin"
    and few: "length (seeded_rows t scope s sub pin) \<le> 500"
    and all: "\<forall>h \<in> set (seeded_rows t scope s sub pin). untouched_invitation h"
  shows "plan_engagement_seed_reversal_from (table_reads t) scope s sub pin = Inr \<lparr> sr_scope = scope, sr_sessionId = s,
    sr_submissionId = sub, sr_seededByDecision = pin, sr_rows = map (\<lambda>h. (eh_personId h, h)) L \<rparr>"
proof -
  let ?p = "\<lparr> sr_scope = scope, sr_sessionId = s, sr_submissionId = sub, sr_seededByDecision = pin, sr_rows = map (\<lambda>h. (eh_personId h, h)) L \<rparr>"
  have set_L: "set L = set (seeded_rows t scope s sub pin)" and len: "length L = length (seeded_rows t scope s sub pin)"
    unfolding L_def by (rule seeded_listed [OF ok])+
  have rows: "traverse reversal_row L = Inr (map (\<lambda>h. (eh_personId h, h)) L)"
    using all by (intro traverse_total) (simp add: set_L reversal_row_def)
  have row: "row_ok sha t h" "eh_sessionId h = s" "eh_submissionId h = Some sub" "eh_seededByDecision h = Some pin"
    "eh_state h = Es_invited" "eh_version h = 1" if "h \<in> set L" for h
    using that all table_row_ok [OF ok, of h] by (auto simp: set_L seeded_rows_def untouched_invitation_def)
  have "strictly_ordered (map eh_personId L)" unfolding L_def by (rule listed_people(2) [OF ok])
  moreover have "seed_rows_schema (sr_rows ?p)"
    using few row(1) by (simp add: seed_rows_schema_def len list_all_iff row_ok_def) (simp add: engagement_head_schema_def)
  ultimately have "seed_reversal_schema ?p"
    using ids row(2-) by (simp add: seed_reversal_schema_def list_all_iff comp_def)
  with rows ids show ?thesis
    unfolding L_def by (simp add: plan_engagement_seed_reversal_from_def Let_def)
qed

lemma reversal_applied:
  assumes ok: "engagement_table_ok sha t" and ids: "scope_ok scope" "vocabulary_id s" "vocabulary_id sub" "provenance_schema pin"
    and few: "length (seeded_rows t scope s sub pin) \<le> 500"
    and all: "\<forall>h \<in> set (seeded_rows t scope s sub pin). untouched_invitation h"
  obtains p r where "plan_engagement_seed_reversal_from (table_reads t) scope s sub pin = Inr p"
    "validate_engagement_seed_reversal_from (table_reads t) p = None"
    "apply_engagement_seed_reversal p t
      = Inr (t \<lparr> tb_rows := filter (\<lambda>h. h \<notin> set (seeded_rows t scope s sub pin)) (tb_rows t) \<rparr>, r)"
    "set (se_removed r) = eh_personId ` set (seeded_rows t scope s sub pin)"
proof -
  let ?L = "filter (\<lambda>h. eh_seededByDecision h = Some pin) (rd_listSeeded (table_reads t) scope s sub)"
  let ?r = "\<lparr> se_action = ''seed_reversal'', se_sessionId = s, se_submissionId = sub, se_seeded = [], se_skipped = [],
    se_removed = map eh_personId ?L \<rparr>"
  note plan = reversal_planned [OF assms]
  let ?p = "\<lparr> sr_scope = scope, sr_sessionId = s, sr_submissionId = sub, sr_seededByDecision = pin, sr_rows = map (\<lambda>h. (eh_personId h, h)) ?L \<rparr>"
  have rows: "map snd (sr_rows ?p) = ?L" "map fst (sr_rows ?p) = map eh_personId ?L" by (simp_all add: comp_def)
  have sch: "seed_reversal_schema ?p" by (rule plan_reversal_parts(1) [OF plan])
  have "each_row (delete_seeded_engagement (sr_scope ?p)) (map snd (sr_rows ?p)) t
      = Inr (t \<lparr> tb_rows := filter (\<lambda>h. h \<notin> set ?L) (tb_rows t) \<rparr>)"
    unfolding deletes_iff [OF ok reversal_rows_distinct [OF sch]] unfolding rows seeded_listed(1) [OF ok]
    using all by (auto simp: seeded_rows_def untouched_invitation_def)
  moreover have "engagement_seed_result_from_reversal ?p = (Inr ?r :: (table_error, seed_result) outcome)"
  proof -
    have "\<forall>h \<in> set ?L. vocabulary_id (eh_personId h)" "length ?L \<le> 500"
      using few table_row_ok [OF ok] unfolding seeded_listed [OF ok]
      by (auto simp: seeded_rows_def row_ok_def engagement_head_schema_def)
    with ids show ?thesis
      unfolding engagement_seed_result_from_reversal_def rows parse_seed_result_def by (simp add: list_all_iff)
  qed
  ultimately have "apply_engagement_seed_reversal ?p t
      = Inr (t \<lparr> tb_rows := filter (\<lambda>h. h \<notin> set (seeded_rows t scope s sub pin)) (tb_rows t) \<rparr>, ?r)"
    using sch unfolding seeded_listed(1) [OF ok] by (simp add: apply_engagement_seed_reversal_def)
  moreover have "validate_engagement_seed_reversal_from (table_reads t) ?p = None"
    unfolding validate_seed_reversal_iff using plan by simp
  moreover have "set (se_removed ?r) = eh_personId ` set (seeded_rows t scope s sub pin)"
    unfolding seeded_listed(1) [OF ok, symmetric] by simp
  ultimately show thesis using plan by (intro that [of ?p ?r])
qed

text \<open>
  C21. The reversal of an acceptance takes back exactly the invitations it wrote: if nobody answered one of
  them, the plan is made, it is valid and the table is left without them and otherwise unchanged; if
  somebody did, it is refused as advanced, naming such a person.
\<close>

theorem seed_reversal_exact:
  assumes "engagement_table_ok sha t" "scope_ok scope" "vocabulary_id s" "vocabulary_id sub" "provenance_schema pin"
    and "length (seeded_rows t scope s sub pin) \<le> 500"
  shows "if \<forall>h \<in> set (seeded_rows t scope s sub pin). untouched_invitation h
    then \<exists>p r. plan_engagement_seed_reversal_from (table_reads t) scope s sub pin = Inr p
      \<and> validate_engagement_seed_reversal_from (table_reads t) p = None
      \<and> apply_engagement_seed_reversal p t
        = Inr (t \<lparr> tb_rows := filter (\<lambda>h. h \<notin> set (seeded_rows t scope s sub pin)) (tb_rows t) \<rparr>, r)
      \<and> set (se_removed r) = eh_personId ` set (seeded_rows t scope s sub pin)
    else \<exists>h \<in> set (seeded_rows t scope s sub pin). \<not> untouched_invitation h
      \<and> plan_engagement_seed_reversal_from (table_reads t) scope s sub pin
        = Inl (Refused (Seed_refused Engagement_advanced (Some (eh_personId h))))"
proof (cases "\<forall>h \<in> set (seeded_rows t scope s sub pin). untouched_invitation h")
  case True
  from reversal_applied [OF assms True] show ?thesis using True by (metis (no_types, lifting))
next
  case False
  let ?L = "filter (\<lambda>h. eh_seededByDecision h = Some pin) (rd_listSeeded (table_reads t) scope s sub)"
  have "\<not> list_all untouched_invitation ?L" using False unfolding list_all_iff seeded_listed(1) [OF assms(1)] .
  from reversal_traverse_refused [OF this] obtain h where h: "h \<in> set ?L" "\<not> untouched_invitation h"
    "traverse reversal_row ?L = Inl (Refused (Seed_refused Engagement_advanced (Some (eh_personId h))))" by blast
  from h(3) have "plan_engagement_seed_reversal_from (table_reads t) scope s sub pin
      = Inl (Refused (Seed_refused Engagement_advanced (Some (eh_personId h))))"
    using assms(2,5) by (simp add: plan_engagement_seed_reversal_from_def)
  moreover have "h \<in> set (seeded_rows t scope s sub pin)" using h(1) unfolding seeded_listed(1) [OF assms(1)] .
  ultimately show ?thesis using False h(2) by auto
qed

text \<open>
  C22. An acceptance can be taken back: reversing it right after its invitations were written, under a pin
  that no earlier engagement carries, restores the table.
\<close>

theorem seed_reversed_restores:
  assumes "engagement_table_ok sha t" "plan_engagement_seed_from sha (table_reads t) input = Inr p"
    "apply_engagement_seed known p t = Inr (t', r)"
    and "seeded_rows t (si_seedScope input) (si_sessionId input) (si_submissionId input) (si_seededByDecision input) = []"
  shows "\<exists>q r'. plan_engagement_seed_reversal_from (table_reads t') (si_seedScope input) (si_sessionId input)
      (si_submissionId input) (si_seededByDecision input) = Inr q
    \<and> apply_engagement_seed_reversal q t' = Inr (t, r')"
proof -
  let ?mine = "seeded_rows t' (si_seedScope input) (si_sessionId input) (si_submissionId input) (si_seededByDecision input)"
  note e = seed_effect [OF assms(1-3)] and parts = plan_seed_parts [OF assms(2)]
  have hs: "\<forall>h \<in> set (map snd (sp_rows p)). \<exists>x. h = seeded_head sha (sp_input p) x" unfolding parts(3) by auto
  then have "filter (\<lambda>h. eh_scope h = si_seedScope input \<and> eh_submissionId h = Some (si_submissionId input)
      \<and> eh_sessionId h = si_sessionId input \<and> eh_seededByDecision h = Some (si_seededByDecision input)) (map snd (sp_rows p))
    = map snd (sp_rows p)"
    by (intro filter_True) (auto simp: seeded_head_def parts(1))
  with assms(4) have mine: "?mine = map snd (sp_rows p)" by (simp add: seeded_rows_def e(1))
  have sch: "seed_input_schema (sp_input p)" "length (sp_rows p) \<le> 500"
    using parts(2) by (simp_all add: seed_plan_schema_def seed_rows_schema_def)
  have ids: "scope_ok (si_seedScope input)" "vocabulary_id (si_sessionId input)" "vocabulary_id (si_submissionId input)"
    "provenance_schema (si_seededByDecision input)"
    using sch(1) by (simp_all add: seed_input_schema_def parts(1))
  have "\<forall>h \<in> set ?mine. untouched_invitation h" unfolding mine using hs by (auto simp: untouched_invitation_def seeded_head_def)
  moreover have "length ?mine \<le> 500" unfolding mine using sch(2) by simp
  ultimately obtain q r' where q: "plan_engagement_seed_reversal_from (table_reads t') (si_seedScope input) (si_sessionId input)
      (si_submissionId input) (si_seededByDecision input) = Inr q"
    "apply_engagement_seed_reversal q t' = Inr (t' \<lparr> tb_rows := filter (\<lambda>h. h \<notin> set ?mine) (tb_rows t') \<rparr>, r')"
    using reversal_applied [OF e(2) ids] by metis
  have "distinct (tb_rows t @ map snd (sp_rows p))" using table_rows_distinct [OF e(2)] by (simp add: e(1))
  then have "filter (\<lambda>h. h \<notin> set (map snd (sp_rows p))) (tb_rows t @ map snd (sp_rows p)) = tb_rows t"
    by (auto simp: filter_id_conv filter_empty_conv)
  then have "t' \<lparr> tb_rows := filter (\<lambda>h. h \<notin> set ?mine) (tb_rows t') \<rparr> = t" unfolding mine by (simp add: e(1))
  with q show ?thesis by metis
qed

section \<open>The answer for a group\<close>

text \<open>What the answer of one person does to an open invitation of the group, and who is in the group.\<close>

definition group_answer :: "group_input \<Rightarrow> engagement_head \<Rightarrow> engagement_head" where
  "group_answer act h = (case gq_response act of
      Respond_decline \<Rightarrow> h \<lparr> eh_state := Es_declined, eh_cancellationRequest := None, eh_version := eh_version h + 1 \<rparr>
    | Respond_confirm \<Rightarrow> h \<lparr> eh_state := Es_confirmed, eh_confirmation := Some \<lparr>
        cf_attribution = (if eh_personId h = gq_actingPersonId act then By_self else By_co_speaker),
        cf_personId = gq_actingPersonId act, cf_recordedByUserId = None, cf_confirmedAt = gq_occurredAt act \<rparr>,
        eh_version := eh_version h + 1 \<rparr>)"

definition same_group :: "engagement_head \<Rightarrow> engagement_head \<Rightarrow> bool" where
  "same_group head h \<longleftrightarrow> h = head \<or> eh_submissionId head \<noteq> None \<and> eh_scope h = eh_scope head
     \<and> eh_sessionId h = eh_sessionId head \<and> eh_submissionId h = eh_submissionId head"

lemma group_answer_key [simp]: "key_of (group_answer act h) = key_of h"
  by (simp add: group_answer_def key_of_def split: group_response.split)

definition answer_input :: "group_input \<Rightarrow> engagement_head \<Rightarrow> response_input" where
  "answer_input act h = \<lparr> ri_scope = gq_scope act, ri_actorUserId = None,
     ri_occurredAt = gq_occurredAt act, ri_engagementId = eh_id h, ri_expectedVersion = eh_version h,
     ri_action = (if gq_response act = Respond_decline then Decline
       else if eh_personId h = gq_actingPersonId act then Record_confirmation By_self None
       else Record_confirmation By_co_speaker (Some (gq_actingPersonId act))) \<rparr>"

lemma plan_for_answer: "plan_for reads act h = plan_engagement_mutation (answer_input act h) reads"
  by (simp add: plan_for_def answer_input_def)

lemma respond_answer:
  "eh_state h = Es_invited \<Longrightarrow> respond h (answer_input act h) (ri_action (answer_input act h)) = parse_engagement_head (group_answer act h)"
  by (cases "gq_response act") (auto simp: answer_input_def group_answer_def recorded_confirmation_def)

lemma open_member:
  assumes "engagement_table_ok sha t" "h \<in> set (tb_rows t)" "eh_scope h = gq_scope act" "eh_state h = Es_invited"
  shows "plan_for (table_reads t) act h = Inr p \<Longrightarrow> rl_before p = h \<and> rl_after p = group_answer act h"
    and "plan_for (table_reads t) act h = Inl e \<Longrightarrow> \<not> is_state_refusal e"
proof -
  have read: "rd_engagementHead (table_reads t) (ri_scope (answer_input act h)) (ri_engagementId (answer_input act h)) = Some h"
    using assms(2,3) by (simp add: table_head_iff [OF assms(1)] answer_input_def)
  show "rl_before p = h \<and> rl_after p = group_answer act h" if "plan_for (table_reads t) act h = Inr p"
  proof -
    note parts = plan_engagement_parts [OF that [unfolded plan_for_answer]]
    from parts(4) read have before: "rl_before p = h" by simp
    with parts(7) respond_answer [OF assms(4), of act] show ?thesis by (simp add: parse_engagement_head_iff)
  qed
  show "\<not> is_state_refusal e" if "plan_for (table_reads t) act h = Inl e"
    using that respond_answer [OF assms(4), of act] assms(3) unfolding plan_for_answer plan_engagement_mutation_def read
    by (auto simp: same_scope_def answer_input_def parse_engagement_head_def Let_def rbind_def split: if_splits)
qed

lemma plan_members_parts:
  assumes ok: "engagement_table_ok sha t"
  shows "plan_members (table_reads t) act head people = Inr planned \<Longrightarrow>
    \<forall>m \<in> set people. m \<in> set (tb_rows t) \<and> eh_scope m = gq_scope act \<Longrightarrow>
    \<exists>actor siblings. planned = Inr (actor, siblings)
      \<and> map rl_before siblings = filter (\<lambda>m. eh_state m = Es_invited \<and> eh_id m \<noteq> eh_id head) people
      \<and> (case actor of None \<Rightarrow> True | Some p \<Rightarrow> rl_before p \<in> set people \<and> eh_state (rl_before p) = Es_invited \<and> eh_id (rl_before p) = eh_id head)
      \<and> (\<forall>p \<in> set siblings \<union> set_option actor. plan_for (table_reads t) act (rl_before p) = Inr p \<and> rl_after p = group_answer act (rl_before p))"
proof (induction people arbitrary: planned)
  case (Cons m people)
  show ?case
  proof (cases "eh_state m = Es_invited")
    case False
    then have "plan_members (table_reads t) act head people = Inr planned" using Cons.prems(1) by simp
    from Cons.IH [OF this] Cons.prems(2) obtain actor siblings where "planned = Inr (actor, siblings)"
      "map rl_before siblings = filter (\<lambda>m. eh_state m = Es_invited \<and> eh_id m \<noteq> eh_id head) people"
      "case actor of None \<Rightarrow> True | Some p \<Rightarrow> rl_before p \<in> set people \<and> eh_state (rl_before p) = Es_invited \<and> eh_id (rl_before p) = eh_id head"
      "\<forall>p \<in> set siblings \<union> set_option actor. plan_for (table_reads t) act (rl_before p) = Inr p \<and> rl_after p = group_answer act (rl_before p)"
      by auto
    with False show ?thesis by (cases actor) simp_all
  next
    case True
    have m: "m \<in> set (tb_rows t)" "eh_scope m = gq_scope act" using Cons.prems(2) by simp_all
    note member = open_member [OF ok m True]
    obtain p where p: "plan_for (table_reads t) act m = Inr p"
      using Cons.prems(1) True member(2) by (cases "plan_for (table_reads t) act m") auto
    from Cons.prems(1) True p obtain rest where rest: "plan_members (table_reads t) act head people = Inr rest"
      by (auto simp: rbind_Inr_iff)
    from Cons.IH [OF rest] Cons.prems(2) obtain actor siblings where r: "rest = Inr (actor, siblings)"
      and s: "map rl_before siblings = filter (\<lambda>m. eh_state m = Es_invited \<and> eh_id m \<noteq> eh_id head) people"
      and a: "case actor of None \<Rightarrow> True | Some p \<Rightarrow> rl_before p \<in> set people \<and> eh_state (rl_before p) = Es_invited \<and> eh_id (rl_before p) = eh_id head"
      and all: "\<forall>p \<in> set siblings \<union> set_option actor. plan_for (table_reads t) act (rl_before p) = Inr p \<and> rl_after p = group_answer act (rl_before p)"
      by auto
    have planned: "planned = Inr (if eh_id m = eh_id head then (case actor of None \<Rightarrow> Some p | Some later \<Rightarrow> Some later, siblings)
        else (actor, p # siblings))"
      using Cons.prems(1) True p rest r by (auto split: if_splits)
    from member(1) [OF p] p have own: "rl_before p = m" "plan_for (table_reads t) act (rl_before p) = Inr p"
      "rl_after p = group_answer act (rl_before p)" by simp_all
    show ?thesis
    proof (cases "eh_id m = eh_id head")
      case same: True
      show ?thesis
        using a all s own True same unfolding planned by (cases actor) simp_all
    next
      case False
      with a all s own True show ?thesis unfolding planned by (cases actor) simp_all
    qed
  qed
qed simp

lemma apply_planned:
  assumes "engagement_table_ok sha t" "plan_engagement_mutation i reads = Inr p" "rl_before p \<in> set (tb_rows t)"
  shows "\<exists>r. apply_engagement_plan p t = Inr (t \<lparr> tb_rows := map (\<lambda>h. if h = rl_before p then rl_after p else h) (tb_rows t) \<rparr>, r)"
proof -
  note parts = plan_engagement_parts [OF assms(2)]
  have "engagement_head_schema (rl_before p)" using table_row_ok [OF assms(1,3)] by (simp add: row_ok_def)
  from respond_image [OF parts(7) this] have "engagement_head_schema (rl_after p)" "engagement_evolved (rl_before p) (rl_after p)" by simp_all
  then show ?thesis
    using assms(3) parts(1,3,5) by (simp add: apply_engagement_plan_def update_engagement_iff [OF assms(1)] engagement_evolved_def
        engagement_result_from_plan_def rbind_Inr_iff)
qed

text \<open>Applying a response and keeping the table.\<close>

definition take_response :: "response_plan \<Rightarrow> engagement_table \<Rightarrow> engagement_table tables" where
  "take_response p t = rbind (apply_engagement_plan p t) (\<lambda>(t', _). Inr t')"

lemma responses_applied:
  "engagement_table_ok sha t \<Longrightarrow> distinct (map rl_before ps) \<Longrightarrow> \<forall>p \<in> set ps. rl_before p \<in> set (tb_rows t) \<Longrightarrow>
   \<forall>p \<in> set ps. \<exists>i reads. plan_engagement_mutation i reads = Inr p \<Longrightarrow> \<forall>p \<in> set ps. rl_after p = f (rl_before p) \<Longrightarrow>
   \<forall>h. key_of (f h) = key_of h \<Longrightarrow>
   each_row take_response ps t = Inr (t \<lparr> tb_rows := map (\<lambda>h. if h \<in> set (map rl_before ps) then f h else h) (tb_rows t) \<rparr>)"
proof (induction ps arbitrary: t)
  case (Cons p ps)
  let ?b = "rl_before p"
  let ?u = "t \<lparr> tb_rows := map (\<lambda>h. if h = ?b then rl_after p else h) (tb_rows t) \<rparr>"
  have b: "?b \<in> set (tb_rows t)" "rl_after p = f ?b" using Cons.prems(3,5) by simp_all
  obtain i reads where plan: "plan_engagement_mutation i reads = Inr p" using Cons.prems(4) by auto
  obtain r where r: "apply_engagement_plan p t = Inr (?u, r)" using apply_planned [OF Cons.prems(1) plan b(1)] by blast
  note e = responded_effect [OF Cons.prems(1) plan r]
  have ok: "engagement_table_ok sha ?u" by (rule updated_ok [OF Cons.prems(1) b(1) e(3,4)])
  have fresh: "f ?b \<notin> set (map rl_before ps)"
  proof
    assume "f ?b \<in> set (map rl_before ps)"
    with Cons.prems(3) have "f ?b \<in> set (tb_rows t)" by auto
    with b(1) Cons.prems(1,6) have "f ?b = ?b" by (auto simp: engagement_table_ok_def distinct_map inj_on_def)
    with \<open>f ?b \<in> set (map rl_before ps)\<close> Cons.prems(2) show False by simp
  qed
  have "\<forall>q \<in> set ps. rl_before q \<in> set (tb_rows ?u)" using Cons.prems(2,3) by (auto simp: image_iff)
  with Cons.IH [OF ok] Cons.prems have "each_row take_response ps ?u
      = Inr (?u \<lparr> tb_rows := map (\<lambda>h. if h \<in> set (map rl_before ps) then f h else h) (tb_rows ?u) \<rparr>)" by simp
  moreover have "map (\<lambda>h. if h \<in> set (map rl_before ps) then f h else h) (tb_rows ?u)
      = map (\<lambda>h. if h \<in> set (map rl_before (p # ps)) then f h else h) (tb_rows t)"
    using fresh b(2) by auto
  moreover have "take_response p t = Inr ?u" by (simp add: take_response_def r)
  ultimately show ?case by simp
qed simp

lemma group_act_parts:
  assumes "plan_participant_group_act reads act = Inr (Inr g)"
  obtains head people where "rd_engagementHead reads (gq_scope act) (gq_engagementId act) = Some head"
    "eh_scope head = gq_scope act" "eh_personId head = gq_actingPersonId act" "eh_state head = Es_invited"
    "people = (case eh_submissionId head of None \<Rightarrow> [head]
      | Some submission \<Rightarrow> rd_listSeeded reads (gq_scope act) (eh_sessionId head) submission)"
    "plan_members reads act head people = Inr (Inr (Some (ga_actorPlan g), ga_siblingPlans g))"
    "strictly_ordered (map eh_personId people)"
proof -
  obtain head where head: "rd_engagementHead reads (gq_scope act) (gq_engagementId act) = Some head"
    using assms by (auto simp: plan_participant_group_act_def split: option.splits)
  define people where "people = (case eh_submissionId head of None \<Rightarrow> [head]
      | Some submission \<Rightarrow> rd_listSeeded reads (gq_scope act) (eh_sessionId head) submission)"
  note run = assms [unfolded plan_participant_group_act_def head option.case, folded people_def, unfolded Let_def]
  have guards: "same_scope (eh_scope head) (gq_scope act)" "eh_personId head = gq_actingPersonId act" "eh_state head = Es_invited"
    "group_valid head people"
    using run by (simp_all split: if_split_asm)
  with run obtain planned where planned: "plan_members reads act head people = Inr planned"
    and g: "Inr g = (case planned of Inl refusal \<Rightarrow> Inl refusal
      | Inr (None, _) \<Rightarrow> Inl Engagement_not_open
      | Inr (Some actor, siblings) \<Rightarrow> Inr \<lparr> ga_response = gq_response act, ga_actorPlan = actor,
          ga_siblingPlans = siblings, ga_sessionId = eh_sessionId head, ga_submissionId = eh_submissionId head,
          ga_groupPersonIds = map eh_personId people,
          ga_informedPersonIds = filter (\<lambda>p. p \<noteq> gq_actingPersonId act) (map eh_personId people) \<rparr>)"
    by (auto simp: rbind_Inr_iff)
  then obtain actor siblings where "planned = Inr (Some actor, siblings)" "ga_actorPlan g = actor" "ga_siblingPlans g = siblings"
    by (auto split: sum.splits option.splits)
  moreover have "eh_scope head = gq_scope act" using guards(1) by (simp add: same_scope_def)
  ultimately show thesis using that [OF head _ guards(2,3) people_def] planned guards(4) by (simp add: group_valid_def)
qed

definition group_of :: "engagement_reads \<Rightarrow> engagement_head \<Rightarrow> engagement_head list" where
  "group_of reads head = (case eh_submissionId head of None \<Rightarrow> [head]
     | Some submission \<Rightarrow> rd_listSeeded reads (eh_scope head) (eh_sessionId head) submission)"

lemma group_of_table:
  assumes "engagement_table_ok sha t" "head \<in> set (tb_rows t)"
  shows "set (group_of (table_reads t) head) = {m \<in> set (tb_rows t). same_group head m}"
    and "strictly_ordered (map eh_personId (group_of (table_reads t) head))"
  using assms(2) listed_people(2) [OF assms(1), of "\<lambda>_. True"]
  by (auto simp: group_of_def same_group_def listed_people(1) [OF assms(1)] strictly_ordered_iff split: option.splits)

lemma open_member_planned:
  assumes ok: "engagement_table_ok sha t" and h: "h \<in> set (tb_rows t)" "eh_scope h = gq_scope act" "eh_state h = Es_invited"
    and "eh_version h < max_safe_integer" "session_instant (gq_occurredAt act)" "vocabulary_id (gq_actingPersonId act)"
  obtains p where "plan_for (table_reads t) act h = Inr p"
proof -
  let ?i = "answer_input act h"
  have sch: "engagement_head_schema h" using table_row_ok [OF ok h(1)] by (simp add: row_ok_def)
  then have i: "response_input_schema ?i"
    using assms(6,7) h(2) by (simp add: response_input_schema_def answer_input_def engagement_head_schema_def)
  have spec: "\<exists>v. response_spec (ri_action ?i) (engagement_view h) = Some v" "\<not> own_co_speaker h (ri_action ?i)"
    using h(3) by (auto simp: answer_input_def engagement_view_def own_co_speaker_def)
  then obtain v where v: "response_spec (ri_action ?i) (engagement_view h) = Some v" by blast
  have "key_of h = (ri_scope ?i, ri_engagementId ?i)" "eh_version h = ri_expectedVersion ?i"
    using h(2) by (simp_all add: key_of_def answer_input_def)
  from applied_response [OF ok i h(1) this assms(5) v spec(2)] that show thesis unfolding plan_for_answer by blast
qed

lemma plan_members_total:
  "\<forall>m \<in> set people. eh_state m = Es_invited \<longrightarrow> (\<exists>p. plan_for reads act m = Inr p) \<Longrightarrow>
   \<exists>actor siblings. plan_members reads act head people = Inr (Inr (actor, siblings))
     \<and> ((\<exists>m \<in> set people. eh_state m = Es_invited \<and> eh_id m = eh_id head) \<longrightarrow> actor \<noteq> None)"
proof (induction people)
  case (Cons m people)
  then obtain actor siblings where rest: "plan_members reads act head people = Inr (Inr (actor, siblings))"
    "(\<exists>m \<in> set people. eh_state m = Es_invited \<and> eh_id m = eh_id head) \<longrightarrow> actor \<noteq> None" by auto
  show ?case
  proof (cases "eh_state m = Es_invited")
    case True
    with Cons.prems obtain p where "plan_for reads act m = Inr p" by auto
    with True rest show ?thesis by (cases actor) auto
  next
    case False
    with rest show ?thesis by auto
  qed
qed simp

lemma group_planned:
  assumes ok: "engagement_table_ok sha t" and h: "head \<in> set (tb_rows t)" "key_of head = (gq_scope act, gq_engagementId act)"
    "eh_personId head = gq_actingPersonId act" "eh_state head = Es_invited"
    and "session_instant (gq_occurredAt act)" "\<forall>m \<in> set (tb_rows t). same_group head m \<longrightarrow> eh_version m < max_safe_integer"
  obtains g where "plan_participant_group_act (table_reads t) act = Inr (Inr g)"
    "ga_informedPersonIds g = filter (\<lambda>p. p \<noteq> gq_actingPersonId act) (map eh_personId (group_of (table_reads t) head))"
proof -
  let ?people = "group_of (table_reads t) head"
  note people = group_of_table [OF ok h(1)]
  have read: "rd_engagementHead (table_reads t) (gq_scope act) (gq_engagementId act) = Some head" "eh_scope head = gq_scope act"
    using h by (simp_all add: table_head_iff [OF ok] key_of_def)
  have acting: "vocabulary_id (gq_actingPersonId act)"
    using table_row_ok [OF ok h(1)] h(3) by (auto simp: row_ok_def engagement_head_schema_def)
  have "\<exists>p. plan_for (table_reads t) act m = Inr p" if m: "m \<in> set ?people" "eh_state m = Es_invited" for m
  proof -
    have "m \<in> set (tb_rows t)" "same_group head m" using m(1) unfolding people by simp_all
    moreover have "eh_scope m = gq_scope act" using \<open>same_group head m\<close> read(2) by (auto simp: same_group_def)
    ultimately show ?thesis using open_member_planned [OF ok _ _ m(2) _ assms(6) acting] assms(7) by metis
  qed
  moreover have self: "head \<in> set ?people" unfolding people using h(1) by (simp add: same_group_def)
  ultimately obtain actor siblings where run: "plan_members (table_reads t) act head ?people = Inr (Inr (Some actor, siblings))"
    using plan_members_total [of ?people "table_reads t" act head] h(4) by blast
  have "list_all (\<lambda>m. eh_sessionId m = eh_sessionId head \<and> eh_submissionId m = eh_submissionId head) ?people"
    unfolding list_all_iff people by (auto simp: same_group_def)
  with self people(2) have "group_valid head ?people" by (auto simp: group_valid_def)
  moreover have "(case eh_submissionId head of None \<Rightarrow> [head]
      | Some sub \<Rightarrow> rd_listSeeded (table_reads t) (gq_scope act) (eh_sessionId head) sub) = ?people"
    unfolding group_of_def read(2) ..
  ultimately show thesis
    using read h(3,4) run
    by (intro that [of "\<lparr> ga_response = gq_response act, ga_actorPlan = actor, ga_siblingPlans = siblings,
          ga_sessionId = eh_sessionId head, ga_submissionId = eh_submissionId head, ga_groupPersonIds = map eh_personId ?people,
          ga_informedPersonIds = filter (\<lambda>p. p \<noteq> gq_actingPersonId act) (map eh_personId ?people) \<rparr>"])
      (simp_all add: plan_participant_group_act_def same_scope_def Let_def)
qed

lemma group_applied:
  assumes ok: "engagement_table_ok sha t" and h: "head \<in> set (tb_rows t)" "key_of head = (gq_scope act, gq_engagementId act)"
    and g: "plan_participant_group_act (table_reads t) act = Inr (Inr g)"
  shows "each_row take_response (ga_actorPlan g # ga_siblingPlans g) t
      = Inr (t \<lparr> tb_rows := map (\<lambda>h. if same_group head h \<and> eh_state h = Es_invited then group_answer act h else h) (tb_rows t) \<rparr>)"
proof -
  obtain head' people where read: "rd_engagementHead (table_reads t) (gq_scope act) (gq_engagementId act) = Some head'"
    and i: "eh_scope head' = gq_scope act" "eh_state head' = Es_invited"
    and people_is: "people = (case eh_submissionId head' of None \<Rightarrow> [head']
      | Some sub \<Rightarrow> rd_listSeeded (table_reads t) (gq_scope act) (eh_sessionId head') sub)"
    and run: "plan_members (table_reads t) act head' people = Inr (Inr (Some (ga_actorPlan g), ga_siblingPlans g))"
    using group_act_parts [OF g] by metis
  have "rd_engagementHead (table_reads t) (gq_scope act) (gq_engagementId act) = Some head"
    using h by (simp add: table_head_iff [OF ok] key_of_def)
  with read have head: "head' = head" by simp
  note inv = i [unfolded head]
  have "people = group_of (table_reads t) head" using people_is unfolding head group_of_def inv(1) .
  note people = group_of_table [OF ok h(1), folded this]
  have scopes: "\<forall>m \<in> set people. m \<in> set (tb_rows t) \<and> eh_scope m = gq_scope act"
    using inv(1) unfolding people by (auto simp: same_group_def)
  from plan_members_parts [OF ok run [unfolded head] scopes]
  have s: "map rl_before (ga_siblingPlans g) = filter (\<lambda>m. eh_state m = Es_invited \<and> eh_id m \<noteq> eh_id head) people"
    and a: "rl_before (ga_actorPlan g) \<in> set people" "eh_id (rl_before (ga_actorPlan g)) = eh_id head"
    and all: "\<forall>p \<in> set (ga_actorPlan g # ga_siblingPlans g). plan_for (table_reads t) act (rl_before p) = Inr p
      \<and> rl_after p = group_answer act (rl_before p)" by auto
  have same: "m = head" if "m \<in> set people" "eh_id m = eh_id head" for m
    using that scopes h(1) inv(1) ok by (auto simp: engagement_table_ok_def distinct_map inj_on_def key_of_def)
  with a have actor: "rl_before (ga_actorPlan g) = head" by blast
  have befores: "set (map rl_before (ga_actorPlan g # ga_siblingPlans g)) = {m \<in> set (tb_rows t). same_group head m \<and> eh_state m = Es_invited}"
    unfolding list.map s set_simps actor using same h(1) inv(2) by (auto simp: people same_group_def)
  have "distinct people" using people(2) unfolding strictly_ordered_iff by (metis distinct_map)
  then have "distinct (map rl_before (ga_actorPlan g # ga_siblingPlans g))" unfolding list.map s actor by simp
  from responses_applied [OF ok this, of "group_answer act"] befores all
  have "each_row take_response (ga_actorPlan g # ga_siblingPlans g) t = Inr (t \<lparr> tb_rows := map (\<lambda>h.
      if h \<in> set (map rl_before (ga_actorPlan g # ga_siblingPlans g)) then group_answer act h else h) (tb_rows t) \<rparr>)"
    unfolding plan_for_answer by fastforce
  moreover have "map (\<lambda>h. if h \<in> set (map rl_before (ga_actorPlan g # ga_siblingPlans g)) then group_answer act h else h) (tb_rows t)
      = map (\<lambda>h. if same_group head h \<and> eh_state h = Es_invited then group_answer act h else h) (tb_rows t)"
    unfolding befores by simp
  ultimately show ?thesis by simp
qed

text \<open>
  C23. The answer of one person binds the group of their submission. From their own open invitation the act
  is planned, and the table takes all its responses in their order: every open invitation of the group is
  answered, one's own as oneself and the others as by a co-speaker, everything else is unchanged, and the
  informed people are the others of the group.
\<close>

theorem group_answer_binds:
  assumes "engagement_table_ok sha t" "head \<in> set (tb_rows t)" "key_of head = (gq_scope act, gq_engagementId act)"
    "eh_personId head = gq_actingPersonId act" "eh_state head = Es_invited"
    and "session_instant (gq_occurredAt act)" "\<forall>m \<in> set (tb_rows t). same_group head m \<longrightarrow> eh_version m < max_safe_integer"
  shows "\<exists>g. plan_participant_group_act (table_reads t) act = Inr (Inr g)
    \<and> each_row take_response (ga_actorPlan g # ga_siblingPlans g) t
      = Inr (t \<lparr> tb_rows := map (\<lambda>h. if same_group head h \<and> eh_state h = Es_invited then group_answer act h else h) (tb_rows t) \<rparr>)
    \<and> set (ga_informedPersonIds g) = eh_personId ` {m \<in> set (tb_rows t). same_group head m} - {gq_actingPersonId act}"
proof -
  obtain g where g: "plan_participant_group_act (table_reads t) act = Inr (Inr g)"
    "ga_informedPersonIds g = filter (\<lambda>p. p \<noteq> gq_actingPersonId act) (map eh_personId (group_of (table_reads t) head))"
    using group_planned [OF assms] .
  have "set (ga_informedPersonIds g) = eh_personId ` {m \<in> set (tb_rows t). same_group head m} - {gq_actingPersonId act}"
    unfolding g(2) set_filter set_map group_of_table(1) [OF assms(1,2)] by auto
  with g(1) group_applied [OF assms(1-3) g(1)] show ?thesis by blast
qed

section \<open>A sample\<close>

text \<open>
  Two people of an accepted submission. The digest spreads the last digit of the person, so that the
  identifiers of the two engagements differ.
\<close>

definition person_sha :: "string \<Rightarrow> string" where
  "person_sha text = replicate 64 (if digit (text ! 124) then text ! 124 else CHR ''0'')"

definition sample_pin :: seed_provenance where
  "sample_pin = \<lparr> sv_version = 1, sv_digest = replicate 64 CHR ''0'' \<rparr>"

definition sample_seed :: seed_input where
  "sample_seed = \<lparr> si_seedScope = sample_scope, si_sessionId = sample_id CHR ''7'', si_submissionId = sample_id CHR ''0'',
     si_seededByDecision = sample_pin, si_source = \<lparr> ro_kind = ''submission'', ro_id = sample_id CHR ''0'', ro_version = 1 \<rparr>,
     si_personIds = [sample_id CHR ''3'', sample_id CHR ''8''], si_invitedAt = clock 3, si_respondBy = None \<rparr>"

definition sample_invited :: "char \<Rightarrow> engagement_head" where
  "sample_invited c = seeded_head person_sha sample_seed (sample_id c)"

definition sample_nobody :: engagement_table where
  "sample_nobody = \<lparr> tb_events = [sample_scope], tb_rows = [] \<rparr>"

definition sample_invitations :: engagement_table where
  "sample_invitations = \<lparr> tb_events = [sample_scope], tb_rows = [sample_invited CHR ''3'', sample_invited CHR ''8''] \<rparr>"

lemma person_sha_hex: "\<forall>x. sha256_hex (person_sha x)"
  by (simp add: person_sha_def sha256_hex_def list_all_replicate lower_hex_def digit_def code_of_def)

lemma sample_engagement_ids:
  "deterministic_engagement_id person_sha sample_scope (sample_id CHR ''7'') (sample_id CHR ''3'') = ''33333333-3333-4333-8333-333333333333''"
  "deterministic_engagement_id person_sha sample_scope (sample_id CHR ''7'') (sample_id CHR ''8'') = ''88888888-8888-4888-8888-888888888888''"
  by code_simp+

lemma sample_persons_ordered: "sample_id CHR ''3'' < sample_id CHR ''8''"
  by code_simp

lemma sample_persons: "canonical_persons [sample_id CHR ''3'', sample_id CHR ''8''] = [sample_id CHR ''3'', sample_id CHR ''8'']"
  using sample_persons_ordered by (simp add: canonical_persons_def js_sort_def js_compare_def)

lemma sample_pin_ok: "provenance_schema sample_pin"
  by (simp add: provenance_schema_def sample_pin_def sha256_hex_def list_all_replicate lower_hex_def digit_def code_of_def)

lemma sample_seed_fields:
  "si_seedScope sample_seed = sample_scope" "si_sessionId sample_seed = sample_id CHR ''7''"
  "si_submissionId sample_seed = sample_id CHR ''0''" "si_seededByDecision sample_seed = sample_pin"
  "si_personIds sample_seed = [sample_id CHR ''3'', sample_id CHR ''8'']" "ro_kind (si_source sample_seed) = ''submission''"
  "sample_seed \<lparr> si_personIds := canonical_persons (si_personIds sample_seed) \<rparr> = sample_seed"
  by (simp_all add: sample_seed_def sample_persons)

lemma sample_seed_ok: "seed_input_schema sample_seed"
  using sample_persons_ordered
  by (simp add: seed_input_schema_def sample_seed_def sample_scope_ok sample_pin_ok roster_source_schema_def sample_source_texts
      sample_session_instant strictly_ordered_iff)

lemma sample_invited_fields:
  "eh_id (sample_invited CHR ''3'') = ''33333333-3333-4333-8333-333333333333''"
  "eh_id (sample_invited CHR ''8'') = ''88888888-8888-4888-8888-888888888888''"
  "eh_scope (sample_invited c) = sample_scope" "eh_sessionId (sample_invited c) = sample_id CHR ''7''"
  "eh_personId (sample_invited c) = sample_id c" "eh_submissionId (sample_invited c) = Some (sample_id CHR ''0'')"
  "eh_seededByDecision (sample_invited c) = Some sample_pin" "eh_state (sample_invited c) = Es_invited"
  "eh_version (sample_invited c) = 1" "eh_confirmation (sample_invited c) = None" "eh_cancellationRequest (sample_invited c) = None"
  by (simp_all add: sample_invited_def seeded_head_def sample_seed_fields sample_engagement_ids)

lemma sample_invited_differ: "sample_invited CHR ''3'' \<noteq> sample_invited CHR ''8''"
proof -
  have "eh_id (sample_invited CHR ''3'') \<noteq> eh_id (sample_invited CHR ''8'')" by (simp add: sample_invited_fields(1,2))
  then show ?thesis by auto
qed

lemma sample_nobody_ok: "engagement_table_ok person_sha sample_nobody"
  by (simp add: engagement_table_ok_def sample_nobody_def)

lemma sample_seeding:
  obtains p r where "plan_engagement_seed_from person_sha (table_reads sample_nobody) sample_seed = Inr p"
    "apply_engagement_seed (\<lambda>_ _. True) p sample_nobody = Inr (sample_invitations, r)"
proof -
  let ?p = "\<lparr> sp_input = sample_seed, sp_rows = [(sample_id CHR ''3'', sample_invited CHR ''3''), (sample_id CHR ''8'', sample_invited CHR ''8'')],
    sp_skipped = [] \<rparr>"
  have plan: "plan_engagement_seed_from person_sha (table_reads sample_nobody) sample_seed = Inr ?p"
    using plan_seed_total [of sample_seed person_sha "table_reads sample_nobody", unfolded sample_seed_fields(7), OF sample_seed_ok
        sample_seed_fields(6) person_sha_hex]
    by (simp add: sample_seed_fields table_reads_def sample_nobody_def sample_invited_def)
  have "distinct (map key_of (tb_rows sample_nobody @ map snd (sp_rows ?p)))"
    by (simp add: sample_nobody_def key_of_def sample_invited_fields)
  from applied_seed [where known = "\<lambda>_ _. True", OF sample_nobody_ok plan _ _ this] that [OF plan] show thesis
    by (auto simp: sample_nobody_def sample_seed_fields sample_invitations_def)
qed

lemma sample_seeding_step: "engagement_step person_sha (\<lambda>_ _. True) sample_nobody sample_invitations"
  using sample_seeding engagement_step.seeded by metis

lemma sample_invitations_ok: "engagement_table_ok person_sha sample_invitations"
  using step_keeps_table [OF sample_seeding_step sample_nobody_ok] by blast

definition sample_decline :: "string \<Rightarrow> response_input" where
  "sample_decline engagementId = \<lparr> ri_scope = sample_scope, ri_actorUserId = None, ri_occurredAt = clock 3, ri_engagementId = engagementId,
     ri_expectedVersion = 1, ri_action = Decline \<rparr>"

lemma sample_decline_ok:
  "response_input_schema (sample_decline ''33333333-3333-4333-8333-333333333333'')"
  "response_input_schema (sample_decline ''88888888-8888-4888-8888-888888888888'')"
proof -
  have "vocabulary_id ''33333333-3333-4333-8333-333333333333''" "vocabulary_id ''88888888-8888-4888-8888-888888888888''"
    by code_simp+
  then show "response_input_schema (sample_decline ''33333333-3333-4333-8333-333333333333'')"
    "response_input_schema (sample_decline ''88888888-8888-4888-8888-888888888888'')"
    by (simp_all add: response_input_schema_def sample_decline_def sample_scope_ok sample_session_instant)
qed

definition declined :: "engagement_head \<Rightarrow> engagement_head" where
  "declined h = h \<lparr> eh_state := Es_declined, eh_cancellationRequest := None, eh_version := 2 \<rparr>"

lemma sample_decline_step:
  assumes "engagement_table_ok person_sha t" "sample_invited c \<in> set (tb_rows t)" "response_input_schema (sample_decline (eh_id (sample_invited c)))"
  shows "engagement_step person_sha (\<lambda>_ _. True) t
    (t \<lparr> tb_rows := map (\<lambda>r. if r = sample_invited c then declined (sample_invited c) else r) (tb_rows t) \<rparr>)"
proof -
  let ?i = "sample_decline (eh_id (sample_invited c))"
  have h: "key_of (sample_invited c) = (ri_scope ?i, ri_engagementId ?i)" "eh_version (sample_invited c) = ri_expectedVersion ?i"
    "eh_version (sample_invited c) < max_safe_integer" "response_spec (ri_action ?i) (engagement_view (sample_invited c)) = Some (Es_declined, False)"
    "\<not> own_co_speaker (sample_invited c) (ri_action ?i)"
    by (simp_all add: key_of_def sample_decline_def sample_invited_fields max_safe_integer_def engagement_view_def own_co_speaker_def)
  from applied_response [OF assms(1,3,2) h] obtain p where p: "plan_engagement_mutation ?i (table_reads t) = Inr p"
    "respond (sample_invited c) ?i (ri_action ?i) = Inr (rl_after p)"
    "apply_engagement_plan p t = Inr (t \<lparr> tb_rows := map (\<lambda>r. if r = sample_invited c then rl_after p else r) (tb_rows t) \<rparr>,
      response_action_text (ri_action ?i), rl_after p)" .
  have after: "rl_after p = declined (sample_invited c)"
    using p(2) by (simp add: sample_decline_def sample_invited_fields parse_engagement_head_iff declined_def)
  from engagement_step.responded [where sha = person_sha and known = "\<lambda>_ _. True", OF p(1,3)] show ?thesis unfolding after .
qed

theorem engagement_response_machine_witness:
  "\<exists>p t' r. plan_engagement_mutation (sample_decline ''33333333-3333-4333-8333-333333333333'') (table_reads sample_invitations) = Inr p
    \<and> apply_engagement_plan p sample_invitations = Inr (t', r) \<and> engagement_view (rl_after p) = (Es_declined, False)
    \<and> plan_engagement_mutation (sample_decline ''33333333-3333-4333-8333-333333333333'') (table_reads t')
      = refuse_engagement E_stale ''33333333-3333-4333-8333-333333333333''"
proof -
  let ?h = "sample_invited CHR ''3''" and ?i = "sample_decline ''33333333-3333-4333-8333-333333333333''"
  have "?h \<in> set (tb_rows sample_invitations)" "key_of ?h = (ri_scope ?i, ri_engagementId ?i)" "eh_version ?h = ri_expectedVersion ?i"
    "eh_version ?h < max_safe_integer"
    by (simp_all add: sample_invitations_def key_of_def sample_decline_def sample_invited_fields max_safe_integer_def)
  from engagement_response_machine [OF sample_invitations_ok sample_decline_ok(1) this] show ?thesis
    by (auto simp: sample_decline_def engagement_view_def sample_invited_fields own_co_speaker_def)
qed

theorem engagement_rows_unique_witness:
  "rd_sessionPerson (table_reads sample_invitations) sample_scope (sample_id CHR ''7'') (sample_id CHR ''3'') = Some (sample_invited CHR ''3'')"
  using engagement_rows_unique [of person_sha "\<lambda>_ _. True" "[sample_scope]" sample_invitations "sample_invited CHR ''3''",
      OF r_into_rtranclp [of "engagement_step person_sha (\<lambda>_ _. True)", OF sample_seeding_step [unfolded sample_nobody_def]]]
  by (simp add: sample_invitations_def sample_invited_fields)

theorem answered_engagement_kept_witness:
  "\<exists>t t'. (engagement_step person_sha (\<lambda>_ _. True))\<^sup>+\<^sup>+ sample_nobody t \<and> (engagement_step person_sha (\<lambda>_ _. True))\<^sup>+\<^sup>+ t t'
    \<and> rd_sessionPerson (table_reads t') sample_scope (sample_id CHR ''7'') (sample_id CHR ''3'') = Some (declined (sample_invited CHR ''3''))"
proof -
  let ?a = "sample_invited CHR ''3''" and ?b = "sample_invited CHR ''8''" and ?step = "engagement_step person_sha (\<lambda>_ _. True)"
  define t where "t = sample_invitations \<lparr> tb_rows := [declined ?a, ?b] \<rparr>"
  define t' where "t' = sample_invitations \<lparr> tb_rows := [declined ?a, declined ?b] \<rparr>"
  have "eh_version (declined ?a) \<noteq> eh_version ?b" by (simp add: declined_def sample_invited_fields(9))
  then have "declined ?a \<noteq> ?b" by auto
  have one: "?step sample_invitations t"
    using sample_decline_step [OF sample_invitations_ok, of "CHR ''3''"] sample_decline_ok sample_invited_differ
    by (simp add: sample_invitations_def sample_invited_fields t_def)
  from step_keeps_table [OF one sample_invitations_ok] have ok: "engagement_table_ok person_sha t" by blast
  have two: "?step t t'"
    using sample_decline_step [OF ok, of "CHR ''8''"] sample_decline_ok sample_invited_fields(2) \<open>declined ?a \<noteq> ?b\<close>
    by (simp add: t_def t'_def)
  have h: "declined ?a \<in> set (tb_rows t)" "2 \<le> eh_version (declined ?a)" by (simp_all add: t_def declined_def)
  have start: "?step\<^sup>*\<^sup>* sample_nobody t" using sample_seeding_step one by simp
  from answered_engagement_kept [OF start [unfolded sample_nobody_def] h r_into_rtranclp [of ?step, OF two]]
  have "rd_sessionPerson (table_reads t') sample_scope (sample_id CHR ''7'') (sample_id CHR ''3'') = Some (declined ?a)"
    by (auto simp: declined_def sample_invited_fields)
  moreover have "?step\<^sup>+\<^sup>+ sample_nobody t" "?step\<^sup>+\<^sup>+ t t'" using sample_seeding_step one two by auto
  ultimately show ?thesis by blast
qed

theorem seed_invites_everyone_witness:
  "\<exists>p t' r q. plan_engagement_seed_from person_sha (table_reads sample_nobody) sample_seed = Inr p
    \<and> apply_engagement_seed (\<lambda>_ _. True) p sample_nobody = Inr (t', r)
    \<and> rd_sessionPerson (table_reads t') sample_scope (sample_id CHR ''7'') (sample_id CHR ''8'') = Some (sample_invited CHR ''8'')
    \<and> plan_engagement_seed_from person_sha (table_reads t') sample_seed = Inr q \<and> sp_rows q = []"
proof -
  have "inj_on (deterministic_engagement_id person_sha (si_seedScope sample_seed) (si_sessionId sample_seed)) (set (si_personIds sample_seed))"
    by (simp add: sample_seed_fields sample_engagement_ids)
  moreover have "\<forall>x \<in> set (si_personIds sample_seed). \<forall>r \<in> set (tb_rows sample_nobody).
      pair_of r \<noteq> (si_seedScope sample_seed, si_sessionId sample_seed, x)
      \<longrightarrow> key_of r \<noteq> (si_seedScope sample_seed, deterministic_engagement_id person_sha (si_seedScope sample_seed) (si_sessionId sample_seed) x)"
    by (simp add: sample_nobody_def)
  ultimately obtain p t' r q where
    "plan_engagement_seed_from person_sha (table_reads sample_nobody) sample_seed = Inr p"
    "apply_engagement_seed (\<lambda>_ _. True) p sample_nobody = Inr (t', r)"
    "\<forall>x \<in> set (si_personIds sample_seed). rd_sessionPerson (table_reads t') (si_seedScope sample_seed) (si_sessionId sample_seed) x
        = Some (case rd_sessionPerson (table_reads sample_nobody) (si_seedScope sample_seed) (si_sessionId sample_seed) x of
            Some existing \<Rightarrow> existing | None \<Rightarrow> seeded_head person_sha sample_seed x)"
    "plan_engagement_seed_from person_sha (table_reads t') sample_seed = Inr q" "sp_rows q = []"
    using seed_invites_everyone [of person_sha sample_nobody sample_seed "\<lambda>_ _. True", unfolded sample_seed_fields(7),
        OF sample_nobody_ok person_sha_hex sample_seed_ok sample_seed_fields(6)]
    by (auto simp: sample_nobody_def sample_seed_fields)
  then show ?thesis
    by (intro exI [of _ p] exI [of _ t'] exI [of _ r] exI [of _ q])
      (simp add: sample_seed_fields table_reads_def sample_nobody_def sample_invited_def)
qed

lemma sample_seeded_rows:
  "seeded_rows sample_invitations sample_scope (sample_id CHR ''7'') (sample_id CHR ''0'') sample_pin
    = [sample_invited CHR ''3'', sample_invited CHR ''8'']"
  by (simp add: seeded_rows_def sample_invitations_def sample_invited_fields)

theorem seed_reversal_exact_witness:
  "\<exists>p r. plan_engagement_seed_reversal_from (table_reads sample_invitations) sample_scope (sample_id CHR ''7'') (sample_id CHR ''0'') sample_pin = Inr p
    \<and> apply_engagement_seed_reversal p sample_invitations = Inr (sample_nobody, r)
    \<and> set (se_removed r) = {sample_id CHR ''3'', sample_id CHR ''8''}"
  using seed_reversal_exact [OF sample_invitations_ok sample_scope_ok _ _ sample_pin_ok, of "sample_id CHR ''7''" "sample_id CHR ''0''"]
  unfolding sample_seeded_rows
  by (auto simp: untouched_invitation_def sample_invited_fields sample_invitations_def sample_nobody_def)

theorem seed_reversed_restores_witness:
  "\<exists>q r. plan_engagement_seed_reversal_from (table_reads sample_invitations) sample_scope (sample_id CHR ''7'') (sample_id CHR ''0'') sample_pin = Inr q
    \<and> apply_engagement_seed_reversal q sample_invitations = Inr (sample_nobody, r)"
proof -
  obtain p r where p: "plan_engagement_seed_from person_sha (table_reads sample_nobody) sample_seed = Inr p"
    "apply_engagement_seed (\<lambda>_ _. True) p sample_nobody = Inr (sample_invitations, r)" using sample_seeding .
  from seed_reversed_restores [where known = "\<lambda>_ _. True", OF sample_nobody_ok p] show ?thesis
    by (simp add: seeded_rows_def sample_nobody_def sample_seed_fields)
qed

definition sample_answer :: group_input where
  "sample_answer = \<lparr> gq_scope = sample_scope, gq_actingPersonId = sample_id CHR ''3'',
     gq_engagementId = ''33333333-3333-4333-8333-333333333333'', gq_response = Respond_confirm, gq_occurredAt = clock 3 \<rparr>"

theorem group_answer_binds_witness:
  "\<exists>g. plan_participant_group_act (table_reads sample_invitations) sample_answer = Inr (Inr g)
    \<and> each_row take_response (ga_actorPlan g # ga_siblingPlans g) sample_invitations
      = Inr (sample_invitations \<lparr> tb_rows := [group_answer sample_answer (sample_invited CHR ''3''),
        group_answer sample_answer (sample_invited CHR ''8'')] \<rparr>)
    \<and> ga_informedPersonIds g \<noteq> []"
proof -
  have ins: "sample_invited CHR ''3'' \<in> set (tb_rows sample_invitations)"
    and open_row: "key_of (sample_invited CHR ''3'') = (gq_scope sample_answer, gq_engagementId sample_answer)"
      "eh_personId (sample_invited CHR ''3'') = gq_actingPersonId sample_answer" "eh_state (sample_invited CHR ''3'') = Es_invited"
      "session_instant (gq_occurredAt sample_answer)"
    and low: "\<forall>m \<in> set (tb_rows sample_invitations). same_group (sample_invited CHR ''3'') m \<longrightarrow> eh_version m < max_safe_integer"
    by (auto simp: sample_invitations_def key_of_def sample_invited_fields sample_answer_def sample_session_instant max_safe_integer_def)
  let ?a = "sample_invited CHR ''3''" and ?b = "sample_invited CHR ''8''"
  have both: "same_group ?a ?a" "same_group ?a ?b" by (simp_all add: same_group_def sample_invited_fields)
  have rows: "map (\<lambda>h. if same_group ?a h \<and> eh_state h = Es_invited then group_answer sample_answer h else h) (tb_rows sample_invitations)
      = [group_answer sample_answer ?a, group_answer sample_answer ?b]"
    by (simp add: sample_invitations_def both sample_invited_fields(8))
  have "?b \<in> {m \<in> set (tb_rows sample_invitations). same_group ?a m}" by (simp add: sample_invitations_def both)
  moreover have "eh_personId ?b \<noteq> gq_actingPersonId sample_answer" by (simp add: sample_invited_fields sample_answer_def sample_id_def)
  ultimately have "eh_personId ` {m \<in> set (tb_rows sample_invitations). same_group ?a m} - {gq_actingPersonId sample_answer} \<noteq> {}"
    by blast
  with group_answer_binds [OF sample_invitations_ok ins open_row low] show ?thesis unfolding rows by (metis set_empty)
qed

end
