(* ===== verification/ModelRun.thy ===== *)
theory ModelRun
  imports Identifiers Instants Definitions Json
begin

text \<open>
  Runs of a language model, \<open>packages/model-adapter/src/run-state.ts\<close> with its \<open>types.ts\<close> and
  \<open>bindings.ts\<close>: a run is queued, claimed for an attempt of a provider, settled by what the provider
  reports, cancelled, or handed to an operator who may allow a retry. The source throws \<open>TypeError\<close>s
  whose message is a code; they are the refusals below.

  Identifiers, instants and payload references are branded strings of the source, so the parsers that
  made them are not repeated here; \<open>Date.parse\<close> of an instant is a safe integer.
\<close>

section \<open>Data\<close>

record model_ref =
  mr_key :: string
  mr_version :: int

record model_revision = model_ref +
  mr_digest :: string

record model_budget =
  mb_maximumAttempts :: int
  mb_maxInputTokens :: int
  mb_maxOutputTokens :: int
  mb_maxCostMicros :: int
  mb_timeoutMs :: int

record normalized_usage =
  nu_inputTokens :: "int option"
  nu_outputTokens :: "int option"
  nu_cachedInputTokens :: "int option"
  nu_costMicros :: "int option"

record usage_ledger =
  ul_attemptsObserved :: int
  ul_inputTokens :: int
  ul_outputTokens :: int
  ul_cachedInputTokens :: int
  ul_costMicros :: int
  ul_missing :: "string list"

datatype execution_mode = Batch | Fast

record provider_evidence =
  pe_adapter :: model_ref
  pe_providerRequestId :: "string option"
  pe_idempotencySupported :: bool
  pe_executionMode :: "execution_mode option"
  pe_resolvedControls :: "(string \<times> json) list option"

record tool_operation =
  to_name :: string
  to_version :: int

record tool_request =
  tr_callId :: string
  tr_operation :: tool_operation
  tr_input :: json

datatype retryability = Never | Policy

datatype recovery = Lookup | Idempotent_reuse | Manual

datatype observation =
    Obs_succeeded json normalized_usage provider_evidence
  | Obs_tool_requests "tool_request list" normalized_usage provider_evidence
  | Obs_schema_invalid string normalized_usage string provider_evidence
  | Obs_known_failure string retryability "normalized_usage option" "provider_evidence option"
  | Obs_acceptance_unknown provider_evidence recovery
  | Obs_cancelled "normalized_usage option" "provider_evidence option"

datatype cancel_outcome = Cancel_cancelled | Cancel_too_late | Cancel_unknown | Cancel_unsupported

datatype run_state =
    M_queued | M_running | M_waiting_for_tool | M_reconciling | M_cancel_requested | M_attention
  | M_succeeded | M_failed | M_cancelled | M_exhausted

datatype intervention_reason = Provider_failure | Schema_invalid | Acceptance_unknown | Budget_exhausted

record intervention =
  iv_sourceAttemptId :: string
  iv_reason :: intervention_reason
  iv_providerRetryability :: "retryability option"
  iv_providerRecovery :: "recovery option"
  iv_providerIdempotencySupported :: "bool option"
  iv_requiredRetryRequestBinding :: "string option"

record retry_allowance =
  ra_evidenceId :: string
  ra_sourceAttemptId :: string
  ra_maximumCostReservationMicros :: int
  ra_acceptsUnknownUsage :: bool
  ra_requiredRequestBinding :: "string option"

record cancellation_result =
  cn_attemptId :: string
  cn_fence :: int
  cn_outcome :: cancel_outcome
  cn_observedAt :: string

record source_operation = tool_operation +
  so_receiptId :: string

text \<open>An active attempt is its identifier and its fence.\<close>

record model_run =
  rn_id :: string
  rn_version :: int
  rn_state :: run_state
  rn_profile :: model_revision
  rn_profileAdapter :: model_ref
  rn_scaffold :: model_revision
  rn_sourceOperation :: source_operation
  rn_scopeKey :: string
  rn_authorityCitationId :: string
  rn_classifiedInputRefs :: "string list"
  rn_requestedOutputSchema :: model_ref
  rn_budget :: model_budget
  rn_usage :: usage_ledger
  rn_attemptsStarted :: int
  rn_reservedCostMicros :: int
  rn_activeAttempt :: "(string \<times> int) option"
  rn_pendingIntervention :: "intervention option"
  rn_lastInterventionEvidenceId :: "string option"
  rn_retryAllowance :: "retry_allowance option"
  rn_lastCancellationResult :: "cancellation_result option"
  rn_resultRef :: "string option"
  rn_safeFailureCode :: "string option"
  rn_createdAt :: string
  rn_updatedAt :: string

datatype attempt_state =
    T_started | T_succeeded | T_tool_requests | T_schema_invalid | T_known_failure | T_acceptance_unknown
  | T_cancelled

record model_attempt =
  ma_id :: string
  ma_runId :: string
  ma_number :: int
  ma_fence :: int
  ma_requestBinding :: string
  ma_adapter :: model_ref
  ma_costReservationMicros :: int
  ma_executionMode :: execution_mode
  ma_state :: attempt_state
  ma_evidence :: "provider_evidence option"
  ma_usage :: "normalized_usage option"
  ma_requestedTools :: "(string \<times> tool_operation) list option"
  ma_startedAt :: string
  ma_finishedAt :: "string option"

record model_tool_call =
  tc_id :: string
  tc_runId :: string
  tc_attemptId :: string
  tc_sequence :: int
  tc_providerCallId :: string
  tc_operation :: tool_operation
  tc_inputRef :: string
  tc_inputBinding :: string
  tc_operationReceiptId :: "string option"

datatype model_code =
    E_stale_model_run | E_model_run_not_claimable | E_model_attempt_budget_exhausted
  | E_model_usage_budget_exhausted | E_model_retry_request_binding_mismatch
  | E_model_usage_unknown_requires_intervention | E_model_retry_allowance_exceeded
  | E_model_cost_budget_exhausted | E_stale_model_attempt_fence
  | E_successful_model_output_requires_adopted_payload | E_only_successful_model_output_accepts_result_payload
  | E_model_observation_adapter_mismatch | E_model_idempotent_reuse_not_supported
  | E_invalid_model_cancellation_confirmation | E_model_cancellation_requires_reconciliation
  | E_model_intervention_not_applicable | E_model_budget_exhausted_cannot_retry
  | E_model_provider_failure_not_retryable | E_ambiguous_model_acceptance_requires_reconciliation
  | E_ambiguous_model_retry_binding_missing | E_safe_retry_requires_exact_allowance
  | E_retry_allowance_requires_safe_retry | E_model_retry_allowance_exceeds_run_budget
  | E_model_tool_call_not_expected | E_model_tool_call_not_declared_by_attempt | E_model_tool_receipt_conflict
  | E_model_run_not_waiting_for_tools | E_model_tool_calls_incomplete

type_synonym 'a modelled = "(model_code, 'a) outcome"

section \<open>Checks\<close>

definition assert_positive :: "int \<Rightarrow> unit modelled" where
  "assert_positive value = (if \<not> safe_integer value \<or> value \<le> 0 then Inl TypeErr else Inr ())"

definition assert_non_negative :: "int \<Rightarrow> unit modelled" where
  "assert_non_negative value = (if \<not> safe_integer value \<or> value < 0 then Inl TypeErr else Inr ())"

definition safe_add :: "int \<Rightarrow> int \<Rightarrow> int modelled" where
  "safe_add l r =
     rbind (assert_non_negative l) (\<lambda>_. rbind (assert_non_negative r) (\<lambda>_.
       if \<not> safe_integer (l + r) then Inl TypeErr else Inr (l + r)))"

definition assert_usage_ledger :: "usage_ledger \<Rightarrow> unit modelled" where
  "assert_usage_ledger ledger =
     rbind (assert_non_negative (ul_attemptsObserved ledger)) (\<lambda>_.
     rbind (assert_non_negative (ul_inputTokens ledger)) (\<lambda>_.
     rbind (assert_non_negative (ul_outputTokens ledger)) (\<lambda>_.
     rbind (assert_non_negative (ul_cachedInputTokens ledger)) (\<lambda>_.
       assert_non_negative (ul_costMicros ledger)))))"

definition assert_retry_budget_available :: "model_run \<Rightarrow> unit modelled" where
  "assert_retry_budget_available run =
     rbind (assert_usage_ledger (rn_usage run)) (\<lambda>_.
       if mb_maximumAttempts (rn_budget run) \<le> rn_attemptsStarted run then Inl (Refused E_model_attempt_budget_exhausted)
       else if mb_maxInputTokens (rn_budget run) \<le> ul_inputTokens (rn_usage run)
         \<or> mb_maxOutputTokens (rn_budget run) \<le> ul_outputTokens (rn_usage run)
         \<or> mb_maxCostMicros (rn_budget run) \<le> ul_costMicros (rn_usage run)
       then Inl (Refused E_model_usage_budget_exhausted) else Inr ())"

definition next_run_version :: "model_run \<Rightarrow> int modelled" where
  "next_run_version run = widen (positive_version (rn_version run + 1))"

definition assert_expected_version :: "model_run \<Rightarrow> int \<Rightarrow> unit modelled" where
  "assert_expected_version run expected = ensure (rn_version run = expected) (Refused E_stale_model_run)"

definition assert_instant_not_before :: "string \<Rightarrow> string \<Rightarrow> unit modelled" where
  "assert_instant_not_before value minimum = ensure (date_parse minimum \<le> date_parse value) TypeErr"

definition assert_adapter_ref :: "('a model_ref_scheme) \<Rightarrow> unit modelled" where
  "assert_adapter_ref reference = rbind (ensure (mr_key reference \<noteq> []) TypeErr) (\<lambda>_. assert_positive (mr_version reference))"

definition binding_pattern :: "string \<Rightarrow> string \<Rightarrow> bool" where
  "binding_pattern start s \<longleftrightarrow> take 5 s = start \<and> sha256_hex (drop 5 s)"

definition parse_request_binding :: "string \<Rightarrow> string modelled" where
  "parse_request_binding value = (if \<not> binding_pattern ''mrb1_'' value then Inl TypeErr else Inr value)"

definition parse_tool_input_binding :: "string \<Rightarrow> string modelled" where
  "parse_tool_input_binding value = (if \<not> binding_pattern ''mtb1_'' value then Inl TypeErr else Inr value)"

definition parse_provider_idempotency_key :: "string \<Rightarrow> string modelled" where
  "parse_provider_idempotency_key value = (if \<not> binding_pattern ''mpw1_'' value then Inl TypeErr else Inr value)"

definition provider_idempotency_key_for :: "string \<Rightarrow> string modelled" where
  "provider_idempotency_key_for binding =
     rbind (parse_request_binding binding) (\<lambda>verified. parse_provider_idempotency_key (''mpw1_'' @ drop 5 verified))"

definition validate_normalized_usage :: "normalized_usage \<Rightarrow> unit modelled" where
  "validate_normalized_usage usage =
     rbind (traverse (\<lambda>v. case v of None \<Rightarrow> Inr () | Some n \<Rightarrow> assert_non_negative n)
       [nu_inputTokens usage, nu_outputTokens usage, nu_cachedInputTokens usage, nu_costMicros usage]) (\<lambda>_. Inr ())"

section \<open>Creating a run\<close>

record run_profile = model_revision +
  rp_adapter :: model_ref

record run_scaffold = model_revision +
  rs_purpose :: string
  rs_outputSchema :: model_ref
  rs_allowedTools :: "tool_operation list"

record create_run_input =
  cr_id :: string
  cr_profile :: run_profile
  cr_scaffold :: run_scaffold
  cr_sourceOperation :: source_operation
  cr_scopeKey :: string
  cr_authorityCitationId :: string
  cr_classifiedInputRefs :: "string list"
  cr_createdAt :: string
  cr_budget :: model_budget

definition empty_usage :: usage_ledger where
  "empty_usage = \<lparr> ul_attemptsObserved = 0, ul_inputTokens = 0, ul_outputTokens = 0, ul_cachedInputTokens = 0,
     ul_costMicros = 0, ul_missing = [] \<rparr>"

definition revision_of :: "('a model_revision_scheme) \<Rightarrow> model_revision" where
  "revision_of r = \<lparr> mr_key = mr_key r, mr_version = mr_version r, mr_digest = mr_digest r \<rparr>"

definition create_model_run :: "create_run_input \<Rightarrow> model_run modelled" where
  "create_model_run i =
     rbind (ensure (sha256_hex (mr_digest (cr_profile i)) \<and> sha256_hex (mr_digest (cr_scaffold i))) TypeErr) (\<lambda>_.
     rbind (ensure (cr_scopeKey i \<noteq> [] \<and> to_name (cr_sourceOperation i) \<noteq> []) TypeErr) (\<lambda>_.
     rbind (assert_positive (mr_version (cr_profile i))) (\<lambda>_.
     rbind (assert_adapter_ref (rp_adapter (cr_profile i))) (\<lambda>_.
     rbind (assert_positive (mr_version (cr_scaffold i))) (\<lambda>_.
     rbind (assert_positive (to_version (cr_sourceOperation i))) (\<lambda>_.
     rbind (assert_positive (mb_maximumAttempts (cr_budget i))) (\<lambda>_.
     rbind (assert_positive (mb_maxInputTokens (cr_budget i))) (\<lambda>_.
     rbind (assert_positive (mb_maxOutputTokens (cr_budget i))) (\<lambda>_.
     rbind (assert_non_negative (mb_maxCostMicros (cr_budget i))) (\<lambda>_.
     rbind (assert_positive (mb_timeoutMs (cr_budget i))) (\<lambda>_.
     Inr \<lparr> rn_id = cr_id i, rn_version = 1, rn_state = M_queued, rn_profile = revision_of (cr_profile i),
       rn_profileAdapter = rp_adapter (cr_profile i), rn_scaffold = revision_of (cr_scaffold i),
       rn_sourceOperation = cr_sourceOperation i, rn_scopeKey = cr_scopeKey i,
       rn_authorityCitationId = cr_authorityCitationId i, rn_classifiedInputRefs = cr_classifiedInputRefs i,
       rn_requestedOutputSchema = rs_outputSchema (cr_scaffold i), rn_budget = cr_budget i, rn_usage = empty_usage,
       rn_attemptsStarted = 0, rn_reservedCostMicros = 0, rn_activeAttempt = None, rn_pendingIntervention = None,
       rn_lastInterventionEvidenceId = None, rn_retryAllowance = None, rn_lastCancellationResult = None,
       rn_resultRef = None, rn_safeFailureCode = None, rn_createdAt = cr_createdAt i, rn_updatedAt = cr_createdAt i \<rparr>)))))))))))"

section \<open>Claiming an attempt\<close>

record claim_attempt_input =
  ca_expectedRunVersion :: int
  ca_attemptId :: string
  ca_requestBinding :: string
  ca_executionMode :: execution_mode
  ca_costReservationMicros :: int
  ca_startedAt :: string

definition required_binding :: "model_run \<Rightarrow> string option" where
  "required_binding run = (case rn_retryAllowance run of None \<Rightarrow> None | Some a \<Rightarrow> ra_requiredRequestBinding a)"

definition claim_model_attempt :: "model_run \<Rightarrow> claim_attempt_input \<Rightarrow> (model_run \<times> model_attempt) modelled" where
  "claim_model_attempt run i =
     rbind (assert_expected_version run (ca_expectedRunVersion i)) (\<lambda>_.
     if rn_state run \<noteq> M_queued \<or> rn_activeAttempt run \<noteq> None then Inl (Refused E_model_run_not_claimable)
     else rbind (assert_retry_budget_available run) (\<lambda>_.
     rbind (parse_request_binding (ca_requestBinding i)) (\<lambda>_.
     rbind (assert_adapter_ref (rn_profileAdapter run)) (\<lambda>_.
     if required_binding run \<noteq> None \<and> required_binding run \<noteq> Some (ca_requestBinding i)
     then Inl (Refused E_model_retry_request_binding_mismatch)
     else rbind (assert_non_negative (ca_costReservationMicros i)) (\<lambda>_.
     if ''costMicros'' \<in> set (ul_missing (rn_usage run))
       \<and> \<not> (case rn_retryAllowance run of None \<Rightarrow> False | Some a \<Rightarrow> ra_acceptsUnknownUsage a)
     then Inl (Refused E_model_usage_unknown_requires_intervention)
     else if (case rn_retryAllowance run of None \<Rightarrow> False
       | Some a \<Rightarrow> ra_maximumCostReservationMicros a < ca_costReservationMicros i)
     then Inl (Refused E_model_retry_allowance_exceeded)
     else rbind (safe_add (ul_costMicros (rn_usage run)) (ca_costReservationMicros i)) (\<lambda>total.
     if mb_maxCostMicros (rn_budget run) < total then Inl (Refused E_model_cost_budget_exhausted)
     else
       (let number = rn_attemptsStarted run + 1;
            fence = number;
            attempt = \<lparr> ma_id = ca_attemptId i, ma_runId = rn_id run, ma_number = number, ma_fence = fence,
              ma_requestBinding = ca_requestBinding i, ma_adapter = rn_profileAdapter run,
              ma_costReservationMicros = ca_costReservationMicros i, ma_executionMode = ca_executionMode i,
              ma_state = T_started, ma_evidence = None, ma_usage = None, ma_requestedTools = None,
              ma_startedAt = ca_startedAt i, ma_finishedAt = None \<rparr> in
        rbind (next_run_version run) (\<lambda>version.
          Inr (run \<lparr> rn_version := version, rn_state := M_running, rn_attemptsStarted := number,
            rn_reservedCostMicros := ca_costReservationMicros i, rn_activeAttempt := Some (ca_attemptId i, fence),
            rn_retryAllowance := None, rn_updatedAt := ca_startedAt i \<rparr>, attempt)))))))))"

section \<open>Settling an attempt\<close>

fun observation_usage :: "observation \<Rightarrow> normalized_usage option" where
  "observation_usage (Obs_succeeded _ u _) = Some u"
| "observation_usage (Obs_tool_requests _ u _) = Some u"
| "observation_usage (Obs_schema_invalid _ u _ _) = Some u"
| "observation_usage (Obs_known_failure _ _ u _) = u"
| "observation_usage (Obs_acceptance_unknown _ _) = None"
| "observation_usage (Obs_cancelled u _) = u"

fun observation_evidence :: "observation \<Rightarrow> provider_evidence option" where
  "observation_evidence (Obs_succeeded _ _ e) = Some e"
| "observation_evidence (Obs_tool_requests _ _ e) = Some e"
| "observation_evidence (Obs_schema_invalid _ _ _ e) = Some e"
| "observation_evidence (Obs_known_failure _ _ _ e) = e"
| "observation_evidence (Obs_acceptance_unknown e _) = Some e"
| "observation_evidence (Obs_cancelled _ e) = e"

fun observed_state :: "observation \<Rightarrow> attempt_state" where
  "observed_state (Obs_succeeded _ _ _) = T_succeeded"
| "observed_state (Obs_tool_requests _ _ _) = T_tool_requests"
| "observed_state (Obs_schema_invalid _ _ _ _) = T_schema_invalid"
| "observed_state (Obs_known_failure _ _ _ _) = T_known_failure"
| "observed_state (Obs_acceptance_unknown _ _) = T_acceptance_unknown"
| "observed_state (Obs_cancelled _ _) = T_cancelled"

fun observed_tools :: "observation \<Rightarrow> (string \<times> tool_operation) list option" where
  "observed_tools (Obs_tool_requests requests _ _) = Some (map (\<lambda>r. (tr_callId r, tr_operation r)) requests)"
| "observed_tools _ = None"

text \<open>A reported amount of a usage that may be missing.\<close>

definition reported :: "(normalized_usage \<Rightarrow> int option) \<Rightarrow> normalized_usage option \<Rightarrow> int option" where
  "reported field usage = (case usage of None \<Rightarrow> None | Some u \<Rightarrow> field u)"

definition or_zero :: "int option \<Rightarrow> int" where
  "or_zero v = (case v of None \<Rightarrow> 0 | Some n \<Rightarrow> n)"

definition missing_fields :: "normalized_usage option \<Rightarrow> string list" where
  "missing_fields usage = map fst (filter (\<lambda>(_, field). reported field usage = None)
     [(''inputTokens'', nu_inputTokens), (''outputTokens'', nu_outputTokens),
      (''cachedInputTokens'', nu_cachedInputTokens), (''costMicros'', nu_costMicros)])"

definition add_missing :: "string list \<Rightarrow> string list \<Rightarrow> string list" where
  "add_missing missing added = js_sort js_compare (remdups (missing @ added))"

definition append_usage :: "usage_ledger \<Rightarrow> normalized_usage option \<Rightarrow> usage_ledger modelled" where
  "append_usage ledger usage =
     rbind (assert_usage_ledger ledger) (\<lambda>_.
     rbind (case usage of None \<Rightarrow> Inr () | Some u \<Rightarrow> validate_normalized_usage u) (\<lambda>_.
     rbind (safe_add (ul_attemptsObserved ledger) 1) (\<lambda>attempts.
     rbind (safe_add (ul_inputTokens ledger) (or_zero (reported nu_inputTokens usage))) (\<lambda>inputs.
     rbind (safe_add (ul_outputTokens ledger) (or_zero (reported nu_outputTokens usage))) (\<lambda>outputs.
     rbind (safe_add (ul_cachedInputTokens ledger) (or_zero (reported nu_cachedInputTokens usage))) (\<lambda>cached.
     rbind (safe_add (ul_costMicros ledger) (or_zero (reported nu_costMicros usage))) (\<lambda>cost.
       Inr \<lparr> ul_attemptsObserved = attempts, ul_inputTokens = inputs, ul_outputTokens = outputs,
         ul_cachedInputTokens = cached, ul_costMicros = cost,
         ul_missing = add_missing (ul_missing ledger) (missing_fields usage) \<rparr>)))))))"

definition exceeds_budget :: "model_budget \<Rightarrow> usage_ledger \<Rightarrow> bool" where
  "exceeds_budget budget ledger \<longleftrightarrow> mb_maxInputTokens budget < ul_inputTokens ledger
     \<or> mb_maxOutputTokens budget < ul_outputTokens ledger \<or> mb_maxCostMicros budget < ul_costMicros ledger"

record reduce_input =
  re_expectedRunVersion :: int
  re_observation :: observation
  re_finishedAt :: string
  re_adoptedResultRef :: "string option"

definition intervene_for :: "string \<Rightarrow> intervention_reason \<Rightarrow> intervention" where
  "intervene_for attemptId reason = \<lparr> iv_sourceAttemptId = attemptId, iv_reason = reason,
     iv_providerRetryability = None, iv_providerRecovery = None, iv_providerIdempotencySupported = None,
     iv_requiredRetryRequestBinding = None \<rparr>"

text \<open>Where an observation takes the run: its state, failure code, intervention and result.\<close>

fun settlement ::
  "model_attempt \<Rightarrow> string option \<Rightarrow> observation \<Rightarrow> run_state \<times> string option \<times> intervention option \<times> string option"
where
  "settlement attempt adopted (Obs_succeeded _ _ _) = (M_succeeded, None, None, adopted)"
| "settlement attempt adopted (Obs_tool_requests _ _ _) = (M_waiting_for_tool, None, None, None)"
| "settlement attempt adopted (Obs_schema_invalid _ _ code _) =
     (M_attention, Some code, Some (intervene_for (ma_id attempt) Schema_invalid), None)"
| "settlement attempt adopted (Obs_known_failure code r _ _) =
     (M_attention, Some code,
      Some ((intervene_for (ma_id attempt) Provider_failure) \<lparr> iv_providerRetryability := Some r \<rparr>), None)"
| "settlement attempt adopted (Obs_acceptance_unknown e r) =
     (M_reconciling, Some ''model_acceptance_unknown'',
      Some ((intervene_for (ma_id attempt) Acceptance_unknown) \<lparr> iv_providerRecovery := Some r,
        iv_providerIdempotencySupported := Some (pe_idempotencySupported e),
        iv_requiredRetryRequestBinding := (if r = Idempotent_reuse then Some (ma_requestBinding attempt) else None) \<rparr>),
      None)"
| "settlement attempt adopted (Obs_cancelled _ _) = (M_cancelled, None, None, None)"

definition is_active :: "model_run \<Rightarrow> model_attempt \<Rightarrow> bool" where
  "is_active run attempt \<longleftrightarrow> ma_state attempt = T_started \<and> ma_runId attempt = rn_id run
     \<and> rn_activeAttempt run = Some (ma_id attempt, ma_fence attempt)"

definition cancellation_reconciliation :: "model_run \<Rightarrow> model_attempt \<Rightarrow> bool" where
  "cancellation_reconciliation run attempt \<longleftrightarrow> rn_state run = M_reconciling
     \<and> (case rn_lastCancellationResult run of None \<Rightarrow> False
       | Some c \<Rightarrow> (cn_outcome c = Cancel_too_late \<or> cn_outcome c = Cancel_unknown)
           \<and> cn_attemptId c = ma_id attempt \<and> cn_fence c = ma_fence attempt)"

definition evidence_mismatch :: "provider_evidence option \<Rightarrow> model_attempt \<Rightarrow> bool" where
  "evidence_mismatch evidence attempt \<longleftrightarrow> (case evidence of None \<Rightarrow> False
     | Some e \<Rightarrow> pe_adapter e \<noteq> ma_adapter attempt)"

fun reuse_unsupported :: "observation \<Rightarrow> bool" where
  "reuse_unsupported (Obs_acceptance_unknown e r) \<longleftrightarrow> r = Idempotent_reuse \<and> \<not> pe_idempotencySupported e"
| "reuse_unsupported _ \<longleftrightarrow> False"

fun is_succeeded :: "observation \<Rightarrow> bool" where
  "is_succeeded (Obs_succeeded _ _ _) \<longleftrightarrow> True"
| "is_succeeded _ \<longleftrightarrow> False"

definition kept :: "'a option \<Rightarrow> 'a option \<Rightarrow> 'a option" where
  "kept new old = (case new of None \<Rightarrow> old | Some x \<Rightarrow> Some x)"

definition finish_attempt :: "model_attempt \<Rightarrow> observation \<Rightarrow> string \<Rightarrow> model_attempt" where
  "finish_attempt attempt obs finishedAt = attempt \<lparr> ma_state := observed_state obs,
     ma_requestedTools := kept (observed_tools obs) (ma_requestedTools attempt),
     ma_usage := kept (observation_usage obs) (ma_usage attempt),
     ma_evidence := kept (observation_evidence obs) (ma_evidence attempt), ma_finishedAt := Some finishedAt \<rparr>"

definition reduce_model_attempt ::
  "model_run \<Rightarrow> model_attempt \<Rightarrow> reduce_input \<Rightarrow> (model_run \<times> model_attempt) modelled"
where
  "reduce_model_attempt run attempt i =
     rbind (assert_expected_version run (re_expectedRunVersion i)) (\<lambda>_.
     if rn_state run \<noteq> M_running \<and> \<not> cancellation_reconciliation run attempt \<or> \<not> is_active run attempt
     then Inl (Refused E_stale_model_attempt_fence)
     else if is_succeeded (re_observation i) \<and> re_adoptedResultRef i = None
     then Inl (Refused E_successful_model_output_requires_adopted_payload)
     else if \<not> is_succeeded (re_observation i) \<and> re_adoptedResultRef i \<noteq> None
     then Inl (Refused E_only_successful_model_output_accepts_result_payload)
     else rbind (assert_instant_not_before (re_finishedAt i) (ma_startedAt attempt)) (\<lambda>_.
     if evidence_mismatch (observation_evidence (re_observation i)) attempt
     then Inl (Refused E_model_observation_adapter_mismatch)
     else if reuse_unsupported (re_observation i) then Inl (Refused E_model_idempotent_reuse_not_supported)
     else rbind (append_usage (rn_usage run) (observation_usage (re_observation i))) (\<lambda>ledger.
       (let (state, code, pending, result) =
          (if exceeds_budget (rn_budget run) ledger
           then (M_exhausted, Some ''model_budget_exceeded'',
             Some (intervene_for (ma_id attempt) Budget_exhausted), None)
           else settlement attempt (re_adoptedResultRef i) (re_observation i)) in
        rbind (next_run_version run) (\<lambda>version.
          Inr (run \<lparr> rn_version := version, rn_state := state, rn_usage := ledger, rn_reservedCostMicros := 0,
              rn_activeAttempt := None, rn_pendingIntervention := pending, rn_lastCancellationResult := None,
              rn_resultRef := result,
              rn_safeFailureCode := (case code of Some c \<Rightarrow> if c = [] then None else Some c | None \<Rightarrow> None),
              rn_updatedAt := re_finishedAt i \<rparr>,
            finish_attempt attempt (re_observation i) (re_finishedAt i)))))))"

section \<open>Cancelling an attempt\<close>

record cancel_request_input =
  cq_expectedRunVersion :: int
  cq_expectedActiveAttempt :: "string \<times> int"
  cq_requestedAt :: string

definition request_model_cancellation :: "model_run \<Rightarrow> cancel_request_input \<Rightarrow> model_run modelled" where
  "request_model_cancellation run i =
     rbind (assert_expected_version run (cq_expectedRunVersion i)) (\<lambda>_.
     if rn_state run \<noteq> M_running \<or> rn_activeAttempt run \<noteq> Some (cq_expectedActiveAttempt i)
     then Inl (Refused E_stale_model_attempt_fence)
     else rbind (next_run_version run) (\<lambda>version.
       Inr (run \<lparr> rn_version := version, rn_state := M_cancel_requested, rn_lastCancellationResult := None,
         rn_safeFailureCode := None, rn_updatedAt := cq_requestedAt i \<rparr>)))"

record cancel_result_input =
  cx_expectedRunVersion :: int
  cx_expectedAttemptId :: string
  cx_expectedFence :: int
  cx_outcome :: cancel_outcome
  cx_observedAt :: string

definition expected_attempt :: "model_run \<Rightarrow> model_attempt \<Rightarrow> string \<Rightarrow> int \<Rightarrow> bool" where
  "expected_attempt run attempt attemptId fence \<longleftrightarrow> is_active run attempt \<and> ma_id attempt = attemptId
     \<and> ma_fence attempt = fence"

fun cancellation_code :: "cancel_outcome \<Rightarrow> string option" where
  "cancellation_code Cancel_unsupported = Some ''model_cancellation_unsupported_continuing''"
| "cancellation_code Cancel_too_late = Some ''model_cancellation_too_late_reconcile''"
| "cancellation_code Cancel_unknown = Some ''model_cancellation_unknown_reconcile''"
| "cancellation_code Cancel_cancelled = None"

definition record_model_cancellation_result ::
  "model_run \<Rightarrow> model_attempt \<Rightarrow> cancel_result_input \<Rightarrow> model_run modelled"
where
  "record_model_cancellation_result run attempt i =
     rbind (assert_expected_version run (cx_expectedRunVersion i)) (\<lambda>_.
     if rn_state run \<noteq> M_cancel_requested \<or> \<not> expected_attempt run attempt (cx_expectedAttemptId i) (cx_expectedFence i)
     then Inl (Refused E_stale_model_attempt_fence)
     else rbind (assert_instant_not_before (cx_observedAt i) (ma_startedAt attempt)) (\<lambda>_.
     rbind (assert_instant_not_before (cx_observedAt i) (rn_updatedAt run)) (\<lambda>_.
     rbind (next_run_version run) (\<lambda>version.
       Inr (run \<lparr> rn_version := version,
         rn_state := (if cx_outcome i = Cancel_unsupported then M_running else M_reconciling),
         rn_lastCancellationResult := Some \<lparr> cn_attemptId = ma_id attempt, cn_fence = ma_fence attempt,
           cn_outcome = cx_outcome i, cn_observedAt = cx_observedAt i \<rparr>,
         rn_safeFailureCode := cancellation_code (cx_outcome i), rn_updatedAt := cx_observedAt i \<rparr>)))))"

record cancel_confirm_input =
  cc_expectedRunVersion :: int
  cc_expectedAttemptId :: string
  cc_expectedFence :: int
  cc_usage :: "normalized_usage option"
  cc_evidence :: "provider_evidence option"
  cc_finishedAt :: string

text \<open>The observation of a confirmation is a cancelled one, by its type.\<close>

definition confirm_model_cancellation ::
  "model_run \<Rightarrow> model_attempt \<Rightarrow> cancel_confirm_input \<Rightarrow> (model_run \<times> model_attempt) modelled"
where
  "confirm_model_cancellation run attempt i =
     rbind (assert_expected_version run (cc_expectedRunVersion i)) (\<lambda>_.
     if rn_state run \<noteq> M_cancel_requested \<and> rn_state run \<noteq> M_reconciling
       \<or> \<not> expected_attempt run attempt (cc_expectedAttemptId i) (cc_expectedFence i)
     then Inl (Refused E_stale_model_attempt_fence)
     else if rn_state run = M_reconciling
       \<and> map_option cn_outcome (rn_lastCancellationResult run) \<noteq> Some Cancel_cancelled
     then Inl (Refused E_model_cancellation_requires_reconciliation)
     else rbind (assert_instant_not_before (cc_finishedAt i) (ma_startedAt attempt)) (\<lambda>_.
     if evidence_mismatch (cc_evidence i) attempt then Inl (Refused E_model_observation_adapter_mismatch)
     else rbind (append_usage (rn_usage run) (cc_usage i)) (\<lambda>ledger.
       rbind (next_run_version run) (\<lambda>version.
         Inr (run \<lparr> rn_version := version, rn_state := M_cancelled, rn_usage := ledger, rn_reservedCostMicros := 0,
             rn_activeAttempt := None, rn_pendingIntervention := None, rn_lastCancellationResult := None,
             rn_resultRef := None, rn_safeFailureCode := None, rn_updatedAt := cc_finishedAt i \<rparr>,
           finish_attempt attempt (Obs_cancelled (cc_usage i) (cc_evidence i)) (cc_finishedAt i))))))"

section \<open>Interventions\<close>

datatype disposition =
    D_safe_retry | D_reconcile | D_pause_for_renewed_approval | D_replan | D_compensate | D_block | D_attention

record intervention_input =
  ii_expectedRunVersion :: int
  ii_disposition :: disposition
  ii_evidenceId :: string
  ii_retryAllowance :: "(int \<times> bool) option"
  ii_decidedAt :: string

fun disposition_state :: "disposition \<Rightarrow> run_state" where
  "disposition_state D_safe_retry = M_queued"
| "disposition_state D_reconcile = M_reconciling"
| "disposition_state D_block = M_failed"
| "disposition_state D_replan = M_failed"
| "disposition_state D_compensate = M_failed"
| "disposition_state _ = M_attention"

text \<open>What a safe retry needs of the pending intervention.\<close>

definition retry_permitted :: "intervention \<Rightarrow> unit modelled" where
  "retry_permitted p =
     (if iv_reason p = Budget_exhausted then Inl (Refused E_model_budget_exhausted_cannot_retry)
      else if iv_reason p = Provider_failure \<and> iv_providerRetryability p \<noteq> Some Policy
      then Inl (Refused E_model_provider_failure_not_retryable)
      else if iv_reason p = Acceptance_unknown \<and> iv_providerRecovery p \<noteq> Some Idempotent_reuse
      then Inl (Refused E_ambiguous_model_acceptance_requires_reconciliation)
      else if iv_reason p = Acceptance_unknown \<and> iv_providerIdempotencySupported p \<noteq> Some True
      then Inl (Refused E_model_idempotent_reuse_not_supported)
      else if iv_reason p = Acceptance_unknown
      then (case iv_requiredRetryRequestBinding p of
          None \<Rightarrow> Inl (Refused E_ambiguous_model_retry_binding_missing)
        | Some b \<Rightarrow> if b = [] then Inl (Refused E_ambiguous_model_retry_binding_missing)
            else rbind (parse_request_binding b) (\<lambda>_. Inr ()))
      else Inr ())"

definition apply_model_intervention :: "model_run \<Rightarrow> intervention_input \<Rightarrow> model_run modelled" where
  "apply_model_intervention run i =
     rbind (assert_expected_version run (ii_expectedRunVersion i)) (\<lambda>_.
     case rn_pendingIntervention run of
       None \<Rightarrow> Inl (Refused E_model_intervention_not_applicable)
     | Some p \<Rightarrow>
       if ii_evidenceId i = [] \<or> rn_activeAttempt run \<noteq> None then Inl (Refused E_model_intervention_not_applicable)
       else rbind (if ii_disposition i = D_safe_retry then retry_permitted p else Inr ()) (\<lambda>_.
       rbind (if ii_disposition i = D_safe_retry then assert_retry_budget_available run else Inr ()) (\<lambda>_.
       if ii_disposition i = D_safe_retry \<and> ii_retryAllowance i = None
       then Inl (Refused E_safe_retry_requires_exact_allowance)
       else if ii_disposition i \<noteq> D_safe_retry \<and> ii_retryAllowance i \<noteq> None
       then Inl (Refused E_retry_allowance_requires_safe_retry)
       else rbind (case ii_retryAllowance i of None \<Rightarrow> Inr ()
         | Some (maximum, _) \<Rightarrow> rbind (assert_non_negative maximum) (\<lambda>_.
             if mb_maxCostMicros (rn_budget run) < maximum then Inl (Refused E_model_retry_allowance_exceeds_run_budget)
             else Inr ())) (\<lambda>_.
       rbind (next_run_version run) (\<lambda>version.
         Inr (if ii_disposition i = D_safe_retry
           then run \<lparr> rn_version := version, rn_state := M_queued, rn_pendingIntervention := None,
             rn_safeFailureCode := None, rn_lastInterventionEvidenceId := Some (ii_evidenceId i),
             rn_retryAllowance := map_option (\<lambda>(maximum, unknown).
               \<lparr> ra_evidenceId = ii_evidenceId i, ra_sourceAttemptId = iv_sourceAttemptId p,
                 ra_maximumCostReservationMicros = maximum, ra_acceptsUnknownUsage = unknown,
                 ra_requiredRequestBinding = iv_requiredRetryRequestBinding p \<rparr>) (ii_retryAllowance i),
             rn_updatedAt := ii_decidedAt i \<rparr>
           else run \<lparr> rn_version := version, rn_state := disposition_state (ii_disposition i),
             rn_lastInterventionEvidenceId := Some (ii_evidenceId i), rn_updatedAt := ii_decidedAt i \<rparr>))))))"

section \<open>Tools\<close>

record tool_call_input =
  ti_id :: string
  ti_sequence :: int
  ti_providerCallId :: string
  ti_operation :: tool_operation
  ti_inputRef :: string
  ti_inputBinding :: string

definition requested_tools :: "model_attempt \<Rightarrow> (string \<times> tool_operation) list" where
  "requested_tools attempt = (case ma_requestedTools attempt of None \<Rightarrow> [] | Some ts \<Rightarrow> ts)"

definition create_model_tool_call ::
  "model_run \<Rightarrow> model_attempt \<Rightarrow> tool_call_input \<Rightarrow> model_tool_call modelled"
where
  "create_model_tool_call run attempt i =
     (if rn_state run \<noteq> M_waiting_for_tool \<or> ma_state attempt \<noteq> T_tool_requests \<or> ma_runId attempt \<noteq> rn_id run
      then Inl (Refused E_model_tool_call_not_expected)
      else rbind (assert_positive (ti_sequence i)) (\<lambda>_.
      rbind (parse_tool_input_binding (ti_inputBinding i)) (\<lambda>_.
      rbind (widen (parse_application_id Payload_ref (ti_inputRef i))) (\<lambda>inputRef.
      case find (\<lambda>r. fst r = ti_providerCallId i) (requested_tools attempt) of
        None \<Rightarrow> Inl (Refused E_model_tool_call_not_declared_by_attempt)
      | Some expected \<Rightarrow>
          if snd expected \<noteq> ti_operation i then Inl (Refused E_model_tool_call_not_declared_by_attempt)
          else Inr \<lparr> tc_id = ti_id i, tc_runId = rn_id run, tc_attemptId = ma_id attempt, tc_sequence = ti_sequence i,
            tc_providerCallId = ti_providerCallId i, tc_operation = ti_operation i, tc_inputRef = inputRef,
            tc_inputBinding = ti_inputBinding i, tc_operationReceiptId = None \<rparr>))))"

definition attach_model_tool_receipt :: "model_tool_call \<Rightarrow> string \<Rightarrow> model_tool_call modelled" where
  "attach_model_tool_receipt call receiptId =
     (case tc_operationReceiptId call of
        Some r \<Rightarrow> if r \<noteq> receiptId then Inl (Refused E_model_tool_receipt_conflict) else Inr call
      | None \<Rightarrow> Inr (call \<lparr> tc_operationReceiptId := Some receiptId \<rparr>))"

definition tool_call_complete :: "model_run \<Rightarrow> model_attempt \<Rightarrow> model_tool_call list \<Rightarrow> string \<Rightarrow> bool" where
  "tool_call_complete run attempt calls callId \<longleftrightarrow>
     (case map_entry (map (\<lambda>c. (tc_providerCallId c, c)) calls) callId of
        None \<Rightarrow> False
      | Some c \<Rightarrow> tc_runId c = rn_id run \<and> tc_attemptId c = ma_id attempt \<and> tc_operationReceiptId c \<noteq> None)"

definition resume_model_run_after_tools ::
  "model_run \<Rightarrow> model_attempt \<Rightarrow> model_tool_call list \<Rightarrow> int \<Rightarrow> string \<Rightarrow> model_run modelled"
where
  "resume_model_run_after_tools run attempt calls expectedRunVersion resumedAt =
     rbind (assert_expected_version run expectedRunVersion) (\<lambda>_.
     if rn_state run \<noteq> M_waiting_for_tool \<or> ma_state attempt \<noteq> T_tool_requests
     then Inl (Refused E_model_run_not_waiting_for_tools)
     else if length (requested_tools attempt) \<noteq> length calls then Inl (Refused E_model_tool_calls_incomplete)
     else if \<not> list_all (\<lambda>r. tool_call_complete run attempt calls (fst r)) (requested_tools attempt)
     then Inl (Refused E_model_tool_calls_incomplete)
     else rbind (next_run_version run) (\<lambda>version.
       Inr (run \<lparr> rn_version := version, rn_state := M_queued, rn_updatedAt := resumedAt \<rparr>)))"

end
