(* ===== verification/ModelHistory.thy ===== *)
theory ModelHistory
  imports ModelRun
begin

text \<open>
  Histories of a model run: the run record and its attempts under every operation that the persistence
  layer carries out on them, in any order. The lemmas say that attempts take turns, that the usage ledger
  is the sum of what the attempts reported, that a run over its budget never calls the provider again,
  and that an attempt whose acceptance is unknown is only ever repeated with the very same request.
\<close>

section \<open>Steps\<close>

text \<open>
  The state of a run is its record and its attempts, oldest first. An operation that settles an attempt
  replaces the attempt; resuming may name any stored attempt and any tool calls.
\<close>

type_synonym model_system = "model_run \<times> model_attempt list"

inductive model_step :: "model_system \<Rightarrow> model_system \<Rightarrow> bool" where
  claim: "claim_model_attempt r i = Inr (r', a) \<Longrightarrow> model_step (r, as) (r', as @ [a])"
| reduce: "j < length as \<Longrightarrow> reduce_model_attempt r (as ! j) i = Inr (r', a) \<Longrightarrow> model_step (r, as) (r', as[j := a])"
| request: "request_model_cancellation r q = Inr r' \<Longrightarrow> model_step (r, as) (r', as)"
| record_result: "j < length as \<Longrightarrow> record_model_cancellation_result r (as ! j) x = Inr r' \<Longrightarrow> model_step (r, as) (r', as)"
| confirm: "j < length as \<Longrightarrow> confirm_model_cancellation r (as ! j) c = Inr (r', a) \<Longrightarrow> model_step (r, as) (r', as[j := a])"
| intervene: "apply_model_intervention r v = Inr r' \<Longrightarrow> model_step (r, as) (r', as)"
| resume: "j < length as \<Longrightarrow> resume_model_run_after_tools r (as ! j) calls n t = Inr r' \<Longrightarrow> model_step (r, as) (r', as)"

inductive model_reachable :: "model_system \<Rightarrow> bool" where
  create: "create_model_run i = Inr r \<Longrightarrow> model_reachable (r, [])"
| step: "model_reachable s \<Longrightarrow> model_step s s' \<Longrightarrow> model_reachable s'"

section \<open>What each operation does\<close>

lemma next_run_version_Inr: "next_run_version run = Inr v \<Longrightarrow> v = rn_version run + 1"
  by (simp add: next_run_version_def widen_Inr_iff positive_version_def split: if_splits)

lemma safe_add_Inr: "safe_add l r = Inr n \<Longrightarrow> n = l + r \<and> 0 \<le> l \<and> 0 \<le> r"
  by (auto simp: safe_add_def assert_non_negative_def rbind_Inr_iff split: if_splits)

lemma budget_available:
  "assert_retry_budget_available run = Inr u \<Longrightarrow> rn_attemptsStarted run < mb_maximumAttempts (rn_budget run)
    \<and> ul_inputTokens (rn_usage run) < mb_maxInputTokens (rn_budget run)
    \<and> ul_outputTokens (rn_usage run) < mb_maxOutputTokens (rn_budget run)
    \<and> ul_costMicros (rn_usage run) < mb_maxCostMicros (rn_budget run)"
  by (auto simp: assert_retry_budget_available_def rbind_Inr_iff split: if_splits)

lemma claim_parts:
  assumes "claim_model_attempt r i = Inr (r', a)"
  shows "rn_state r = M_queued" "rn_activeAttempt r = None" "assert_retry_budget_available r = Inr ()"
    "required_binding r = None \<or> required_binding r = Some (ma_requestBinding a)"
    "ul_costMicros (rn_usage r) + ma_costReservationMicros a \<le> mb_maxCostMicros (rn_budget r)"
    "0 \<le> ma_costReservationMicros a"
    "ma_number a = rn_attemptsStarted r + 1" "ma_fence a = rn_attemptsStarted r + 1" "ma_runId a = rn_id r"
    "ma_state a = T_started" "ma_usage a = None" "ma_evidence a = None"
    "\<exists>v t. r' = r \<lparr> rn_version := v, rn_state := M_running, rn_attemptsStarted := rn_attemptsStarted r + 1,
      rn_reservedCostMicros := ma_costReservationMicros a, rn_activeAttempt := Some (ma_id a, ma_fence a),
      rn_retryAllowance := None, rn_updatedAt := t \<rparr>"
proof -
  from assms obtain total v where s: "rn_state r = M_queued" "rn_activeAttempt r = None"
    and b: "assert_retry_budget_available r = Inr ()"
    and q: "required_binding r = None \<or> required_binding r = Some (ca_requestBinding i)"
    and t: "safe_add (ul_costMicros (rn_usage r)) (ca_costReservationMicros i) = Inr total"
      "total \<le> mb_maxCostMicros (rn_budget r)"
    and a: "a = \<lparr> ma_id = ca_attemptId i, ma_runId = rn_id r, ma_number = rn_attemptsStarted r + 1,
      ma_fence = rn_attemptsStarted r + 1,
      ma_requestBinding = ca_requestBinding i, ma_adapter = rn_profileAdapter r,
      ma_costReservationMicros = ca_costReservationMicros i, ma_executionMode = ca_executionMode i,
      ma_state = T_started, ma_evidence = None, ma_usage = None, ma_requestedTools = None,
      ma_startedAt = ca_startedAt i, ma_finishedAt = None \<rparr>"
    and r': "r' = r \<lparr> rn_version := v, rn_state := M_running, rn_attemptsStarted := rn_attemptsStarted r + 1,
      rn_reservedCostMicros := ca_costReservationMicros i,
      rn_activeAttempt := Some (ca_attemptId i, rn_attemptsStarted r + 1),
      rn_retryAllowance := None, rn_updatedAt := ca_startedAt i \<rparr>"
    unfolding claim_model_attempt_def Let_def by (elim stepsE) (cases "rn_activeAttempt r"; auto)
  note sum = safe_add_Inr [OF t(1)]
  show "rn_state r = M_queued" "rn_activeAttempt r = None" "assert_retry_budget_available r = Inr ()" by fact+
  show "required_binding r = None \<or> required_binding r = Some (ma_requestBinding a)" using q by (simp add: a)
  show "ul_costMicros (rn_usage r) + ma_costReservationMicros a \<le> mb_maxCostMicros (rn_budget r)"
    "0 \<le> ma_costReservationMicros a" using t sum by (simp_all add: a)
  show "ma_number a = rn_attemptsStarted r + 1" "ma_fence a = rn_attemptsStarted r + 1" "ma_runId a = rn_id r"
    "ma_state a = T_started" "ma_usage a = None" "ma_evidence a = None" by (simp_all add: a)
  show "\<exists>v t. r' = r \<lparr> rn_version := v, rn_state := M_running, rn_attemptsStarted := rn_attemptsStarted r + 1,
      rn_reservedCostMicros := ma_costReservationMicros a, rn_activeAttempt := Some (ma_id a, ma_fence a),
      rn_retryAllowance := None, rn_updatedAt := t \<rparr>"
    using r' by (auto simp: a)
qed

text \<open>State and intervention of a settlement do not depend on the adopted result.\<close>

fun settled_state :: "observation \<Rightarrow> run_state" where
  "settled_state (Obs_succeeded _ _ _) = M_succeeded"
| "settled_state (Obs_tool_requests _ _ _) = M_waiting_for_tool"
| "settled_state (Obs_schema_invalid _ _ _ _) = M_attention"
| "settled_state (Obs_known_failure _ _ _ _) = M_attention"
| "settled_state (Obs_acceptance_unknown _ _) = M_reconciling"
| "settled_state (Obs_cancelled _ _) = M_cancelled"

definition settled_pending :: "model_attempt \<Rightarrow> observation \<Rightarrow> intervention option" where
  "settled_pending a obs = fst (snd (snd (settlement a None obs)))"

lemma settlement_parts:
  "settlement a adopted obs = (state, code, pending, result) \<Longrightarrow> state = settled_state obs \<and> pending = settled_pending a obs"
  by (cases obs) (auto simp: settled_pending_def)

definition settled_as :: "model_run \<Rightarrow> model_attempt \<Rightarrow> observation \<Rightarrow> usage_ledger \<Rightarrow> model_run \<Rightarrow> bool" where
  "settled_as r a obs ledger r' \<longleftrightarrow> (\<exists>v code result t.
     r' = r \<lparr> rn_version := v, rn_state := (if exceeds_budget (rn_budget r) ledger then M_exhausted else settled_state obs),
       rn_usage := ledger, rn_reservedCostMicros := 0, rn_activeAttempt := None,
       rn_pendingIntervention := (if exceeds_budget (rn_budget r) ledger then Some (intervene_for (ma_id a) Budget_exhausted)
         else settled_pending a obs),
       rn_lastCancellationResult := None, rn_resultRef := result, rn_safeFailureCode := code, rn_updatedAt := t \<rparr>)"

lemma reduce_parts:
  assumes "reduce_model_attempt r a i = Inr (r', a')"
  shows "is_active r a" "rn_state r = M_running \<or> rn_state r = M_reconciling"
    "a' = finish_attempt a (re_observation i) (re_finishedAt i)"
    "\<not> reuse_unsupported (re_observation i)"
    "\<exists>ledger. append_usage (rn_usage r) (observation_usage (re_observation i)) = Inr ledger
      \<and> settled_as r a (re_observation i) ledger r'"
proof -
  from assms obtain ledger v where
    ac: "is_active r a" and st: "rn_state r = M_running \<or> cancellation_reconciliation r a"
    and re: "\<not> reuse_unsupported (re_observation i)"
    and l: "append_usage (rn_usage r) (observation_usage (re_observation i)) = Inr ledger"
    and f: "(let (state, code, pending, result) =
          (if exceeds_budget (rn_budget r) ledger
           then (M_exhausted, Some ''model_budget_exceeded'',
             Some (intervene_for (ma_id a) Budget_exhausted), None)
           else settlement a (re_adoptedResultRef i) (re_observation i)) in
        rbind (next_run_version r) (\<lambda>version.
          Inr (r \<lparr> rn_version := version, rn_state := state, rn_usage := ledger, rn_reservedCostMicros := 0,
              rn_activeAttempt := None, rn_pendingIntervention := pending, rn_lastCancellationResult := None,
              rn_resultRef := result,
              rn_safeFailureCode := (case code of Some c \<Rightarrow> if c = [] then None else Some c | None \<Rightarrow> None),
              rn_updatedAt := re_finishedAt i \<rparr>,
            finish_attempt a (re_observation i) (re_finishedAt i)))) = Inr (r', a')"
    unfolding reduce_model_attempt_def by (elim stepsE) auto
  show "is_active r a" "\<not> reuse_unsupported (re_observation i)" by fact+
  show "rn_state r = M_running \<or> rn_state r = M_reconciling"
    using st by (auto simp: cancellation_reconciliation_def)
  show "a' = finish_attempt a (re_observation i) (re_finishedAt i)"
    using f by (auto simp: Let_def rbind_Inr_iff split: prod.splits)
  have "settled_as r a (re_observation i) ledger r'"
  proof (cases "exceeds_budget (rn_budget r) ledger")
    case True
    with f show ?thesis unfolding settled_as_def by (simp add: Let_def rbind_Inr_iff) blast
  next
    case False
    obtain state code pending result where st: "settlement a (re_adoptedResultRef i) (re_observation i)
        = (state, code, pending, result)" by (metis prod_cases4)
    from f False settlement_parts [OF st] show ?thesis
      unfolding settled_as_def by (simp add: Let_def rbind_Inr_iff st) blast
  qed
  with l show "\<exists>ledger. append_usage (rn_usage r) (observation_usage (re_observation i)) = Inr ledger
      \<and> settled_as r a (re_observation i) ledger r'" by blast
qed

lemma request_parts:
  assumes "request_model_cancellation r q = Inr r'"
  shows "rn_state r = M_running \<and> rn_activeAttempt r \<noteq> None \<and> (\<exists>v t. r' = r \<lparr> rn_version := v,
    rn_state := M_cancel_requested, rn_lastCancellationResult := None, rn_safeFailureCode := None, rn_updatedAt := t \<rparr>)"
  using assms unfolding request_model_cancellation_def by (elim stepsE) auto

lemma record_parts:
  assumes "record_model_cancellation_result r a x = Inr r'"
  shows "rn_state r = M_cancel_requested \<and> is_active r a \<and> (\<exists>v code result t. r' = r \<lparr> rn_version := v,
    rn_state := (if cx_outcome x = Cancel_unsupported then M_running else M_reconciling),
    rn_lastCancellationResult := Some result, rn_safeFailureCode := code, rn_updatedAt := t \<rparr>)"
proof -
  from assms obtain v where "rn_state r = M_cancel_requested" "is_active r a"
    and r': "r' = r \<lparr> rn_version := v,
         rn_state := (if cx_outcome x = Cancel_unsupported then M_running else M_reconciling),
         rn_lastCancellationResult := Some \<lparr> cn_attemptId = ma_id a, cn_fence = ma_fence a,
           cn_outcome = cx_outcome x, cn_observedAt = cx_observedAt x \<rparr>,
         rn_safeFailureCode := cancellation_code (cx_outcome x), rn_updatedAt := cx_observedAt x \<rparr>"
    unfolding record_model_cancellation_result_def by (elim stepsE) (auto simp: expected_attempt_def)
  then show ?thesis by blast
qed

lemma confirm_parts:
  assumes "confirm_model_cancellation r a c = Inr (r', a')"
  shows "is_active r a" "a' = finish_attempt a (Obs_cancelled (cc_usage c) (cc_evidence c)) (cc_finishedAt c)"
    "\<exists>ledger v t. append_usage (rn_usage r) (cc_usage c) = Inr ledger
      \<and> r' = r \<lparr> rn_version := v, rn_state := M_cancelled, rn_usage := ledger, rn_reservedCostMicros := 0,
             rn_activeAttempt := None, rn_pendingIntervention := None, rn_lastCancellationResult := None,
             rn_resultRef := None, rn_safeFailureCode := None, rn_updatedAt := t \<rparr>"
  using assms unfolding confirm_model_cancellation_def by (atomize (full), elim stepsE) (auto simp: expected_attempt_def)

lemma intervene_parts:
  assumes "apply_model_intervention r v = Inr r'"
  shows "\<exists>p. rn_pendingIntervention r = Some p \<and> rn_activeAttempt r = None
    \<and> ((ii_disposition v = D_safe_retry \<and> retry_permitted p = Inr () \<and> assert_retry_budget_available r = Inr ()
        \<and> (\<exists>n ev al t. r' = r \<lparr> rn_version := n, rn_state := M_queued, rn_pendingIntervention := None,
             rn_safeFailureCode := None, rn_lastInterventionEvidenceId := ev, rn_retryAllowance := Some al, rn_updatedAt := t \<rparr>
             \<and> ra_requiredRequestBinding al = iv_requiredRetryRequestBinding p))
      \<or> (ii_disposition v \<noteq> D_safe_retry \<and> (\<exists>n ev t. r' = r \<lparr> rn_version := n,
             rn_state := disposition_state (ii_disposition v), rn_lastInterventionEvidenceId := ev, rn_updatedAt := t \<rparr>)))"
proof -
  from assms obtain p where p: "rn_pendingIntervention r = Some p"
    unfolding apply_model_intervention_def by (elim stepsE) (auto split: option.splits)
  from assms obtain n where
    ac: "rn_activeAttempt r = None"
    and re: "(if ii_disposition v = D_safe_retry then retry_permitted p else Inr ()) = Inr ()"
    and bu: "(if ii_disposition v = D_safe_retry then assert_retry_budget_available r else Inr ()) = Inr ()"
    and al: "ii_disposition v = D_safe_retry \<Longrightarrow> ii_retryAllowance v \<noteq> None"
    and r': "r' = (if ii_disposition v = D_safe_retry
           then r \<lparr> rn_version := n, rn_state := M_queued, rn_pendingIntervention := None,
             rn_safeFailureCode := None, rn_lastInterventionEvidenceId := Some (ii_evidenceId v),
             rn_retryAllowance := map_option (\<lambda>(maximum, unknown).
               \<lparr> ra_evidenceId = ii_evidenceId v, ra_sourceAttemptId = iv_sourceAttemptId p,
                 ra_maximumCostReservationMicros = maximum, ra_acceptsUnknownUsage = unknown,
                 ra_requiredRequestBinding = iv_requiredRetryRequestBinding p \<rparr>) (ii_retryAllowance v),
             rn_updatedAt := ii_decidedAt v \<rparr>
           else r \<lparr> rn_version := n, rn_state := disposition_state (ii_disposition v),
             rn_lastInterventionEvidenceId := Some (ii_evidenceId v), rn_updatedAt := ii_decidedAt v \<rparr>)"
    unfolding apply_model_intervention_def p option.case by (elim stepsE; cases "rn_activeAttempt r") auto
  show ?thesis
  proof (cases "ii_disposition v = D_safe_retry")
    case True
    with al obtain w where w: "ii_retryAllowance v = Some w" by auto
    let ?al = "\<lparr> ra_evidenceId = ii_evidenceId v, ra_sourceAttemptId = iv_sourceAttemptId p,
      ra_maximumCostReservationMicros = fst w, ra_acceptsUnknownUsage = snd w,
      ra_requiredRequestBinding = iv_requiredRetryRequestBinding p \<rparr>"
    have "\<exists>n ev al t. r' = r \<lparr> rn_version := n, rn_state := M_queued, rn_pendingIntervention := None,
             rn_safeFailureCode := None, rn_lastInterventionEvidenceId := ev, rn_retryAllowance := Some al, rn_updatedAt := t \<rparr>
             \<and> ra_requiredRequestBinding al = iv_requiredRetryRequestBinding p"
      by (rule exI [of _ n], rule exI [of _ "Some (ii_evidenceId v)"], rule exI [of _ ?al], rule exI [of _ "ii_decidedAt v"])
        (simp add: r' True w split_beta)
    moreover have "retry_permitted p = Inr ()" "assert_retry_budget_available r = Inr ()" using re bu True by simp_all
    ultimately show ?thesis using p ac True by blast
  next
    case False
    with r' p ac show ?thesis by auto
  qed
qed

lemma resume_parts:
  assumes "resume_model_run_after_tools r a calls n t = Inr r'"
  shows "rn_state r = M_waiting_for_tool \<and> (\<exists>v. r' = r \<lparr> rn_version := v, rn_state := M_queued, rn_updatedAt := t \<rparr>)"
  using assms unfolding resume_model_run_after_tools_def by (elim stepsE) auto

section \<open>The invariant of the attempts\<close>

definition numbered :: "model_run \<Rightarrow> model_attempt list \<Rightarrow> bool" where
  "numbered r as \<longleftrightarrow> (\<forall>j < length as. ma_number (as ! j) = int j + 1 \<and> ma_fence (as ! j) = int j + 1
     \<and> ma_runId (as ! j) = rn_id r)"

definition earlier_settled :: "model_attempt list \<Rightarrow> bool" where
  "earlier_settled as \<longleftrightarrow> (\<forall>a \<in> set (butlast as). ma_state a \<noteq> T_started)"

text \<open>The active attempt is the last one, and its cost is reserved within the budget.\<close>

fun active_ok :: "model_run \<Rightarrow> model_attempt list \<Rightarrow> bool" where
  "active_ok r as \<longleftrightarrow> (case rn_activeAttempt r of
     None \<Rightarrow> (\<forall>a \<in> set as. ma_state a \<noteq> T_started) \<and> rn_reservedCostMicros r = 0
   | Some (i, f) \<Rightarrow> as \<noteq> [] \<and> i = ma_id (last as) \<and> f = int (length as) \<and> ma_state (last as) = T_started
       \<and> ma_usage (last as) = None \<and> ma_evidence (last as) = None
       \<and> rn_reservedCostMicros r = ma_costReservationMicros (last as)
       \<and> ul_costMicros (rn_usage r) + rn_reservedCostMicros r \<le> mb_maxCostMicros (rn_budget r))"

definition state_ok :: "model_run \<Rightarrow> bool" where
  "state_ok r \<longleftrightarrow> (rn_activeAttempt r \<noteq> None \<longleftrightarrow> rn_state r = M_running \<or> rn_state r = M_cancel_requested
       \<or> rn_state r = M_reconciling \<and> rn_pendingIntervention r = None)
     \<and> (rn_state r \<in> {M_queued, M_running, M_cancel_requested, M_waiting_for_tool, M_succeeded, M_cancelled}
         \<longrightarrow> rn_pendingIntervention r = None)"

definition attempts_ok :: "model_run \<Rightarrow> model_attempt list \<Rightarrow> bool" where
  "attempts_ok r as \<longleftrightarrow> rn_attemptsStarted r = int (length as) \<and> int (length as) \<le> mb_maximumAttempts (rn_budget r)
     \<and> numbered r as \<and> earlier_settled as \<and> active_ok r as \<and> state_ok r"

lemma active_is_last:
  assumes "attempts_ok r as" "j < length as" "is_active r (as ! j)"
  shows "as \<noteq> []" "j = length as - 1" "as ! j = last as" "as[j := a] = butlast as @ [a]"
proof -
  from assms have "ma_fence (as ! j) = int (length as)" "ma_fence (as ! j) = int j + 1"
    by (auto simp: attempts_ok_def is_active_def numbered_def)
  then have j: "j = length as - 1" by simp
  show ne: "as \<noteq> []" using assms(2) by auto
  show "j = length as - 1" by (fact j)
  show "as ! j = last as" using ne j by (simp add: last_conv_nth)
  show "as[j := a] = butlast as @ [a]"
    using ne j by (cases as rule: rev_cases) auto
qed

lemma numbered_snoc:
  "numbered r as \<Longrightarrow> ma_number a = int (length as) + 1 \<Longrightarrow> ma_fence a = int (length as) + 1 \<Longrightarrow> ma_runId a = rn_id r
    \<Longrightarrow> numbered r (as @ [a])"
  by (auto simp: numbered_def nth_append less_Suc_eq)

lemma numbered_butlast: "numbered r as \<Longrightarrow> numbered r (butlast as)"
  by (auto simp: numbered_def nth_butlast)

lemma earlier_butlast: "earlier_settled as \<Longrightarrow> earlier_settled (butlast as @ [a])"
  by (auto simp: earlier_settled_def)

lemma attempts_ok_claim:
  assumes "attempts_ok r as" "claim_model_attempt r i = Inr (r', a)"
  shows "attempts_ok r' (as @ [a])"
proof -
  note c = claim_parts [OF assms(2)]
  obtain v t where r': "r' = r \<lparr> rn_version := v, rn_state := M_running, rn_attemptsStarted := rn_attemptsStarted r + 1,
      rn_reservedCostMicros := ma_costReservationMicros a, rn_activeAttempt := Some (ma_id a, ma_fence a),
      rn_retryAllowance := None, rn_updatedAt := t \<rparr>" using c(13) by blast
  from assms(1) c(2) have n: "rn_attemptsStarted r = int (length as)" "numbered r as"
    and all_done: "\<forall>a \<in> set as. ma_state a \<noteq> T_started" and st: "state_ok r"
    by (auto simp: attempts_ok_def)
  have "numbered r (as @ [a])" using numbered_snoc [OF n(2)] c(7-9) n(1) by simp
  then have "numbered r' (as @ [a])" by (simp add: numbered_def r')
  moreover have "earlier_settled (as @ [a])" using all_done by (simp add: earlier_settled_def)
  moreover have "active_ok r' (as @ [a])" using c(5,8,10-12) n(1) by (simp add: r')
  moreover have "state_ok r'" using st c(1) by (simp add: state_ok_def r')
  moreover have "int (length as) < mb_maximumAttempts (rn_budget r)" using budget_available [OF c(3)] n(1) by simp
  ultimately show ?thesis using n(1) by (simp add: attempts_ok_def r')
qed

lemma finish_attempt_fields [simp]:
  "ma_id (finish_attempt a obs t) = ma_id a" "ma_number (finish_attempt a obs t) = ma_number a"
  "ma_fence (finish_attempt a obs t) = ma_fence a" "ma_runId (finish_attempt a obs t) = ma_runId a"
  "ma_requestBinding (finish_attempt a obs t) = ma_requestBinding a"
  "ma_state (finish_attempt a obs t) = observed_state obs"
  "ma_usage (finish_attempt a obs t) = kept (observation_usage obs) (ma_usage a)"
  "ma_evidence (finish_attempt a obs t) = kept (observation_evidence obs) (ma_evidence a)"
  by (simp_all add: finish_attempt_def)

lemma observed_not_started [simp]: "observed_state obs \<noteq> T_started"
  by (cases obs) simp_all

text \<open>Settling the active attempt, whichever operation does it.\<close>

lemma attempts_ok_settle:
  assumes ok: "attempts_ok r as" and j: "j < length as" "is_active r (as ! j)"
    and r': "rn_id r' = rn_id r" "rn_budget r' = rn_budget r" "rn_attemptsStarted r' = rn_attemptsStarted r"
      "rn_activeAttempt r' = None" "rn_reservedCostMicros r' = 0"
    and st: "state_ok r'"
  shows "attempts_ok r' (as[j := finish_attempt (as ! j) obs t])"
proof -
  note l = active_is_last [OF ok j]
  have "numbered r' (as[j := finish_attempt (as ! j) obs t])"
    using ok j(1) by (auto simp: attempts_ok_def numbered_def r'(1) nth_list_update)
  moreover have "earlier_settled (as[j := finish_attempt (as ! j) obs t])"
    using ok by (simp add: l(4) attempts_ok_def earlier_butlast)
  moreover have "active_ok r' (as[j := finish_attempt (as ! j) obs t])"
    using ok by (auto simp: l(4) r' attempts_ok_def earlier_settled_def)
  ultimately show ?thesis using ok st by (simp add: attempts_ok_def r')
qed

text \<open>Operations that leave the attempts alone.\<close>

lemma attempts_ok_keep:
  assumes "attempts_ok r as" "rn_id r' = rn_id r" "rn_budget r' = rn_budget r" "rn_usage r' = rn_usage r"
    "rn_attemptsStarted r' = rn_attemptsStarted r" "rn_activeAttempt r' = rn_activeAttempt r"
    "rn_reservedCostMicros r' = rn_reservedCostMicros r" "state_ok r'"
  shows "attempts_ok r' as"
  using assms by (simp add: attempts_ok_def numbered_def split: option.splits prod.splits)

lemma settled_pending_iff: "settled_pending a obs \<noteq> None \<longleftrightarrow> settled_state obs \<in> {M_attention, M_reconciling}"
  by (cases obs) (simp_all add: settled_pending_def)

lemma settled_state_final: "settled_state obs \<notin> {M_running, M_cancel_requested}"
  by (cases obs) simp_all

lemma settled_fields:
  assumes "settled_as r a obs ledger r'"
  shows "rn_id r' = rn_id r" "rn_budget r' = rn_budget r" "rn_attemptsStarted r' = rn_attemptsStarted r"
    "rn_activeAttempt r' = None" "rn_reservedCostMicros r' = 0" "rn_usage r' = ledger"
    "rn_retryAllowance r' = rn_retryAllowance r"
    "rn_state r' = (if exceeds_budget (rn_budget r) ledger then M_exhausted else settled_state obs)"
    "rn_pendingIntervention r' = (if exceeds_budget (rn_budget r) ledger
      then Some (intervene_for (ma_id a) Budget_exhausted) else settled_pending a obs)"
  using assms unfolding settled_as_def by (elim exE, simp)+

lemma settled_state_ok:
  assumes "settled_as r a obs ledger r'"
  shows "state_ok r'"
  using settled_fields [OF assms] settled_pending_iff [of a obs] settled_state_final [of obs]
  by (cases "exceeds_budget (rn_budget r) ledger"; cases "settled_pending a obs") (auto simp: state_ok_def)

text \<open>Operations that keep the attempts only touch a few fields of the run.\<close>

definition touched :: "model_run \<Rightarrow> model_run \<Rightarrow> bool" where
  "touched r r' \<longleftrightarrow> rn_id r' = rn_id r \<and> rn_budget r' = rn_budget r \<and> rn_usage r' = rn_usage r
     \<and> rn_attemptsStarted r' = rn_attemptsStarted r \<and> rn_activeAttempt r' = rn_activeAttempt r
     \<and> rn_reservedCostMicros r' = rn_reservedCostMicros r"

lemma attempts_ok_touched: "attempts_ok r as \<Longrightarrow> touched r r' \<Longrightarrow> state_ok r' \<Longrightarrow> attempts_ok r' as"
  by (rule attempts_ok_keep) (simp_all add: touched_def)

lemma request_touched:
  assumes "request_model_cancellation r q = Inr r'"
  shows "touched r r' \<and> (state_ok r \<longrightarrow> state_ok r')"
  using request_parts [OF assms] by (elim conjE exE) (simp add: touched_def state_ok_def)

lemma record_touched:
  assumes "record_model_cancellation_result r a x = Inr r'"
  shows "touched r r' \<and> (state_ok r \<longrightarrow> state_ok r')"
  using record_parts [OF assms] by (elim conjE exE) (simp add: touched_def state_ok_def)

lemma disposition_state_set: "d \<noteq> D_safe_retry \<Longrightarrow> disposition_state d \<in> {M_reconciling, M_failed, M_attention}"
  by (cases d) simp_all

lemma intervene_touched:
  assumes "apply_model_intervention r v = Inr r'"
  shows "touched r r' \<and> (state_ok r \<longrightarrow> state_ok r')"
  using intervene_parts [OF assms] disposition_state_set [of "ii_disposition v"]
  by (elim conjE exE disjE) (simp_all add: touched_def state_ok_def, auto)

lemma resume_touched:
  assumes "resume_model_run_after_tools r a calls n t = Inr r'"
  shows "touched r r' \<and> (state_ok r \<longrightarrow> state_ok r')"
  using resume_parts [OF assms] by (elim conjE exE) (simp add: touched_def state_ok_def)

lemma attempts_state_ok: "attempts_ok r as \<Longrightarrow> state_ok r"
  by (simp add: attempts_ok_def)

lemma attempts_ok_step: "model_step s s' \<Longrightarrow> attempts_ok (fst s) (snd s) \<Longrightarrow> attempts_ok (fst s') (snd s')"
proof (induction rule: model_step.induct)
  case (claim r i r' a as)
  then show ?case using attempts_ok_claim by simp
next
  case (reduce j as r i r' a)
  note p = reduce_parts [OF reduce(2)]
  from p(5) obtain ledger where s: "settled_as r (as ! j) (re_observation i) ledger r'" by blast
  from reduce(3) have ok: "attempts_ok r as" by simp
  from attempts_ok_settle [OF ok reduce(1) p(1) settled_fields(1-5) [OF s]] settled_state_ok [OF s] p(3) show ?case
    by simp
next
  case (confirm j as r c r' a)
  note p = confirm_parts [OF confirm(2)]
  from p(3) obtain ledger v t where r': "r' = r \<lparr> rn_version := v, rn_state := M_cancelled, rn_usage := ledger,
    rn_reservedCostMicros := 0, rn_activeAttempt := None, rn_pendingIntervention := None,
    rn_lastCancellationResult := None, rn_resultRef := None, rn_safeFailureCode := None, rn_updatedAt := t \<rparr>" by blast
  from confirm(3) have ok: "attempts_ok r as" by simp
  from attempts_ok_settle [OF ok confirm(1) p(1), of r'] p(2) show ?case by (simp add: r' state_ok_def)
next
  case (request r q r' as)
  then show ?case using request_touched attempts_ok_touched attempts_state_ok by fastforce
next
  case (record_result j as r x r')
  then show ?case using record_touched attempts_ok_touched attempts_state_ok by fastforce
next
  case (intervene r v r' as)
  then show ?case using intervene_touched attempts_ok_touched attempts_state_ok by fastforce
next
  case (resume j as r calls n t r')
  then show ?case using resume_touched attempts_ok_touched attempts_state_ok by fastforce
qed

lemma create_fields:
  assumes "create_model_run i = Inr r"
  shows "rn_attemptsStarted r = 0 \<and> rn_usage r = empty_usage \<and> rn_activeAttempt r = None \<and> rn_state r = M_queued
    \<and> rn_pendingIntervention r = None \<and> rn_retryAllowance r = None \<and> rn_reservedCostMicros r = 0
    \<and> 0 < mb_maximumAttempts (rn_budget r) \<and> rn_budget r = cr_budget i"
  using assms unfolding create_model_run_def by (elim stepsE) (auto simp: assert_positive_def split: if_splits)

lemma attempts_ok_reachable: "model_reachable s \<Longrightarrow> attempts_ok (fst s) (snd s)"
proof (induction rule: model_reachable.induct)
  case (create i r)
  then show ?case using create_fields [OF create] by (auto simp: attempts_ok_def numbered_def earlier_settled_def state_ok_def)
next
  case (step s s')
  then show ?case using attempts_ok_step by blast
qed

section \<open>The usage ledger\<close>

definition spent :: "(normalized_usage \<Rightarrow> int option) \<Rightarrow> model_attempt list \<Rightarrow> int" where
  "spent field as = sum_list (map (\<lambda>a. or_zero (reported field (ma_usage a))) as)"

definition ledger_ok :: "model_run \<Rightarrow> model_attempt list \<Rightarrow> bool" where
  "ledger_ok r as \<longleftrightarrow>
     ul_attemptsObserved (rn_usage r) = int (length (filter (\<lambda>a. ma_state a \<noteq> T_started) as))
     \<and> ul_inputTokens (rn_usage r) = spent nu_inputTokens as
     \<and> ul_outputTokens (rn_usage r) = spent nu_outputTokens as
     \<and> ul_cachedInputTokens (rn_usage r) = spent nu_cachedInputTokens as
     \<and> ul_costMicros (rn_usage r) = spent nu_costMicros as"

lemma append_usage_Inr:
  assumes "append_usage ledger usage = Inr ledger'"
  shows "ul_attemptsObserved ledger' = ul_attemptsObserved ledger + 1"
    "ul_inputTokens ledger' = ul_inputTokens ledger + or_zero (reported nu_inputTokens usage)"
    "ul_outputTokens ledger' = ul_outputTokens ledger + or_zero (reported nu_outputTokens usage)"
    "ul_cachedInputTokens ledger' = ul_cachedInputTokens ledger + or_zero (reported nu_cachedInputTokens usage)"
    "ul_costMicros ledger' = ul_costMicros ledger + or_zero (reported nu_costMicros usage)"
    "0 \<le> or_zero (reported nu_inputTokens usage)" "0 \<le> or_zero (reported nu_outputTokens usage)"
    "0 \<le> or_zero (reported nu_costMicros usage)"
  using assms unfolding append_usage_def
  by (atomize (full), elim stepsE) (auto dest!: safe_add_Inr)

lemma ledger_ok_settle:
  assumes ok: "attempts_ok r as" and j: "j < length as" "is_active r (as ! j)" and l: "ledger_ok r as"
    and u: "append_usage (rn_usage r) (observation_usage obs) = Inr ledger" and r': "rn_usage r' = ledger"
  shows "ledger_ok r' (as[j := finish_attempt (as ! j) obs t])"
proof -
  note e = active_is_last [OF ok j]
  have as: "as = butlast as @ [last as]" using e(1) by simp
  have a: "ma_state (last as) = T_started" "ma_usage (last as) = None"
    using ok j(2) e by (auto simp: attempts_ok_def is_active_def split: option.splits prod.splits)
  have sum: "spent field (butlast as @ [finish_attempt (last as) obs t]) = spent field as + or_zero (reported field (observation_usage obs))"
    for field
    by (subst (2) as) (simp add: spent_def a(2) kept_def or_zero_def reported_def split: option.split)
  have cnt: "length (filter (\<lambda>a. ma_state a \<noteq> T_started) (butlast as @ [finish_attempt (last as) obs t]))
      = Suc (length (filter (\<lambda>a. ma_state a \<noteq> T_started) as))"
    by (subst (2) as) (simp add: a(1))
  show ?thesis using l append_usage_Inr [OF u] unfolding e(4) e(3) ledger_ok_def sum cnt r' by simp
qed

lemma ledger_ok_step:
  "model_step s s' \<Longrightarrow> attempts_ok (fst s) (snd s) \<Longrightarrow> ledger_ok (fst s) (snd s) \<Longrightarrow> ledger_ok (fst s') (snd s')"
proof (induction rule: model_step.induct)
  case (claim r i r' a as)
  from claim_parts [OF claim(1)] have "rn_usage r' = rn_usage r" "ma_state a = T_started" "ma_usage a = None" by auto
  with claim(3) show ?case by (simp add: ledger_ok_def spent_def or_zero_def reported_def)
next
  case (reduce j as r i r' a)
  note p = reduce_parts [OF reduce(2)]
  from p(5) obtain ledger where u: "append_usage (rn_usage r) (observation_usage (re_observation i)) = Inr ledger"
    and s: "settled_as r (as ! j) (re_observation i) ledger r'" by blast
  from ledger_ok_settle [OF _ reduce(1) p(1) _ u settled_fields(6) [OF s]] reduce(3,4) p(3) show ?case by simp
next
  case (confirm j as r c r' a)
  note p = confirm_parts [OF confirm(2)]
  from p(3) obtain ledger where u: "append_usage (rn_usage r) (observation_usage (Obs_cancelled (cc_usage c) (cc_evidence c))) = Inr ledger"
    and r': "rn_usage r' = ledger" by auto
  from ledger_ok_settle [OF _ confirm(1) p(1) _ u r'] confirm(3,4) p(2) show ?case by simp
next
  case (request r q r' as)
  from request_touched [OF request(1)] request(3) show ?case by (simp add: touched_def ledger_ok_def)
next
  case (record_result j as r x r')
  from record_touched [OF record_result(2)] record_result(4) show ?case by (simp add: touched_def ledger_ok_def)
next
  case (intervene r v r' as)
  from intervene_touched [OF intervene(1)] intervene(3) show ?case by (simp add: touched_def ledger_ok_def)
next
  case (resume j as r calls n t r')
  from resume_touched [OF resume(2)] resume(4) show ?case by (simp add: touched_def ledger_ok_def)
qed

lemma ledger_ok_reachable: "model_reachable s \<Longrightarrow> ledger_ok (fst s) (snd s)"
proof (induction rule: model_reachable.induct)
  case (create i r)
  then show ?case using create_fields [OF create] by (simp add: ledger_ok_def spent_def empty_usage_def)
next
  case (step s s')
  then show ?case using ledger_ok_step attempts_ok_reachable by blast
qed

section \<open>A used up budget\<close>

definition used_up :: "model_run \<Rightarrow> bool" where
  "used_up r \<longleftrightarrow> mb_maximumAttempts (rn_budget r) \<le> rn_attemptsStarted r
     \<or> mb_maxInputTokens (rn_budget r) \<le> ul_inputTokens (rn_usage r)
     \<or> mb_maxOutputTokens (rn_budget r) \<le> ul_outputTokens (rn_usage r)
     \<or> mb_maxCostMicros (rn_budget r) \<le> ul_costMicros (rn_usage r)"

lemma used_up_touched: "used_up r \<Longrightarrow> touched r r' \<Longrightarrow> used_up r'"
  by (simp add: used_up_def touched_def)

lemma used_up_append:
  assumes "used_up r" "append_usage (rn_usage r) usage = Inr ledger" "rn_usage r' = ledger"
    "rn_budget r' = rn_budget r" "rn_attemptsStarted r' = rn_attemptsStarted r"
  shows "used_up r'"
  using assms(1) append_usage_Inr [OF assms(2)] unfolding used_up_def assms(3-5) by linarith

lemma used_up_step: "model_step s s' \<Longrightarrow> used_up (fst s) \<Longrightarrow> used_up (fst s') \<and> length (snd s') = length (snd s)"
proof (induction rule: model_step.induct)
  case (claim r i r' a as)
  from budget_available [OF claim_parts(3) [OF claim(1)]] claim(2) show ?case by (simp add: used_up_def)
next
  case (reduce j as r i r' a)
  from reduce_parts(5) [OF reduce(2)] obtain ledger where
    u: "append_usage (rn_usage r) (observation_usage (re_observation i)) = Inr ledger"
    and s: "settled_as r (as ! j) (re_observation i) ledger r'" by blast
  from used_up_append [OF _ u settled_fields(6,2,3) [OF s]] reduce(3) show ?case by simp
next
  case (confirm j as r c r' a)
  from confirm_parts(3) [OF confirm(2)] obtain ledger where u: "append_usage (rn_usage r) (cc_usage c) = Inr ledger"
    and r': "rn_usage r' = ledger" "rn_budget r' = rn_budget r" "rn_attemptsStarted r' = rn_attemptsStarted r" by auto
  from used_up_append [OF _ u r'] confirm(3) show ?case by simp
next
  case (request r q r' as)
  then show ?case using request_touched used_up_touched by fastforce
next
  case (record_result j as r x r')
  then show ?case using record_touched used_up_touched by fastforce
next
  case (intervene r v r' as)
  then show ?case using intervene_touched used_up_touched by fastforce
next
  case (resume j as r calls n t r')
  then show ?case using resume_touched used_up_touched by fastforce
qed

lemma used_up_steps: "model_step\<^sup>*\<^sup>* s s' \<Longrightarrow> used_up (fst s) \<Longrightarrow> used_up (fst s') \<and> length (snd s') = length (snd s)"
  by (induction rule: rtranclp_induct) (use used_up_step in auto)

section \<open>Ambiguous attempts\<close>

definition reuse_supported :: "model_attempt \<Rightarrow> bool" where
  "reuse_supported a \<longleftrightarrow> (case ma_evidence a of None \<Rightarrow> False | Some e \<Rightarrow> pe_idempotencySupported e)"

text \<open>What the run knows of a last attempt whose acceptance is unknown.\<close>

definition ambiguity_held :: "model_run \<Rightarrow> model_attempt \<Rightarrow> bool" where
  "ambiguity_held r a \<longleftrightarrow>
     rn_state r = M_queued \<and> reuse_supported a \<and> required_binding r = Some (ma_requestBinding a)
     \<or> (\<exists>p. rn_pendingIntervention r = Some p \<and> (iv_reason p = Budget_exhausted
         \<or> iv_reason p = Acceptance_unknown
           \<and> (iv_providerRecovery p = Some Idempotent_reuse \<longrightarrow> iv_requiredRetryRequestBinding p = Some (ma_requestBinding a))
           \<and> (iv_providerIdempotencySupported p = Some True \<longrightarrow> reuse_supported a)))"

definition repeated_identically :: "model_attempt list \<Rightarrow> bool" where
  "repeated_identically as \<longleftrightarrow> (\<forall>j. Suc j < length as \<longrightarrow> ma_state (as ! j) = T_acceptance_unknown \<longrightarrow>
     reuse_supported (as ! j) \<and> ma_requestBinding (as ! Suc j) = ma_requestBinding (as ! j))"

definition ambiguity_ok :: "model_run \<Rightarrow> model_attempt list \<Rightarrow> bool" where
  "ambiguity_ok r as \<longleftrightarrow> repeated_identically as
     \<and> (as \<noteq> [] \<longrightarrow> ma_state (last as) = T_acceptance_unknown \<longrightarrow> ambiguity_held r (last as))"

lemma ambiguity_ok_last:
  "repeated_identically as \<Longrightarrow> (as \<noteq> [] \<Longrightarrow> ma_state (last as) = T_acceptance_unknown \<Longrightarrow> ambiguity_held r (last as))
    \<Longrightarrow> ambiguity_ok r as"
  by (simp add: ambiguity_ok_def)

text \<open>While an attempt is active its acceptance is not unknown.\<close>

lemma active_not_unknown:
  "attempts_ok r as \<Longrightarrow> rn_state r = M_running \<or> rn_state r = M_cancel_requested \<Longrightarrow> ma_state (last as) \<noteq> T_acceptance_unknown"
  by (auto simp: attempts_ok_def state_ok_def)

lemma repeated_snoc:
  assumes "repeated_identically as"
    and "as \<noteq> [] \<Longrightarrow> ma_state (last as) = T_acceptance_unknown \<Longrightarrow>
      reuse_supported (last as) \<and> ma_requestBinding a = ma_requestBinding (last as)"
  shows "repeated_identically (as @ [a])"
  unfolding repeated_identically_def
proof (intro allI impI)
  fix j
  assume j: "Suc j < length (as @ [a])" and u: "ma_state ((as @ [a]) ! j) = T_acceptance_unknown"
  show "reuse_supported ((as @ [a]) ! j) \<and> ma_requestBinding ((as @ [a]) ! Suc j) = ma_requestBinding ((as @ [a]) ! j)"
  proof (cases "Suc j < length as")
    case True
    with assms(1) u show ?thesis by (simp add: repeated_identically_def nth_append)
  next
    case False
    with j have l: "length as = Suc j" by simp
    then have "as \<noteq> []" "as ! j = last as" "(as @ [a]) ! Suc j = a" "(as @ [a]) ! j = as ! j"
      by (cases as rule: rev_cases; auto simp: nth_append)+
    with assms(2) u show ?thesis by simp
  qed
qed

lemma repeated_replace_last:
  assumes "repeated_identically as" "as \<noteq> []" "ma_requestBinding a = ma_requestBinding (last as)"
  shows "repeated_identically (butlast as @ [a])"
proof (rule repeated_snoc)
  from assms(1) show "repeated_identically (butlast as)" by (simp add: repeated_identically_def nth_butlast)
  assume n: "butlast as \<noteq> []" and u: "ma_state (last (butlast as)) = T_acceptance_unknown"
  let ?j = "length as - 2"
  have j: "Suc ?j < length as" using n by (cases as rule: rev_cases) (auto simp: neq_Nil_conv)
  have "last (butlast as) = as ! ?j" "as ! Suc ?j = last as"
    using n assms(2) j by (auto simp: last_conv_nth nth_butlast numeral_2_eq_2 Suc_diff_Suc)
  with assms(1,3) u j show "reuse_supported (last (butlast as)) \<and> ma_requestBinding a = ma_requestBinding (last (butlast as))"
    unfolding repeated_identically_def by metis
qed

lemma ambiguity_ok_settle:
  assumes ok: "attempts_ok r as" and j: "j < length as" "is_active r (as ! j)" and am: "ambiguity_ok r as"
    and h: "observed_state obs = T_acceptance_unknown \<Longrightarrow> ambiguity_held r' (finish_attempt (as ! j) obs t)"
  shows "ambiguity_ok r' (as[j := finish_attempt (as ! j) obs t])"
proof -
  note e = active_is_last [OF ok j]
  have "repeated_identically (butlast as @ [finish_attempt (as ! j) obs t])"
    using am e by (intro repeated_replace_last) (simp_all add: ambiguity_ok_def)
  then show ?thesis unfolding e(4) using h by (intro ambiguity_ok_last) simp_all
qed

lemma unknown_settlement_held:
  assumes s: "settled_as r a obs ledger r'" and u: "observed_state obs = T_acceptance_unknown"
  shows "ambiguity_held r' (finish_attempt a obs t)"
proof -
  obtain e rc where obs: "obs = Obs_acceptance_unknown e rc" using u by (cases obs) auto
  have "reuse_supported (finish_attempt a obs t) = pe_idempotencySupported e"
    by (simp add: reuse_supported_def kept_def obs)
  then show ?thesis
    unfolding ambiguity_held_def settled_fields(9) [OF s]
    by (simp add: obs settled_pending_def intervene_for_def)
qed

lemma retry_permitted_held:
  assumes "retry_permitted p = Inr ()" "rn_pendingIntervention r = Some p" "ambiguity_held r a"
    "rn_state r \<noteq> M_queued"
  shows "reuse_supported a \<and> iv_requiredRetryRequestBinding p = Some (ma_requestBinding a)"
  using assms by (auto simp: ambiguity_held_def retry_permitted_def split: if_splits)

lemma ambiguity_ok_step:
  "model_step s s' \<Longrightarrow> attempts_ok (fst s) (snd s) \<Longrightarrow> ambiguity_ok (fst s) (snd s) \<Longrightarrow> ambiguity_ok (fst s') (snd s')"
proof (induction rule: model_step.induct)
  case (claim r i r' a as)
  note c = claim_parts [OF claim(1)]
  from claim(2) c(1) have "rn_pendingIntervention r = None" by (simp add: attempts_ok_def state_ok_def)
  with claim(3) have h: "as \<noteq> [] \<Longrightarrow> ma_state (last as) = T_acceptance_unknown \<Longrightarrow>
      reuse_supported (last as) \<and> required_binding r = Some (ma_requestBinding (last as))"
    by (auto simp: ambiguity_ok_def ambiguity_held_def)
  have "repeated_identically (as @ [a])"
    using claim(3) h c(4) by (intro repeated_snoc) (auto simp: ambiguity_ok_def)
  then show ?case using c(10) by (intro ambiguity_ok_last) simp_all
next
  case (reduce j as r i r' a)
  note p = reduce_parts [OF reduce(2)]
  from p(5) obtain ledger where s: "settled_as r (as ! j) (re_observation i) ledger r'" by blast
  from ambiguity_ok_settle [OF _ reduce(1) p(1) _ unknown_settlement_held [OF s]] reduce(3,4) p(3) show ?case by simp
next
  case (confirm j as r c r' a)
  note p = confirm_parts [OF confirm(2)]
  from ambiguity_ok_settle [OF _ confirm(1) p(1), of "Obs_cancelled (cc_usage c) (cc_evidence c)"] confirm(3,4) p(2)
  show ?case by simp
next
  case (request r q r' as)
  with request_parts [OF request(1)] active_not_unknown show ?case by (simp add: ambiguity_ok_def)
next
  case (record_result j as r x r')
  with record_parts [OF record_result(2)] active_not_unknown show ?case by (simp add: ambiguity_ok_def)
next
  case (intervene r v r' as)
  from intervene_parts [OF intervene(1)] obtain p where p: "rn_pendingIntervention r = Some p"
    and d: "(ii_disposition v = D_safe_retry \<and> retry_permitted p = Inr () \<and> rn_state r' = M_queued
        \<and> required_binding r' = iv_requiredRetryRequestBinding p) \<or> rn_pendingIntervention r' = Some p"
    by (fastforce simp: required_binding_def)
  from intervene(2) p have q: "rn_state r \<noteq> M_queued" by (auto simp: attempts_ok_def state_ok_def)
  show ?case
  proof (rule ambiguity_ok_last)
    show "repeated_identically (snd (r', as))" using intervene(3) by (simp add: ambiguity_ok_def)
    assume "snd (r', as) \<noteq> []" "ma_state (last (snd (r', as))) = T_acceptance_unknown"
    with intervene(3) have h: "ambiguity_held r (last as)" by (simp add: ambiguity_ok_def)
    from d show "ambiguity_held (fst (r', as)) (last (snd (r', as)))"
    proof
      assume "rn_pendingIntervention r' = Some p"
      with h p q show ?thesis by (simp add: ambiguity_held_def)
    next
      assume "ii_disposition v = D_safe_retry \<and> retry_permitted p = Inr () \<and> rn_state r' = M_queued
        \<and> required_binding r' = iv_requiredRetryRequestBinding p"
      with retry_permitted_held [OF _ p h q] show ?thesis by (simp add: ambiguity_held_def)
    qed
  qed
next
  case (resume j as r calls n t r')
  from resume_parts [OF resume(2)] have w: "rn_state r = M_waiting_for_tool" by blast
  with resume(3) have "rn_pendingIntervention r = None" by (auto simp: attempts_ok_def state_ok_def)
  with w resume(4) show ?case by (auto simp: ambiguity_ok_def ambiguity_held_def)
qed

lemma ambiguity_ok_reachable: "model_reachable s \<Longrightarrow> ambiguity_ok (fst s) (snd s)"
proof (induction rule: model_reachable.induct)
  case (create i r)
  then show ?case by (simp add: ambiguity_ok_def repeated_identically_def)
next
  case (step s s')
  then show ?case using ambiguity_ok_step attempts_ok_reachable by blast
qed

section \<open>Properties of model runs\<close>

text \<open>
  C15. The attempts of a run take turns and stay within the budget, whatever operations are carried out on
  it in whatever order: they are numbered and fenced 1 to n with n at most the maximum, no attempt but the
  last is still started, an attempt is active exactly when the last one is started, and then its cost
  reservation together with everything reported so far is within the cost budget.
\<close>

theorem model_attempts_take_turns:
  assumes "model_reachable (r, as)"
  shows "int (length as) \<le> mb_maximumAttempts (rn_budget r)
    \<and> (\<forall>j < length as. ma_number (as ! j) = int j + 1 \<and> ma_fence (as ! j) = int j + 1)
    \<and> (\<forall>a \<in> set (butlast as). ma_state a \<noteq> T_started)
    \<and> (case rn_activeAttempt r of
        None \<Rightarrow> as = [] \<or> ma_state (last as) \<noteq> T_started
      | Some (i, f) \<Rightarrow> as \<noteq> [] \<and> ma_state (last as) = T_started \<and> i = ma_id (last as) \<and> f = ma_fence (last as)
          \<and> ul_costMicros (rn_usage r) + ma_costReservationMicros (last as) \<le> mb_maxCostMicros (rn_budget r))"
proof -
  have ok: "attempts_ok r as" using attempts_ok_reachable [OF assms] by simp
  then have "as \<noteq> [] \<Longrightarrow> ma_fence (last as) = int (length as)"
    by (cases as rule: rev_cases) (auto simp: attempts_ok_def numbered_def)
  with ok show ?thesis
    by (auto simp: attempts_ok_def numbered_def earlier_settled_def split: option.splits)
qed

text \<open>
  The usage ledger of a run is exact: it counts the attempts that were settled, and its token and cost
  totals are the sums of what the attempts reported, an attempt that reported nothing counting as zero.
\<close>

theorem model_ledger_exact:
  assumes "model_reachable (r, as)"
  shows "ul_attemptsObserved (rn_usage r) = int (length (filter (\<lambda>a. ma_state a \<noteq> T_started) as))
    \<and> ul_inputTokens (rn_usage r) = (\<Sum>a\<leftarrow>as. or_zero (reported nu_inputTokens (ma_usage a)))
    \<and> ul_outputTokens (rn_usage r) = (\<Sum>a\<leftarrow>as. or_zero (reported nu_outputTokens (ma_usage a)))
    \<and> ul_costMicros (rn_usage r) = (\<Sum>a\<leftarrow>as. or_zero (reported nu_costMicros (ma_usage a)))"
  using ledger_ok_reachable [OF assms] by (simp add: ledger_ok_def spent_def)

text \<open>
  C18. A run that has used up its budget never calls the provider again: once its attempts, its reported
  tokens or its reported cost reach their maximum, no interleaving of settlements, cancellations,
  interventions and tool results leads to another attempt.
\<close>

theorem used_up_run_stops:
  assumes "mb_maximumAttempts (rn_budget r) \<le> rn_attemptsStarted r
      \<or> mb_maxInputTokens (rn_budget r) \<le> ul_inputTokens (rn_usage r)
      \<or> mb_maxOutputTokens (rn_budget r) \<le> ul_outputTokens (rn_usage r)
      \<or> mb_maxCostMicros (rn_budget r) \<le> ul_costMicros (rn_usage r)"
    and "model_step\<^sup>*\<^sup>* (r, as) (r', as')"
  shows "length as' = length as"
  using used_up_steps [OF assms(2)] assms(1) by (simp add: used_up_def)

text \<open>
  C9. No request is sent twice by accident: if the provider's acceptance of an attempt is unknown and the
  run went on to another attempt at all, then the provider supports idempotency and the next attempt is
  bound to the very same request (from which the provider's idempotency key is derived).
\<close>

theorem ambiguous_attempt_repeated_identically:
  assumes "model_reachable (r, as)" "Suc j < length as" "ma_state (as ! j) = T_acceptance_unknown"
  shows "(\<exists>e. ma_evidence (as ! j) = Some e \<and> pe_idempotencySupported e)
    \<and> provider_idempotency_key_for (ma_requestBinding (as ! Suc j)) = provider_idempotency_key_for (ma_requestBinding (as ! j))
    \<and> ma_requestBinding (as ! Suc j) = ma_requestBinding (as ! j)"
  using ambiguity_ok_reachable [OF assms(1)] assms(2,3)
  by (auto simp: ambiguity_ok_def repeated_identically_def reuse_supported_def split: option.splits)

text \<open>
  Resuming checks the tool calls of the attempt it is given, but not that this attempt is the one the run
  is waiting for: the completed calls of any earlier attempt resume the run as well.
\<close>

lemma resume_accepts_earlier_attempt:
  assumes "rn_state r = M_waiting_for_tool" "ma_state a = T_tool_requests" "length (requested_tools a) = length calls"
    and "\<forall>t \<in> set (requested_tools a). tool_call_complete r a calls (fst t)" "positive_safe (rn_version r + 1)"
  shows "\<exists>r'. resume_model_run_after_tools r a calls (rn_version r) t = Inr r' \<and> rn_state r' = M_queued"
  using assms
  by (simp add: resume_model_run_after_tools_def assert_expected_version_def next_run_version_def positive_version_def
      positive_safe_def list_all_iff)

section \<open>A sample run\<close>

definition sample_adapter :: model_ref where
  "sample_adapter = \<lparr> mr_key = ''provider'', mr_version = 1 \<rparr>"

definition sample_evidence :: provider_evidence where
  "sample_evidence = \<lparr> pe_adapter = sample_adapter, pe_providerRequestId = None, pe_idempotencySupported = True,
     pe_executionMode = None, pe_resolvedControls = None \<rparr>"

definition sample_binding :: string where
  "sample_binding = ''mrb1_'' @ replicate 64 CHR ''0''"

definition sample_run_input :: create_run_input where
  "sample_run_input = \<lparr> cr_id = ''run'',
     cr_profile = \<lparr> mr_key = ''profile'', mr_version = 1, mr_digest = replicate 64 CHR ''0'', rp_adapter = sample_adapter \<rparr>,
     cr_scaffold = \<lparr> mr_key = ''scaffold'', mr_version = 1, mr_digest = replicate 64 CHR ''0'', rs_purpose = ''summary'',
       rs_outputSchema = \<lparr> mr_key = ''schema'', mr_version = 1 \<rparr>, rs_allowedTools = [] \<rparr>,
     cr_sourceOperation = \<lparr> to_name = ''summarize'', to_version = 1, so_receiptId = ''receipt'' \<rparr>,
     cr_scopeKey = ''scope'', cr_authorityCitationId = ''citation'', cr_classifiedInputRefs = [], cr_createdAt = clock 0,
     cr_budget = \<lparr> mb_maximumAttempts = 3, mb_maxInputTokens = 100, mb_maxOutputTokens = 100, mb_maxCostMicros = 100,
       mb_timeoutMs = 1000 \<rparr> \<rparr>"

definition sample_run :: model_run where
  "sample_run = \<lparr> rn_id = ''run'', rn_version = 1, rn_state = M_queued,
     rn_profile = \<lparr> mr_key = ''profile'', mr_version = 1, mr_digest = replicate 64 CHR ''0'' \<rparr>,
     rn_profileAdapter = sample_adapter,
     rn_scaffold = \<lparr> mr_key = ''scaffold'', mr_version = 1, mr_digest = replicate 64 CHR ''0'' \<rparr>,
     rn_sourceOperation = cr_sourceOperation sample_run_input, rn_scopeKey = ''scope'',
     rn_authorityCitationId = ''citation'', rn_classifiedInputRefs = [],
     rn_requestedOutputSchema = \<lparr> mr_key = ''schema'', mr_version = 1 \<rparr>, rn_budget = cr_budget sample_run_input,
     rn_usage = empty_usage, rn_attemptsStarted = 0, rn_reservedCostMicros = 0, rn_activeAttempt = None,
     rn_pendingIntervention = None, rn_lastInterventionEvidenceId = None, rn_retryAllowance = None,
     rn_lastCancellationResult = None, rn_resultRef = None, rn_safeFailureCode = None, rn_createdAt = clock 0,
     rn_updatedAt = clock 0 \<rparr>"

lemma sample_digest: "sha256_hex (replicate 64 CHR ''0'')"
  by code_simp

lemma sample_binding_parsed: "parse_request_binding sample_binding = Inr sample_binding"
  by (simp add: parse_request_binding_def binding_pattern_def sample_binding_def sample_digest)

lemmas sample_run_simps = create_model_run_def sample_run_input_def sample_digest assert_positive_def assert_non_negative_def
  assert_adapter_ref_def sample_adapter_def safe_integer_def max_safe_integer_def empty_usage_def revision_of_def

lemma sample_run_created: "create_model_run sample_run_input = Inr sample_run"
  by (simp add: sample_run_def sample_run_simps)

definition sample_claim :: "int \<Rightarrow> string \<Rightarrow> nat \<Rightarrow> claim_attempt_input" where
  "sample_claim v attemptId k = \<lparr> ca_expectedRunVersion = v, ca_attemptId = attemptId, ca_requestBinding = sample_binding,
     ca_executionMode = Fast, ca_costReservationMicros = 10, ca_startedAt = clock k \<rparr>"

definition sample_attempt :: "string \<Rightarrow> int \<Rightarrow> nat \<Rightarrow> model_attempt" where
  "sample_attempt attemptId n k = \<lparr> ma_id = attemptId, ma_runId = ''run'', ma_number = n, ma_fence = n,
     ma_requestBinding = sample_binding, ma_adapter = sample_adapter, ma_costReservationMicros = 10,
     ma_executionMode = Fast, ma_state = T_started, ma_evidence = None, ma_usage = None, ma_requestedTools = None,
     ma_startedAt = clock k, ma_finishedAt = None \<rparr>"

definition sample_claimed :: model_run where
  "sample_claimed = sample_run \<lparr> rn_version := 2, rn_state := M_running, rn_attemptsStarted := 1,
     rn_reservedCostMicros := 10, rn_activeAttempt := Some (''first'', 1), rn_updatedAt := clock 2 \<rparr>"

lemmas model_simps = assert_expected_version_def assert_retry_budget_available_def assert_usage_ledger_def
  assert_non_negative_def assert_positive_def assert_adapter_ref_def safe_integer_def max_safe_integer_def
  sample_binding_parsed required_binding_def safe_add_def next_run_version_def positive_version_def
  sample_run_def sample_claim_def sample_attempt_def sample_run_input_def sample_adapter_def empty_usage_def Let_def

lemma sample_first_claim:
  "claim_model_attempt sample_run (sample_claim 1 ''first'' 2) = Inr (sample_claimed, sample_attempt ''first'' 1 2)"
  by (simp add: claim_model_attempt_def sample_claimed_def model_simps)

text \<open>The provider may have accepted the attempt; it supports reusing the idempotency key.\<close>

definition sample_unknown :: reduce_input where
  "sample_unknown = \<lparr> re_expectedRunVersion = 2, re_observation = Obs_acceptance_unknown sample_evidence Idempotent_reuse,
     re_finishedAt = clock 3, re_adoptedResultRef = None \<rparr>"

definition sample_first :: model_attempt where
  "sample_first = finish_attempt (sample_attempt ''first'' 1 2) (Obs_acceptance_unknown sample_evidence Idempotent_reuse) (clock 3)"

definition unknown_ledger :: usage_ledger where
  "unknown_ledger = empty_usage \<lparr> ul_attemptsObserved := 1,
     ul_missing := [''cachedInputTokens'', ''costMicros'', ''inputTokens'', ''outputTokens''] \<rparr>"

lemma unknown_appended: "append_usage empty_usage None = Inr unknown_ledger"
  by code_simp

definition sample_unresolved :: model_run where
  "sample_unresolved = sample_run \<lparr> rn_version := 3, rn_state := M_reconciling, rn_attemptsStarted := 1, rn_usage := unknown_ledger,
     rn_pendingIntervention := Some \<lparr> iv_sourceAttemptId = ''first'', iv_reason = Acceptance_unknown,
       iv_providerRetryability = None, iv_providerRecovery = Some Idempotent_reuse,
       iv_providerIdempotencySupported = Some True, iv_requiredRetryRequestBinding = Some sample_binding \<rparr>,
     rn_safeFailureCode := Some ''model_acceptance_unknown'', rn_updatedAt := clock 3 \<rparr>"

lemma sample_first_unknown:
  "reduce_model_attempt sample_claimed (sample_attempt ''first'' 1 2) sample_unknown = Inr (sample_unresolved, sample_first)"
  using unknown_appended
  by (simp add: reduce_model_attempt_def sample_claimed_def sample_unknown_def sample_unresolved_def sample_first_def
      is_active_def assert_instant_not_before_def evidence_mismatch_def sample_evidence_def exceeds_budget_def
      unknown_ledger_def intervene_for_def model_simps)

definition sample_retry :: intervention_input where
  "sample_retry = \<lparr> ii_expectedRunVersion = 3, ii_disposition = D_safe_retry, ii_evidenceId = ''evidence'',
     ii_retryAllowance = Some (20, True), ii_decidedAt = clock 4 \<rparr>"

definition sample_requeued :: model_run where
  "sample_requeued = sample_run \<lparr> rn_version := 4, rn_attemptsStarted := 1, rn_usage := unknown_ledger,
     rn_lastInterventionEvidenceId := Some ''evidence'',
     rn_retryAllowance := Some \<lparr> ra_evidenceId = ''evidence'', ra_sourceAttemptId = ''first'',
       ra_maximumCostReservationMicros = 20, ra_acceptsUnknownUsage = True,
       ra_requiredRequestBinding = Some sample_binding \<rparr>, rn_updatedAt := clock 4 \<rparr>"

lemma sample_binding_nonempty: "sample_binding \<noteq> []"
  by (simp add: sample_binding_def)

lemma sample_retry_applied: "apply_model_intervention sample_unresolved sample_retry = Inr sample_requeued"
  using sample_binding_nonempty
  by (simp add: apply_model_intervention_def sample_unresolved_def sample_retry_def sample_requeued_def retry_permitted_def
      unknown_ledger_def model_simps)

definition sample_reclaimed :: model_run where
  "sample_reclaimed = sample_run \<lparr> rn_version := 5, rn_state := M_running, rn_attemptsStarted := 2, rn_usage := unknown_ledger,
     rn_lastInterventionEvidenceId := Some ''evidence'', rn_reservedCostMicros := 10,
     rn_activeAttempt := Some (''second'', 2), rn_updatedAt := clock 5 \<rparr>"

lemma sample_second_claim:
  "claim_model_attempt sample_requeued (sample_claim 4 ''second'' 5) = Inr (sample_reclaimed, sample_attempt ''second'' 2 5)"
  by (simp add: claim_model_attempt_def sample_requeued_def sample_reclaimed_def unknown_ledger_def model_simps)

lemma sample_reachable: "model_reachable (sample_reclaimed, [sample_first, sample_attempt ''second'' 2 5])"
proof -
  have 0: "model_reachable (sample_run, [])" by (rule model_reachable.create [OF sample_run_created])
  have 1: "model_step (sample_run, []) (sample_claimed, [sample_attempt ''first'' 1 2])"
    using model_step.claim [OF sample_first_claim, of "[]"] by simp
  have 2: "model_step (sample_claimed, [sample_attempt ''first'' 1 2]) (sample_unresolved, [sample_first])"
    using model_step.reduce [of 0 "[sample_attempt ''first'' 1 2]"] sample_first_unknown by simp
  have 3: "model_step (sample_unresolved, [sample_first]) (sample_requeued, [sample_first])"
    by (rule model_step.intervene [OF sample_retry_applied])
  have 4: "model_step (sample_requeued, [sample_first]) (sample_reclaimed, [sample_first, sample_attempt ''second'' 2 5])"
    using model_step.claim [OF sample_second_claim, of "[sample_first]"] by simp
  show ?thesis
    by (intro model_reachable.step [OF _ 4] model_reachable.step [OF _ 3] model_reachable.step [OF _ 2]
        model_reachable.step [OF _ 1] 0)
qed

theorem ambiguous_attempt_repeated_identically_witness:
  "ma_state ([sample_first, sample_attempt ''second'' 2 5] ! 0) = T_acceptance_unknown
    \<and> (\<exists>e. ma_evidence ([sample_first, sample_attempt ''second'' 2 5] ! 0) = Some e \<and> pe_idempotencySupported e)"
proof -
  have u: "ma_state ([sample_first, sample_attempt ''second'' 2 5] ! 0) = T_acceptance_unknown"
    by (simp add: sample_first_def)
  with ambiguous_attempt_repeated_identically [OF sample_reachable _ u] show ?thesis by simp
qed

theorem model_attempts_take_turns_witness:
  "rn_activeAttempt sample_reclaimed = Some (''second'', 2)
    \<and> ul_costMicros (rn_usage sample_reclaimed) + 10 \<le> mb_maxCostMicros (rn_budget sample_reclaimed)"
proof -
  have "rn_activeAttempt sample_reclaimed = Some (''second'', 2)" by (simp add: sample_reclaimed_def)
  with model_attempts_take_turns [OF sample_reachable] show ?thesis by (simp add: sample_attempt_def)
qed

theorem model_ledger_exact_witness:
  "ul_attemptsObserved (rn_usage sample_reclaimed) = 1"
  using model_ledger_exact [OF sample_reachable] by (simp add: sample_first_def sample_attempt_def)

text \<open>A run whose first attempt reported its whole cost budget; an operator may still look at it.\<close>

theorem used_up_run_stops_witness:
  "\<exists>r'. model_step (sample_claimed \<lparr> rn_usage := empty_usage \<lparr> ul_costMicros := 100 \<rparr> \<rparr>, [sample_attempt ''first'' 1 2])
      (r', [sample_attempt ''first'' 1 2]) \<and> length [sample_attempt ''first'' 1 2] = 1"
proof -
  let ?r = "sample_claimed \<lparr> rn_usage := empty_usage \<lparr> ul_costMicros := 100 \<rparr> \<rparr>"
  let ?q = "\<lparr> cq_expectedRunVersion = 2, cq_expectedActiveAttempt = (''first'', 1), cq_requestedAt = clock 3 \<rparr>"
  obtain r' where q: "request_model_cancellation ?r ?q = Inr r'"
    by (simp add: request_model_cancellation_def sample_claimed_def model_simps)
  have st: "model_step (?r, [sample_attempt ''first'' 1 2]) (r', [sample_attempt ''first'' 1 2])"
    by (rule model_step.request [OF q])
  then have "model_step\<^sup>*\<^sup>* (?r, [sample_attempt ''first'' 1 2]) (r', [sample_attempt ''first'' 1 2])" by blast
  from used_up_run_stops [OF _ this] st show ?thesis by (auto simp: sample_claimed_def sample_run_def sample_run_input_def)
qed

end
