(* ===== verification/Spec2Isabelle.thy ===== *)
theory Spec2Isabelle
  imports Prelude Json Identifiers Instants Frames WorkState Definitions Delivery Job Inbox VocabularyChanges PlacementChanges DecisionChanges EngagementHistory ModelHistory
begin

text \<open>
  A verification development for the domain core of jooevents, a platform for running events. The
  repository is a TypeScript monorepo: packages without input or output hold the rules (\<open>packages/kernel\<close>,
  \<open>reliability\<close>, \<open>program\<close>, \<open>schedule\<close>, \<open>session\<close>, \<open>decision\<close>, \<open>engagement\<close>, \<open>model-adapter\<close> and
  others), modules named
  \<open>*-operations\<close> and \<open>application\<close> expose them as operations, \<open>persistence\<close> stores their states in
  SQLite, and the applications under \<open>apps/\<close> compose them. This development models rule packages: their
  functions as HOL functions on records of their states, so that every theorem is about what the code
  computes. File names below are relative to \<open>src/\<close>.

  \<^bold>\<open>The parts and the theories.\<close>

  \<^item> \<^bold>\<open>Shared.\<close> \<open>Prelude\<close>: results that may be failures, safe integers, strings of code units, stable
    sorting by a comparator (locale \<open>keyed_comparator\<close>, interpreted for every comparator of the code).
    \<open>Planning\<close>: the contract of components that plan a change against a version of their state and
    apply it later (locales \<open>versioned_plans\<close> and \<open>replanned_plans\<close>); what follows from it (plans are
    applied at consecutive versions, a plan or its rival is never applied twice) is proved once and
    used for the vocabulary, the breaks, the placements and the sessions.
  \<^item> \<^bold>\<open>Kernel\<close> (\<open>packages/kernel/src\<close>). \<open>Json\<close>: canonical JSON (\<open>canonical-json.ts\<close>), whose text
    determines the value. \<open>Identifiers\<close>: \<open>ids.ts\<close>, \<open>versions.ts\<close>, \<open>surface.ts\<close>. \<open>Instants\<close>:
    \<open>time.ts\<close>, with the order of canonical instants. \<open>Frames\<close>: \<open>canonical-frame.ts\<close>, with a decoder.
  \<^item> \<^bold>\<open>Reliability\<close> (\<open>packages/reliability/src\<close>). \<open>WorkState\<close> and \<open>Definitions\<close>: leases, fences and
    attempt logs (\<open>work-state.ts\<close>, \<open>definitions.ts\<close>) and the abstract lease machine that deliveries and
    jobs refine (locale \<open>leased_work\<close>). \<open>Delivery\<close>: fan-out and the life of a consumer delivery
    (\<open>delivery.ts\<close>). \<open>Job\<close>: jobs (\<open>job.ts\<close>). \<open>Inbox\<close>: the reducer of verified intakes (\<open>inbox.ts\<close>).
  \<^item> \<^bold>\<open>Program\<close> (\<open>packages/program/src\<close>). \<open>Vocabulary\<close>: rooms, tracks and formats (\<open>model.ts\<close> over the
    scalars of \<open>packages/contracts/src/program-vocabulary.ts\<close>). \<open>References\<close>: who refers to an item, as
    registered contributors report it (\<open>references.ts\<close>). \<open>VocabularyPlans\<close> and \<open>VocabularyChanges\<close>:
    planning, checking and applying changes, merges and their compensation (\<open>domain.ts\<close>).
  \<^item> \<^bold>\<open>Schedule\<close> (\<open>packages/schedule/src\<close>). \<open>Breaks\<close>: \<open>breaks.ts\<close> over
    \<open>packages/contracts/src/schedule-breaks.ts\<close>. \<open>Placement\<close> and \<open>PlacementChanges\<close>: \<open>domain.ts\<close> and
    \<open>model.ts\<close> over \<open>packages/contracts/src/schedule-placement.ts\<close>. Both read the vocabulary of the
    program component; sessions are read through a port, a record of functions that \<open>Graduation\<close> provides.
  \<^item> \<^bold>\<open>Sessions\<close> (\<open>packages/session/src\<close>). \<open>Session\<close> and \<open>SessionChanges\<close>: the catalog of sessions with
    their targets in the vocabulary and their rosters (\<open>domain.ts\<close>, \<open>model.ts\<close> over
    \<open>packages/contracts/src/sessions.ts\<close>). \<open>Graduation\<close>: changes of sessions that other components embed
    in their own (\<open>graduation-collaboration.ts\<close>) and the ports for forms and for the schedule
    (\<open>projections.ts\<close>).
  \<^item> \<^bold>\<open>Decisions\<close> (\<open>packages/decision/src\<close>). \<open>Decision\<close> and \<open>DecisionChanges\<close>: deciding submissions, with
    the graduation of the accepted ones into sessions (\<open>domain.ts\<close>, \<open>model.ts\<close> over
    \<open>packages/contracts/src/decisions.ts\<close>).
  \<^item> \<^bold>\<open>Engagements\<close> (\<open>packages/engagement/src\<close>). \<open>Engagement\<close>, \<open>EngagementChanges\<close> and \<open>EngagementHistory\<close>: who
    speaks in which session, from the invitation to the answer: responses (\<open>domain.ts\<close>), invitations by an acceptance or an
    organizer and their reversal (\<open>seed-collaboration.ts\<close>), one person's answer for the group of a submission
    (\<open>participant-response.ts\<close>), over \<open>packages/contracts/src/engagements.ts\<close>. The repository of
    \<open>packages/persistence/src/sqlite/engagement.ts\<close> is a list of rows, its statements with their guards.
  \<^item> \<^bold>\<open>Model runs\<close> (\<open>packages/model-adapter/src\<close>). \<open>ModelRun\<close>: every transition of a run and its attempts
    (\<open>run-state.ts\<close>, \<open>types.ts\<close>, \<open>bindings.ts\<close>). \<open>ModelHistory\<close>: the step relation over the stored run
    and attempts, its invariants and their consequences.

  \<^bold>\<open>How the code is represented.\<close> Interfaces are records and tagged unions are datatypes, with the names
  of the source behind a short prefix. A function that may throw returns a sum: \<open>Inl\<close> with a plain
  \<open>TypeError\<close>, a \<open>RangeError\<close>, a failed schema parse or a typed refusal of the component, \<open>Inr\<close> with the
  value; the order of the checks is the order of the source, so the first failing one decides. Numbers are
  \<open>int\<close> with the checks for safe integers where the source has them. Zod schemas are predicates. SHA-256 is
  a parameter \<open>sha\<close> on canonical texts; what is proved holds for every \<open>sha\<close>, or for one whose values are
  64 hexadecimal digits. Objects that the source authenticates by membership in a weak set carry a flag.
  Comparisons of canonical JSON texts are kept as such; that they decide equality is a lemma per type.

  \<^bold>\<open>What the lemmas show.\<close> Each stateful component has a well-formedness invariant that every operation
  preserves (\<open>log_ok\<close>, \<open>inbox_ok\<close>, \<open>vocabulary_ok\<close>, \<open>break_state_ok\<close>, \<open>schedule_ok\<close>, \<open>catalog_inv\<close>, \<open>engagement_table_ok\<close>,
  \<open>attempts_ok\<close>),
  the effect of every operation as an equation on a catalog or a log, and what follows for histories: fences
  are used once, leases of jobs are never handed out twice, inbox replays change nothing, references always
  resolve, no room is double-booked, a roster has everyone once, sessions only move forward, a decision of many
  submissions applies as a whole, the answer to an invitation is never lost, a model request is not repeated by accident. Planners and validators are
  shown to agree, merges and removals to be undone by their compensations.

  \<^bold>\<open>Bounds and termination.\<close> There is no fuel: every loop of the modelled code runs over a list of its
  input and every definition is total. Bounds of the code (attempt maxima, list lengths of schemas, the
  largest safe integer) are kept. Samples use the instants \<open>clock k\<close> with \<open>k < 10\<close>.

  \<^bold>\<open>Limits of the model.\<close> Strings are lists of code units up to 255, on which NFC normalization and
  well-formedness of UTF-16 are trivial and the regular expressions used are exact. Cyclic objects,
  prototypes and accessors, which some parsers reject, do not exist in the model. Values of branded types are
  taken to have passed their parser.

  \<^bold>\<open>Not modelled.\<close> Operation modules, HTTP and MCP adapters and the applications (dispatch, transport and
  user interfaces); persistence (statements of a database engine) but for the table of engagements; clients of services (mail, Airtable,
  model providers); sign-in and access (an authentication library); time zones (the Intl database); display
  projections, safe diffs and exports.

  \<^bold>\<open>Plan.\<close> The remaining rule packages have the same shape as those modelled here: tasks and
  deadlines, reviews, releases, intake forms and the field registry, in this order. Review standings are
  averages, of which decisions carry the whole values only.
\<close>

end
